(* ===== verification/Prelude.thy ===== *)
theory Prelude
  imports Main "HOL-Library.List_Lexorder" "HOL-Library.Char_ord" "HOL-Library.Product_Lexorder"
    "HOL-Library.Option_ord"
begin

text \<open>
  What every component shares: the exception-and-state monad that Python methods over mutable
  stores become, its weakest-precondition rules and its invariant rules, the selection and update
  of table rows that the SQL statements become, Python truthiness and string stripping, and the
  types for instants and identifiers.

  A method of a store is a function from the store to a result (an exception or a value) and the
  store it leaves. An exception does \<^emph>\<open>not\<close> undo the writes made before it; what undoes them is
  the \<open>transaction\<close> context manager of the source, which is \<open>transactionM\<close> here.
\<close>

section \<open>Instants, durations and identifiers\<close>

text \<open>
  Every timestamp that enters the code is normalised to UTC (\<open>as_utc\<close>), so an instant is a whole
  number of microseconds, Python's resolution. A duration is a number of microseconds as well.
  A UUID is its canonical text, which is what the stores keep and compare.
\<close>

type_synonym time = int
type_synonym duration = int
type_synonym uuid = string

definition seconds :: "int \<Rightarrow> duration" where
  "seconds n = n * 1000000"

lemma seconds_mono [simp]: "seconds m \<le> seconds n \<longleftrightarrow> m \<le> n"
  by (simp add: seconds_def)

lemma seconds_less [simp]: "seconds m < seconds n \<longleftrightarrow> m < n"
  by (simp add: seconds_def)

lemma seconds_pos [simp]: "0 < seconds n \<longleftrightarrow> 0 < n"
  by (simp add: seconds_def)

lemma seconds_zero [simp]: "seconds 0 = 0"
  by (simp add: seconds_def)

lemma seconds_nonneg [simp]: "0 \<le> seconds n \<longleftrightarrow> 0 \<le> n"
  by (simp add: seconds_def)

lemma seconds_nonpos [simp]: "seconds n \<le> 0 \<longleftrightarrow> n \<le> 0"
  by (simp add: seconds_def)

section \<open>Exceptions\<close>

text \<open>
  One constructor per exception class that the modelled code raises or catches. Messages and
  keyword details are not kept. \<open>IntegrityError\<close> is \<open>sqlite3.IntegrityError\<close>; pydantic's
  \<open>ValidationError\<close> is a \<open>ValueError\<close>. The exceptions of identity management and of agent enrollment
  have datatypes of their own.
\<close>

datatype identity_error =
    AuthenticationFailedError
  | InvalidCredentialsError
  | SessionExpiredError
  | SessionRevokedError
  | TokenExpiredError
  | TokenRevokedError
  | UserNotFoundError
  | UserDisabledError
  | UserLockedError
  | UsernameAlreadyExistsError
  | ServiceAccountNotFoundError
  | ServiceAccountDisabledError
  | TeamNotFoundError
  | TeamAlreadyExistsError
  | TeamMembershipNotFoundError
  | RoleAssignmentNotFoundError
  | RoleAssignmentConflictError
  | RoleNotAllowedError
  | OrganisationSuspendedError
  | LoginRateLimitExceededError

datatype enrollment_error =
    AgentEnrollmentTokenInvalidError
  | AgentEnrollmentTokenExpiredError
  | AgentEnrollmentTokenUsedError

datatype (plugins only: code) error =
    IntegrityError
  | ValueError
  | KeyError
  | TypeError
  | AssertionError
  | StorageFailure
  | BenchOfflineError
  | BenchAlreadyReservedError
  | BenchNotReservedError
  | BenchOperationInProgressError
  | ReservationOwnerMismatchError
  | ReservationNotFoundError
  | ReservationTimeConflictError
  | ReservationMaxDurationExceededError
  | ReservationNotActiveError
  | ReservationAlreadyExpiredError
  | ReservationExtensionConflictError
  | QueueDisabledError
  | QueueEntryNotFoundError
  | QueueOwnerMismatchError
  | ReservationLeaseInvalidError
  | ReservationLeaseExpiredError
  | ReservationLeaseVersionMismatchError
  | RemoteCommandDuplicateError
  | InvalidOperationTransition
  | StateTransitionError
  | ProtocolVersionUnsupportedError
  | ProtocolMessageInvalidError
  | ProtocolSequenceError
  | RuntimeError
  | HardwareResourceNotFoundError
  | BenchCompositionNotFoundError
  | ResourceConflictError
  | ResourceUnavailableError
  | AgentNotFoundError
  | AgentIdentityConflictError
  | AgentConnectionConflictError
  | StaleAgentConnectionError
  | AgentRevokedError
  | AgentIncompatibleError
  | AgentAuthenticationFailedError
  | AgentOfflineError
  | AgentDegradedError
  | AgentDrainingError
  | AgentMessageTooLargeError
  | BenchAgentMismatchError
  | RemoteCommandNotFoundError
  | RemoteCommandExpiredError
  | RemoteCommandDeliveryFailedError
  | AuthenticationRequiredError
  | PermissionDeniedError
  | AgentHandshakeError
  | AgentConnectionError
  | RemoteCommandRejectedError
  | InventorySyncFailedError
  | GlobalBenchIdConflictError
  | LookupError
  | BenchNotFoundError
  | Identity identity_error
  | Enrollment enrollment_error

section \<open>The monad\<close>

type_synonym ('w, 'a) io = "'w \<Rightarrow> (error + 'a) \<times> 'w"

definition returnM :: "'a \<Rightarrow> ('w, 'a) io" where
  "returnM x = (\<lambda>w. (Inr x, w))"

definition raiseM :: "error \<Rightarrow> ('w, 'a) io" where
  "raiseM e = (\<lambda>w. (Inl e, w))"

definition bindM :: "('w, 'a) io \<Rightarrow> ('a \<Rightarrow> ('w, 'b) io) \<Rightarrow> ('w, 'b) io" where
  "bindM m f = (\<lambda>w. case m w of (Inl e, w') \<Rightarrow> (Inl e, w') | (Inr x, w') \<Rightarrow> f x w')"

definition catchM :: "('w, 'a) io \<Rightarrow> (error \<Rightarrow> ('w, 'a) io) \<Rightarrow> ('w, 'a) io" where
  "catchM m h = (\<lambda>w. case m w of (Inl e, w') \<Rightarrow> h e w' | (Inr x, w') \<Rightarrow> (Inr x, w'))"

definition getsM :: "('w \<Rightarrow> 'a) \<Rightarrow> ('w, 'a) io" where
  "getsM f = (\<lambda>w. (Inr (f w), w))"

definition modifyM :: "('w \<Rightarrow> 'w) \<Rightarrow> ('w, unit) io" where
  "modifyM f = (\<lambda>w. (Inr (), f w))"

text \<open>A pure function that may raise.\<close>

definition liftE :: "error + 'a \<Rightarrow> ('w, 'a) io" where
  "liftE r = (\<lambda>w. (r, w))"

text \<open>\<open>SQLiteDatabase.transaction\<close>: commit on a normal exit, roll back on any exception.\<close>

definition transactionM :: "('w, 'a) io \<Rightarrow> ('w, 'a) io" where
  "transactionM m = (\<lambda>w. case m w of (Inl e, w') \<Rightarrow> (Inl e, w) | (Inr x, w') \<Rightarrow> (Inr x, w'))"

text \<open>A \<open>for\<close> loop over a list with one accumulator.\<close>

primrec foldM :: "('a \<Rightarrow> 'b \<Rightarrow> ('w, 'b) io) \<Rightarrow> 'a list \<Rightarrow> 'b \<Rightarrow> ('w, 'b) io" where
  "foldM f [] acc = returnM acc"
| "foldM f (x # xs) acc = bindM (f x acc) (foldM f xs)"

text \<open>A computation on a part of the state, given its reader and its writer.\<close>

definition zoomM :: "('w \<Rightarrow> 'v) \<Rightarrow> ('v \<Rightarrow> 'w \<Rightarrow> 'w) \<Rightarrow> ('v, 'a) io \<Rightarrow> ('w, 'a) io" where
  "zoomM rd wr m = (\<lambda>w. case m (rd w) of (r, v) \<Rightarrow> (r, wr v w))"

subsection \<open>Running\<close>

named_theorems runM \<open>equations that run a computation on a state\<close>

lemma run_return [runM]: "returnM x w = (Inr x, w)"
  by (simp add: returnM_def)

lemma run_raise [runM]: "raiseM e w = (Inl e, w)"
  by (simp add: raiseM_def)

lemma run_gets [runM]: "getsM f w = (Inr (f w), w)"
  by (simp add: getsM_def)

lemma run_modify [runM]: "modifyM f w = (Inr (), f w)"
  by (simp add: modifyM_def)

lemma run_bind [runM]:
  "bindM m f w = (case m w of (Inl e, w') \<Rightarrow> (Inl e, w') | (Inr x, w') \<Rightarrow> f x w')"
  by (simp add: bindM_def)

lemma run_catch [runM]:
  "catchM m h w = (case m w of (Inl e, w') \<Rightarrow> h e w' | (Inr x, w') \<Rightarrow> (Inr x, w'))"
  by (simp add: catchM_def)

lemma run_transaction [runM]:
  "transactionM m w = (case m w of (Inl e, w') \<Rightarrow> (Inl e, w) | (Inr x, w') \<Rightarrow> (Inr x, w'))"
  by (simp add: transactionM_def)

lemma run_liftE [runM]: "liftE r w = (r, w)"
  by (simp add: liftE_def)

lemma run_zoom [runM]: "zoomM rd wr m w = (case m (rd w) of (r, v) \<Rightarrow> (r, wr v w))"
  by (simp add: zoomM_def)

lemma bind_return_left [simp]: "bindM (returnM x) f = f x"
  by (simp add: fun_eq_iff runM)

lemma bind_raise_left [simp]: "bindM (raiseM e) f = raiseM e"
  by (simp add: fun_eq_iff runM)

lemma bind_return_right [simp]: "bindM m returnM = m"
  by (simp add: fun_eq_iff runM split: prod.splits sum.splits)

lemma bind_assoc: "bindM (bindM m f) g = bindM m (\<lambda>x. bindM (f x) g)"
  by (simp add: fun_eq_iff runM split: prod.splits sum.splits)

lemma bind_Inr_iff:
  "bindM m f w = (Inr y, w') \<longleftrightarrow> (\<exists>x v. m w = (Inr x, v) \<and> f x v = (Inr y, w'))"
  by (auto simp: runM split: prod.splits sum.splits)

lemma transaction_Inl: "transactionM m w = (Inl e, w') \<Longrightarrow> w' = w"
  by (auto simp: runM split: prod.splits sum.splits)

subsection \<open>Weakest preconditions\<close>

text \<open>
  \<open>wp m Q E w\<close>: run from \<open>w\<close>, \<open>m\<close> either returns with \<open>Q\<close> or raises with \<open>E\<close>. The rules are
  equations, so that the simplifier computes a precondition from the code.
\<close>

definition wp :: "('w, 'a) io \<Rightarrow> ('a \<Rightarrow> 'w \<Rightarrow> bool) \<Rightarrow> (error \<Rightarrow> 'w \<Rightarrow> bool) \<Rightarrow> 'w \<Rightarrow> bool" where
  "wp m Q E w = (case m w of (Inl e, w') \<Rightarrow> E e w' | (Inr x, w') \<Rightarrow> Q x w')"

named_theorems wpM \<open>equations for weakest preconditions\<close>

lemma wp_return [wpM]: "wp (returnM x) Q E w = Q x w"
  by (simp add: wp_def runM)

lemma wp_raise [wpM]: "wp (raiseM e) Q E w = E e w"
  by (simp add: wp_def runM)

lemma wp_gets [wpM]: "wp (getsM f) Q E w = Q (f w) w"
  by (simp add: wp_def runM)

lemma wp_modify [wpM]: "wp (modifyM f) Q E w = Q () (f w)"
  by (simp add: wp_def runM)

lemma wp_bind [wpM]: "wp (bindM m f) Q E w = wp m (\<lambda>x. wp (f x) Q E) E w"
  by (simp add: wp_def runM split: prod.splits sum.splits)

lemma wp_catch [wpM]: "wp (catchM m h) Q E w = wp m Q (\<lambda>e. wp (h e) Q E) w"
  by (simp add: wp_def runM split: prod.splits sum.splits)

lemma wp_transaction [wpM]: "wp (transactionM m) Q E w = wp m Q (\<lambda>e _. E e w) w"
  by (simp add: wp_def runM split: prod.splits sum.splits)

lemma wp_zoom [wpM]:
  "wp (zoomM rd wr m) Q E w = wp m (\<lambda>x v. Q x (wr v w)) (\<lambda>e v. E e (wr v w)) (rd w)"
  by (simp add: wp_def runM split: prod.splits sum.splits)

lemma wp_liftE [wpM]: "wp (liftE r) Q E w = (case r of Inl e \<Rightarrow> E e w | Inr x \<Rightarrow> Q x w)"
  by (simp add: wp_def runM split: sum.splits)

lemma wp_if [wpM]: "wp (if b then m else n) Q E w = (if b then wp m Q E w else wp n Q E w)"
  by simp

lemma wp_option [wpM]:
  "wp (case v of None \<Rightarrow> m | Some x \<Rightarrow> f x) Q E w =
     (case v of None \<Rightarrow> wp m Q E w | Some x \<Rightarrow> wp (f x) Q E w)"
  by (simp split: option.splits)

lemma wp_eq: "wp m (\<lambda>x w'. (Inr x, w') = p) (\<lambda>e w'. (Inl e, w') = p) w \<longleftrightarrow> m w = p"
  by (auto simp: wp_def split: prod.splits sum.splits)

lemma wp_Inr: "wp m Q E w \<Longrightarrow> m w = (Inr x, w') \<Longrightarrow> Q x w'"
  by (simp add: wp_def)

lemma wp_Inl: "wp m Q E w \<Longrightarrow> m w = (Inl e, w') \<Longrightarrow> E e w'"
  by (simp add: wp_def)

lemma wp_mono:
  "wp m Q E w \<Longrightarrow> (\<And>x v. Q x v \<Longrightarrow> Q' x v) \<Longrightarrow> (\<And>e v. E e v \<Longrightarrow> E' e v) \<Longrightarrow> wp m Q' E' w"
  by (auto simp: wp_def split: prod.splits sum.splits)

subsection \<open>Invariants of a computation\<close>

text \<open>\<open>keeps I m\<close>: whether it returns or raises, \<open>m\<close> leaves a state with \<open>I\<close> if it starts in one.\<close>

definition keeps :: "('w \<Rightarrow> bool) \<Rightarrow> ('w, 'a) io \<Rightarrow> bool" where
  "keeps I m \<longleftrightarrow> (\<forall>w. I w \<longrightarrow> I (snd (m w)))"

named_theorems keeps_intros \<open>introduction rules for invariants of computations\<close>

lemma keepsI: "(\<And>w. I w \<Longrightarrow> I (snd (m w))) \<Longrightarrow> keeps I m"
  by (simp add: keeps_def)

lemma keepsD: "keeps I m \<Longrightarrow> I w \<Longrightarrow> I (snd (m w))"
  by (simp add: keeps_def)

lemma keeps_run: "keeps I m \<Longrightarrow> I w \<Longrightarrow> m w = (r, w') \<Longrightarrow> I w'"
  by (metis keepsD snd_conv)

lemma keeps_wp: "keeps I m \<longleftrightarrow> (\<forall>w. I w \<longrightarrow> wp m (\<lambda>_. I) (\<lambda>_. I) w)"
  by (simp add: keeps_def wp_def case_prod_beta split: sum.splits)

lemma keeps_return [keeps_intros]: "keeps I (returnM x)"
  by (simp add: keeps_def runM)

lemma keeps_raise [keeps_intros]: "keeps I (raiseM e)"
  by (simp add: keeps_def runM)

lemma keeps_gets [keeps_intros]: "keeps I (getsM f)"
  by (simp add: keeps_def runM)

lemma keeps_bind [keeps_intros]:
  "keeps I m \<Longrightarrow> (\<And>x. keeps I (f x)) \<Longrightarrow> keeps I (bindM m f)"
  by (fastforce simp: keeps_def runM split: prod.splits sum.splits)

lemma keeps_catch [keeps_intros]:
  "keeps I m \<Longrightarrow> (\<And>e. keeps I (h e)) \<Longrightarrow> keeps I (catchM m h)"
  by (fastforce simp: keeps_def runM split: prod.splits sum.splits)

lemma keeps_transaction [keeps_intros]: "keeps I m \<Longrightarrow> keeps I (transactionM m)"
  by (fastforce simp: keeps_def runM split: prod.splits sum.splits)

lemma keeps_if [keeps_intros]: "keeps I m \<Longrightarrow> keeps I n \<Longrightarrow> keeps I (if b then m else n)"
  by simp

lemma keeps_option [keeps_intros]:
  "keeps I m \<Longrightarrow> (\<And>x. keeps I (f x)) \<Longrightarrow> keeps I (case v of None \<Rightarrow> m | Some x \<Rightarrow> f x)"
  by (simp split: option.splits)

lemma keeps_sum [keeps_intros]:
  "(\<And>x. keeps I (f x)) \<Longrightarrow> (\<And>x. keeps I (g x)) \<Longrightarrow>
   keeps I (case v of Inl x \<Rightarrow> f x | Inr x \<Rightarrow> g x)"
  by (simp split: sum.splits)

lemma keeps_let [keeps_intros]: "(\<And>x. keeps I (f x)) \<Longrightarrow> keeps I (let x = v in f x)"
  by simp

lemma keeps_prod [keeps_intros]:
  "(\<And>x y. keeps I (f x y)) \<Longrightarrow> keeps I (case v of (x, y) \<Rightarrow> f x y)"
  by (simp split: prod.splits)

lemma keeps_fold [keeps_intros]: "(\<And>x acc. keeps I (f x acc)) \<Longrightarrow> keeps I (foldM f xs acc)"
proof (induction xs arbitrary: acc)
  case Nil
  show ?case by (simp add: keeps_return)
next
  case (Cons x xs)
  show ?case
    by (simp, rule keeps_bind) (simp_all add: Cons)
qed

lemma keeps_modify: "(\<And>w. I w \<Longrightarrow> I (f w)) \<Longrightarrow> keeps I (modifyM f)"
  by (simp add: keeps_def runM)

lemma keeps_zoom [keeps_intros]:
  "keeps I m \<Longrightarrow> (\<And>v w. rd (wr v w) = v) \<Longrightarrow> keeps (\<lambda>w. I (rd w)) (zoomM rd wr m)"
  by (fastforce simp: keeps_def runM split: prod.splits)

lemma keeps_conj: "keeps I m \<Longrightarrow> keeps J m \<Longrightarrow> keeps (\<lambda>w. I w \<and> J w) m"
  by (simp add: keeps_def)

text \<open>A computation that reads only: it leaves the state as it found it.\<close>

definition reads :: "('w, 'a) io \<Rightarrow> bool" where
  "reads m \<longleftrightarrow> (\<forall>w. snd (m w) = w)"

lemma reads_keeps: "reads m \<Longrightarrow> keeps I m"
  by (simp add: reads_def keeps_def)

lemma reads_gets [intro, simp]: "reads (getsM f)"
  by (simp add: reads_def runM)

section \<open>Rows of a table\<close>

text \<open>
  A table is the list of its rows in insertion order. \<open>ORDER BY\<close> is a stable sort; SQLite orders
  \<open>NULL\<close> before every value, as \<open>None\<close> comes before \<open>Some\<close> in \<open>HOL-Library.Option_ord\<close>.
\<close>

definition first_row :: "'a list \<Rightarrow> 'a option" where
  "first_row rows = (case rows of [] \<Rightarrow> None | r # _ \<Rightarrow> Some r)"

definition order_by :: "('a \<Rightarrow> 'k :: linorder) \<Rightarrow> 'a list \<Rightarrow> 'a list" where
  "order_by k rows = sort_key k rows"

definition order_by_desc :: "('a \<Rightarrow> 'k :: linorder) \<Rightarrow> 'a list \<Rightarrow> 'a list" where
  "order_by_desc k rows = rev (sort_key k (rev rows))"

text \<open>\<open>LIMIT n\<close>: a negative limit is no limit in SQLite.\<close>

definition limit_rows :: "int \<Rightarrow> 'a list \<Rightarrow> 'a list" where
  "limit_rows n rows = (if n < 0 then rows else take (nat n) rows)"

definition update_where :: "('a \<Rightarrow> bool) \<Rightarrow> ('a \<Rightarrow> 'a) \<Rightarrow> 'a list \<Rightarrow> 'a list" where
  "update_where P f rows = map (\<lambda>r. if P r then f r else r) rows"

lemma first_row_Some: "first_row rows = Some r \<Longrightarrow> r \<in> set rows"
  by (auto simp: first_row_def split: list.splits)

lemma first_row_mem: "x \<in> set rows \<Longrightarrow> \<exists>r. first_row rows = Some r"
  by (cases rows) (auto simp: first_row_def)

lemma first_row_None [simp]: "first_row rows = None \<longleftrightarrow> rows = []"
  by (simp add: first_row_def split: list.splits)

lemma first_row_simps [simp]: "first_row [] = None" "first_row (x # xs) = Some x"
  by (simp_all add: first_row_def)

lemma set_order_by [simp]: "set (order_by k rows) = set rows"
  by (simp add: order_by_def)

lemma set_order_by_desc [simp]: "set (order_by_desc k rows) = set rows"
  by (simp add: order_by_desc_def)

lemma order_by_Nil [simp]: "order_by k rows = [] \<longleftrightarrow> rows = []"
  by (metis set_order_by set_empty)

lemma order_by_desc_Nil [simp]: "order_by_desc k rows = [] \<longleftrightarrow> rows = []"
  by (metis set_order_by_desc set_empty)

lemma order_by_empty [simp]: "order_by k [] = []" "order_by_desc k [] = []"
  by (simp_all add: order_by_def order_by_desc_def)

lemma sorted_order_by: "sorted (map k (order_by k rows))"
  by (simp add: order_by_def)

lemma distinct_order_by [simp]: "distinct (order_by k rows) \<longleftrightarrow> distinct rows"
  by (simp add: order_by_def)

lemma first_order_by_le:
  assumes "first_row (order_by k rows) = Some r" and "x \<in> set rows"
  shows "k r \<le> k x"
proof -
  obtain rest where rest: "order_by k rows = r # rest"
    using assms(1) by (auto simp: first_row_def split: list.splits)
  have "sorted (map k (r # rest))" using sorted_order_by[of k rows] rest by simp
  moreover have "x \<in> set (r # rest)" using assms(2) rest set_order_by[of k rows] by simp
  ultimately show ?thesis by auto
qed

lemma set_limit_rows: "set (limit_rows n rows) \<subseteq> set rows"
  by (auto simp: limit_rows_def dest: in_set_takeD)

lemma update_where_map:
  "(\<And>r. P r \<Longrightarrow> g (f r) = g r) \<Longrightarrow> map g (update_where P f rows) = map g rows"
  by (simp add: update_where_def)

lemma set_update_where: "x \<in> set (update_where P f rows) \<longleftrightarrow>
    (\<exists>r \<in> set rows. x = (if P r then f r else r))"
  by (auto simp: update_where_def)

lemma length_update_where [simp]: "length (update_where P f rows) = length rows"
  by (simp add: update_where_def)

lemma distinct_map_eq:
  "distinct (map f xs) \<Longrightarrow> x \<in> set xs \<Longrightarrow> y \<in> set xs \<Longrightarrow> f x = f y \<Longrightarrow> x = y"
  by (auto simp: distinct_map dest: inj_onD)

section \<open>Python values\<close>

text \<open>\<open>if key:\<close> for an optional string: absent and empty are false.\<close>

definition truthy :: "string option \<Rightarrow> bool" where
  "truthy s = (case s of None \<Rightarrow> False | Some t \<Rightarrow> t \<noteq> [])"

text \<open>
  Characters are the Latin-1 code points. \<open>str.strip\<close> removes the ASCII separators 28 to 31 as
  well; pydantic's \<open>str_strip_whitespace\<close> removes Unicode white space only.
\<close>

definition py_space :: "char \<Rightarrow> bool" where
  "py_space c = (let n = (of_char c :: nat) in
     9 \<le> n \<and> n \<le> 13 \<or> 28 \<le> n \<and> n \<le> 32 \<or> n = 133 \<or> n = 160)"

definition unicode_space :: "char \<Rightarrow> bool" where
  "unicode_space c = (let n = (of_char c :: nat) in
     9 \<le> n \<and> n \<le> 13 \<or> n = 32 \<or> n = 133 \<or> n = 160)"

definition strip_with :: "(char \<Rightarrow> bool) \<Rightarrow> string \<Rightarrow> string" where
  "strip_with p s = rev (dropWhile p (rev (dropWhile p s)))"

definition py_strip :: "string \<Rightarrow> string" where
  "py_strip s = strip_with py_space s"

definition trim :: "string \<Rightarrow> string" where
  "trim s = strip_with unicode_space s"

lemma strip_with_idem [simp]: "strip_with p (strip_with p s) = strip_with p s"
proof -
  define d where "d = dropWhile p s"
  define t where "t = dropWhile p (rev d)"
  have eq: "d = rev t @ rev (takeWhile p (rev d))"
    by (metis t_def rev_append rev_rev_ident takeWhile_dropWhile_id)
  have fixed: "dropWhile p (rev t) = rev t"
  proof (cases "rev t")
    case (Cons c cs)
    then have "d = c # (cs @ rev (takeWhile p (rev d)))"
      using eq by simp
    then have "\<not> p c"
      by (metis d_def dropWhile_eq_Cons_conv)
    with Cons show ?thesis by simp
  qed simp
  have "strip_with p s = rev t"
    by (simp add: strip_with_def t_def d_def)
  then have "strip_with p (strip_with p s) = rev (dropWhile p (rev (dropWhile p (rev t))))"
    by (simp only: strip_with_def)
  also have "\<dots> = rev (dropWhile p t)"
    by (simp only: fixed rev_rev_ident)
  also have "\<dots> = rev t"
    by (simp add: t_def)
  finally show ?thesis
    by (simp add: strip_with_def t_def d_def)
qed

lemma trim_id:
  assumes "s \<noteq> []" and "\<not> unicode_space (hd s)" and "\<not> unicode_space (last s)"
  shows "trim s = s"
proof -
  have fixed: "dropWhile unicode_space t = t" if "\<not> unicode_space (hd t)" for t
    using that by (cases t) auto
  have "\<not> unicode_space (hd (rev s))" using assms(1,3) by (simp add: hd_rev)
  then show ?thesis using assms(2) by (simp add: trim_def strip_with_def fixed)
qed

lemma trim_idem [simp]: "trim (trim s) = trim s"
  by (simp add: trim_def)

text \<open>JSON values of event payloads; an instant in a payload is its ISO text.\<close>

datatype json =
    JNull
  | JBool bool
  | JInt int
  | JStr string
  | JTime time
  | JList "json list"
  | JObj "(string \<times> json) list"

type_synonym payload = "(string \<times> json) list"

text \<open>
  A dictionary is the list of its items in insertion order: \<open>d[k] = v\<close>, \<open>d.update(e)\<close> and
  \<open>d.pop(k, None)\<close>.
\<close>

definition dict_set :: "'k \<Rightarrow> 'v \<Rightarrow> ('k \<times> 'v) list \<Rightarrow> ('k \<times> 'v) list" where
  "dict_set k v d =
     (if k \<in> fst ` set d then map (\<lambda>(k', v'). if k' = k then (k, v) else (k', v')) d
      else d @ [(k, v)])"

primrec dict_update :: "('k \<times> 'v) list \<Rightarrow> ('k \<times> 'v) list \<Rightarrow> ('k \<times> 'v) list" where
  "dict_update d [] = d"
| "dict_update d (kv # kvs) = dict_update (dict_set (fst kv) (snd kv) d) kvs"

lemma map_of_overwrite:
  "map_of (map (\<lambda>(k', v'). if k' = k then (k, v) else (k', v')) d) x =
     (if x = k then (if k \<in> fst ` set d then Some v else None) else map_of d x)"
  by (induction d) (force simp: image_iff)+

lemma dict_set_map_of: "map_of (dict_set k v d) = (map_of d)(k \<mapsto> v)"
proof (cases "k \<in> fst ` set d")
  case False
  then have "map_of d k = None" by (simp add: map_of_eq_None_iff)
  with False show ?thesis
    by (auto simp: dict_set_def fun_eq_iff map_add_def split: option.splits)
next
  case True
  then show ?thesis by (simp add: dict_set_def map_of_overwrite fun_eq_iff)
qed

lemma dict_set_fresh: "k \<notin> fst ` set d \<Longrightarrow> dict_set k v d = d @ [(k, v)]"
  by (simp add: dict_set_def)

lemma keys_dict_set: "fst ` set (dict_set k v d) = insert k (fst ` set d)"
  by (force simp: dict_set_def image_iff split: if_splits)

lemma distinct_dict_set:
  assumes "distinct (map fst d)"
  shows "distinct (map fst (dict_set k v d))"
proof (cases "k \<in> fst ` set d")
  case True
  have "map fst (map (\<lambda>(k', v'). if k' = k then (k, v) else (k', v')) xs) = map fst xs"
    for xs :: "('a \<times> 'b) list"
    by (induction xs) auto
  with True assms show ?thesis by (simp add: dict_set_def del: map_map)
qed (use assms in \<open>simp add: dict_set_def\<close>)

lemma set_dict_set: "set (dict_set k v d) \<subseteq> insert (k, v) {x \<in> set d. fst x \<noteq> k}"
  by (auto simp: dict_set_def split: if_splits)

lemma values_dict_set: "snd ` set (dict_set k v d) \<subseteq> insert v (snd ` set d)"
  using set_dict_set[of k v d] by force

lemma distinct_values_dict_set:
  assumes "distinct (map fst d)" and "distinct (map snd d)" and "v \<notin> snd ` set d"
  shows "distinct (map snd (dict_set k v d))"
proof (cases "k \<in> fst ` set d")
  case True
  let ?f = "\<lambda>(k', v'). if k' = k then (k, v) else (k', v')"
  have id: "map ?f xs = xs" if "k \<notin> fst ` set xs" for xs
    using that by (induction xs) auto
  have vals: "snd ` set (map ?f xs) \<subseteq> insert v (snd ` set xs)" for xs
  proof
    fix y assume "y \<in> snd ` set (map ?f xs)"
    then obtain x where x: "x \<in> set xs" "y = snd (?f x)" unfolding set_map by blast
    have "y = v \<or> y = snd x" using x(2) by (simp add: case_prod_beta split: if_splits)
    with x(1) show "y \<in> insert v (snd ` set xs)" by blast
  qed
  have "distinct (map snd (map ?f d))" using assms
  proof (induction d)
    case (Cons x xs)
    show ?case
    proof (cases "fst x = k")
      case True
      then have "map ?f (x # xs) = (k, v) # xs" using Cons.prems(1) id[of xs] by (cases x) auto
      then show ?thesis using Cons.prems by simp
    next
      case False
      then have "map ?f (x # xs) = x # map ?f xs" by (cases x) auto
      moreover have "snd x \<notin> set (map snd (map ?f xs))"
      proof
        assume "snd x \<in> set (map snd (map ?f xs))"
        then have "snd x \<in> snd ` set (map ?f xs)" by (metis list.set_map)
        then have "snd x \<in> insert v (snd ` set xs)" using vals by blast
        then show False using Cons.prems by auto
      qed
      ultimately show ?thesis using Cons by (simp del: map_map set_map)
    qed
  qed simp
  with True show ?thesis by (simp add: dict_set_def del: map_map)
qed (use assms in \<open>simp add: dict_set_def\<close>)

lemma map_of_filter_value:
  "distinct (map fst d) \<Longrightarrow>
   map_of (filter (\<lambda>(_, v). P v) d) k = (case map_of d k of Some v \<Rightarrow> if P v then Some v else None | None \<Rightarrow> None)"
  by (induction d) (auto simp: image_iff map_of_eq_None_iff split: option.splits)

definition dict_pop :: "'k \<Rightarrow> ('k \<times> 'v) list \<Rightarrow> ('k \<times> 'v) list" where
  "dict_pop k d = filter (\<lambda>(k', _). k' \<noteq> k) d"

lemma map_of_dict_pop [simp]: "map_of (dict_pop k d) = (map_of d)(k := None)"
  by (induction d) (auto simp: dict_pop_def fun_eq_iff)

lemma keys_dict_pop: "fst ` set (dict_pop k d) = fst ` set d - {k}"
  by (force simp: dict_pop_def)

lemma distinct_dict_pop: "distinct (map fst d) \<Longrightarrow> distinct (map fst (dict_pop k d))"
  by (simp add: dict_pop_def distinct_map_filter)

lemma values_dict_pop: "snd ` set (dict_pop k d) \<subseteq> snd ` set d"
  by (auto simp: dict_pop_def)

end
