(* ===== verification/ReservationModels.thy ===== *)
theory ReservationModels
  imports Prelude
begin

text \<open>
  The records of the reservation subsystem (\<open>models/domain.py\<close>, \<open>models/reservations.py\<close>): the
  timed reservation, the queue entry, the operation lock, the event and the recovery report, each
  with the constructor that pydantic runs (white space stripped from every string, then the
  field and model validators). \<open>model_copy(update=...)\<close> runs no validator, so it is a record
  update.
\<close>

section \<open>Statuses\<close>

datatype reservation_status =
    Queued | Scheduled | Active | Released | Expired | Cancelled | Rejected
  | ExpiredPendingOperation

datatype reservation_source = SourceCli | SourceApi | SourceWorkflow | SourceCi | SourceSystem

datatype principal_type = PrincipalUser | PrincipalServiceAccount

datatype queue_entry_status = QWaiting | QPromoted | QCancelled | QExpired

fun reservation_status_value :: "reservation_status \<Rightarrow> string" where
  "reservation_status_value Queued = ''queued''"
| "reservation_status_value Scheduled = ''scheduled''"
| "reservation_status_value Active = ''active''"
| "reservation_status_value Released = ''released''"
| "reservation_status_value Expired = ''expired''"
| "reservation_status_value Cancelled = ''cancelled''"
| "reservation_status_value Rejected = ''rejected''"
| "reservation_status_value ExpiredPendingOperation = ''expired_pending_operation''"

definition LEGACY_ORGANISATION_ID :: uuid where
  "LEGACY_ORGANISATION_ID = ''00000000-0000-0000-0000-000000000001''"

section \<open>Reservations\<close>

record reservation =
  res_id :: uuid
  res_organisation_id :: uuid
  res_bench_id :: string
  res_owner :: string
  res_owner_principal_id :: "uuid option"
  res_owner_principal_type :: "principal_type option"
  res_created_at :: time
  res_released_at :: "time option"
  res_status :: reservation_status
  res_requested_at :: "time option"
  res_starts_at :: "time option"
  res_ends_at :: "time option"
  res_activated_at :: "time option"
  res_expired_at :: "time option"
  res_source :: reservation_source
  res_metadata :: "(string \<times> string) list"
  res_idempotency_key :: "string option"
  res_release_pending :: bool

definition trim_items :: "(string \<times> string) list \<Rightarrow> (string \<times> string) list" where
  "trim_items d = dict_update [] (map (\<lambda>(k, v). (trim k, trim v)) d)"

definition strip_reservation :: "reservation \<Rightarrow> reservation" where
  "strip_reservation r = r\<lparr>res_bench_id := trim (res_bench_id r), res_owner := trim (res_owner r),
     res_metadata := trim_items (res_metadata r),
     res_idempotency_key := map_option trim (res_idempotency_key r)\<rparr>"

text \<open>\<open>Reservation._validate_time_range\<close>.\<close>

definition reservation_time_range_ok :: "reservation \<Rightarrow> bool" where
  "reservation_time_range_ok r =
     (case (res_starts_at r, res_ends_at r) of
        (Some s, Some e) \<Rightarrow> \<not> e \<le> s
      | _ \<Rightarrow> True)"

definition make_reservation :: "reservation \<Rightarrow> ('w, reservation) io" where
  "make_reservation r =
     (let r' = strip_reservation r
      in if reservation_time_range_ok r' then returnM r' else raiseM ValueError)"

text \<open>
  \<open>Reservation._populate_phase3_timestamps\<close>: the keyword values before validation. A field is
  absent (\<open>None\<close>) or given, and a given value may itself be \<open>None\<close>.
\<close>

record raw_reservation_times =
  raw_created_at :: "time option option"
  raw_requested_at :: "time option option"
  raw_starts_at :: "time option option"
  raw_activated_at :: "time option option"
  raw_status :: "reservation_status option"

definition given :: "'a option option \<Rightarrow> 'a option" where
  "given v = (case v of None \<Rightarrow> None | Some x \<Rightarrow> x)"

definition setdefault :: "'a \<Rightarrow> 'a option \<Rightarrow> 'a option" where
  "setdefault d v = (case v of None \<Rightarrow> Some d | Some x \<Rightarrow> Some x)"

definition populate_phase3_timestamps ::
    "time \<Rightarrow> raw_reservation_times \<Rightarrow> raw_reservation_times" where
  "populate_phase3_timestamps utc_now v =
     (let requested = (case given (raw_requested_at v) of
            Some t \<Rightarrow> t
          | None \<Rightarrow> (case given (raw_created_at v) of Some t \<Rightarrow> t | None \<Rightarrow> utc_now));
        v1 = v\<lparr>raw_created_at := setdefault (Some requested) (raw_created_at v),
               raw_requested_at := setdefault (Some requested) (raw_requested_at v),
               raw_starts_at := setdefault (Some requested) (raw_starts_at v)\<rparr>;
        status = (case raw_status v1 of None \<Rightarrow> Active | Some s \<Rightarrow> s)
      in if status = Active
         then v1\<lparr>raw_activated_at := setdefault (given (raw_starts_at v1)) (raw_activated_at v1)\<rparr>
         else v1)"

section \<open>Queue entries, operation locks, events, reports\<close>

record queue_entry =
  qe_id :: uuid
  qe_organisation_id :: uuid
  qe_bench_id :: string
  qe_owner :: string
  qe_owner_principal_id :: "uuid option"
  qe_owner_principal_type :: "principal_type option"
  qe_requested_duration_seconds :: int
  qe_description :: "string option"
  qe_status :: queue_entry_status
  qe_created_at :: time
  qe_promoted_at :: "time option"
  qe_cancelled_at :: "time option"
  qe_position :: "int option"
  qe_idempotency_key :: "string option"

definition normalize_description :: "string option \<Rightarrow> string option" where
  "normalize_description v =
     (case v of None \<Rightarrow> None
      | Some s \<Rightarrow> (let n = py_strip s in if n = [] then None else Some n))"

definition queue_entry_valid :: "queue_entry \<Rightarrow> bool" where
  "queue_entry_valid q \<longleftrightarrow> 0 < qe_requested_duration_seconds q \<and>
     (case qe_description q of None \<Rightarrow> True | Some s \<Rightarrow> length s \<le> 2000) \<and>
     (case qe_position q of None \<Rightarrow> True | Some p \<Rightarrow> 1 \<le> p) \<and>
     (qe_owner_principal_id q = None) = (qe_owner_principal_type q = None)"

definition make_queue_entry :: "queue_entry \<Rightarrow> ('w, queue_entry) io" where
  "make_queue_entry q =
     (let q' = q\<lparr>qe_bench_id := trim (qe_bench_id q), qe_owner := trim (qe_owner q),
                 qe_description := map_option trim (qe_description q),
                 qe_idempotency_key := map_option trim (qe_idempotency_key q)\<rparr>
      in if queue_entry_valid q'
         then returnM (q'\<lparr>qe_description := normalize_description (qe_description q')\<rparr>)
         else raiseM ValueError)"

record operation_lock =
  lock_bench_id :: string
  lock_operation_id :: uuid
  lock_acquired_at :: time
  lock_expires_at :: "time option"

definition make_operation_lock :: "operation_lock \<Rightarrow> ('w, operation_lock) io" where
  "make_operation_lock l = returnM (l\<lparr>lock_bench_id := trim (lock_bench_id l)\<rparr>)"

record event_record =
  ev_id :: uuid
  ev_timestamp :: time
  ev_type :: string
  ev_source :: string
  ev_bench_id :: "string option"
  ev_reservation_id :: "uuid option"
  ev_operation_id :: "uuid option"
  ev_actor :: "string option"
  ev_payload :: payload
  ev_deduplication_key :: "string option"

definition make_event :: "event_record \<Rightarrow> event_record" where
  "make_event e = e\<lparr>ev_type := trim (ev_type e), ev_source := trim (ev_source e),
     ev_bench_id := map_option trim (ev_bench_id e), ev_actor := map_option trim (ev_actor e),
     ev_deduplication_key := map_option trim (ev_deduplication_key e)\<rparr>"

record recovery_report =
  rr_started_at :: time
  rr_completed_at :: time
  rr_interrupted_operations :: int
  rr_stale_locks_removed :: int
  rr_reservations_expired :: int
  rr_reservations_activated :: int
  rr_queue_entries_promoted :: int

definition recovery_report_valid :: "recovery_report \<Rightarrow> bool" where
  "recovery_report_valid r \<longleftrightarrow> 0 \<le> rr_interrupted_operations r \<and> 0 \<le> rr_stale_locks_removed r \<and>
     0 \<le> rr_reservations_expired r \<and> 0 \<le> rr_reservations_activated r \<and>
     0 \<le> rr_queue_entries_promoted r \<and> rr_started_at r \<le> rr_completed_at r"

definition make_recovery_report :: "recovery_report \<Rightarrow> ('w, recovery_report) io" where
  "make_recovery_report r = (if recovery_report_valid r then returnM r else raiseM ValueError)"

section \<open>Operations\<close>

datatype operation_type = PowerOn | PowerOff | PowerCycle | FlashFirmware | ResetTarget | SerialRead

datatype operation_status = OpPending | OpRunning | OpSucceeded | OpFailed | OpCancelRequested
  | OpCancelled

definition TERMINAL_OPERATION_STATUSES :: "operation_status set" where
  "TERMINAL_OPERATION_STATUSES = {OpSucceeded, OpFailed, OpCancelled}"

definition ACTIVE_OPERATION_STATUSES :: "operation_status set" where
  "ACTIVE_OPERATION_STATUSES = {OpPending, OpRunning, OpCancelRequested}"

text \<open>\<open>OPERATION_TRANSITIONS.get(status, frozenset())\<close>.\<close>

fun operation_transitions :: "operation_status \<Rightarrow> operation_status set" where
  "operation_transitions OpPending = {OpRunning, OpCancelled}"
| "operation_transitions OpRunning = {OpSucceeded, OpFailed, OpCancelRequested}"
| "operation_transitions OpCancelRequested = {OpCancelled, OpSucceeded, OpFailed}"
| "operation_transitions _ = {}"

record operation =
  op_id :: uuid
  op_bench_id :: string
  op_type :: operation_type
  op_status :: operation_status
  op_requested_by :: string
  op_created_at :: time
  op_started_at :: "time option"
  op_completed_at :: "time option"
  op_progress :: "int option"
  op_message :: "string option"
  op_error_code :: "string option"
  op_error_message :: "string option"

definition operation_pending ::
    "uuid \<Rightarrow> time \<Rightarrow> string \<Rightarrow> operation_type \<Rightarrow> string \<Rightarrow> time option \<Rightarrow> operation" where
  "operation_pending uuid4 utc_now bench_id operation_type requested_by now =
     \<lparr>op_id = uuid4, op_bench_id = trim bench_id, op_type = operation_type, op_status = OpPending,
      op_requested_by = trim requested_by,
      op_created_at = (case now of Some t \<Rightarrow> t | None \<Rightarrow> utc_now),
      op_started_at = None, op_completed_at = None, op_progress = Some 0,
      op_message = Some ''Waiting to start'', op_error_code = None, op_error_message = None\<rparr>"

definition operation_transition ::
    "time \<Rightarrow> operation \<Rightarrow> operation_status \<Rightarrow> time option \<Rightarrow> int option \<Rightarrow> string option \<Rightarrow>
     string option \<Rightarrow> string option \<Rightarrow> error + operation" where
  "operation_transition utc_now self target now progress message error_code error_message =
     (if target \<notin> operation_transitions (op_status self) then Inl InvalidOperationTransition
      else
        let timestamp = (case now of Some t \<Rightarrow> t | None \<Rightarrow> utc_now);
            o1 = self\<lparr>op_status := target,
                      op_message := (if message \<noteq> None then message else op_message self),
                      op_error_code := error_code, op_error_message := error_message\<rparr>;
            o2 = (if target = OpRunning then o1\<lparr>op_started_at := Some timestamp\<rparr> else o1);
            o3 = (if target \<in> TERMINAL_OPERATION_STATUSES
                  then o2\<lparr>op_completed_at := Some timestamp\<rparr> else o2);
            o4 = (if progress \<noteq> None then o3\<lparr>op_progress := progress\<rparr>
                  else if target = OpSucceeded then o3\<lparr>op_progress := Some 100\<rparr> else o3)
        in Inr o4)"

section \<open>Lemmas\<close>

lemma wp_make_reservation [wpM]:
  "wp (make_reservation r) Q E w =
     (if reservation_time_range_ok (strip_reservation r) then Q (strip_reservation r) w
      else E ValueError w)"
  by (simp add: make_reservation_def Let_def wpM)

lemma keeps_make_reservation [keeps_intros]: "keeps I (make_reservation r)"
  by (simp add: make_reservation_def Let_def keeps_intros)

lemma keeps_make_queue_entry [keeps_intros]: "keeps I (make_queue_entry q)"
  by (simp add: make_queue_entry_def Let_def keeps_intros)

lemma keeps_make_operation_lock [keeps_intros]: "keeps I (make_operation_lock l)"
  by (simp add: make_operation_lock_def keeps_intros)

lemma keeps_make_recovery_report [keeps_intros]: "keeps I (make_recovery_report r)"
  by (simp add: make_recovery_report_def keeps_intros)

lemma strip_reservation_simps [simp]:
  "res_id (strip_reservation r) = res_id r"
  "res_organisation_id (strip_reservation r) = res_organisation_id r"
  "res_bench_id (strip_reservation r) = trim (res_bench_id r)"
  "res_owner (strip_reservation r) = trim (res_owner r)"
  "res_status (strip_reservation r) = res_status r"
  "res_starts_at (strip_reservation r) = res_starts_at r"
  "res_ends_at (strip_reservation r) = res_ends_at r"
  "res_idempotency_key (strip_reservation r) = map_option trim (res_idempotency_key r)"
  by (simp_all add: strip_reservation_def)

lemma reservation_time_range_okI [simp]:
  "res_starts_at r = Some s \<Longrightarrow> res_ends_at r = Some e \<Longrightarrow> s < e \<Longrightarrow> reservation_time_range_ok r"
  by (simp add: reservation_time_range_ok_def)

text \<open>
  An operation that ends stays ended, and an operation enters a terminal status with its
  completion time.
\<close>

lemma operation_transitions_terminal:
  "s \<in> TERMINAL_OPERATION_STATUSES \<Longrightarrow> operation_transitions s = {}"
  by (auto simp: TERMINAL_OPERATION_STATUSES_def)

lemma operation_status_partition:
  "s \<in> TERMINAL_OPERATION_STATUSES \<longleftrightarrow> s \<notin> ACTIVE_OPERATION_STATUSES"
  by (cases s) (auto simp: TERMINAL_OPERATION_STATUSES_def ACTIVE_OPERATION_STATUSES_def)

definition operation_wf :: "operation \<Rightarrow> bool" where
  "operation_wf p \<longleftrightarrow>
     (op_status p \<in> TERMINAL_OPERATION_STATUSES \<longleftrightarrow> op_completed_at p \<noteq> None) \<and>
     (op_status p = OpPending \<longrightarrow> op_started_at p = None) \<and>
     (op_status p \<in> {OpRunning, OpCancelRequested, OpSucceeded, OpFailed} \<longrightarrow>
        op_started_at p \<noteq> None)"

lemma operation_pending_wf: "operation_wf (operation_pending u n b t r now)"
  by (simp add: operation_wf_def operation_pending_def TERMINAL_OPERATION_STATUSES_def)

lemma operation_transition_fields:
  assumes "operation_transition u p t n pr m ec em = Inr q"
  shows "t \<in> operation_transitions (op_status p)" "op_status q = t" "op_id q = op_id p"
    "op_bench_id q = op_bench_id p"
    "t = OpRunning \<Longrightarrow> op_started_at q \<noteq> None"
    "t \<noteq> OpRunning \<Longrightarrow> op_started_at q = op_started_at p"
    "t \<in> TERMINAL_OPERATION_STATUSES \<Longrightarrow> op_completed_at q \<noteq> None"
    "t \<notin> TERMINAL_OPERATION_STATUSES \<Longrightarrow> op_completed_at q = op_completed_at p"
  using assms unfolding operation_transition_def Let_def
  by (simp_all split: if_splits) auto

lemma operation_transition_wf:
  assumes wf: "operation_wf p" and tr: "operation_transition u p t n pr m ec em = Inr q"
  shows "operation_wf q \<and> op_status q = t \<and> op_id q = op_id p \<and> op_bench_id q = op_bench_id p"
proof -
  note f = operation_transition_fields[OF tr]
  have "operation_wf q"
    using wf f(1) f(2) f(5-8) unfolding operation_wf_def TERMINAL_OPERATION_STATUSES_def
    by (cases "op_status p") auto
  then show ?thesis using f(2-4) by simp
qed

lemma operation_transition_Inl_iff:
  "(\<exists>e. operation_transition u p t n pr m ec em = Inl e) \<longleftrightarrow> t \<notin> operation_transitions (op_status p)"
  by (simp add: operation_transition_def Let_def)

end
