(* ===== verification/Store.thy ===== *)
theory Store
  imports ReservationModels
begin

text \<open>
  The agent's SQLite tables and the statements that write them. A table is the list of its rows.
  The constraints of the schema (\<open>migrations.py\<close>, \<open>database.py\<close>) are written out: primary keys,
  the partial unique indexes and the two time triggers of \<open>reservations\<close>, the keys of
  \<open>reservation_queue\<close>, \<open>operation_locks\<close>, \<open>operations\<close> and \<open>events\<close>, and the status trigger
  of the queue. A statement that breaks one raises \<open>IntegrityError\<close>. What the constraints
  guarantee of the tables is the invariant \<open>db_ok\<close>.
\<close>

section \<open>Tables\<close>

record queue_row =
  qr_order :: int
  qr_entry :: queue_entry

text \<open>
  \<open>organisation_id\<close> of a lock is never written by the code: the column takes its default, the
  legacy organisation.
\<close>

record lock_row =
  lr_lock :: operation_lock
  lr_organisation_id :: uuid

record recovery_row =
  rec_id :: int
  rec_started_at :: time
  rec_completed_at :: "time option"
  rec_report :: "recovery_report option"

record db =
  db_reservations :: "reservation list"
  db_queue :: "queue_row list"
  db_locks :: "lock_row list"
  db_operations :: "operation list"
  db_events :: "event_record list"
  db_recovery :: "recovery_row list"
  db_recovery_sequence :: int

definition empty_db :: db where
  "empty_db = \<lparr>db_reservations = [], db_queue = [], db_locks = [], db_operations = [],
     db_events = [], db_recovery = [], db_recovery_sequence = 0\<rparr>"

lemma empty_db_simps [simp]:
  "db_reservations empty_db = []" "db_queue empty_db = []" "db_locks empty_db = []"
  "db_operations empty_db = []" "db_events empty_db = []" "db_recovery empty_db = []"
  "db_recovery_sequence empty_db = 0"
  by (simp_all add: empty_db_def)

section \<open>The reservations table\<close>

definition occupying :: "reservation \<Rightarrow> bool" where
  "occupying r \<longleftrightarrow> res_status r = Scheduled \<or> res_status r = Active \<or>
     res_status r = ExpiredPendingOperation"

definition holding :: "reservation \<Rightarrow> bool" where
  "holding r \<longleftrightarrow> res_status r = Active \<or> res_status r = ExpiredPendingOperation"

lemma holding_occupying: "holding r \<Longrightarrow> occupying r"
  by (auto simp: holding_def occupying_def)

text \<open>SQL comparisons with a column that may be \<open>NULL\<close>: \<open>NULL\<close> is never selected.\<close>

definition sql_le :: "time option \<Rightarrow> time \<Rightarrow> bool" where
  "sql_le v t = (case v of None \<Rightarrow> False | Some u \<Rightarrow> u \<le> t)"

definition sql_ge :: "time option \<Rightarrow> time \<Rightarrow> bool" where
  "sql_ge v t = (case v of None \<Rightarrow> False | Some u \<Rightarrow> t \<le> u)"

definition sql_gt :: "time option \<Rightarrow> time \<Rightarrow> bool" where
  "sql_gt v t = (case v of None \<Rightarrow> False | Some u \<Rightarrow> t < u)"

definition sql_lt :: "time option \<Rightarrow> time \<Rightarrow> bool" where
  "sql_lt v t = (case v of None \<Rightarrow> False | Some u \<Rightarrow> u < t)"

lemmas sql_compare_defs = sql_le_def sql_ge_def sql_gt_def sql_lt_def

text \<open>
  \<open>(starts_at IS NULL OR ends_at IS NULL OR (starts_at < e AND ends_at > s))\<close>, the test for an
  existing row that the triggers, \<open>find_conflict\<close> and the overlap check share.
\<close>

definition row_meets :: "time \<Rightarrow> time \<Rightarrow> reservation \<Rightarrow> bool" where
  "row_meets s e x \<longleftrightarrow> res_starts_at x = None \<or> res_ends_at x = None \<or>
     (sql_lt (res_starts_at x) e \<and> sql_gt (res_ends_at x) s)"

text \<open>\<open>reservations_validate_insert\<close> and \<open>reservations_validate_update\<close>.\<close>

definition time_trigger_aborts :: "reservation \<Rightarrow> reservation list \<Rightarrow> bool" where
  "time_trigger_aborts n others =
     (case (res_starts_at n, res_ends_at n) of
        (Some s, Some e) \<Rightarrow>
          e \<le> s \<or>
          occupying n \<and>
          (\<exists>x \<in> set others. res_bench_id x = res_bench_id n \<and> occupying x \<and> row_meets s e x)
      | _ \<Rightarrow> False)"

text \<open>\<open>reservations_one_active_per_bench\<close> and \<open>reservations_idempotency\<close>.\<close>

definition unique_index_aborts :: "reservation \<Rightarrow> reservation list \<Rightarrow> bool" where
  "unique_index_aborts n others \<longleftrightarrow>
     (\<exists>x \<in> set others. res_bench_id x = res_bench_id n \<and>
        (holding n \<and> holding x \<or>
         res_idempotency_key n \<noteq> None \<and> res_idempotency_key x = res_idempotency_key n \<and>
         res_organisation_id x = res_organisation_id n))"

definition row_rejected :: "reservation \<Rightarrow> reservation list \<Rightarrow> bool" where
  "row_rejected n others \<longleftrightarrow> time_trigger_aborts n others \<or> unique_index_aborts n others"

text \<open>\<open>INSERT INTO reservations ... VALUES ...\<close>.\<close>

definition insert_reservation :: "reservation \<Rightarrow> (db, unit) io" where
  "insert_reservation n = (\<lambda>d.
     if res_id n \<in> res_id ` set (db_reservations d) \<or> row_rejected n (db_reservations d)
     then (Inl IntegrityError, d)
     else (Inr (), d\<lparr>db_reservations := db_reservations d @ [n]\<rparr>))"

text \<open>\<open>UPDATE reservations SET ... WHERE id = ? AND ...\<close>; the result is \<open>cursor.rowcount\<close>.\<close>

definition update_reservation ::
    "uuid \<Rightarrow> (reservation \<Rightarrow> bool) \<Rightarrow> (reservation \<Rightarrow> reservation) \<Rightarrow> (db, nat) io" where
  "update_reservation rid P f = (\<lambda>d.
     case first_row (filter (\<lambda>r. res_id r = rid \<and> P r) (db_reservations d)) of
       None \<Rightarrow> (Inr 0, d)
     | Some r \<Rightarrow>
         let n = (f r)\<lparr>res_id := rid\<rparr>;
             others = filter (\<lambda>x. res_id x \<noteq> rid) (db_reservations d)
         in if row_rejected n others then (Inl IntegrityError, d)
            else (Inr 1, d\<lparr>db_reservations :=
                    update_where (\<lambda>x. res_id x = rid) (\<lambda>_. n) (db_reservations d)\<rparr>))"

definition select_reservations ::
    "(reservation \<Rightarrow> bool) \<Rightarrow> (db, reservation list) io" where
  "select_reservations P = getsM (\<lambda>d. filter P (db_reservations d))"

definition find_reservation :: "uuid \<Rightarrow> db \<Rightarrow> reservation option" where
  "find_reservation rid d = first_row (filter (\<lambda>r. res_id r = rid) (db_reservations d))"

section \<open>The other tables\<close>

definition lock_on :: "string \<Rightarrow> db \<Rightarrow> lock_row option" where
  "lock_on b d = first_row (filter (\<lambda>l. lock_bench_id (lr_lock l) = b) (db_locks d))"

text \<open>\<open>_insert_operation_lock\<close>: \<open>bench_id\<close> is the primary key, \<open>operation_id\<close> is unique.\<close>

definition insert_operation_lock :: "operation_lock \<Rightarrow> (db, unit) io" where
  "insert_operation_lock l = (\<lambda>d.
     if lock_bench_id l \<in> (\<lambda>x. lock_bench_id (lr_lock x)) ` set (db_locks d) \<or>
        lock_operation_id l \<in> (\<lambda>x. lock_operation_id (lr_lock x)) ` set (db_locks d)
     then (Inl IntegrityError, d)
     else (Inr (), d\<lparr>db_locks := db_locks d @
             [\<lparr>lr_lock = l, lr_organisation_id = LEGACY_ORGANISATION_ID\<rparr>]\<rparr>))"

definition delete_locks :: "(operation_lock \<Rightarrow> bool) \<Rightarrow> (db, int) io" where
  "delete_locks P = (\<lambda>d.
     (Inr (int (length (filter (\<lambda>l. P (lr_lock l)) (db_locks d)))),
      d\<lparr>db_locks := filter (\<lambda>l. \<not> P (lr_lock l)) (db_locks d)\<rparr>))"

text \<open>\<open>INSERT INTO reservation_queue\<close>.\<close>

definition insert_queue_row :: "queue_row \<Rightarrow> (db, unit) io" where
  "insert_queue_row n = (\<lambda>d.
     if (\<exists>x \<in> set (db_queue d).
           qe_id (qr_entry x) = qe_id (qr_entry n) \<or> qr_order x = qr_order n \<or>
           qe_idempotency_key (qr_entry n) \<noteq> None \<and>
           qe_idempotency_key (qr_entry x) = qe_idempotency_key (qr_entry n) \<and>
           qe_organisation_id (qr_entry x) = qe_organisation_id (qr_entry n) \<and>
           qe_bench_id (qr_entry x) = qe_bench_id (qr_entry n)) \<or>
        qe_requested_duration_seconds (qr_entry n) \<le> 0
     then (Inl IntegrityError, d)
     else (Inr (), d\<lparr>db_queue := db_queue d @ [n]\<rparr>))"

text \<open>\<open>reservation_queue_validate_status_update\<close>.\<close>

definition queue_status_step_ok :: "queue_entry_status \<Rightarrow> queue_entry_status \<Rightarrow> bool" where
  "queue_status_step_ok old new \<longleftrightarrow>
     old = new \<or> (old = QWaiting \<and> new \<in> {QPromoted, QCancelled, QExpired})"

definition update_queue_entry ::
    "(queue_entry \<Rightarrow> bool) \<Rightarrow> (queue_entry \<Rightarrow> queue_entry) \<Rightarrow> (db, nat) io" where
  "update_queue_entry P f = (\<lambda>d.
     if (\<exists>x \<in> set (db_queue d). P (qr_entry x) \<and>
           \<not> queue_status_step_ok (qe_status (qr_entry x)) (qe_status (f (qr_entry x))))
     then (Inl IntegrityError, d)
     else (Inr (length (filter (\<lambda>x. P (qr_entry x)) (db_queue d))),
           d\<lparr>db_queue := update_where (\<lambda>x. P (qr_entry x))
                (\<lambda>x. x\<lparr>qr_entry := f (qr_entry x)\<rparr>) (db_queue d)\<rparr>))"

text \<open>\<open>insert_event\<close>: \<open>INSERT OR IGNORE\<close> against the primary key and \<open>events_deduplication\<close>.\<close>

definition insert_event :: "event_record \<Rightarrow> (db, unit) io" where
  "insert_event e = modifyM (\<lambda>d.
     if (\<exists>x \<in> set (db_events d). ev_id x = ev_id e \<or>
           ev_deduplication_key e \<noteq> None \<and> ev_deduplication_key x = ev_deduplication_key e)
     then d else d\<lparr>db_events := db_events d @ [e]\<rparr>)"

section \<open>What the constraints guarantee\<close>

definition compatible :: "reservation \<Rightarrow> reservation \<Rightarrow> bool" where
  "compatible x y \<longleftrightarrow>
     (res_bench_id x = res_bench_id y \<longrightarrow>
        \<not> (holding x \<and> holding y) \<and>
        \<not> (occupying x \<and> occupying y \<and>
            (\<exists>s e s' e'. res_starts_at x = Some s \<and> res_ends_at x = Some e \<and>
                res_starts_at y = Some s' \<and> res_ends_at y = Some e' \<and> s < e' \<and> s' < e)) \<and>
        \<not> (res_idempotency_key x \<noteq> None \<and> res_idempotency_key x = res_idempotency_key y \<and>
            res_organisation_id x = res_organisation_id y))"

definition reservations_ok :: "reservation list \<Rightarrow> bool" where
  "reservations_ok rows \<longleftrightarrow> distinct (map res_id rows) \<and>
     (\<forall>x \<in> set rows. reservation_time_range_ok x) \<and>
     (\<forall>x \<in> set rows. \<forall>y \<in> set rows. res_id x \<noteq> res_id y \<longrightarrow> compatible x y)"

definition queue_ok :: "queue_row list \<Rightarrow> bool" where
  "queue_ok rows \<longleftrightarrow> distinct (map (\<lambda>r. qe_id (qr_entry r)) rows) \<and> distinct (map qr_order rows) \<and>
     (\<forall>r \<in> set rows. 0 < qe_requested_duration_seconds (qr_entry r))"

definition locks_ok :: "lock_row list \<Rightarrow> bool" where
  "locks_ok rows \<longleftrightarrow> distinct (map (\<lambda>l. lock_bench_id (lr_lock l)) rows) \<and>
     distinct (map (\<lambda>l. lock_operation_id (lr_lock l)) rows)"

definition events_ok :: "event_record list \<Rightarrow> bool" where
  "events_ok rows \<longleftrightarrow> distinct (map ev_id rows) \<and>
     distinct (filter (\<lambda>k. k \<noteq> None) (map ev_deduplication_key rows))"

definition active_operation :: "operation \<Rightarrow> bool" where
  "active_operation p \<longleftrightarrow> op_status p \<in> ACTIVE_OPERATION_STATUSES"

definition operations_ok :: "operation list \<Rightarrow> bool" where
  "operations_ok rows \<longleftrightarrow> distinct (map op_id rows) \<and>
     (\<forall>x \<in> set rows. \<forall>y \<in> set rows. active_operation x \<longrightarrow> active_operation y \<longrightarrow>
        op_bench_id x = op_bench_id y \<longrightarrow> op_id x = op_id y)"

definition db_ok :: "db \<Rightarrow> bool" where
  "db_ok d \<longleftrightarrow> reservations_ok (db_reservations d) \<and> queue_ok (db_queue d) \<and>
     locks_ok (db_locks d) \<and> events_ok (db_events d) \<and> operations_ok (db_operations d)"

lemma db_ok_empty [simp]: "db_ok empty_db"
  by (simp add: db_ok_def empty_db_def reservations_ok_def queue_ok_def locks_ok_def events_ok_def
      operations_ok_def)

lemma compatible_sym: "compatible x y \<longleftrightarrow> compatible y x"
  unfolding compatible_def by metis

lemma accepted_range: "\<not> row_rejected n others \<Longrightarrow> reservation_time_range_ok n"
  by (auto simp: row_rejected_def time_trigger_aborts_def reservation_time_range_ok_def
      split: option.splits)

lemma accepted_compatible:
  assumes acc: "\<not> row_rejected n others" and x: "x \<in> set others"
  shows "compatible n x"
proof (rule ccontr)
  assume "\<not> compatible n x"
  then have bench: "res_bench_id x = res_bench_id n"
    by (auto simp: compatible_def)
  from \<open>\<not> compatible n x\<close> consider
      (hold) "holding n" "holding x"
    | (overlap) s e s' e' where "occupying n" "occupying x" "res_starts_at n = Some s"
        "res_ends_at n = Some e" "res_starts_at x = Some s'" "res_ends_at x = Some e'"
        "s < e'" "s' < e"
    | (key) "res_idempotency_key n \<noteq> None" "res_idempotency_key x = res_idempotency_key n"
        "res_organisation_id x = res_organisation_id n"
    unfolding compatible_def by metis
  then show False
  proof cases
    case hold
    then have "unique_index_aborts n others"
      unfolding unique_index_aborts_def using x bench by blast
    with acc show False by (simp add: row_rejected_def)
  next
    case overlap
    then have "row_meets s e x" by (simp add: row_meets_def sql_lt_def sql_gt_def)
    then have "time_trigger_aborts n others"
      unfolding time_trigger_aborts_def using x bench overlap by auto
    with acc show False by (simp add: row_rejected_def)
  next
    case key
    then have "unique_index_aborts n others"
      unfolding unique_index_aborts_def using x bench by blast
    with acc show False by (simp add: row_rejected_def)
  qed
qed

lemma reservations_ok_append:
  assumes "reservations_ok rows" and "res_id n \<notin> res_id ` set rows" and "\<not> row_rejected n rows"
  shows "reservations_ok (rows @ [n])"
proof -
  have "compatible n x \<and> compatible x n" if "x \<in> set rows" for x
    using accepted_compatible[OF assms(3) that] compatible_sym by blast
  then show ?thesis
    using assms(1,2) accepted_range[OF assms(3)] by (auto simp: reservations_ok_def)
qed

lemma reservations_ok_replace:
  assumes ok: "reservations_ok rows" and id: "res_id n = rid"
    and acc: "\<not> row_rejected n (filter (\<lambda>x. res_id x \<noteq> rid) rows)"
  shows "reservations_ok (update_where (\<lambda>x. res_id x = rid) (\<lambda>_. n) rows)"
proof -
  let ?new = "update_where (\<lambda>x. res_id x = rid) (\<lambda>_. n) rows"
  have ids: "map res_id ?new = map res_id rows"
    using id by (auto simp: update_where_def)
  have mem: "x = n \<or> x \<in> set rows \<and> res_id x \<noteq> rid" if "x \<in> set ?new" for x
    using that by (auto simp: set_update_where split: if_splits)
  have cn: "compatible n x" "compatible x n" if "x \<in> set rows" "res_id x \<noteq> rid" for x
    using accepted_compatible[OF acc, of x] that compatible_sym by auto
  have "compatible x y" if "x \<in> set ?new" "y \<in> set ?new" "res_id x \<noteq> res_id y" for x y
    using mem[OF that(1)] mem[OF that(2)] that(3) id cn ok by (auto simp: reservations_ok_def)
  moreover have "reservation_time_range_ok x" if "x \<in> set ?new" for x
    using mem[OF that] accepted_range[OF acc] ok by (auto simp: reservations_ok_def)
  ultimately show ?thesis using ok ids by (auto simp: reservations_ok_def)
qed

lemma reservation_by_id:
  assumes "reservations_ok rows" and "x \<in> set rows" and "y \<in> set rows" and "res_id x = res_id y"
  shows "x = y"
  using distinct_map_eq[of res_id rows x y] assms by (simp add: reservations_ok_def)

lemma holding_unique:
  assumes ok: "reservations_ok rows" and x: "x \<in> set rows" and y: "y \<in> set rows"
    and "holding x" and "holding y" and "res_bench_id x = res_bench_id y"
  shows "x = y"
proof (rule reservation_by_id[OF ok x y], rule ccontr)
  assume "res_id x \<noteq> res_id y"
  then have "compatible x y" using ok x y by (simp add: reservations_ok_def)
  with assms(4-6) show False by (simp add: compatible_def)
qed

section \<open>Every statement keeps the invariant\<close>

named_theorems keeps_db \<open>statements and repository operations that keep the store invariant\<close>

lemma keeps_insert_reservation [keeps_db]: "keeps db_ok (insert_reservation n)"
  by (rule keepsI) (simp add: insert_reservation_def db_ok_def reservations_ok_append)

lemma keeps_update_reservation [keeps_db]: "keeps db_ok (update_reservation rid P f)"
  by (rule keepsI)
    (simp add: update_reservation_def db_ok_def Let_def reservations_ok_replace split: option.splits)

lemma keeps_insert_operation_lock [keeps_db]: "keeps db_ok (insert_operation_lock l)"
  by (rule keepsI) (auto simp: insert_operation_lock_def db_ok_def locks_ok_def)

lemma keeps_delete_locks [keeps_db]: "keeps db_ok (delete_locks P)"
  by (rule keepsI) (simp add: delete_locks_def db_ok_def locks_ok_def distinct_map_filter)

lemma keeps_insert_queue_row [keeps_db]: "keeps db_ok (insert_queue_row n)"
  by (rule keepsI) (auto simp: insert_queue_row_def db_ok_def queue_ok_def)

lemma keeps_update_queue_entry [keeps_db]:
  assumes "\<And>q. qe_id (f q) = qe_id q"
    and "\<And>q. qe_requested_duration_seconds (f q) = qe_requested_duration_seconds q"
  shows "keeps db_ok (update_queue_entry P f)"
proof (rule keepsI)
  fix d assume ok: "db_ok d"
  let ?rows = "update_where (\<lambda>x. P (qr_entry x)) (\<lambda>x. x\<lparr>qr_entry := f (qr_entry x)\<rparr>) (db_queue d)"
  have "queue_ok ?rows"
    using ok by (auto simp: db_ok_def queue_ok_def update_where_map assms set_update_where)
  with ok show "db_ok (snd (update_queue_entry P f d))"
    by (simp add: update_queue_entry_def db_ok_def)
qed

lemma keeps_insert_event [keeps_db]: "keeps db_ok (insert_event e)"
  unfolding insert_event_def
  by (rule keeps_modify) (auto simp: db_ok_def events_ok_def image_iff)

lemma keeps_select_reservations [keeps_db]: "keeps I (select_reservations P)"
  by (simp add: select_reservations_def keeps_intros)

section \<open>Preconditions of the statements\<close>

lemma wp_insert_reservation [wpM]:
  "wp (insert_reservation n) Q E d =
     (if res_id n \<in> res_id ` set (db_reservations d) \<or> row_rejected n (db_reservations d)
      then E IntegrityError d
      else Q () (d\<lparr>db_reservations := db_reservations d @ [n]\<rparr>))"
  by (simp add: wp_def insert_reservation_def)

lemma wp_select_reservations [wpM]:
  "wp (select_reservations P) Q E d = Q (filter P (db_reservations d)) d"
  by (simp add: select_reservations_def wpM)

lemma wp_delete_locks [wpM]:
  "wp (delete_locks P) Q E d =
     Q (int (length (filter (\<lambda>l. P (lr_lock l)) (db_locks d))))
       (d\<lparr>db_locks := filter (\<lambda>l. \<not> P (lr_lock l)) (db_locks d)\<rparr>)"
  by (simp add: wp_def delete_locks_def)

lemma wp_insert_operation_lock [wpM]:
  "wp (insert_operation_lock l) Q E d =
     (if lock_bench_id l \<in> (\<lambda>x. lock_bench_id (lr_lock x)) ` set (db_locks d) \<or>
         lock_operation_id l \<in> (\<lambda>x. lock_operation_id (lr_lock x)) ` set (db_locks d)
      then E IntegrityError d
      else Q () (d\<lparr>db_locks := db_locks d @
             [\<lparr>lr_lock = l, lr_organisation_id = LEGACY_ORGANISATION_ID\<rparr>]\<rparr>))"
  by (simp add: wp_def insert_operation_lock_def)

lemma lock_on_None: "lock_on b d = None \<longleftrightarrow> b \<notin> (\<lambda>x. lock_bench_id (lr_lock x)) ` set (db_locks d)"
  by (auto simp: lock_on_def filter_empty_conv)

lemma lock_on_Some: "lock_on b d = Some l \<Longrightarrow> l \<in> set (db_locks d) \<and> lock_bench_id (lr_lock l) = b"
  by (auto simp: lock_on_def dest!: first_row_Some)

lemma find_reservation_Some:
  "find_reservation rid d = Some r \<Longrightarrow> r \<in> set (db_reservations d) \<and> res_id r = rid"
  by (auto simp: find_reservation_def dest!: first_row_Some)

lemma find_reservation_None:
  "find_reservation rid d = None \<longleftrightarrow> rid \<notin> res_id ` set (db_reservations d)"
  by (auto simp: find_reservation_def filter_empty_conv)

text \<open>Replacing the row of an identifier, and what an update by identifier does in a sound store.\<close>

definition put_reservation :: "reservation \<Rightarrow> db \<Rightarrow> db" where
  "put_reservation n d = d\<lparr>db_reservations :=
     update_where (\<lambda>x. res_id x = res_id n) (\<lambda>_. n) (db_reservations d)\<rparr>"

definition other_rows :: "uuid \<Rightarrow> db \<Rightarrow> reservation list" where
  "other_rows rid d = filter (\<lambda>x. res_id x \<noteq> rid) (db_reservations d)"

lemma find_reservation_unique:
  assumes "reservations_ok (db_reservations d)" and "r \<in> set (db_reservations d)"
  shows "find_reservation (res_id r) d = Some r"
proof (cases "find_reservation (res_id r) d")
  case None
  with assms(2) show ?thesis by (simp add: find_reservation_None)
next
  case (Some x)
  then show ?thesis
    using assms find_reservation_Some[OF Some] reservation_by_id by blast
qed

lemma filter_by_id:
  assumes "distinct (map res_id rows)"
  shows "filter (\<lambda>r. res_id r = rid \<and> P r) rows =
    (case first_row (filter (\<lambda>r. res_id r = rid) rows) of
       None \<Rightarrow> [] | Some r \<Rightarrow> if P r then [r] else [])"
  using assms
proof (induction rows)
  case (Cons x rows)
  show ?case
  proof (cases "res_id x = rid")
    case True
    have "rid \<notin> res_id ` set rows"
      using Cons.prems True by simp
    then have "filter (\<lambda>r. res_id r = rid \<and> P r) rows = []"
      by (auto simp: filter_empty_conv)
    with True show ?thesis by simp
  next
    case False
    with Cons show ?thesis by simp
  qed
qed simp

lemma wp_update_reservation:
  assumes "reservations_ok (db_reservations d)"
  shows "wp (update_reservation rid P f) Q E d =
    (case find_reservation rid d of
       None \<Rightarrow> Q 0 d
     | Some r \<Rightarrow>
         if P r then
           (if row_rejected ((f r)\<lparr>res_id := rid\<rparr>) (other_rows rid d) then E IntegrityError d
            else Q 1 (put_reservation ((f r)\<lparr>res_id := rid\<rparr>) d))
         else Q 0 d)"
proof -
  have "distinct (map res_id (db_reservations d))"
    using assms by (simp add: reservations_ok_def)
  from filter_by_id[OF this, of rid P] show ?thesis
    by (simp add: wp_def update_reservation_def find_reservation_def other_rows_def
        put_reservation_def Let_def split: option.splits)
qed

lemma set_put_reservation:
  "x \<in> set (db_reservations (put_reservation n d)) \<longleftrightarrow>
     x = n \<and> res_id n \<in> res_id ` set (db_reservations d) \<or>
     x \<in> set (db_reservations d) \<and> res_id x \<noteq> res_id n"
  by (simp add: put_reservation_def set_update_where image_iff) metis

lemma put_reservation_frame [simp]:
  "db_queue (put_reservation n d) = db_queue d"
  "db_locks (put_reservation n d) = db_locks d"
  "db_operations (put_reservation n d) = db_operations d"
  "db_events (put_reservation n d) = db_events d"
  "db_recovery (put_reservation n d) = db_recovery d"
  by (simp_all add: put_reservation_def)

lemma find_put_reservation:
  "find_reservation rid (put_reservation n d) =
     (if rid = res_id n \<and> find_reservation rid d \<noteq> None then Some n else find_reservation rid d)"
proof -
  have "first_row (filter (\<lambda>r. res_id r = rid) (update_where (\<lambda>x. res_id x = res_id n) (\<lambda>_. n) rows)) =
     (if rid = res_id n \<and> first_row (filter (\<lambda>r. res_id r = rid) rows) \<noteq> None then Some n
      else first_row (filter (\<lambda>r. res_id r = rid) rows))" for rows
    by (induction rows) (auto simp: update_where_def)
  from this[of "db_reservations d"] show ?thesis
    by (auto simp: find_reservation_def put_reservation_def)
qed

lemma wp_insert_event [wpM]:
  "wp (insert_event e) Q E d = Q ()
     (if (\<exists>x \<in> set (db_events d). ev_id x = ev_id e \<or>
           ev_deduplication_key e \<noteq> None \<and> ev_deduplication_key x = ev_deduplication_key e)
      then d else d\<lparr>db_events := db_events d @ [e]\<rparr>)"
  by (simp add: insert_event_def wpM)

text \<open>
  A row that gives up its slot, or keeps it unchanged while its bench has no other holder, is
  accepted in place of the old row.
\<close>

lemma row_accepted_when_freed:
  assumes ok: "reservations_ok (db_reservations d)" and r: "r \<in> set (db_reservations d)"
    and same: "res_id n = res_id r" "res_bench_id n = res_bench_id r"
      "res_starts_at n = res_starts_at r" "res_ends_at n = res_ends_at r"
      "res_idempotency_key n = res_idempotency_key r" "res_organisation_id n = res_organisation_id r"
    and free: "\<not> occupying n"
  shows "\<not> row_rejected n (other_rows (res_id r) d)"
proof -
  have range: "reservation_time_range_ok r" using ok r by (simp add: reservations_ok_def)
  have "\<not> time_trigger_aborts n (other_rows (res_id r) d)"
    using range same free
    by (auto simp: time_trigger_aborts_def reservation_time_range_ok_def split: option.splits)
  moreover have "compatible r x" if "x \<in> set (other_rows (res_id r) d)" for x
    using that ok r by (auto simp: other_rows_def reservations_ok_def)
  then have "\<not> unique_index_aborts n (other_rows (res_id r) d)"
    using same free holding_occupying unfolding unique_index_aborts_def compatible_def by metis
  ultimately show ?thesis by (simp add: row_rejected_def)
qed

text \<open>
  The services only store reservations with a start and an end. In such a table a row that keeps
  its slot can always change its status, as long as it does not start to hold a held bench.
\<close>

definition fully_timed :: "reservation list \<Rightarrow> bool" where
  "fully_timed rows \<longleftrightarrow> (\<forall>x \<in> set rows. res_starts_at x \<noteq> None \<and> res_ends_at x \<noteq> None)"

definition db_sound :: "db \<Rightarrow> bool" where
  "db_sound d \<longleftrightarrow> db_ok d \<and> fully_timed (db_reservations d)"

lemma db_soundD: "db_sound d \<Longrightarrow> db_ok d" "db_sound d \<Longrightarrow> reservations_ok (db_reservations d)"
  "db_sound d \<Longrightarrow> fully_timed (db_reservations d)"
  by (simp_all add: db_sound_def db_ok_def)

lemma timed_row:
  assumes "fully_timed rows" and "x \<in> set rows"
  obtains s e where "res_starts_at x = Some s" "res_ends_at x = Some e"
  using assms unfolding fully_timed_def by blast

lemma db_sound_empty [simp]: "db_sound empty_db"
proof -
  have "fully_timed (db_reservations empty_db)" by (simp add: fully_timed_def empty_db_def)
  then show ?thesis by (simp add: db_sound_def)
qed

lemma row_accepted_in_slot:
  assumes ok: "reservations_ok (db_reservations d)" and timed: "fully_timed (db_reservations d)"
    and r: "r \<in> set (db_reservations d)"
    and same: "res_id n = res_id r" "res_bench_id n = res_bench_id r"
      "res_starts_at n = res_starts_at r" "res_ends_at n = res_ends_at r"
      "res_idempotency_key n = res_idempotency_key r" "res_organisation_id n = res_organisation_id r"
    and occ: "occupying n \<Longrightarrow> occupying r"
    and hold: "\<And>x. holding n \<Longrightarrow> x \<in> set (db_reservations d) \<Longrightarrow> res_id x \<noteq> res_id r \<Longrightarrow>
      res_bench_id x = res_bench_id r \<Longrightarrow> \<not> holding x"
  shows "\<not> row_rejected n (other_rows (res_id r) d)"
proof -
  obtain s e where se: "res_starts_at r = Some s" "res_ends_at r = Some e" "s < e"
    using timed ok r unfolding fully_timed_def reservations_ok_def reservation_time_range_ok_def
    by fastforce
  have comp: "compatible r x" if "x \<in> set (other_rows (res_id r) d)" for x
    using that ok r by (auto simp: other_rows_def reservations_ok_def)
  have row: "x \<in> set (db_reservations d) \<and> res_id x \<noteq> res_id r"
    if "x \<in> set (other_rows (res_id r) d)" for x
    using that by (simp add: other_rows_def)
  have meets: "\<not> row_meets s e x"
    if other: "x \<in> set (other_rows (res_id r) d)" "res_bench_id x = res_bench_id r" "occupying x"
      "occupying r" for x
  proof -
    obtain s' e' where "res_starts_at x = Some s'" "res_ends_at x = Some e'"
      using timed row[OF other(1)] unfolding fully_timed_def by fastforce
    then show ?thesis
      using comp[OF other(1)] other(2-4) se
      by (auto simp: compatible_def row_meets_def sql_lt_def sql_gt_def)
  qed
  have "\<not> time_trigger_aborts n (other_rows (res_id r) d)"
    using meets occ se same by (auto simp: time_trigger_aborts_def)
  moreover have "\<not> unique_index_aborts n (other_rows (res_id r) d)"
    unfolding unique_index_aborts_def using comp row hold same unfolding compatible_def by metis
  ultimately show ?thesis by (simp add: row_rejected_def)
qed

end
