(* ===== verification/ReservationRepository.thy ===== *)
theory ReservationRepository
  imports Store
begin

text \<open>
  \<open>SQLiteTimedReservationRepository\<close> (\<open>persistence/reservations.py\<close>), one definition per method.
  Each method is one transaction: an exception rolls it back. An event factory of the source
  builds its events inside the transaction; here it is a function of the row, and the event
  identifiers it uses are drawn by the caller.
\<close>

section \<open>Checks shared by the writes\<close>

definition require_no_operation_lock :: "string \<Rightarrow> (db, unit) io" where
  "require_no_operation_lock bench =
     bindM (getsM (lock_on bench)) (\<lambda>row.
     case row of None \<Rightarrow> returnM () | Some _ \<Rightarrow> raiseM BenchOperationInProgressError)"

definition maintenance_locked_through :: "string \<Rightarrow> time \<Rightarrow> db \<Rightarrow> bool" where
  "maintenance_locked_through bench start d \<longleftrightarrow>
     (\<exists>l \<in> set (db_locks d). lock_bench_id (lr_lock l) = bench \<and>
        sql_ge (lock_expires_at (lr_lock l)) start)"

definition require_no_maintenance_lock_overlap :: "reservation \<Rightarrow> (db, unit) io" where
  "require_no_maintenance_lock_overlap r =
     (case res_starts_at r of
        None \<Rightarrow> returnM ()
      | Some start \<Rightarrow>
          bindM (getsM (maintenance_locked_through (res_bench_id r) start)) (\<lambda>locked.
          if locked then raiseM BenchOperationInProgressError else returnM ()))"

text \<open>
  \<open>NOT (organisation_id = ? AND idempotency_key = ?)\<close> on a row, with SQL's three values: for a
  row of the same organisation without a key the condition is \<open>NULL\<close>, so the row is not selected.
\<close>

definition other_key_selected :: "uuid \<Rightarrow> string \<Rightarrow> reservation \<Rightarrow> bool" where
  "other_key_selected org key x =
     (if res_organisation_id x \<noteq> org then True
      else case res_idempotency_key x of None \<Rightarrow> False | Some k \<Rightarrow> k \<noteq> key)"

definition overlap_selected :: "reservation \<Rightarrow> uuid option \<Rightarrow> reservation \<Rightarrow> bool" where
  "overlap_selected r exclude x =
     (case (res_starts_at r, res_ends_at r) of
        (Some s, Some e) \<Rightarrow>
          res_bench_id x = res_bench_id r \<and> occupying x \<and> row_meets s e x \<and>
          (case exclude of None \<Rightarrow> True | Some i \<Rightarrow> res_id x \<noteq> i) \<and>
          (case res_idempotency_key r of None \<Rightarrow> True
           | Some k \<Rightarrow> other_key_selected (res_organisation_id r) k x)
      | _ \<Rightarrow> False)"

definition require_no_reservation_overlap :: "reservation \<Rightarrow> uuid option \<Rightarrow> (db, unit) io" where
  "require_no_reservation_overlap r exclude =
     bindM (select_reservations (overlap_selected r exclude)) (\<lambda>rows.
     if rows \<noteq> [] then raiseM ReservationTimeConflictError else returnM ())"

section \<open>Reads\<close>

definition repo_get :: "uuid \<Rightarrow> uuid option \<Rightarrow> (db, reservation option) io" where
  "repo_get rid org =
     bindM (select_reservations (\<lambda>r. res_id r = rid \<and>
        (case org of None \<Rightarrow> True | Some g \<Rightarrow> res_organisation_id r = g))) (\<lambda>rows.
     returnM (first_row rows))"

definition repo_get_active :: "string \<Rightarrow> uuid option \<Rightarrow> (db, reservation option) io" where
  "repo_get_active bench org =
     bindM (select_reservations (\<lambda>r. res_bench_id r = bench \<and> holding r \<and>
        (case org of None \<Rightarrow> True | Some g \<Rightarrow> res_organisation_id r = g))) (\<lambda>rows.
     returnM (first_row (order_by res_starts_at rows)))"

definition repo_get_by_idempotency_key ::
    "string \<Rightarrow> string \<Rightarrow> uuid option \<Rightarrow> (db, reservation option) io" where
  "repo_get_by_idempotency_key bench key org =
     (let scope = (case org of None \<Rightarrow> LEGACY_ORGANISATION_ID | Some g \<Rightarrow> g)
      in bindM (select_reservations (\<lambda>r. res_bench_id r = bench \<and>
            res_idempotency_key r = Some key \<and> res_organisation_id r = scope)) (\<lambda>rows.
         returnM (first_row rows)))"

definition repo_find_conflict ::
    "string \<Rightarrow> time \<Rightarrow> time \<Rightarrow> uuid option \<Rightarrow> (db, reservation option) io" where
  "repo_find_conflict bench s e exclude =
     bindM (select_reservations (\<lambda>r. res_bench_id r = bench \<and> occupying r \<and> row_meets s e r \<and>
        (case exclude of None \<Rightarrow> True | Some i \<Rightarrow> res_id r \<noteq> i))) (\<lambda>rows.
     returnM (first_row (order_by res_starts_at rows)))"

definition repo_list ::
    "uuid option \<Rightarrow> string option \<Rightarrow> string option \<Rightarrow> reservation_status option \<Rightarrow> time option \<Rightarrow>
     time option \<Rightarrow> int \<Rightarrow> (db, reservation list) io" where
  "repo_list org bench owner status starts_after starts_before limit =
     bindM (select_reservations (\<lambda>r.
        (case org of None \<Rightarrow> True | Some g \<Rightarrow> res_organisation_id r = g) \<and>
        (case bench of None \<Rightarrow> True | Some b \<Rightarrow> res_bench_id r = b) \<and>
        (case owner of None \<Rightarrow> True | Some o' \<Rightarrow> res_owner r = o') \<and>
        (case status of None \<Rightarrow> True | Some st \<Rightarrow> res_status r = st) \<and>
        (case starts_after of None \<Rightarrow> True | Some t \<Rightarrow> sql_gt (res_starts_at r) t) \<and>
        (case starts_before of None \<Rightarrow> True | Some t \<Rightarrow> sql_lt (res_starts_at r) t))) (\<lambda>rows.
     returnM (limit_rows limit (order_by_desc (\<lambda>r. (res_starts_at r, res_created_at r)) rows)))"

definition repo_list_due :: "time \<Rightarrow> (db, reservation list) io" where
  "repo_list_due now =
     bindM (select_reservations (\<lambda>r. res_status r = Scheduled \<and> sql_le (res_starts_at r) now)) (\<lambda>rows.
     returnM (order_by (\<lambda>r. (res_starts_at r, res_created_at r, res_id r)) rows))"

definition repo_list_expired :: "time \<Rightarrow> (db, reservation list) io" where
  "repo_list_expired now =
     bindM (select_reservations (\<lambda>r. occupying r \<and> sql_le (res_ends_at r) now)) (\<lambda>rows.
     returnM (order_by (\<lambda>r. (res_ends_at r, res_id r)) rows))"

definition repo_next_scheduled :: "string \<Rightarrow> time \<Rightarrow> (db, reservation option) io" where
  "repo_next_scheduled bench after =
     bindM (select_reservations (\<lambda>r. res_bench_id r = bench \<and> res_status r = Scheduled \<and>
        sql_ge (res_starts_at r) after)) (\<lambda>rows.
     returnM (first_row (order_by (\<lambda>r. (res_starts_at r, res_created_at r, res_id r)) rows)))"

section \<open>Writes\<close>

text \<open>The \<open>except sqlite3.IntegrityError\<close> branch of \<open>create\<close>.\<close>

definition repo_create_conflict :: "reservation \<Rightarrow> (db, reservation) io" where
  "repo_create_conflict r =
     bindM (if truthy (res_idempotency_key r)
            then repo_get_by_idempotency_key (res_bench_id r) (the (res_idempotency_key r))
                   (Some (res_organisation_id r))
            else returnM None) (\<lambda>existing.
     case existing of Some x \<Rightarrow> returnM x
     | None \<Rightarrow> raiseM ReservationTimeConflictError)"

definition repo_create :: "reservation \<Rightarrow> (db, reservation) io" where
  "repo_create r =
     catchM
       (bindM (transactionM
          (bindM (if res_status r = Active then require_no_operation_lock (res_bench_id r)
                  else if res_status r = Scheduled then require_no_maintenance_lock_overlap r
                  else returnM ()) (\<lambda>_.
           bindM (if occupying r then require_no_reservation_overlap r None else returnM ()) (\<lambda>_.
           insert_reservation r)))) (\<lambda>_. returnM r))
       (\<lambda>exc. if exc = IntegrityError then repo_create_conflict r else raiseM exc)"

definition repo_update ::
    "reservation \<Rightarrow> reservation_status option \<Rightarrow> time option \<Rightarrow> bool \<Rightarrow> (db, reservation) io" where
  "repo_update r expected_status expected_ends_at require_unlocked =
     bindM (catchM
       (transactionM
         (bindM (if require_unlocked then require_no_operation_lock (res_bench_id r)
                 else returnM ()) (\<lambda>_.
          bindM (if res_status r = Scheduled then require_no_maintenance_lock_overlap r
                 else returnM ()) (\<lambda>_.
          bindM (if occupying r then require_no_reservation_overlap r (Some (res_id r))
                 else returnM ()) (\<lambda>_.
          bindM (update_reservation (res_id r)
             (\<lambda>x. (case expected_status of None \<Rightarrow> True | Some st \<Rightarrow> res_status x = st) \<and>
                  (case expected_ends_at of None \<Rightarrow> True | Some t \<Rightarrow> res_ends_at x = Some t))
             (\<lambda>_. r)) (\<lambda>rowcount.
          if rowcount = 0 then
            bindM (getsM (find_reservation (res_id r))) (\<lambda>present.
            if (expected_status \<noteq> None \<or> expected_ends_at \<noteq> None) \<and> present \<noteq> None
            then raiseM ReservationNotActiveError
            else raiseM KeyError)
          else returnM ()))))))
       (\<lambda>exc. if exc = IntegrityError then raiseM ReservationTimeConflictError else raiseM exc))
     (\<lambda>_. returnM r)"

definition activation_allowed :: "time \<Rightarrow> db \<Rightarrow> reservation \<Rightarrow> bool" where
  "activation_allowed now d r \<longleftrightarrow>
     res_status r = Scheduled \<and> sql_le (res_starts_at r) now \<and> sql_gt (res_ends_at r) now \<and>
     \<not> (\<exists>a \<in> set (db_reservations d).
          res_bench_id a = res_bench_id r \<and> res_id a \<noteq> res_id r \<and> holding a) \<and>
     lock_on (res_bench_id r) d = None"

definition repo_activate_if_available ::
    "uuid \<Rightarrow> time \<Rightarrow> (reservation \<Rightarrow> event_record) option \<Rightarrow> (db, reservation option) io" where
  "repo_activate_if_available rid now event_factory =
     catchM
       (transactionM
         (bindM (getsM (activation_allowed now)) (\<lambda>allowed.
          bindM (update_reservation rid allowed
             (\<lambda>r. r\<lparr>res_status := Active, res_activated_at := Some now\<rparr>)) (\<lambda>rowcount.
          if rowcount = 0 then returnM None
          else
            bindM (getsM (find_reservation rid)) (\<lambda>row.
            case row of
              None \<Rightarrow> raiseM TypeError
            | Some activated \<Rightarrow>
                bindM (case event_factory of None \<Rightarrow> returnM ()
                       | Some f \<Rightarrow> insert_event (f activated)) (\<lambda>_.
                returnM (Some activated)))))))
       (\<lambda>exc. if exc = IntegrityError then returnM None else raiseM exc)"

definition expiry_target :: "reservation_status \<Rightarrow> bool \<Rightarrow> reservation_status option" where
  "expiry_target current pending_operation =
     (if current = ExpiredPendingOperation then (if pending_operation then None else Some Expired)
      else if current = Active
        then (if pending_operation then Some ExpiredPendingOperation else Some Expired)
      else if current = Scheduled then Some Expired
      else None)"

definition repo_expire_if_due ::
    "uuid \<Rightarrow> time \<Rightarrow> (reservation \<Rightarrow> event_record) option \<Rightarrow> (db, reservation option) io" where
  "repo_expire_if_due rid now event_factory =
     transactionM
       (bindM (getsM (find_reservation rid)) (\<lambda>row.
        case row of
          None \<Rightarrow> returnM None
        | Some r \<Rightarrow>
            if \<not> sql_le (res_ends_at r) now then returnM None
            else
              bindM (getsM (lock_on (res_bench_id r))) (\<lambda>lock.
              case expiry_target (res_status r) (lock \<noteq> None) of
                None \<Rightarrow> returnM None
              | Some target \<Rightarrow>
                  bindM (update_reservation rid (\<lambda>x. res_status x = res_status r)
                    (\<lambda>x. x\<lparr>res_status := target, res_expired_at := Some now,
                           res_release_pending := (target = ExpiredPendingOperation)\<rparr>)) (\<lambda>_.
                  bindM (getsM (find_reservation rid)) (\<lambda>updated.
                  case updated of
                    None \<Rightarrow> raiseM TypeError
                  | Some expired \<Rightarrow>
                      bindM (case event_factory of None \<Rightarrow> returnM ()
                             | Some f \<Rightarrow> insert_event (f expired)) (\<lambda>_.
                      returnM (Some expired)))))))"

definition repo_finalize_pending_expiry :: "string \<Rightarrow> time \<Rightarrow> (db, reservation option) io" where
  "repo_finalize_pending_expiry bench now =
     transactionM
       (bindM (select_reservations (\<lambda>r. res_bench_id r = bench \<and>
          res_status r = ExpiredPendingOperation)) (\<lambda>rows.
        case first_row rows of
          None \<Rightarrow> returnM None
        | Some row \<Rightarrow>
            bindM (update_reservation (res_id row) (\<lambda>_. True)
              (\<lambda>x. x\<lparr>res_status := Expired, res_release_pending := False,
                     res_expired_at := (case res_expired_at x of Some t \<Rightarrow> Some t | None \<Rightarrow> Some now)\<rparr>))
              (\<lambda>_.
            bindM (getsM (find_reservation (res_id row))) (\<lambda>updated.
            case updated of None \<Rightarrow> raiseM TypeError | Some r \<Rightarrow> returnM (Some r)))))"

section \<open>The writes keep the store invariant\<close>

lemma keeps_require [keeps_intros]:
  "keeps I (require_no_operation_lock b)"
  "keeps I (require_no_maintenance_lock_overlap r)"
  "keeps I (require_no_reservation_overlap r x)"
  unfolding require_no_operation_lock_def require_no_maintenance_lock_overlap_def
    require_no_reservation_overlap_def select_reservations_def
  by (intro keeps_intros)+

lemma keeps_repo_reads [keeps_intros]:
  "keeps I (repo_get rid org)"
  "keeps I (repo_get_active bench org)"
  "keeps I (repo_get_by_idempotency_key bench key org)"
  "keeps I (repo_find_conflict bench s e exclude)"
  "keeps I (repo_list_due now)"
  "keeps I (repo_list_expired now)"
  "keeps I (repo_next_scheduled bench now)"
  "keeps I (repo_list org benches owner st sa sb l)"
  unfolding repo_get_def repo_get_active_def repo_get_by_idempotency_key_def repo_find_conflict_def
    repo_list_def repo_list_due_def repo_list_expired_def repo_next_scheduled_def Let_def
  by (intro keeps_intros keeps_select_reservations)+

lemma keeps_repo_create [keeps_db]: "keeps db_ok (repo_create r)"
  unfolding repo_create_def repo_create_conflict_def by (intro keeps_intros keeps_db)

lemma keeps_repo_update [keeps_db]: "keeps db_ok (repo_update r st en u)"
  unfolding repo_update_def by (intro keeps_intros keeps_db)

lemma keeps_repo_activate [keeps_db]: "keeps db_ok (repo_activate_if_available i now f)"
  unfolding repo_activate_if_available_def by (intro keeps_intros keeps_db)

lemma keeps_repo_expire [keeps_db]: "keeps db_ok (repo_expire_if_due i now f)"
  unfolding repo_expire_if_due_def by (intro keeps_intros keeps_db)

lemma keeps_repo_finalize [keeps_db]: "keeps db_ok (repo_finalize_pending_expiry b now)"
  unfolding repo_finalize_pending_expiry_def by (intro keeps_intros keeps_db)

section \<open>What the methods do\<close>

definition event_added :: "event_record \<Rightarrow> db \<Rightarrow> db" where
  "event_added e d =
     (if (\<exists>x \<in> set (db_events d). ev_id x = ev_id e \<or>
           ev_deduplication_key e \<noteq> None \<and> ev_deduplication_key x = ev_deduplication_key e)
      then d else d\<lparr>db_events := db_events d @ [e]\<rparr>)"

lemma event_added_frame [simp]:
  "db_reservations (event_added e d) = db_reservations d"
  "db_queue (event_added e d) = db_queue d"
  "db_locks (event_added e d) = db_locks d"
  "db_operations (event_added e d) = db_operations d"
  "db_recovery (event_added e d) = db_recovery d"
  "find_reservation i (event_added e d) = find_reservation i d"
  "lock_on b (event_added e d) = lock_on b d"
  by (simp_all add: event_added_def find_reservation_def lock_on_def)

lemma run_insert_event: "insert_event e d = (Inr (), event_added e d)"
  by (simp add: insert_event_def modifyM_def event_added_def)

definition maybe_event :: "(reservation \<Rightarrow> event_record) option \<Rightarrow> reservation \<Rightarrow> db \<Rightarrow> db" where
  "maybe_event f r d = (case f of None \<Rightarrow> d | Some g \<Rightarrow> event_added (g r) d)"

lemma maybe_event_frame [simp]:
  "db_reservations (maybe_event f r d) = db_reservations d"
  "db_queue (maybe_event f r d) = db_queue d"
  "db_locks (maybe_event f r d) = db_locks d"
  "db_operations (maybe_event f r d) = db_operations d"
  "find_reservation i (maybe_event f r d) = find_reservation i d"
  "lock_on b (maybe_event f r d) = lock_on b d"
  by (simp_all add: maybe_event_def split: option.splits)

lemma run_maybe_event:
  "(case f of None \<Rightarrow> returnM () | Some g \<Rightarrow> insert_event (g r)) d = (Inr (), maybe_event f r d)"
  by (simp add: maybe_event_def run_insert_event runM split: option.splits)

lemma run_repo_get: "repo_get i None d = (Inr (find_reservation i d), d)"
  by (simp add: repo_get_def select_reservations_def find_reservation_def runM)

lemma repo_get_active_cases:
  obtains (none) "repo_get_active b g d = (Inr None, d)"
      "\<not> (\<exists>r \<in> set (db_reservations d). res_bench_id r = b \<and> holding r \<and>
          (case g of None \<Rightarrow> True | Some h \<Rightarrow> res_organisation_id r = h))"
  | (some) r where "repo_get_active b g d = (Inr (Some r), d)" "r \<in> set (db_reservations d)"
      "res_bench_id r = b" "holding r"
proof -
  let ?rows = "filter (\<lambda>r. res_bench_id r = b \<and> holding r \<and>
        (case g of None \<Rightarrow> True | Some h \<Rightarrow> res_organisation_id r = h)) (db_reservations d)"
  have run: "repo_get_active b g d = (Inr (first_row (order_by res_starts_at ?rows)), d)"
    by (simp add: repo_get_active_def select_reservations_def runM)
  show thesis
  proof (cases "first_row (order_by res_starts_at ?rows)")
    case None
    then show thesis using none run by (auto simp: filter_empty_conv)
  next
    case (Some r)
    then have "r \<in> set ?rows" using first_row_Some by fastforce
    with Some run show thesis using some[of r] by simp
  qed
qed

lemma repo_find_conflict_cases:
  obtains (none) "repo_find_conflict b s e ex d = (Inr None, d)"
      "\<not> (\<exists>r \<in> set (db_reservations d). res_bench_id r = b \<and> occupying r \<and> row_meets s e r \<and>
          (case ex of None \<Rightarrow> True | Some i \<Rightarrow> res_id r \<noteq> i))"
  | (some) r where "repo_find_conflict b s e ex d = (Inr (Some r), d)"
      "r \<in> set (db_reservations d)" "res_bench_id r = b" "occupying r" "row_meets s e r"
proof -
  let ?rows = "filter (\<lambda>r. res_bench_id r = b \<and> occupying r \<and> row_meets s e r \<and>
        (case ex of None \<Rightarrow> True | Some i \<Rightarrow> res_id r \<noteq> i)) (db_reservations d)"
  have run: "repo_find_conflict b s e ex d = (Inr (first_row (order_by res_starts_at ?rows)), d)"
    by (simp add: repo_find_conflict_def select_reservations_def runM)
  show thesis
  proof (cases "first_row (order_by res_starts_at ?rows)")
    case None
    then show thesis using none run by (auto simp: filter_empty_conv)
  next
    case (Some r)
    then have "r \<in> set ?rows" using first_row_Some by fastforce
    with Some run show thesis using some[of r] by simp
  qed
qed

lemma repo_get_by_idempotency_key_cases:
  obtains (none) "repo_get_by_idempotency_key b k g d = (Inr None, d)"
      "\<not> (\<exists>r \<in> set (db_reservations d). res_bench_id r = b \<and> res_idempotency_key r = Some k \<and>
          res_organisation_id r = (case g of None \<Rightarrow> LEGACY_ORGANISATION_ID | Some h \<Rightarrow> h))"
  | (some) r where "repo_get_by_idempotency_key b k g d = (Inr (Some r), d)"
      "r \<in> set (db_reservations d)" "res_bench_id r = b" "res_idempotency_key r = Some k"
      "res_organisation_id r = (case g of None \<Rightarrow> LEGACY_ORGANISATION_ID | Some h \<Rightarrow> h)"
proof -
  let ?g = "case g of None \<Rightarrow> LEGACY_ORGANISATION_ID | Some h \<Rightarrow> h"
  let ?rows = "filter (\<lambda>r. res_bench_id r = b \<and> res_idempotency_key r = Some k \<and>
      res_organisation_id r = ?g) (db_reservations d)"
  have run: "repo_get_by_idempotency_key b k g d = (Inr (first_row ?rows), d)"
    by (simp add: repo_get_by_idempotency_key_def select_reservations_def runM Let_def)
  show thesis
  proof (cases "first_row ?rows")
    case None
    then show thesis using none run by (auto simp: filter_empty_conv)
  next
    case (Some r)
    then have "r \<in> set ?rows" by (rule first_row_Some)
    with Some run show thesis using some[of r] by simp
  qed
qed

text \<open>
  Creating: the row is appended and fits, or a row with the same idempotency key is returned and
  nothing is written, or an error is raised and nothing is written.
\<close>

definition created :: "reservation \<Rightarrow> db \<Rightarrow> db \<Rightarrow> bool" where
  "created r d d' \<longleftrightarrow> d' = d\<lparr>db_reservations := db_reservations d @ [r]\<rparr> \<and>
     res_id r \<notin> res_id ` set (db_reservations d) \<and> \<not> row_rejected r (db_reservations d) \<and>
     (res_status r = Active \<longrightarrow> lock_on (res_bench_id r) d = None)"

definition replayed :: "reservation \<Rightarrow> reservation \<Rightarrow> db \<Rightarrow> bool" where
  "replayed r x d \<longleftrightarrow> x \<in> set (db_reservations d) \<and> truthy (res_idempotency_key r) \<and>
     res_bench_id x = res_bench_id r \<and> res_idempotency_key x = res_idempotency_key r \<and>
     res_organisation_id x = res_organisation_id r"

lemma wp_repo_create_conflict:
  "wp (repo_create_conflict r) (\<lambda>x d'. d' = d \<and> replayed r x d)
     (\<lambda>e d'. d' = d \<and> e = ReservationTimeConflictError) d"
proof (cases "truthy (res_idempotency_key r)")
  case True
  then have "res_idempotency_key r = Some (the (res_idempotency_key r))"
    by (simp add: truthy_def split: option.splits)
  with True show ?thesis
    unfolding repo_create_conflict_def
    by (cases rule: repo_get_by_idempotency_key_cases[of "res_bench_id r"
          "the (res_idempotency_key r)" "Some (res_organisation_id r)" d])
      (simp_all add: wp_def runM replayed_def)
qed (simp add: wpM repo_create_conflict_def)

lemma wp_repo_create:
  "wp (repo_create r)
     (\<lambda>x d'. x = r \<and> created r d d' \<or> d' = d \<and> replayed r x d)
     (\<lambda>e d'. d' = d \<and> (e = BenchOperationInProgressError \<or> e = ReservationTimeConflictError)) d"
  unfolding repo_create_def
  by (auto simp: wpM require_no_operation_lock_def require_no_maintenance_lock_overlap_def
      require_no_reservation_overlap_def created_def
      intro!: wp_mono[OF wp_repo_create_conflict] split: option.splits)

lemma repo_create_result:
  assumes "repo_create r d = (res, d')"
  shows "res = Inr r \<and> created r d d' \<or> (\<exists>x. res = Inr x \<and> d' = d \<and> replayed r x d) \<or>
    d' = d \<and> (res = Inl BenchOperationInProgressError \<or> res = Inl ReservationTimeConflictError)"
  using wp_repo_create[of r d] assms by (cases res) (auto simp: wp_def)

text \<open>
  Activation, expiry and its finalisation in a sound store. Each either changes nothing or puts
  the one row it is about.
\<close>

definition activated_row :: "time \<Rightarrow> reservation \<Rightarrow> reservation" where
  "activated_row now = (\<lambda>r. r\<lparr>res_status := Active, res_activated_at := Some now\<rparr>)"

definition expired_row :: "reservation_status \<Rightarrow> time \<Rightarrow> reservation \<Rightarrow> reservation" where
  "expired_row target now = (\<lambda>r. r\<lparr>res_status := target, res_expired_at := Some now,
     res_release_pending := (target = ExpiredPendingOperation)\<rparr>)"

definition finalized_row :: "time \<Rightarrow> reservation \<Rightarrow> reservation" where
  "finalized_row now = (\<lambda>r. r\<lparr>res_status := Expired, res_release_pending := False,
     res_expired_at := (case res_expired_at r of Some t \<Rightarrow> Some t | None \<Rightarrow> Some now)\<rparr>)"

lemmas changed_row_defs = activated_row_def expired_row_def finalized_row_def

lemma changed_row_simps [simp]:
  "res_id (activated_row now r) = res_id r" "res_id (expired_row t now r) = res_id r"
  "res_id (finalized_row now r) = res_id r"
  "res_bench_id (activated_row now r) = res_bench_id r"
  "res_bench_id (expired_row t now r) = res_bench_id r"
  "res_bench_id (finalized_row now r) = res_bench_id r"
  "res_ends_at (activated_row now r) = res_ends_at r"
  "res_ends_at (expired_row t now r) = res_ends_at r"
  "res_ends_at (finalized_row now r) = res_ends_at r"
  "res_status (activated_row now r) = Active" "res_status (expired_row t now r) = t"
  "res_status (finalized_row now r) = Expired"
  by (simp_all add: changed_row_defs)

lemma run_update_reservation:
  assumes "reservations_ok (db_reservations d)" and "find_reservation rid d = Some r" and "P r"
    and "res_id (f r) = rid" and "\<not> row_rejected (f r) (other_rows rid d)"
  shows "update_reservation rid P f d = (Inr 1, put_reservation (f r) d)"
proof -
  have "(f r)\<lparr>res_id := rid\<rparr> = f r" using assms(4) by (cases "f r") simp
  with wp_update_reservation[OF assms(1), of rid P f] assms(2,3,5) show ?thesis
    by (subst wp_eq[symmetric]) simp
qed

lemma run_update_reservation_none:
  assumes "reservations_ok (db_reservations d)"
    and "case find_reservation rid d of None \<Rightarrow> True | Some r \<Rightarrow> \<not> P r"
  shows "update_reservation rid P f d = (Inr 0, d)"
  using wp_update_reservation[OF assms(1), of rid P f] assms(2)
  by (subst wp_eq[symmetric]) (simp split: option.splits)

lemma accepted_expired_row:
  assumes "db_sound d" and "find_reservation rid d = Some r"
    and "expiry_target (res_status r) locked = Some t"
  shows "\<not> row_rejected (expired_row t now r) (other_rows rid d)"
proof -
  have r: "r \<in> set (db_reservations d)" "res_id r = rid"
    using find_reservation_Some[OF assms(2)] by auto
  have t: "t = Expired \<or> t = ExpiredPendingOperation \<and> res_status r = Active"
    using assms(3) by (auto simp: expiry_target_def split: if_splits)
  have "\<not> row_rejected (expired_row t now r) (other_rows (res_id r) d)"
  proof (rule row_accepted_in_slot)
    fix x assume x: "holding (expired_row t now r)" "x \<in> set (db_reservations d)"
      "res_id x \<noteq> res_id r" "res_bench_id x = res_bench_id r"
    then have "holding r" using t by (auto simp: holding_def)
    then show "\<not> holding x" using x r assms(1) db_soundD(2) holding_unique by blast
  qed (use assms(1) r t in \<open>auto simp: db_soundD expired_row_def occupying_def\<close>)
  then show ?thesis using r by simp
qed

lemma run_repo_expire_if_due:
  assumes sound: "db_sound d"
  shows "repo_expire_if_due rid now f d =
    (case find_reservation rid d of
       None \<Rightarrow> (Inr None, d)
     | Some r \<Rightarrow>
         if \<not> sql_le (res_ends_at r) now then (Inr None, d)
         else case expiry_target (res_status r) (lock_on (res_bench_id r) d \<noteq> None) of
           None \<Rightarrow> (Inr None, d)
         | Some t \<Rightarrow> (Inr (Some (expired_row t now r)),
              maybe_event f (expired_row t now r) (put_reservation (expired_row t now r) d)))"
proof (cases "find_reservation rid d")
  case None
  then show ?thesis by (simp add: repo_expire_if_due_def runM)
next
  case (Some r)
  have id: "res_id r = rid" using find_reservation_Some[OF Some] by simp
  show ?thesis
  proof (cases "sql_le (res_ends_at r) now \<and>
      expiry_target (res_status r) (lock_on (res_bench_id r) d \<noteq> None) \<noteq> None")
    case False
    then show ?thesis using Some by (auto simp: repo_expire_if_due_def runM)
  next
    case True
    then obtain t where t: "expiry_target (res_status r) (lock_on (res_bench_id r) d \<noteq> None) = Some t"
      by auto
    have upd: "update_reservation rid (\<lambda>x. res_status x = res_status r)
        (\<lambda>x. x\<lparr>res_status := t, res_expired_at := Some now,
               res_release_pending := (t = ExpiredPendingOperation)\<rparr>) d =
        (Inr 1, put_reservation (expired_row t now r) d)"
      using run_update_reservation[OF db_soundD(2)[OF sound] Some, of "\<lambda>x. res_status x = res_status r"
          "expired_row t now"] accepted_expired_row[OF sound Some t, of now] id
      by (simp add: expired_row_def)
    show ?thesis
      using Some t True upd id
      by (simp add: repo_expire_if_due_def runM find_put_reservation run_maybe_event)
  qed
qed

lemma accepted_activated_row:
  assumes "db_sound d" and "find_reservation rid d = Some r" and "activation_allowed now d r"
  shows "\<not> row_rejected (activated_row now r) (other_rows rid d)"
proof -
  have r: "r \<in> set (db_reservations d)" "res_id r = rid"
    using find_reservation_Some[OF assms(2)] by auto
  have "\<not> row_rejected (activated_row now r) (other_rows (res_id r) d)"
    by (rule row_accepted_in_slot)
      (use assms(1,3) r in \<open>auto simp: db_soundD activated_row_def activation_allowed_def occupying_def\<close>)
  then show ?thesis using r by simp
qed

lemma run_repo_activate_if_available:
  assumes sound: "db_sound d"
  shows "repo_activate_if_available rid now f d =
    (case find_reservation rid d of
       None \<Rightarrow> (Inr None, d)
     | Some r \<Rightarrow>
         if activation_allowed now d r
         then (Inr (Some (activated_row now r)),
               maybe_event f (activated_row now r) (put_reservation (activated_row now r) d))
         else (Inr None, d))"
proof -
  consider (none) "find_reservation rid d = None"
    | (no) r where "find_reservation rid d = Some r" "\<not> activation_allowed now d r"
    | (yes) r where "find_reservation rid d = Some r" "activation_allowed now d r"
    by (cases "find_reservation rid d") auto
  then show ?thesis
  proof cases
    case yes
    have id: "res_id r = rid" using find_reservation_Some[OF yes(1)] by simp
    have "update_reservation rid (activation_allowed now d)
        (\<lambda>r. r\<lparr>res_status := Active, res_activated_at := Some now\<rparr>) d =
        (Inr 1, put_reservation (activated_row now r) d)"
      using run_update_reservation[OF db_soundD(2)[OF sound] yes(1), of "activation_allowed now d"
          "activated_row now"] accepted_activated_row[OF sound yes] yes(2) id
      by (simp add: activated_row_def)
    then show ?thesis
      using yes id
      by (simp add: repo_activate_if_available_def runM find_put_reservation run_maybe_event)
  qed (simp_all add: repo_activate_if_available_def runM run_update_reservation_none db_soundD sound)
qed

lemma accepted_finalized_row:
  assumes "db_sound d" and "r \<in> set (db_reservations d)"
  shows "\<not> row_rejected (finalized_row now r) (other_rows (res_id r) d)"
  by (rule row_accepted_when_freed)
    (use assms in \<open>auto simp: db_soundD finalized_row_def occupying_def\<close>)

lemma run_repo_finalize_pending_expiry:
  assumes sound: "db_sound d"
  shows "repo_finalize_pending_expiry bench now d =
    (case first_row (filter (\<lambda>r. res_bench_id r = bench \<and> res_status r = ExpiredPendingOperation)
        (db_reservations d)) of
       None \<Rightarrow> (Inr None, d)
     | Some r \<Rightarrow> (Inr (Some (finalized_row now r)), put_reservation (finalized_row now r) d))"
proof (cases "first_row (filter (\<lambda>r. res_bench_id r = bench \<and> res_status r = ExpiredPendingOperation)
        (db_reservations d))")
  case None
  then show ?thesis by (simp add: repo_finalize_pending_expiry_def select_reservations_def runM)
next
  case (Some r)
  have r: "r \<in> set (db_reservations d)" using first_row_Some[OF Some] by simp
  have find: "find_reservation (res_id r) d = Some r"
    using find_reservation_unique[OF db_soundD(2)[OF sound] r] .
  have "update_reservation (res_id r) (\<lambda>_. True) (\<lambda>x. x\<lparr>res_status := Expired,
      res_release_pending := False,
      res_expired_at := (case res_expired_at x of Some t \<Rightarrow> Some t | None \<Rightarrow> Some now)\<rparr>) d =
      (Inr 1, put_reservation (finalized_row now r) d)"
    using run_update_reservation[OF db_soundD(2)[OF sound] find, of "\<lambda>_. True" "finalized_row now"]
      accepted_finalized_row[OF sound r, of now]
    by (simp add: finalized_row_def)
  then show ?thesis
    using Some find
    by (simp add: repo_finalize_pending_expiry_def select_reservations_def runM find_put_reservation)
qed

lemma wp_require:
  "wp (require_no_operation_lock b) Q E d =
     (if lock_on b d = None then Q () d else E BenchOperationInProgressError d)"
  "wp (require_no_maintenance_lock_overlap r) Q E d =
     (if (case res_starts_at r of None \<Rightarrow> False
          | Some s \<Rightarrow> maintenance_locked_through (res_bench_id r) s d)
      then E BenchOperationInProgressError d else Q () d)"
  "wp (require_no_reservation_overlap r x) Q E d =
     (if filter (overlap_selected r x) (db_reservations d) = [] then Q () d
      else E ReservationTimeConflictError d)"
  by (simp_all add: require_no_operation_lock_def require_no_maintenance_lock_overlap_def
      require_no_reservation_overlap_def wpM split: option.splits)

text \<open>An update by the service: the guarded row is replaced, or an error is raised and nothing changes.\<close>

lemma wp_repo_update:
  assumes "reservations_ok (db_reservations d)"
  shows "wp (repo_update r st en unlocked)
     (\<lambda>x d'. x = r \<and> d' = put_reservation r d \<and> \<not> row_rejected r (other_rows (res_id r) d) \<and>
        (unlocked \<longrightarrow> lock_on (res_bench_id r) d = None) \<and>
        (\<exists>old. find_reservation (res_id r) d = Some old \<and>
           (case st of None \<Rightarrow> True | Some s \<Rightarrow> res_status old = s) \<and>
           (case en of None \<Rightarrow> True | Some t \<Rightarrow> res_ends_at old = Some t)))
     (\<lambda>e d'. d' = d \<and> e \<noteq> IntegrityError) d"
proof -
  have [simp]: "r\<lparr>res_id := res_id r\<rparr> = r" by (cases r) simp
  show ?thesis
    by (cases "find_reservation (res_id r) d")
      (simp_all add: repo_update_def wpM wp_require wp_update_reservation[OF assms])
qed

end
