(* ===== verification/QueueRepository.thy ===== *)
theory QueueRepository
  imports ReservationRepository
begin

text \<open>
  \<open>SQLiteQueueRepository\<close> (\<open>persistence/reservations.py\<close>): the bench queues. The order of a queue
  is \<open>queue_order\<close>, assigned on insertion as one more than the largest in the table; the position
  of a waiting entry is computed when it is read and never stored.
\<close>

section \<open>Reads\<close>

definition next_queue_order :: "db \<Rightarrow> int" where
  "next_queue_order d =
     (case map qr_order (db_queue d) of [] \<Rightarrow> 0 | k # ks \<Rightarrow> fold max ks k) + 1"

definition waiting_row :: "queue_row \<Rightarrow> bool" where
  "waiting_row x \<longleftrightarrow> qe_status (qr_entry x) = QWaiting"

definition same_queue :: "queue_entry \<Rightarrow> queue_row \<Rightarrow> bool" where
  "same_queue q x \<longleftrightarrow> qe_bench_id (qr_entry x) = qe_bench_id q \<and>
     qe_organisation_id (qr_entry x) = qe_organisation_id q"

definition in_scope :: "uuid option \<Rightarrow> uuid \<Rightarrow> bool" where
  "in_scope org g = (case org of None \<Rightarrow> True | Some h \<Rightarrow> g = h)"

definition find_queue_row :: "uuid \<Rightarrow> uuid option \<Rightarrow> db \<Rightarrow> queue_row option" where
  "find_queue_row i org d = first_row (filter (\<lambda>x. qe_id (qr_entry x) = i \<and>
     in_scope org (qe_organisation_id (qr_entry x))) (db_queue d))"

text \<open>
  The count of \<open>_with_position\<close>: waiting rows of the same queue whose order is at most the
  entry's own; a comparison with an absent row is \<open>NULL\<close> and counts nothing.
\<close>

definition queue_position :: "queue_entry \<Rightarrow> db \<Rightarrow> int" where
  "queue_position q d =
     (case find_queue_row (qe_id q) (Some (qe_organisation_id q)) d of
        None \<Rightarrow> 0
      | Some current \<Rightarrow> int (length (filter (\<lambda>x. same_queue q x \<and> waiting_row x \<and>
            qr_order x \<le> qr_order current) (db_queue d))))"

definition with_position :: "queue_entry \<Rightarrow> (db, queue_entry) io" where
  "with_position q =
     (if qe_status q \<noteq> QWaiting then returnM (q\<lparr>qe_position := None\<rparr>)
      else bindM (getsM (queue_position q)) (\<lambda>p. returnM (q\<lparr>qe_position := Some p\<rparr>)))"

definition queue_get :: "uuid \<Rightarrow> uuid option \<Rightarrow> (db, queue_entry option) io" where
  "queue_get i org =
     bindM (getsM (find_queue_row i org)) (\<lambda>row.
     case row of None \<Rightarrow> returnM None
     | Some x \<Rightarrow> bindM (with_position (qr_entry x)) (\<lambda>q. returnM (Some q)))"

definition queue_get_by_idempotency_key ::
    "string \<Rightarrow> string \<Rightarrow> uuid option \<Rightarrow> (db, queue_entry option) io" where
  "queue_get_by_idempotency_key bench key org =
     (let scope = (case org of None \<Rightarrow> LEGACY_ORGANISATION_ID | Some g \<Rightarrow> g)
      in bindM (getsM (\<lambda>d. first_row (filter (\<lambda>x. qe_bench_id (qr_entry x) = bench \<and>
             qe_idempotency_key (qr_entry x) = Some key \<and>
             qe_organisation_id (qr_entry x) = scope) (db_queue d)))) (\<lambda>row.
         case row of None \<Rightarrow> returnM None
         | Some x \<Rightarrow> bindM (with_position (qr_entry x)) (\<lambda>q. returnM (Some q))))"

definition queue_list ::
    "string \<Rightarrow> uuid option \<Rightarrow> queue_entry_status option \<Rightarrow> (db, queue_entry list) io" where
  "queue_list bench org status =
     bindM (getsM (\<lambda>d. order_by (\<lambda>x. (qr_order x, qe_id (qr_entry x)))
        (filter (\<lambda>x. qe_bench_id (qr_entry x) = bench \<and>
            in_scope org (qe_organisation_id (qr_entry x)) \<and>
            (case status of None \<Rightarrow> True | Some st \<Rightarrow> qe_status (qr_entry x) = st)) (db_queue d))))
     (\<lambda>rows.
     if status = Some QWaiting
     then returnM (map (\<lambda>(i, x). (qr_entry x)\<lparr>qe_position := Some (int i)\<rparr>) (enumerate 1 rows))
     else returnM (map qr_entry rows))"

definition min_order :: "queue_row list \<Rightarrow> int" where
  "min_order rows = (case map qr_order rows of [] \<Rightarrow> 0 | k # ks \<Rightarrow> fold min ks k)"

definition queue_list_waiting_benches :: "uuid option \<Rightarrow> (db, string list) io" where
  "queue_list_waiting_benches org =
     bindM (getsM (\<lambda>d. filter (\<lambda>x. waiting_row x \<and>
         in_scope org (qe_organisation_id (qr_entry x))) (db_queue d))) (\<lambda>rows.
     returnM (order_by
       (\<lambda>b. (min_order (filter (\<lambda>x. qe_bench_id (qr_entry x) = b) rows), b))
       (remdups (map (\<lambda>x. qe_bench_id (qr_entry x)) rows))))"

definition head_row :: "db \<Rightarrow> queue_row \<Rightarrow> bool" where
  "head_row d x \<longleftrightarrow> waiting_row x \<and>
     \<not> (\<exists>y \<in> set (db_queue d). same_queue (qr_entry x) y \<and> waiting_row y \<and> qr_order y < qr_order x)"

definition queue_list_waiting :: "uuid option \<Rightarrow> int \<Rightarrow> (db, queue_entry list) io" where
  "queue_list_waiting org limit =
     (if limit \<le> 0 then raiseM ValueError
      else bindM (getsM (\<lambda>d. limit_rows limit (order_by (\<lambda>x. (qr_order x, qe_id (qr_entry x)))
               (filter (\<lambda>x. head_row d x \<and> in_scope org (qe_organisation_id (qr_entry x)))
                  (db_queue d))))) (\<lambda>rows.
           foldM (\<lambda>x acc. bindM (with_position (qr_entry x)) (\<lambda>q. returnM (acc @ [q]))) rows []))"

section \<open>Writes\<close>

text \<open>The \<open>except sqlite3.IntegrityError\<close> branch of \<open>create\<close>.\<close>

definition queue_create_conflict :: "queue_entry \<Rightarrow> (db, queue_entry option) io" where
  "queue_create_conflict q =
     (if truthy (qe_idempotency_key q)
      then bindM (queue_get_by_idempotency_key (qe_bench_id q) (the (qe_idempotency_key q))
                    (Some (qe_organisation_id q))) (\<lambda>existing.
           case existing of Some x \<Rightarrow> returnM (Some x) | None \<Rightarrow> raiseM IntegrityError)
      else raiseM IntegrityError)"

definition queue_create :: "queue_entry \<Rightarrow> (db, queue_entry) io" where
  "queue_create q =
     bindM
       (catchM
         (bindM (transactionM
            (bindM (getsM next_queue_order) (\<lambda>k.
             insert_queue_row \<lparr>qr_order = k, qr_entry = q\<lparr>qe_position := None\<rparr>\<rparr>)))
          (\<lambda>_. returnM None))
         (\<lambda>exc. if exc = IntegrityError then queue_create_conflict q else raiseM exc))
       (\<lambda>existing. case existing of Some x \<Rightarrow> returnM x | None \<Rightarrow> with_position q)"

definition queue_cancel ::
    "uuid \<Rightarrow> string \<Rightarrow> time \<Rightarrow> uuid option \<Rightarrow> (db, queue_entry) io" where
  "queue_cancel i owner now org =
     transactionM
       (bindM (getsM (find_queue_row i org)) (\<lambda>row.
        case row of
          None \<Rightarrow> raiseM QueueEntryNotFoundError
        | Some x \<Rightarrow>
            if qe_owner (qr_entry x) \<noteq> owner then raiseM QueueOwnerMismatchError
            else if qe_status (qr_entry x) = QCancelled then returnM (qr_entry x)
            else if qe_status (qr_entry x) \<noteq> QWaiting then raiseM QueueEntryNotFoundError
            else
              bindM (update_queue_entry
                 (\<lambda>q. qe_id q = i \<and> qe_status q = QWaiting \<and> in_scope org (qe_organisation_id q))
                 (\<lambda>q. q\<lparr>qe_status := QCancelled, qe_cancelled_at := Some now\<rparr>)) (\<lambda>_.
              bindM (getsM (find_queue_row i org)) (\<lambda>updated.
              case updated of None \<Rightarrow> raiseM TypeError | Some y \<Rightarrow> returnM (qr_entry y)))))"

definition queue_mark_promoted ::
    "uuid \<Rightarrow> time \<Rightarrow> uuid option \<Rightarrow> (db, queue_entry option) io" where
  "queue_mark_promoted i now org =
     transactionM
       (bindM (update_queue_entry
           (\<lambda>q. qe_id q = i \<and> qe_status q = QWaiting \<and> in_scope org (qe_organisation_id q))
           (\<lambda>q. q\<lparr>qe_status := QPromoted, qe_promoted_at := Some now\<rparr>)) (\<lambda>rowcount.
        if rowcount \<noteq> 1 then returnM None
        else bindM (getsM (find_queue_row i org)) (\<lambda>row.
             returnM (map_option qr_entry row))))"

definition promotion_blocked :: "queue_entry \<Rightarrow> db \<Rightarrow> bool" where
  "promotion_blocked q d \<longleftrightarrow>
     (\<exists>r \<in> set (db_reservations d). res_bench_id r = qe_bench_id q \<and>
        res_organisation_id r = qe_organisation_id q \<and> holding r) \<or>
     (\<exists>l \<in> set (db_locks d). lock_bench_id (lr_lock l) = qe_bench_id q \<and>
        lr_organisation_id l = qe_organisation_id q)"

definition next_scheduled_start :: "queue_entry \<Rightarrow> time \<Rightarrow> db \<Rightarrow> time option" where
  "next_scheduled_start q now d =
     (case first_row (order_by res_starts_at (filter (\<lambda>r. res_bench_id r = qe_bench_id q \<and>
         res_organisation_id r = qe_organisation_id q \<and> res_status r = Scheduled \<and>
         sql_ge (res_starts_at r) now) (db_reservations d))) of
        None \<Rightarrow> None | Some r \<Rightarrow> res_starts_at r)"

definition protected_start_reached ::
    "time option \<Rightarrow> duration option \<Rightarrow> time option \<Rightarrow> bool" where
  "protected_start_reached next_start window ends_at =
     (case (next_start, ends_at) of
        (Some s, Some e) \<Rightarrow> s < e + (case window of None \<Rightarrow> 0 | Some w \<Rightarrow> w)
      | _ \<Rightarrow> False)"

definition queue_promote ::
    "uuid \<Rightarrow> reservation \<Rightarrow> time \<Rightarrow> duration option \<Rightarrow>
     (queue_entry \<Rightarrow> reservation \<Rightarrow> event_record list) option \<Rightarrow>
     (db, (queue_entry \<times> reservation) option) io" where
  "queue_promote i r now window event_factory =
     catchM
       (transactionM
         (bindM (getsM (\<lambda>d. first_row (filter (\<lambda>x. qe_id (qr_entry x) = i \<and>
             qe_organisation_id (qr_entry x) = res_organisation_id r \<and> waiting_row x)
             (db_queue d)))) (\<lambda>row.
          case row of
            None \<Rightarrow> returnM None
          | Some x \<Rightarrow>
              bindM (getsM (promotion_blocked (qr_entry x))) (\<lambda>blocked.
              if blocked then returnM None
              else
                bindM (getsM (next_scheduled_start (qr_entry x) now)) (\<lambda>next_start.
                if protected_start_reached next_start window (res_ends_at r) then returnM None
                else
                  bindM (insert_reservation r) (\<lambda>_.
                  bindM (update_queue_entry
                     (\<lambda>q. qe_id q = i \<and> qe_organisation_id q = qe_organisation_id (qr_entry x) \<and>
                          qe_status q = QWaiting)
                     (\<lambda>q. q\<lparr>qe_status := QPromoted, qe_promoted_at := Some now\<rparr>)) (\<lambda>rowcount.
                  if rowcount \<noteq> 1 then raiseM IntegrityError
                  else
                    bindM (getsM (find_queue_row i (Some (qe_organisation_id (qr_entry x)))))
                    (\<lambda>promoted_row.
                    case promoted_row of
                      None \<Rightarrow> raiseM TypeError
                    | Some y \<Rightarrow>
                        bindM (case event_factory of None \<Rightarrow> returnM ()
                               | Some f \<Rightarrow> foldM (\<lambda>e _. insert_event e) (f (qr_entry y) r) ())
                        (\<lambda>_. returnM (Some (qr_entry y, r)))))))))))
       (\<lambda>exc. if exc = IntegrityError then returnM None else raiseM exc)"

section \<open>The writes keep the store invariant\<close>

lemma keeps_with_position [keeps_intros]: "keeps I (with_position q)"
  unfolding with_position_def by (intro keeps_intros)

lemma keeps_queue_reads [keeps_intros]:
  "keeps I (queue_get i org)"
  "keeps I (queue_get_by_idempotency_key b k org)"
  "keeps I (queue_list b org st)"
  "keeps I (queue_list_waiting_benches org)"
  "keeps I (queue_list_waiting org n)"
  "keeps I (queue_create_conflict q)"
  unfolding queue_get_def queue_get_by_idempotency_key_def queue_list_def queue_create_conflict_def
    queue_list_waiting_benches_def queue_list_waiting_def Let_def
  by (intro keeps_intros)+

lemma keeps_queue_create [keeps_db]: "keeps db_ok (queue_create q)"
  unfolding queue_create_def by (intro keeps_intros keeps_db)

lemma keeps_queue_cancel [keeps_db]: "keeps db_ok (queue_cancel i owner now org)"
  unfolding queue_cancel_def by (intro keeps_intros keeps_db) simp_all

lemma keeps_queue_mark_promoted [keeps_db]: "keeps db_ok (queue_mark_promoted i now org)"
  unfolding queue_mark_promoted_def by (intro keeps_intros keeps_db) simp_all

lemma keeps_queue_promote [keeps_db]: "keeps db_ok (queue_promote i r now w f)"
  unfolding queue_promote_def by (intro keeps_intros keeps_db) simp_all

section \<open>Order and positions\<close>

lemma fold_max_ge: "x = a \<or> x \<in> set xs \<Longrightarrow> x \<le> fold max xs (a::int)"
proof (induction xs arbitrary: a x)
  case (Cons y ys)
  have "max y a \<le> fold max ys (max y a)" using Cons.IH[of "max y a" "max y a"] by simp
  with Cons.prems Cons.IH[of x "max y a"] show ?case by auto
qed simp

lemma next_queue_order_fresh: "x \<in> set (db_queue d) \<Longrightarrow> qr_order x < next_queue_order d"
proof -
  assume "x \<in> set (db_queue d)"
  then obtain k ks where ks: "map qr_order (db_queue d) = k # ks" "qr_order x \<in> set (k # ks)"
    by (metis (no_types, lifting) imageE image_eqI list.exhaust list.set_map list.set_sel(1)
        list.simps(8) empty_iff empty_set)
  then have "qr_order x \<le> fold max ks k" using fold_max_ge[of "qr_order x" k ks] by auto
  with ks(1) show ?thesis by (simp add: next_queue_order_def)
qed

lemma rank_sorted:
  "sorted_wrt (\<lambda>a b. f a < f b) ys \<Longrightarrow> i < length ys \<Longrightarrow>
   length (filter (\<lambda>x. f x \<le> (f (ys ! i) :: int)) ys) = Suc i"
proof (induction ys arbitrary: i)
  case (Cons y ys)
  show ?case
  proof (cases i)
    case 0
    have "filter (\<lambda>x. f x \<le> f y) ys = []"
      using Cons.prems(1) by (auto simp: filter_empty_conv)
    with 0 show ?thesis by simp
  next
    case (Suc j)
    then have "f y < f (ys ! j)" "length (filter (\<lambda>x. f x \<le> f (ys ! j)) ys) = Suc j"
      using Cons by auto
    with Suc show ?thesis by simp
  qed
qed simp

lemma sorted_by_order:
  assumes "distinct (map f xs)"
  shows "sorted_wrt (\<lambda>a b. f a < f b) (order_by (\<lambda>x. (f x :: int, g x)) xs)"
proof -
  let ?ys = "order_by (\<lambda>x. (f x, g x)) xs"
  have "sorted (map (\<lambda>x. (f x, g x)) ?ys)" by (rule sorted_order_by)
  then have le: "sorted_wrt (\<lambda>a b. f a \<le> f b) ?ys"
    by (simp add: sorted_map, elim sorted_wrt_mono_rel[rotated]) (auto simp: less_eq_prod_def)
  have "distinct (map f ?ys)"
    using assms by (simp add: order_by_def distinct_map)
  with le show ?thesis
    by (auto simp: sorted_wrt_iff_nth_less distinct_conv_nth order_le_less)
qed

lemma rank_order_by:
  assumes "distinct (map f xs)" and "i < length xs"
  shows "length (filter (\<lambda>x. f x \<le> f (order_by (\<lambda>x. (f x :: int, g x)) xs ! i)) xs) = Suc i"
proof -
  let ?ys = "order_by (\<lambda>x. (f x, g x)) xs"
  have "length (filter (\<lambda>x. f x \<le> f (?ys ! i)) ?ys) = Suc i"
    using rank_sorted[OF sorted_by_order[OF assms(1)]] assms(2) by (simp add: order_by_def)
  then show ?thesis by (simp add: order_by_def filter_sort)
qed

lemma find_queue_row_self:
  assumes "queue_ok (db_queue d)" and "x \<in> set (db_queue d)"
    and "in_scope org (qe_organisation_id (qr_entry x))"
  shows "find_queue_row (qe_id (qr_entry x)) org d = Some x"
proof -
  let ?xs = "filter (\<lambda>y. qe_id (qr_entry y) = qe_id (qr_entry x) \<and>
     in_scope org (qe_organisation_id (qr_entry y))) (db_queue d)"
  have "x \<in> set ?xs" using assms by simp
  then obtain y where y: "first_row ?xs = Some y" by (metis first_row_None option.exhaust_sel
        empty_iff empty_set)
  then have "y \<in> set (db_queue d)" "qe_id (qr_entry y) = qe_id (qr_entry x)"
    using first_row_Some[OF y] by auto
  then have "y = x"
    using distinct_map_eq[of "\<lambda>r. qe_id (qr_entry r)" "db_queue d" y x] assms
    by (simp add: queue_ok_def)
  with y show ?thesis by (simp add: find_queue_row_def)
qed

lemma filter_single: "distinct xs \<Longrightarrow> x \<in> set xs \<Longrightarrow> filter (\<lambda>y. y = x) xs = [x]"
  by (induction xs) (auto simp: filter_empty_conv)

text \<open>A position in a queue is a rank: the head of the queue, and only the head, is first.\<close>

lemma queue_position_head:
  assumes ok: "queue_ok (db_queue d)" and x: "x \<in> set (db_queue d)" and head: "head_row d x"
  shows "queue_position (qr_entry x) d = 1"
proof -
  have row: "find_queue_row (qe_id (qr_entry x)) (Some (qe_organisation_id (qr_entry x))) d = Some x"
    using find_queue_row_self[OF ok x] by (simp add: in_scope_def)
  have ord: "distinct (map qr_order (db_queue d))" using ok by (simp add: queue_ok_def)
  have "filter (\<lambda>y. same_queue (qr_entry x) y \<and> waiting_row y \<and> qr_order y \<le> qr_order x) (db_queue d) =
      filter (\<lambda>y. y = x) (db_queue d)"
  proof (rule filter_cong[OF refl])
    fix y assume y: "y \<in> set (db_queue d)"
    show "(same_queue (qr_entry x) y \<and> waiting_row y \<and> qr_order y \<le> qr_order x) = (y = x)"
      using head y distinct_map_eq[OF ord y x]
      by (auto simp: head_row_def same_queue_def order_le_less)
  qed
  also have "length \<dots> = 1"
    using filter_single[of "db_queue d" x] ord x by (simp add: distinct_map)
  finally show ?thesis by (simp add: queue_position_def row)
qed

section \<open>What the methods do\<close>

lemma with_position_run:
  "with_position q d = (Inr (q\<lparr>qe_position :=
     (if qe_status q = QWaiting then Some (queue_position q d) else None)\<rparr>), d)"
  by (simp add: with_position_def runM)

lemma run_queue_get:
  "queue_get i org d = (Inr (map_option (\<lambda>x. (qr_entry x)\<lparr>qe_position :=
     (if waiting_row x then Some (queue_position (qr_entry x) d) else None)\<rparr>)
     (find_queue_row i org d)), d)"
  by (simp add: queue_get_def runM with_position_run waiting_row_def split: option.splits)

lemma run_with_positions:
  "foldM (\<lambda>x acc. bindM (with_position (qr_entry x)) (\<lambda>q. returnM (acc @ [q]))) rows acc d =
     (Inr (acc @ map (\<lambda>x. (qr_entry x)\<lparr>qe_position :=
        (if waiting_row x then Some (queue_position (qr_entry x) d) else None)\<rparr>) rows), d)"
  by (induction rows arbitrary: acc) (simp_all add: runM with_position_run waiting_row_def)

text \<open>The listing of the heads: what is returned first in its queue has position one.\<close>

lemma run_queue_list_waiting:
  assumes ok: "queue_ok (db_queue d)" and "0 < limit"
  shows "queue_list_waiting org limit d =
    (Inr (map (\<lambda>x. (qr_entry x)\<lparr>qe_position := Some 1\<rparr>)
       (limit_rows limit (order_by (\<lambda>x. (qr_order x, qe_id (qr_entry x)))
          (filter (\<lambda>x. head_row d x \<and> in_scope org (qe_organisation_id (qr_entry x))) (db_queue d))))),
     d)"
proof -
  let ?rows = "limit_rows limit (order_by (\<lambda>x. (qr_order x, qe_id (qr_entry x)))
          (filter (\<lambda>x. head_row d x \<and> in_scope org (qe_organisation_id (qr_entry x))) (db_queue d)))"
  have head: "x \<in> set (db_queue d) \<and> head_row d x" if "x \<in> set ?rows" for x
    using subsetD[OF set_limit_rows that] by simp
  have pos: "queue_position (qr_entry x) d = 1" if "x \<in> set ?rows" for x
    using queue_position_head[OF ok, of x] head[OF that] by blast
  have waits: "waiting_row x" if "x \<in> set ?rows" for x
    using head[OF that] by (simp add: head_row_def)
  have "map (\<lambda>x. (qr_entry x)\<lparr>qe_position :=
        (if waiting_row x then Some (queue_position (qr_entry x) d) else None)\<rparr>) ?rows =
      map (\<lambda>x. (qr_entry x)\<lparr>qe_position := Some 1\<rparr>) ?rows"
    by (intro map_cong refl) (simp only: pos waits if_True)
  then show ?thesis
    using assms(2) by (simp add: queue_list_waiting_def runM run_with_positions)
qed

text \<open>Within an organisation, the numbering of \<open>list\<close> and the count of \<open>get\<close> agree.\<close>

lemma queue_list_positions_agree:
  assumes ok: "queue_ok (db_queue d)"
    and run: "queue_list bench (Some g) (Some QWaiting) d = (Inr qs, d)" and q: "q \<in> set qs"
  shows "queue_get (qe_id q) (Some g) d = (Inr (Some q), d)"
proof -
  let ?sel = "\<lambda>x. qe_bench_id (qr_entry x) = bench \<and> in_scope (Some g) (qe_organisation_id (qr_entry x)) \<and>
     qe_status (qr_entry x) = QWaiting"
  let ?xs = "filter ?sel (db_queue d)"
  let ?ys = "order_by (\<lambda>x. (qr_order x, qe_id (qr_entry x))) ?xs"
  have qs: "qs = map (\<lambda>(i, x). (qr_entry x)\<lparr>qe_position := Some (int i)\<rparr>) (enumerate 1 ?ys)"
    using run by (simp add: queue_list_def runM)
  then obtain n where n: "n < length ?ys" and qn: "q = (qr_entry (?ys ! n))\<lparr>qe_position := Some (int (Suc n))\<rparr>"
    using q by (auto simp: in_set_conv_nth nth_enumerate_eq simp del: of_nat_Suc)
  let ?x = "?ys ! n"
  have "?x \<in> set ?xs" using nth_mem[OF n] by (simp only: set_order_by)
  then have x: "?x \<in> set (db_queue d)" "?sel ?x" by (simp_all only: set_filter mem_Collect_eq)
  have row: "find_queue_row (qe_id (qr_entry ?x)) (Some g) d = Some ?x"
    using find_queue_row_self[OF ok x(1)] x(2) by simp
  have "length (filter (\<lambda>x. qr_order x \<le> qr_order ?x) ?xs) = Suc n"
    using rank_order_by[of qr_order ?xs n] ok n
    by (simp add: queue_ok_def distinct_map_filter order_by_def)
  then have "queue_position (qr_entry ?x) d = int (Suc n)"
    using row x(2)
    by (simp add: queue_position_def in_scope_def same_queue_def waiting_row_def conj_ac)
  then show ?thesis
    using row x(2) qn by (simp add: run_queue_get waiting_row_def)
qed

text \<open>Creating: the entry joins at the end of its queue, or an earlier request is replayed.\<close>

lemma run_queue_get_by_idempotency_key:
  "queue_get_by_idempotency_key b k (Some g) d = (Inr (map_option (\<lambda>x. (qr_entry x)\<lparr>qe_position :=
     (if waiting_row x then Some (queue_position (qr_entry x) d) else None)\<rparr>)
     (first_row (filter (\<lambda>x. qe_bench_id (qr_entry x) = b \<and> qe_idempotency_key (qr_entry x) = Some k \<and>
        qe_organisation_id (qr_entry x) = g) (db_queue d)))), d)"
  by (simp add: queue_get_by_idempotency_key_def runM with_position_run waiting_row_def
      split: option.splits)

definition queue_appended :: "queue_entry \<Rightarrow> db \<Rightarrow> db" where
  "queue_appended q d = d\<lparr>db_queue := db_queue d @
     [\<lparr>qr_order = next_queue_order d, qr_entry = q\<lparr>qe_position := None\<rparr>\<rparr>]\<rparr>"

lemma position_of_appended:
  assumes fresh: "\<forall>x \<in> set (db_queue d). qe_id (qr_entry x) \<noteq> qe_id q" and "qe_status q = QWaiting"
  shows "queue_position q (queue_appended q d) =
    1 + int (length (filter (\<lambda>x. same_queue q x \<and> waiting_row x) (db_queue d)))"
proof -
  let ?n = "\<lparr>qr_order = next_queue_order d, qr_entry = q\<lparr>qe_position := None\<rparr>\<rparr>"
  have none: "filter (\<lambda>x. qe_id (qr_entry x) = qe_id q \<and>
      in_scope (Some (qe_organisation_id q)) (qe_organisation_id (qr_entry x))) (db_queue d) = []"
    using fresh by (auto simp: filter_empty_conv)
  have row: "find_queue_row (qe_id q) (Some (qe_organisation_id q)) (queue_appended q d) = Some ?n"
    unfolding find_queue_row_def queue_appended_def using none by (simp add: in_scope_def)
  have "filter (\<lambda>x. same_queue q x \<and> waiting_row x \<and> qr_order x \<le> next_queue_order d) (db_queue d) =
      filter (\<lambda>x. same_queue q x \<and> waiting_row x) (db_queue d)"
    using next_queue_order_fresh[of _ d] by (intro filter_cong refl) (auto intro: less_imp_le)
  then show ?thesis
    using assms(2) row
    by (simp add: queue_position_def) (simp add: queue_appended_def same_queue_def waiting_row_def)
qed

lemma queue_create_result:
  assumes run: "queue_create q d = (res, d')" and q: "qe_status q = QWaiting"
  obtains (appended) "d' = queue_appended q d" "res = Inr (q\<lparr>qe_position :=
      Some (1 + int (length (filter (\<lambda>x. same_queue q x \<and> waiting_row x) (db_queue d))))\<rparr>)"
  | (replayed) x where "d' = d" "res = Inr ((qr_entry x)\<lparr>qe_position :=
        (if waiting_row x then Some (queue_position (qr_entry x) d) else None)\<rparr>)"
      "x \<in> set (db_queue d)" "same_queue q x" "truthy (qe_idempotency_key q)"
      "qe_idempotency_key (qr_entry x) = qe_idempotency_key q"
  | (rejected) "d' = d" "res = Inl IntegrityError"
proof (cases "insert_queue_row \<lparr>qr_order = next_queue_order d, qr_entry = q\<lparr>qe_position := None\<rparr>\<rparr> d")
  case (Pair a b)
  show thesis
  proof (cases a)
    case (Inr u)
    have new: "b = queue_appended q d" "\<forall>x \<in> set (db_queue d). qe_id (qr_entry x) \<noteq> qe_id q"
      using Pair Inr by (auto simp: insert_queue_row_def queue_appended_def split: if_splits)
    have "(res, d') = (Inr (q\<lparr>qe_position := Some (queue_position q (queue_appended q d))\<rparr>), queue_appended q d)"
      using run Pair Inr new q by (auto simp: queue_create_def runM with_position_run)
    then show thesis using appended position_of_appended[OF new(2) q] by simp
  next
    case (Inl e)
    then have b: "b = d" "e = IntegrityError"
      using Pair by (auto simp: insert_queue_row_def split: if_splits)
    have conf: "(case queue_create_conflict q d of (Inl e, w) \<Rightarrow> (Inl e, w)
        | (Inr None, w) \<Rightarrow> with_position q w | (Inr (Some x), w) \<Rightarrow> (Inr x, w)) = (res, d')"
      using run Pair Inl b
      by (simp add: queue_create_def runM split: prod.splits sum.splits option.splits)
    let ?row = "first_row (filter (\<lambda>x. qe_bench_id (qr_entry x) = qe_bench_id q \<and>
        qe_idempotency_key (qr_entry x) = Some (the (qe_idempotency_key q)) \<and>
        qe_organisation_id (qr_entry x) = qe_organisation_id q) (db_queue d))"
    show thesis
    proof (cases "truthy (qe_idempotency_key q) \<and> ?row \<noteq> None")
      case False
      then show thesis
        using conf rejected
        by (auto simp: queue_create_conflict_def runM run_queue_get_by_idempotency_key split: if_splits)
    next
      case True
      then obtain x where x: "?row = Some x"
        using not_None_eq[THEN iffD1, OF conjunct2[OF True]] by blast
      have "qe_idempotency_key q = Some (the (qe_idempotency_key q))"
        using True by (simp add: truthy_def split: option.splits)
      then show thesis
        using conf True x first_row_Some[OF x]
        by (intro replayed[of x])
          (auto simp: queue_create_conflict_def runM run_queue_get_by_idempotency_key same_queue_def)
    qed
  qed
qed

text \<open>Changing one row of the queue.\<close>

definition put_queue_row :: "queue_row \<Rightarrow> queue_entry \<Rightarrow> db \<Rightarrow> db" where
  "put_queue_row x q d = d\<lparr>db_queue :=
     update_where (\<lambda>y. y = x) (\<lambda>y. y\<lparr>qr_entry := q\<rparr>) (db_queue d)\<rparr>"

lemma put_queue_row_frame [simp]:
  "db_reservations (put_queue_row x q d) = db_reservations d"
  "db_locks (put_queue_row x q d) = db_locks d"
  "db_operations (put_queue_row x q d) = db_operations d"
  "db_events (put_queue_row x q d) = db_events d"
  by (simp_all add: put_queue_row_def)

lemma run_update_queue_entry:
  assumes ok: "queue_ok (db_queue d)" and x: "x \<in> set (db_queue d)"
    and P: "\<And>y. y \<in> set (db_queue d) \<Longrightarrow> P (qr_entry y) \<longleftrightarrow> y = x"
    and step: "queue_status_step_ok (qe_status (qr_entry x)) (qe_status (f (qr_entry x)))"
  shows "update_queue_entry P f d = (Inr 1, put_queue_row x (f (qr_entry x)) d)"
proof -
  have dist: "distinct (db_queue d)" using ok by (simp add: queue_ok_def distinct_map)
  have "filter (\<lambda>y. P (qr_entry y)) (db_queue d) = filter (\<lambda>y. y = x) (db_queue d)"
    by (rule filter_cong[OF refl P])
  then have "filter (\<lambda>y. P (qr_entry y)) (db_queue d) = [x]"
    by (simp only: filter_single[OF dist x])
  moreover have "update_where (\<lambda>y. P (qr_entry y)) (\<lambda>y. y\<lparr>qr_entry := f (qr_entry y)\<rparr>) (db_queue d) =
      update_where (\<lambda>y. y = x) (\<lambda>y. y\<lparr>qr_entry := f (qr_entry x)\<rparr>) (db_queue d)"
    using P by (simp add: update_where_def)
  moreover have "\<not> (\<exists>y \<in> set (db_queue d). P (qr_entry y) \<and>
      \<not> queue_status_step_ok (qe_status (qr_entry y)) (qe_status (f (qr_entry y))))"
    using P step by blast
  ultimately show ?thesis
    by (simp add: update_queue_entry_def put_queue_row_def)
qed

lemma find_put_queue_row:
  assumes ok: "queue_ok (db_queue d)" and x: "x \<in> set (db_queue d)"
    and q: "qe_id q = qe_id (qr_entry x)" "qe_requested_duration_seconds q =
      qe_requested_duration_seconds (qr_entry x)"
    and scope: "in_scope org (qe_organisation_id q)"
  shows "find_queue_row (qe_id q) org (put_queue_row x q d) = Some (x\<lparr>qr_entry := q\<rparr>)"
proof -
  have ok': "queue_ok (db_queue (put_queue_row x q d))"
  proof -
    let ?rows = "update_where (\<lambda>y. y = x) (\<lambda>y. y\<lparr>qr_entry := q\<rparr>) (db_queue d)"
    have "map (\<lambda>r. qe_id (qr_entry r)) ?rows = map (\<lambda>r. qe_id (qr_entry r)) (db_queue d)"
      by (rule update_where_map) (simp add: q)
    moreover have "map qr_order ?rows = map qr_order (db_queue d)"
      by (rule update_where_map) simp
    moreover have "\<forall>r \<in> set ?rows. 0 < qe_requested_duration_seconds (qr_entry r)"
      using ok x q(2) by (auto simp: queue_ok_def set_update_where)
    ultimately show ?thesis
      using ok by (simp add: queue_ok_def put_queue_row_def)
  qed
  have "x\<lparr>qr_entry := q\<rparr> \<in> set (db_queue (put_queue_row x q d))"
    using x by (auto simp: put_queue_row_def set_update_where)
  from find_queue_row_self[OF ok' this, of org] scope show ?thesis by simp
qed

lemma event_frame_fold [simp]:
  "db_reservations (fold event_added es d) = db_reservations d"
  "db_queue (fold event_added es d) = db_queue d"
  "db_locks (fold event_added es d) = db_locks d"
  "db_operations (fold event_added es d) = db_operations d"
  by (induction es arbitrary: d) simp_all

lemma run_insert_events: "foldM (\<lambda>e _. insert_event e) es u d = (Inr (), fold event_added es d)"
  by (induction es arbitrary: d u) (simp_all add: runM run_insert_event)

definition promoted_entry :: "time \<Rightarrow> queue_entry \<Rightarrow> queue_entry" where
  "promoted_entry now = (\<lambda>q. q\<lparr>qe_status := QPromoted, qe_promoted_at := Some now\<rparr>)"

lemma promoted_entry_simps [simp]:
  "qe_id (promoted_entry now q) = qe_id q"
  "qe_organisation_id (promoted_entry now q) = qe_organisation_id q"
  "qe_bench_id (promoted_entry now q) = qe_bench_id q"
  "qe_owner (promoted_entry now q) = qe_owner q"
  "qe_status (promoted_entry now q) = QPromoted"
  "qe_requested_duration_seconds (promoted_entry now q) = qe_requested_duration_seconds q"
  by (simp_all add: promoted_entry_def)

definition promotion_events ::
    "(queue_entry \<Rightarrow> reservation \<Rightarrow> event_record list) option \<Rightarrow> queue_entry \<Rightarrow> reservation \<Rightarrow>
     event_record list" where
  "promotion_events f q r = (case f of None \<Rightarrow> [] | Some g \<Rightarrow> g q r)"

definition promotable :: "uuid \<Rightarrow> reservation \<Rightarrow> time \<Rightarrow> duration option \<Rightarrow> db \<Rightarrow> queue_row \<Rightarrow> bool" where
  "promotable i r now window d x \<longleftrightarrow> x \<in> set (db_queue d) \<and> qe_id (qr_entry x) = i \<and>
     qe_organisation_id (qr_entry x) = res_organisation_id r \<and> waiting_row x \<and>
     \<not> promotion_blocked (qr_entry x) d \<and>
     \<not> protected_start_reached (next_scheduled_start (qr_entry x) now d) window (res_ends_at r) \<and>
     res_id r \<notin> res_id ` set (db_reservations d) \<and> \<not> row_rejected r (db_reservations d)"

text \<open>
  Promotion is all or nothing: when the entry is promotable, the reservation is inserted and the
  entry is marked in the same transaction, together with the events; otherwise nothing changes.
\<close>

lemma run_queue_promote:
  assumes ok: "queue_ok (db_queue d)"
  shows "queue_promote i r now window f d =
    (if \<exists>x \<in> set (db_queue d). promotable i r now window d x
     then let x = the (first_row (filter (\<lambda>x. qe_id (qr_entry x) = i \<and>
                 qe_organisation_id (qr_entry x) = res_organisation_id r \<and> waiting_row x) (db_queue d)));
              q = promoted_entry now (qr_entry x)
          in (Inr (Some (q, r)), fold event_added (promotion_events f q r)
               (put_queue_row x q (d\<lparr>db_reservations := db_reservations d @ [r]\<rparr>)))
     else (Inr None, d))"
proof -
  let ?sel = "\<lambda>x. qe_id (qr_entry x) = i \<and> qe_organisation_id (qr_entry x) = res_organisation_id r \<and>
      waiting_row x"
  show ?thesis
  proof (cases "first_row (filter ?sel (db_queue d))")
    case None
    then have "\<not> promotable i r now window d x" for x
      by (auto simp: filter_empty_conv promotable_def)
    with None show ?thesis by (simp add: queue_promote_def runM)
  next
    case (Some x)
    then have x: "x \<in> set (db_queue d)" "?sel x" using first_row_Some[OF Some] by auto
    have only: "y = x" if "y \<in> set (db_queue d)" "qe_id (qr_entry y) = i" for y
      using distinct_map_eq[of "\<lambda>r. qe_id (qr_entry r)" "db_queue d" y x] that x ok
      by (simp add: queue_ok_def)
    then have prom: "(\<exists>x \<in> set (db_queue d). promotable i r now window d x) \<longleftrightarrow> promotable i r now window d x"
      using x(1) by (metis promotable_def)
    let ?d1 = "d\<lparr>db_reservations := db_reservations d @ [r]\<rparr>"
    let ?q = "promoted_entry now (qr_entry x)"
    have upd: "update_queue_entry (\<lambda>q. qe_id q = i \<and> qe_organisation_id q = qe_organisation_id (qr_entry x) \<and>
          qe_status q = QWaiting) (\<lambda>q. q\<lparr>qe_status := QPromoted, qe_promoted_at := Some now\<rparr>) ?d1 =
        (Inr 1, put_queue_row x ?q ?d1)"
      unfolding promoted_entry_def
    proof (rule run_update_queue_entry)
      fix y assume "y \<in> set (db_queue ?d1)"
      then have "qe_id (qr_entry y) = i \<longleftrightarrow> y = x" using only[of y] x by auto
      then show "(qe_id (qr_entry y) = i \<and> qe_organisation_id (qr_entry y) =
          qe_organisation_id (qr_entry x) \<and> qe_status (qr_entry y) = QWaiting) = (y = x)"
        using x by (auto simp: waiting_row_def)
    qed (use ok x in \<open>simp_all add: queue_status_step_ok_def waiting_row_def\<close>)
    have found: "find_queue_row i (Some (qe_organisation_id (qr_entry x))) (put_queue_row x ?q ?d1) =
        Some (x\<lparr>qr_entry := ?q\<rparr>)"
      using find_put_queue_row[of ?d1 x ?q "Some (qe_organisation_id (qr_entry x))"] ok x
      by (simp add: in_scope_def)
    let ?stop = "promotion_blocked (qr_entry x) d \<or>
        protected_start_reached (next_scheduled_start (qr_entry x) now d) window (res_ends_at r) \<or>
        res_id r \<in> res_id ` set (db_reservations d) \<or> row_rejected r (db_reservations d)"
    have events: "(case f of None \<Rightarrow> returnM () | Some g \<Rightarrow> foldM (\<lambda>e _. insert_event e) (g q r) ()) w =
        (Inr (), fold event_added (promotion_events f q r) w)" for q w
      by (simp add: promotion_events_def run_insert_events runM split: option.splits)
    show ?thesis
    proof (cases ?stop)
      case True
      then have "\<not> promotable i r now window d x" by (auto simp: promotable_def)
      moreover have "queue_promote i r now window f d = (Inr None, d)"
        using Some True by (elim disjE) (simp_all add: queue_promote_def runM insert_reservation_def)
      ultimately show ?thesis by (simp add: prom)
    next
      case False
      then have yes: "promotable i r now window d x" using x by (simp add: promotable_def)
      have "queue_promote i r now window f d =
        (Inr (Some (?q, r)), fold event_added (promotion_events f ?q r) (put_queue_row x ?q ?d1))"
        using Some False upd found events
        by (simp add: queue_promote_def runM insert_reservation_def)
      with yes show ?thesis by (simp only: prom Some Let_def option.sel if_True)
    qed
  qed
qed

end
