(* ===== verification/LockRepository.thy ===== *)
theory LockRepository
  imports QueueRepository
begin

text \<open>
  \<open>SQLiteOperationLockRepository\<close> and \<open>SQLiteRecoveryRepository\<close> (\<open>persistence/reservations.py\<close>),
  \<open>SQLiteOperationRepository\<close> and \<open>SQLiteEventRepository\<close> (\<open>persistence/database.py\<close>).
\<close>

section \<open>Operation locks\<close>

definition lock_get :: "string \<Rightarrow> (db, operation_lock option) io" where
  "lock_get bench = bindM (getsM (lock_on bench)) (\<lambda>row. returnM (map_option lr_lock row))"

text \<open>\<open>_resolve_integrity_error\<close>: the same operation may acquire its lock again.\<close>

definition lock_resolve_integrity_error :: "operation_lock \<Rightarrow> (db, operation_lock) io" where
  "lock_resolve_integrity_error l =
     bindM (lock_get (lock_bench_id l)) (\<lambda>existing.
     case existing of
       None \<Rightarrow> raiseM BenchOperationInProgressError
     | Some x \<Rightarrow> if lock_operation_id x = lock_operation_id l then returnM x
                 else raiseM BenchOperationInProgressError)"

definition lock_acquire :: "operation_lock \<Rightarrow> (db, operation_lock) io" where
  "lock_acquire l =
     catchM (bindM (transactionM (insert_operation_lock l)) (\<lambda>_. returnM l))
       (\<lambda>exc. if exc = IntegrityError then lock_resolve_integrity_error l else raiseM exc)"

definition lock_acquire_for_active ::
    "operation_lock \<Rightarrow> string \<Rightarrow> time \<Rightarrow> (db, operation_lock) io" where
  "lock_acquire_for_active l owner now =
     catchM
       (bindM (transactionM
         (bindM (getsM (\<lambda>d. first_row (filter (\<lambda>r. res_bench_id r = lock_bench_id l \<and> holding r)
                    (db_reservations d)))) (\<lambda>row.
          case row of
            None \<Rightarrow> raiseM ReservationNotActiveError
          | Some r \<Rightarrow>
              if res_status r \<noteq> Active \<or> sql_le (res_ends_at r) now
              then raiseM ReservationNotActiveError
              else if res_owner r \<noteq> owner then raiseM ReservationOwnerMismatchError
              else insert_operation_lock l))) (\<lambda>_. returnM l))
       (\<lambda>exc. if exc = IntegrityError then lock_resolve_integrity_error l else raiseM exc)"

definition lock_acquire_for_maintenance :: "operation_lock \<Rightarrow> time \<Rightarrow> (db, operation_lock) io" where
  "lock_acquire_for_maintenance l now =
     catchM
       (bindM (transactionM
         (bindM (getsM (\<lambda>d. first_row (filter (\<lambda>r. res_bench_id r = lock_bench_id l \<and>
              (holding r \<or> res_status r = Scheduled \<and>
               sql_le (res_starts_at r)
                 (case lock_expires_at l of Some t \<Rightarrow> t | None \<Rightarrow> now))) (db_reservations d))))
          (\<lambda>row. case row of
            Some _ \<Rightarrow> raiseM BenchOperationInProgressError
          | None \<Rightarrow> insert_operation_lock l))) (\<lambda>_. returnM l))
       (\<lambda>exc. if exc = IntegrityError then lock_resolve_integrity_error l else raiseM exc)"

definition lock_release :: "string \<Rightarrow> uuid \<Rightarrow> (db, bool) io" where
  "lock_release bench operation_id =
     bindM (transactionM (delete_locks (\<lambda>l. lock_bench_id l = bench \<and>
              lock_operation_id l = operation_id))) (\<lambda>rowcount. returnM (rowcount = 1))"

definition lock_list :: "(db, operation_lock list) io" where
  "lock_list = getsM (\<lambda>d. map lr_lock
     (order_by (\<lambda>x. (lock_acquired_at (lr_lock x), lock_bench_id (lr_lock x))) (db_locks d)))"

definition lock_recover_stale :: "uuid set \<Rightarrow> time \<Rightarrow> (db, int) io" where
  "lock_recover_stale live now =
     transactionM
       (bindM (getsM (\<lambda>d. map (\<lambda>x. lock_bench_id (lr_lock x))
            (filter (\<lambda>x. lock_operation_id (lr_lock x) \<notin> live \<or>
                sql_le (lock_expires_at (lr_lock x)) now) (db_locks d)))) (\<lambda>stale.
        if stale = [] then returnM 0
        else delete_locks (\<lambda>l. lock_bench_id l \<in> set stale)))"

section \<open>Recovery records\<close>

definition recovery_start :: "time \<Rightarrow> (db, int) io" where
  "recovery_start started_at =
     transactionM
       (bindM (modifyM (\<lambda>d. d\<lparr>db_recovery_sequence := db_recovery_sequence d + 1,
           db_recovery := db_recovery d @
             [\<lparr>rec_id = db_recovery_sequence d + 1, rec_started_at = started_at,
               rec_completed_at = None, rec_report = None\<rparr>]\<rparr>))
        (\<lambda>_. getsM db_recovery_sequence))"

definition recovery_complete :: "int \<Rightarrow> recovery_report \<Rightarrow> (db, unit) io" where
  "recovery_complete record_id report =
     bindM (transactionM
       (bindM (getsM (\<lambda>d. length (filter (\<lambda>x. rec_id x = record_id) (db_recovery d)))) (\<lambda>rowcount.
        bindM (modifyM (\<lambda>d. d\<lparr>db_recovery := update_where (\<lambda>x. rec_id x = record_id)
             (\<lambda>x. x\<lparr>rec_completed_at := Some (rr_completed_at report), rec_report := Some report\<rparr>)
             (db_recovery d)\<rparr>)) (\<lambda>_. returnM rowcount))))
     (\<lambda>rowcount. if rowcount \<noteq> 1 then raiseM KeyError else returnM ())"

definition recovery_list :: "(db, recovery_report option list) io" where
  "recovery_list = getsM (\<lambda>d. map rec_report
     (order_by rec_id (filter (\<lambda>x. rec_completed_at x \<noteq> None) (db_recovery d))))"

section \<open>Operations and events\<close>

text \<open>
  \<open>create\<close>: \<open>operations_one_active_per_bench\<close> admits one active operation for a bench; the error of
  that index, and of no other, is translated.
\<close>

definition operation_create :: "operation \<Rightarrow> (db, operation) io" where
  "operation_create p = (\<lambda>d.
     if op_id p \<in> op_id ` set (db_operations d) then (Inl IntegrityError, d)
     else if active_operation p \<and>
        (\<exists>x \<in> set (db_operations d). op_bench_id x = op_bench_id p \<and> active_operation x)
     then (Inl BenchOperationInProgressError, d)
     else (Inr p, d\<lparr>db_operations := db_operations d @ [p]\<rparr>))"

definition operation_get :: "uuid \<Rightarrow> (db, operation option) io" where
  "operation_get i = getsM (\<lambda>d. first_row (filter (\<lambda>p. op_id p = i) (db_operations d)))"

definition operation_update :: "operation \<Rightarrow> (db, operation) io" where
  "operation_update p = (\<lambda>d.
     if op_id p \<in> op_id ` set (db_operations d) \<and> active_operation p \<and>
        (\<exists>x \<in> set (db_operations d). op_id x \<noteq> op_id p \<and> op_bench_id x = op_bench_id p \<and>
           active_operation x)
     then (Inl IntegrityError, d)
     else (Inr p, d\<lparr>db_operations :=
             update_where (\<lambda>x. op_id x = op_id p) (\<lambda>_. p) (db_operations d)\<rparr>))"

definition operation_list ::
    "string option \<Rightarrow> operation_status option \<Rightarrow> operation_type option \<Rightarrow> int \<Rightarrow>
     (db, operation list) io" where
  "operation_list bench status operation_type limit = getsM (\<lambda>d.
     limit_rows limit (order_by_desc op_created_at (filter (\<lambda>p.
        (case bench of None \<Rightarrow> True | Some b \<Rightarrow> op_bench_id p = b) \<and>
        (case status of None \<Rightarrow> True | Some st \<Rightarrow> op_status p = st) \<and>
        (case operation_type of None \<Rightarrow> True | Some ty \<Rightarrow> op_type p = ty)) (db_operations d))))"

definition interrupted_operation :: "time \<Rightarrow> operation \<Rightarrow> operation" where
  "interrupted_operation now p = p\<lparr>op_status := OpFailed, op_completed_at := Some now,
     op_message := Some ''Agent restarted before operation completed'',
     op_error_code := Some ''AGENT_RESTARTED'',
     op_error_message := Some ''The Agent restarted while this operation was active''\<rparr>"

definition operation_recover_incomplete :: "time \<Rightarrow> (db, int) io" where
  "operation_recover_incomplete now = (\<lambda>d.
     (Inr (int (length (filter active_operation (db_operations d)))),
      d\<lparr>db_operations := update_where active_operation (interrupted_operation now)
           (db_operations d)\<rparr>))"

definition event_create :: "event_record \<Rightarrow> (db, event_record) io" where
  "event_create e = bindM (transactionM (insert_event e)) (\<lambda>_. returnM e)"

definition event_list ::
    "string option \<Rightarrow> string option \<Rightarrow> time option \<Rightarrow> time option \<Rightarrow> int \<Rightarrow>
     (db, event_record list) io" where
  "event_list bench event_type after before limit = getsM (\<lambda>d.
     limit_rows limit (order_by_desc ev_timestamp (filter (\<lambda>e.
        (case bench of None \<Rightarrow> True | Some b \<Rightarrow> ev_bench_id e = Some b) \<and>
        (case event_type of None \<Rightarrow> True | Some ty \<Rightarrow> ev_type e = ty) \<and>
        (case after of None \<Rightarrow> True | Some t \<Rightarrow> t < ev_timestamp e) \<and>
        (case before of None \<Rightarrow> True | Some t \<Rightarrow> ev_timestamp e < t)) (db_events d))))"

section \<open>The writes keep the store invariants\<close>

lemma keeps_lock_reads [keeps_intros]:
  "keeps I (lock_get b)"
  "keeps I (lock_resolve_integrity_error l)"
  "keeps I lock_list"
  "keeps I recovery_list"
  "keeps I (operation_get i)"
  "keeps I (operation_list ob st ty n)"
  "keeps I (event_list ob et t u n)"
  unfolding lock_get_def lock_resolve_integrity_error_def lock_list_def recovery_list_def
    operation_get_def operation_list_def event_list_def
  by (intro keeps_intros)+

lemma keeps_lock_acquire [keeps_db]: "keeps db_ok (lock_acquire l)"
  unfolding lock_acquire_def by (intro keeps_intros keeps_db)

lemma keeps_lock_acquire_for_active [keeps_db]: "keeps db_ok (lock_acquire_for_active l owner now)"
  unfolding lock_acquire_for_active_def by (intro keeps_intros keeps_db)

lemma keeps_lock_acquire_for_maintenance [keeps_db]:
  "keeps db_ok (lock_acquire_for_maintenance l now)"
  unfolding lock_acquire_for_maintenance_def by (intro keeps_intros keeps_db)

lemma keeps_lock_release [keeps_db]: "keeps db_ok (lock_release b i)"
  unfolding lock_release_def by (intro keeps_intros keeps_db)

lemma keeps_lock_recover_stale [keeps_db]: "keeps db_ok (lock_recover_stale live now)"
  unfolding lock_recover_stale_def by (intro keeps_intros keeps_db)

lemma keeps_recovery_writes [keeps_db]:
  "keeps db_ok (recovery_start t)" "keeps db_ok (recovery_complete i r)"
  unfolding recovery_start_def recovery_complete_def
  by (intro keeps_intros keeps_modify; simp add: db_ok_def)+

lemma operations_okD:
  "operations_ok rows \<Longrightarrow> distinct (map op_id rows)"
  "operations_ok rows \<Longrightarrow> x \<in> set rows \<Longrightarrow> y \<in> set rows \<Longrightarrow> active_operation x \<Longrightarrow>
     active_operation y \<Longrightarrow> op_bench_id x = op_bench_id y \<Longrightarrow> op_id x = op_id y"
  unfolding operations_ok_def by blast+

lemma operations_okI:
  "distinct (map op_id rows) \<Longrightarrow>
   (\<And>x y. x \<in> set rows \<Longrightarrow> y \<in> set rows \<Longrightarrow> active_operation x \<Longrightarrow> active_operation y \<Longrightarrow>
      op_bench_id x = op_bench_id y \<Longrightarrow> op_id x = op_id y) \<Longrightarrow> operations_ok rows"
  unfolding operations_ok_def by blast

lemma operations_ok_append:
  assumes ok: "operations_ok rows" and fresh: "op_id p \<notin> op_id ` set rows"
    and free: "\<not> (active_operation p \<and> (\<exists>x \<in> set rows. op_bench_id x = op_bench_id p \<and> active_operation x))"
  shows "operations_ok (rows @ [p])"
proof (rule operations_okI)
  show "distinct (map op_id (rows @ [p]))" using operations_okD(1)[OF ok] fresh by simp
  fix x y assume xy: "x \<in> set (rows @ [p])" "y \<in> set (rows @ [p])" "active_operation x"
    "active_operation y" "op_bench_id x = op_bench_id y"
  consider "x = p" "y = p" | "x = p" "y \<in> set rows" | "x \<in> set rows" "y = p"
    | "x \<in> set rows" "y \<in> set rows" using xy(1,2) by auto
  then show "op_id x = op_id y"
    by cases (use free xy operations_okD(2)[OF ok, of x y] in metis)+
qed

lemma operations_ok_update:
  assumes ok: "operations_ok rows"
    and id: "\<And>x. x \<in> set rows \<Longrightarrow> P x \<Longrightarrow> op_id (f x) = op_id x"
    and act: "\<And>x y. x \<in> set rows \<Longrightarrow> P x \<Longrightarrow> active_operation (f x) \<Longrightarrow> y \<in> set rows \<Longrightarrow>
      active_operation (if P y then f y else y) \<Longrightarrow> op_bench_id (if P y then f y else y) = op_bench_id (f x) \<Longrightarrow>
      op_id y = op_id x"
  shows "operations_ok (update_where P f rows)"
proof -
  have ids: "map op_id (update_where P f rows) = map op_id rows"
    using id by (auto simp: update_where_def)
  have same: "op_id x' = op_id y'"
    if x': "x' \<in> set (update_where P f rows)" and y': "y' \<in> set (update_where P f rows)"
      and active: "active_operation x'" "active_operation y'" "op_bench_id x' = op_bench_id y'" for x' y'
  proof -
    obtain x y where x: "x \<in> set rows" "x' = (if P x then f x else x)"
      and y: "y \<in> set rows" "y' = (if P y then f y else y)"
      using x' y' by (auto simp: set_update_where)
    have "op_id x = op_id y"
    proof (cases "P x")
      case True
      then show ?thesis using act[OF x(1) True _ y(1)] active x(2) y(2) by simp
    next
      case nx: False
      show ?thesis
      proof (cases "P y")
        case True
        then show ?thesis using act[OF y(1) True _ x(1)] active x(2) y(2) nx by simp
      next
        case False
        then have "x' = x" "y' = y" using x(2) y(2) nx by simp_all
        then show ?thesis using operations_okD(2)[OF ok x(1) y(1)] active by simp
      qed
    qed
    then show ?thesis using x y id by simp
  qed
  show ?thesis
  proof (rule operations_okI)
    show "distinct (map op_id (update_where P f rows))"
      using operations_okD(1)[OF ok] by (simp only: ids)
  qed (rule same)
qed

lemma keeps_operation_create [keeps_db]: "keeps db_ok (operation_create p)"
  by (rule keepsI) (auto simp: operation_create_def db_ok_def intro!: operations_ok_append)

lemma operations_ok_put:
  assumes ok: "operations_ok rows" and free: "\<not> (op_id p \<in> op_id ` set rows \<and> active_operation p \<and>
      (\<exists>x \<in> set rows. op_id x \<noteq> op_id p \<and> op_bench_id x = op_bench_id p \<and> active_operation x))"
  shows "operations_ok (update_where (\<lambda>x. op_id x = op_id p) (\<lambda>_. p) rows)"
proof (rule operations_ok_update[OF ok])
  fix x y assume a: "x \<in> set rows" "op_id x = op_id p" "active_operation p" "y \<in> set rows"
    "active_operation (if op_id y = op_id p then p else y)"
    "op_bench_id (if op_id y = op_id p then p else y) = op_bench_id p"
  have "op_id p \<in> op_id ` set rows" using a(1) unfolding a(2)[symmetric] by (rule imageI)
  with free a show "op_id y = op_id x" by (auto split: if_splits)
qed simp

lemma keeps_operation_update [keeps_db]: "keeps db_ok (operation_update p)"
  by (rule keepsI) (simp add: operation_update_def db_ok_def operations_ok_put)

lemma interrupted_operation_simps [simp]:
  "op_id (interrupted_operation now p) = op_id p"
  "op_bench_id (interrupted_operation now p) = op_bench_id p"
  "op_status (interrupted_operation now p) = OpFailed"
  "\<not> active_operation (interrupted_operation now p)"
  by (simp_all add: interrupted_operation_def active_operation_def ACTIVE_OPERATION_STATUSES_def)

lemma keeps_operation_recover [keeps_db]: "keeps db_ok (operation_recover_incomplete now)"
  by (rule keepsI) (auto simp: operation_recover_incomplete_def db_ok_def intro!: operations_ok_update)

lemma keeps_event_create [keeps_db]: "keeps db_ok (event_create e)"
  unfolding event_create_def by (intro keeps_intros keeps_db)

section \<open>What the lock methods do\<close>

lemma run_lock_get: "lock_get b d = (Inr (map_option lr_lock (lock_on b d)), d)"
  by (simp add: lock_get_def runM)

definition lock_added :: "operation_lock \<Rightarrow> db \<Rightarrow> db" where
  "lock_added l d = d\<lparr>db_locks := db_locks d @
     [\<lparr>lr_lock = l, lr_organisation_id = LEGACY_ORGANISATION_ID\<rparr>]\<rparr>"

text \<open>
  Acquiring for an owner: the lock is taken only when the bench has no lock and its one holder is
  the owner's active reservation that has not ended. Otherwise nothing is written.
\<close>

definition active_owner :: "string \<Rightarrow> string \<Rightarrow> time \<Rightarrow> db \<Rightarrow> bool" where
  "active_owner bench owner now d \<longleftrightarrow>
     (\<exists>r \<in> set (db_reservations d). res_bench_id r = bench \<and> res_status r = Active \<and>
        res_owner r = owner \<and> \<not> sql_le (res_ends_at r) now)"

lemma wp_lock_resolve:
  "wp (lock_resolve_integrity_error l)
     (\<lambda>x d'. d' = d \<and> map_option lr_lock (lock_on (lock_bench_id l) d) = Some x \<and>
        lock_operation_id x = lock_operation_id l)
     (\<lambda>e d'. d' = d \<and> e = BenchOperationInProgressError) d"
  by (simp add: lock_resolve_integrity_error_def wp_def runM run_lock_get split: option.splits)

lemma wp_lock_acquire_for_active:
  "wp (lock_acquire_for_active l owner now)
     (\<lambda>x d'. active_owner (lock_bench_id l) owner now d \<and>
        (x = l \<and> lock_on (lock_bench_id l) d = None \<and> d' = lock_added l d \<or>
         d' = d \<and> map_option lr_lock (lock_on (lock_bench_id l) d) = Some x \<and>
         lock_operation_id x = lock_operation_id l))
     (\<lambda>e d'. d' = d \<and> e \<in> {ReservationNotActiveError, ReservationOwnerMismatchError,
        BenchOperationInProgressError}) d"
proof -
  let ?row = "first_row (filter (\<lambda>r. res_bench_id r = lock_bench_id l \<and> holding r) (db_reservations d))"
  show ?thesis
  proof (cases ?row)
    case None
    then show ?thesis by (simp add: lock_acquire_for_active_def wpM)
  next
    case (Some r)
    have r: "r \<in> set (db_reservations d)" "res_bench_id r = lock_bench_id l" "holding r"
      using first_row_Some[OF Some] by auto
    show ?thesis
    proof (cases "res_status r = Active \<and> \<not> sql_le (res_ends_at r) now \<and> res_owner r = owner")
      case False
      with Some show ?thesis by (auto simp: lock_acquire_for_active_def wpM)
    next
      case True
      then have "active_owner (lock_bench_id l) owner now d"
        using r by (auto simp: active_owner_def)
      with Some True show ?thesis
        by (simp add: lock_acquire_for_active_def wpM lock_on_None lock_added_def)
          (auto intro!: wp_mono[OF wp_lock_resolve])
    qed
  qed
qed

text \<open>Releasing removes the lock of that operation on that bench and nothing else.\<close>

definition lock_removed :: "string \<Rightarrow> uuid \<Rightarrow> db \<Rightarrow> db" where
  "lock_removed b i d = d\<lparr>db_locks := filter (\<lambda>x. \<not> (lock_bench_id (lr_lock x) = b \<and>
     lock_operation_id (lr_lock x) = i)) (db_locks d)\<rparr>"

lemma run_lock_release:
  assumes ok: "db_ok d"
  shows "lock_release b i d =
    (Inr (\<exists>x. lock_on b d = Some x \<and> lock_operation_id (lr_lock x) = i), lock_removed b i d)"
proof -
  let ?P = "\<lambda>x. lock_bench_id (lr_lock x) = b \<and> lock_operation_id (lr_lock x) = i"
  have dist: "distinct (db_locks d)" and keys: "distinct (map (\<lambda>l. lock_bench_id (lr_lock l)) (db_locks d))"
    using ok by (auto simp: db_ok_def locks_ok_def distinct_map)
  have "int (length (filter ?P (db_locks d))) = 1 \<longleftrightarrow> (\<exists>x. lock_on b d = Some x \<and> lock_operation_id (lr_lock x) = i)"
  proof (cases "lock_on b d")
    case None
    then have "filter ?P (db_locks d) = []"
      by (auto simp: filter_empty_conv lock_on_None)
    with None show ?thesis by simp
  next
    case (Some x)
    then have x: "x \<in> set (db_locks d)" "lock_bench_id (lr_lock x) = b"
      using lock_on_Some by auto
    have only: "y = x" if "y \<in> set (db_locks d)" "lock_bench_id (lr_lock y) = b" for y
      using distinct_map_eq[OF keys that(1) x(1)] that(2) x(2) by simp
    show ?thesis
    proof (cases "lock_operation_id (lr_lock x) = i")
      case True
      have "?P y \<longleftrightarrow> y = x" if "y \<in> set (db_locks d)" for y
        using only[OF that] x(2) True by blast
      then have "filter ?P (db_locks d) = filter (\<lambda>y. y = x) (db_locks d)"
        by (rule filter_cong[OF refl])
      with filter_single[OF dist x(1)] True Some show ?thesis by simp
    next
      case False
      have "\<not> ?P y" if "y \<in> set (db_locks d)" for y
        using only[OF that] False by blast
      then have "filter ?P (db_locks d) = []"
        by (simp add: filter_empty_conv)
      with False Some show ?thesis by simp
    qed
  qed
  then show ?thesis
    by (simp add: lock_release_def runM delete_locks_def lock_removed_def)
qed

lemma lock_removed_frame [simp]:
  "db_reservations (lock_removed b i d) = db_reservations d"
  "db_queue (lock_removed b i d) = db_queue d"
  "db_operations (lock_removed b i d) = db_operations d"
  "db_events (lock_removed b i d) = db_events d"
  by (simp_all add: lock_removed_def)

text \<open>Recovery without live operations removes every lock and reports how many there were.\<close>

lemma run_lock_recover_stale_all:
  "lock_recover_stale {} now d = (Inr (int (length (db_locks d))), d\<lparr>db_locks := []\<rparr>)"
proof -
  let ?in = "\<lambda>x. lock_bench_id (lr_lock x) \<in> (\<lambda>x. lock_bench_id (lr_lock x)) ` set (db_locks d)"
  have all: "filter ?in (db_locks d) = db_locks d" "filter (\<lambda>x. \<not> ?in x) (db_locks d) = []"
    by (simp_all add: filter_id_conv filter_empty_conv)
  show ?thesis
  proof (cases "db_locks d = []")
    case True
    then have "d\<lparr>db_locks := []\<rparr> = d" by (cases d) simp
    with True show ?thesis by (simp add: lock_recover_stale_def runM)
  next
    case False
    have "lock_recover_stale {} now d =
        (Inr (int (length (filter ?in (db_locks d)))), d\<lparr>db_locks := filter (\<lambda>x. \<not> ?in x) (db_locks d)\<rparr>)"
      using False by (simp add: lock_recover_stale_def runM delete_locks_def del: filter.simps)
    then show ?thesis by (simp only: all)
  qed
qed

end
