(* ===== verification/World.thy ===== *)
theory World
  imports LockRepository
begin

text \<open>
  What the services of \<open>core/\<close> act on: the store, a clock and a source of identifiers. The clock
  (\<open>core/clock.py\<close>) is the sequence of instants it will show and how many were read; identifiers
  (\<open>uuid4\<close>) are a sequence in the same way, so a statement about a run holds for every behaviour of
  either. Nothing is assumed of the two sequences except where a lemma says so.
\<close>

record world =
  w_db :: db
  w_clock :: "nat \<Rightarrow> time"
  w_ticks :: nat
  w_uuids :: "nat \<Rightarrow> uuid"
  w_drawn :: nat

definition clock_now :: "(world, time) io" where
  "clock_now = (\<lambda>w. (Inr (w_clock w (w_ticks w)), w\<lparr>w_ticks := Suc (w_ticks w)\<rparr>))"

definition uuid4 :: "(world, uuid) io" where
  "uuid4 = (\<lambda>w. (Inr (w_uuids w (w_drawn w)), w\<lparr>w_drawn := Suc (w_drawn w)\<rparr>))"

definition on_db :: "(db, 'a) io \<Rightarrow> (world, 'a) io" where
  "on_db m = zoomM w_db (\<lambda>d w. w\<lparr>w_db := d\<rparr>) m"

text \<open>\<open>events.create(EventRecord(...))\<close>: the identifier is the default of the model's field.\<close>

definition emit_event ::
    "time \<Rightarrow> string \<Rightarrow> string \<Rightarrow> string option \<Rightarrow> uuid option \<Rightarrow> string option \<Rightarrow> payload \<Rightarrow>
     string option \<Rightarrow> (world, unit) io" where
  "emit_event timestamp event_type source bench reservation actor payload deduplication_key =
     bindM uuid4 (\<lambda>i.
     bindM (on_db (event_create (make_event
        \<lparr>ev_id = i, ev_timestamp = timestamp, ev_type = event_type, ev_source = source,
         ev_bench_id = bench, ev_reservation_id = reservation, ev_operation_id = None,
         ev_actor = actor, ev_payload = payload, ev_deduplication_key = deduplication_key\<rparr>)))
     (\<lambda>_. returnM ()))"

section \<open>Running\<close>

lemma run_clock_now [runM]:
  "clock_now w = (Inr (w_clock w (w_ticks w)), w\<lparr>w_ticks := Suc (w_ticks w)\<rparr>)"
  by (simp add: clock_now_def)

lemma run_uuid4 [runM]:
  "uuid4 w = (Inr (w_uuids w (w_drawn w)), w\<lparr>w_drawn := Suc (w_drawn w)\<rparr>)"
  by (simp add: uuid4_def)

lemma run_on_db [runM]: "on_db m w = (case m (w_db w) of (r, d) \<Rightarrow> (r, w\<lparr>w_db := d\<rparr>))"
  by (simp add: on_db_def runM)

lemma wp_clock_now [wpM]:
  "wp clock_now Q E w = Q (w_clock w (w_ticks w)) (w\<lparr>w_ticks := Suc (w_ticks w)\<rparr>)"
  by (simp add: wp_def runM)

lemma wp_uuid4 [wpM]:
  "wp uuid4 Q E w = Q (w_uuids w (w_drawn w)) (w\<lparr>w_drawn := Suc (w_drawn w)\<rparr>)"
  by (simp add: wp_def runM)

lemma wp_on_db [wpM]:
  "wp (on_db m) Q E w =
     wp m (\<lambda>x d. Q x (w\<lparr>w_db := d\<rparr>)) (\<lambda>e d. E e (w\<lparr>w_db := d\<rparr>)) (w_db w)"
  by (simp add: on_db_def wpM)

section \<open>Invariants of the store, seen from a service\<close>

lemma keeps_clock_now [keeps_intros]: "keeps (\<lambda>w. I (w_db w)) clock_now"
  by (simp add: keeps_def runM)

lemma keeps_uuid4 [keeps_intros]: "keeps (\<lambda>w. I (w_db w)) uuid4"
  by (simp add: keeps_def runM)

lemma keeps_on_db [keeps_intros]: "keeps I m \<Longrightarrow> keeps (\<lambda>w. I (w_db w)) (on_db m)"
  unfolding on_db_def by (rule keeps_zoom) simp_all

section \<open>Sound stores\<close>

text \<open>
  \<open>db_sound\<close> adds to the schema's invariant that every reservation has a start and an end. A store
  step keeps it when the rows it writes have both.
\<close>

named_theorems keeps_sound \<open>operations that keep a sound store\<close>

lemma keeps_db_sound:
  assumes "keeps db_ok m" and "keeps (\<lambda>d. fully_timed (db_reservations d)) m"
  shows "keeps db_sound m"
  using keeps_conj[OF assms] by (simp add: db_sound_def [abs_def])

abbreviation timed :: "db \<Rightarrow> bool" where
  "timed d \<equiv> fully_timed (db_reservations d)"

lemma timed_insert_reservation:
  "res_starts_at n \<noteq> None \<Longrightarrow> res_ends_at n \<noteq> None \<Longrightarrow> keeps timed (insert_reservation n)"
  by (rule keepsI) (simp add: insert_reservation_def fully_timed_def)

lemma timed_update_reservation:
  assumes "\<And>r. res_starts_at r \<noteq> None \<Longrightarrow> res_ends_at r \<noteq> None \<Longrightarrow>
    res_starts_at (f r) \<noteq> None \<and> res_ends_at (f r) \<noteq> None"
  shows "keeps timed (update_reservation rid P f)"
proof (rule keepsI)
  fix d assume t: "timed d"
  show "timed (snd (update_reservation rid P f d))"
  proof (cases "first_row (filter (\<lambda>r. res_id r = rid \<and> P r) (db_reservations d))")
    case None
    with t show ?thesis by (simp add: update_reservation_def)
  next
    case (Some r)
    then have "r \<in> set (db_reservations d)" using first_row_Some[OF Some] by simp
    then have "res_starts_at (f r) \<noteq> None \<and> res_ends_at (f r) \<noteq> None"
      using t assms by (simp add: fully_timed_def)
    with Some t show ?thesis
      by (auto simp: update_reservation_def Let_def fully_timed_def set_update_where)
  qed
qed

lemma timed_other [keeps_sound]:
  "keeps timed (insert_operation_lock l)" "keeps timed (delete_locks P)"
  "keeps timed (insert_queue_row q)" "keeps timed (update_queue_entry Q f)"
  "keeps timed (insert_event e)" "keeps timed (select_reservations R)"
  "keeps timed (operation_recover_incomplete now)"
  by (rule keepsI; simp add: insert_operation_lock_def delete_locks_def insert_queue_row_def
      update_queue_entry_def insert_event_def select_reservations_def runM
      operation_recover_incomplete_def)+

lemmas timed_intros = keeps_intros timed_insert_reservation timed_update_reservation timed_other

lemma sound_repo_create [keeps_sound]:
  "res_starts_at r \<noteq> None \<Longrightarrow> res_ends_at r \<noteq> None \<Longrightarrow> keeps db_sound (repo_create r)"
  unfolding repo_create_def repo_create_conflict_def
  by (intro keeps_db_sound keeps_intros keeps_db timed_intros) auto

lemma sound_repo_update [keeps_sound]:
  "res_starts_at r \<noteq> None \<Longrightarrow> res_ends_at r \<noteq> None \<Longrightarrow> keeps db_sound (repo_update r st en u)"
  unfolding repo_update_def
  by (intro keeps_db_sound keeps_intros keeps_db timed_intros) auto

lemma sound_repo_transitions [keeps_sound]:
  "keeps db_sound (repo_activate_if_available i now f)"
  "keeps db_sound (repo_expire_if_due i now f)"
  "keeps db_sound (repo_finalize_pending_expiry b now)"
  unfolding repo_activate_if_available_def repo_expire_if_due_def repo_finalize_pending_expiry_def
  by (intro keeps_db_sound keeps_intros keeps_db timed_intros; simp)+

lemma sound_queue [keeps_sound]:
  "keeps db_sound (queue_create q)"
  "keeps db_sound (queue_cancel i owner now org)"
  "keeps db_sound (queue_mark_promoted i now org)"
  "res_starts_at r \<noteq> None \<Longrightarrow> res_ends_at r \<noteq> None \<Longrightarrow> keeps db_sound (queue_promote i r now w f)"
  unfolding queue_create_def queue_cancel_def queue_mark_promoted_def queue_promote_def
  by (intro keeps_db_sound keeps_intros keeps_db timed_intros; simp)+

lemma sound_locks [keeps_sound]:
  "keeps db_sound (lock_acquire l)"
  "keeps db_sound (lock_acquire_for_active l owner now)"
  "keeps db_sound (lock_acquire_for_maintenance l now)"
  "keeps db_sound (lock_release b i)"
  "keeps db_sound (lock_recover_stale live now)"
  unfolding lock_acquire_def lock_acquire_for_active_def lock_acquire_for_maintenance_def
    lock_release_def lock_recover_stale_def
  by (intro keeps_db_sound keeps_intros keeps_db timed_intros)+

lemma sound_records [keeps_sound]:
  "keeps db_sound (event_create e)"
  "keeps db_sound (operation_recover_incomplete now)"
  "keeps db_sound (recovery_start now)"
  "keeps db_sound (recovery_complete i rep)"
  unfolding event_create_def
  by (intro keeps_db_sound keeps_intros keeps_db timed_intros
      | simp add: recovery_start_def recovery_complete_def keeps_def runM split: if_splits)+

lemma sound_emit_event [keeps_sound]:
  "keeps (\<lambda>w. db_sound (w_db w)) (emit_event t ty s b r a p k)"
  unfolding emit_event_def by (intro keeps_intros keeps_sound)

text \<open>An event never fails, and changes nothing else.\<close>

lemma wp_event_create [wpM]: "wp (event_create e) Q E d = Q e (event_added e d)"
  by (simp add: event_create_def wp_def runM run_insert_event)

lemma run_event_create [runM]: "event_create e d = (Inr e, event_added e d)"
  by (simp add: event_create_def runM run_insert_event)

section \<open>Sample data\<close>

text \<open>A row, a store and a world to apply the properties to.\<close>

definition sample_row :: "uuid \<Rightarrow> string \<Rightarrow> string \<Rightarrow> reservation_status \<Rightarrow> time \<Rightarrow> time \<Rightarrow> reservation" where
  "sample_row i bench owner status s e =
     \<lparr>res_id = i, res_organisation_id = LEGACY_ORGANISATION_ID, res_bench_id = bench, res_owner = owner,
      res_owner_principal_id = None, res_owner_principal_type = None, res_created_at = s,
      res_released_at = None, res_status = status, res_requested_at = Some s, res_starts_at = Some s,
      res_ends_at = Some e, res_activated_at = None, res_expired_at = None, res_source = SourceApi,
      res_metadata = [], res_idempotency_key = None, res_release_pending = False\<rparr>"

lemma sample_row_simps [simp]:
  "res_id (sample_row i b ow st s e) = i"
  "res_organisation_id (sample_row i b ow st s e) = LEGACY_ORGANISATION_ID"
  "res_bench_id (sample_row i b ow st s e) = b" "res_owner (sample_row i b ow st s e) = ow"
  "res_status (sample_row i b ow st s e) = st" "res_starts_at (sample_row i b ow st s e) = Some s"
  "res_ends_at (sample_row i b ow st s e) = Some e"
  "res_idempotency_key (sample_row i b ow st s e) = None"
  by (simp_all add: sample_row_def)

definition sample_world :: "db \<Rightarrow> time \<Rightarrow> world" where
  "sample_world d now = \<lparr>w_db = d, w_clock = (\<lambda>n. now + int n), w_ticks = 0,
     w_uuids = (\<lambda>n. replicate (Suc n) CHR ''u''), w_drawn = 0\<rparr>"

lemma sample_world_simps [simp]:
  "w_db (sample_world d now) = d" "w_clock (sample_world d now) n = now + int n"
  "w_ticks (sample_world d now) = 0" "w_drawn (sample_world d now) = 0"
  by (simp_all add: sample_world_def)

text \<open>A store with one row.\<close>

definition one_row_db :: "reservation \<Rightarrow> db" where
  "one_row_db r = empty_db\<lparr>db_reservations := [r]\<rparr>"

lemma one_row_db_simps [simp]:
  "db_reservations (one_row_db r) = [r]" "db_queue (one_row_db r) = []" "db_locks (one_row_db r) = []"
  "db_operations (one_row_db r) = []" "db_events (one_row_db r) = []" "lock_on b (one_row_db r) = None"
  "find_reservation i (one_row_db r) = (if res_id r = i then Some r else None)"
  by (simp_all add: one_row_db_def empty_db_def lock_on_def find_reservation_def)

lemma one_row_sound [simp]:
  assumes "res_starts_at r = Some s" and "res_ends_at r = Some e" and "s < e"
  shows "db_sound (one_row_db r)"
  using assms
  by (simp add: db_sound_def db_ok_def fully_timed_def reservations_ok_def queue_ok_def locks_ok_def
      events_ok_def operations_ok_def)

end
