(* ===== verification/ReservationService.thy ===== *)
theory ReservationService
  imports World
begin

text \<open>
  \<open>ReservationService\<close> (\<open>core/reservations.py\<close>): creating, queueing, releasing, cancelling and
  extending reservations on behalf of an owner, over the repositories of the store.
\<close>

section \<open>Configuration and helpers\<close>

record service =
  sv_availability :: "(string \<Rightarrow> bool) option"
  sv_has_operation_locks :: bool
  sv_default_duration_seconds :: int
  sv_maximum_duration_seconds :: int
  sv_queue_enabled :: bool

text \<open>\<open>__init__\<close>.\<close>

definition make_service :: "service \<Rightarrow> error + service" where
  "make_service s =
     (if sv_default_duration_seconds s \<le> 0 then Inl ValueError
      else if sv_maximum_duration_seconds s < sv_default_duration_seconds s then Inl ValueError
      else Inr s)"

definition is_online :: "service \<Rightarrow> string \<Rightarrow> bool" where
  "is_online s bench = (case sv_availability s of None \<Rightarrow> True | Some f \<Rightarrow> f bench)"

definition validate_duration :: "service \<Rightarrow> int \<Rightarrow> ('w, unit) io" where
  "validate_duration s duration =
     (if duration \<le> 0 then raiseM ValueError
      else if sv_maximum_duration_seconds s < duration
      then raiseM ReservationMaxDurationExceededError
      else returnM ())"

definition validate_identity :: "string \<Rightarrow> string \<Rightarrow> ('w, unit) io" where
  "validate_identity bench owner =
     (if py_strip bench = [] \<or> py_strip owner = [] then raiseM ValueError else returnM ())"

definition check_owner :: "reservation \<Rightarrow> string \<Rightarrow> ('w, unit) io" where
  "check_owner r owner =
     (if res_owner r \<noteq> owner then raiseM ReservationOwnerMismatchError else returnM ())"

definition reservation_event_key :: "uuid \<Rightarrow> string \<Rightarrow> string" where
  "reservation_event_key i event_type = ''reservation:'' @ i @ '':'' @ event_type"

definition reservation_payload :: "reservation \<Rightarrow> payload \<Rightarrow> payload" where
  "reservation_payload r payload =
     dict_update [(''reservation_id'', JStr (res_id r)),
                  (''status'', JStr (reservation_status_value (res_status r)))] payload"

text \<open>\<open>_emit\<close>.\<close>

definition sv_emit :: "reservation \<Rightarrow> string \<Rightarrow> string option \<Rightarrow> payload \<Rightarrow> (world, unit) io" where
  "sv_emit r event_type actor payload =
     bindM clock_now (\<lambda>timestamp.
     emit_event timestamp event_type ''platform'' (Some (res_bench_id r)) (Some (res_id r)) actor
       (reservation_payload r payload) (Some (reservation_event_key (res_id r) event_type)))"

section \<open>Queueing\<close>

definition sv_enqueue ::
    "service \<Rightarrow> string \<Rightarrow> string \<Rightarrow> int option \<Rightarrow> string option \<Rightarrow> (world, queue_entry) io" where
  "sv_enqueue s bench owner duration_seconds key =
     (if \<not> sv_queue_enabled s then raiseM QueueDisabledError
      else
        let duration = (case duration_seconds of None \<Rightarrow> sv_default_duration_seconds s
                        | Some n \<Rightarrow> n)
        in
        bindM (validate_duration s duration) (\<lambda>_.
        bindM (validate_identity bench owner) (\<lambda>_.
        bindM (if truthy key then on_db (queue_get_by_idempotency_key bench (the key) None)
               else returnM None) (\<lambda>existing.
        case existing of
          Some q \<Rightarrow> returnM q
        | None \<Rightarrow>
            bindM clock_now (\<lambda>created_at.
            bindM uuid4 (\<lambda>i.
            bindM (make_queue_entry
              \<lparr>qe_id = i, qe_organisation_id = LEGACY_ORGANISATION_ID, qe_bench_id = bench,
               qe_owner = owner, qe_owner_principal_id = None, qe_owner_principal_type = None,
               qe_requested_duration_seconds = duration, qe_description = None,
               qe_status = QWaiting, qe_created_at = created_at, qe_promoted_at = None,
               qe_cancelled_at = None, qe_position = None, qe_idempotency_key = key\<rparr>) (\<lambda>entry.
            bindM (on_db (queue_create entry)) (\<lambda>created.
            bindM clock_now (\<lambda>timestamp.
            bindM (emit_event timestamp ''QUEUE_ENTRY_CREATED'' ''platform'' (Some bench) None
               (Some owner) [(''queue_entry_id'', JStr (qe_id created))]
               (Some (''queue:'' @ qe_id created @ '':created''))) (\<lambda>_.
            returnM created))))))))))"

definition sv_cancel_queue_entry :: "uuid \<Rightarrow> string \<Rightarrow> (world, queue_entry) io" where
  "sv_cancel_queue_entry entry_id owner =
     bindM (on_db (queue_get entry_id None)) (\<lambda>found.
     case found of
       None \<Rightarrow> raiseM QueueEntryNotFoundError
     | Some entry \<Rightarrow>
         if qe_owner entry \<noteq> owner then raiseM QueueOwnerMismatchError
         else if qe_status entry = QCancelled then returnM entry
         else
           bindM clock_now (\<lambda>now.
           bindM (on_db (queue_cancel entry_id owner now None)) (\<lambda>cancelled.
           bindM clock_now (\<lambda>timestamp.
           bindM (emit_event timestamp ''QUEUE_ENTRY_CANCELLED'' ''platform''
              (Some (qe_bench_id entry)) None (Some owner)
              [(''queue_entry_id'', JStr (qe_id entry))]
              (Some (''queue:'' @ qe_id entry @ '':cancelled''))) (\<lambda>_.
           returnM cancelled)))))"

section \<open>Creating\<close>

text \<open>The result of \<open>create\<close>, \<open>Reservation | QueueEntry\<close>.\<close>

datatype booking = Booked reservation | Enqueued queue_entry

record request =
  rq_bench_id :: string
  rq_owner :: string
  rq_duration_seconds :: "int option"
  rq_starts_at :: "time option"
  rq_queue_if_busy :: bool
  rq_idempotency_key :: "string option"
  rq_source :: reservation_source
  rq_metadata :: "(string \<times> string) list"
  rq_event_type_override :: "string option"

definition request_duration :: "service \<Rightarrow> request \<Rightarrow> int" where
  "request_duration s rq =
     (case rq_duration_seconds rq of None \<Rightarrow> sv_default_duration_seconds s | Some n \<Rightarrow> n)"

definition request_start :: "request \<Rightarrow> time \<Rightarrow> time" where
  "request_start rq now = (case rq_starts_at rq of None \<Rightarrow> now | Some t \<Rightarrow> t)"

text \<open>The lookups by idempotency key at the start of \<open>create\<close>.\<close>

definition sv_previous :: "request \<Rightarrow> (world, booking option) io" where
  "sv_previous rq =
     (if truthy (rq_idempotency_key rq) then
        bindM (on_db (repo_get_by_idempotency_key (rq_bench_id rq) (the (rq_idempotency_key rq)) None))
        (\<lambda>existing. case existing of
           Some r \<Rightarrow> returnM (Some (Booked r))
         | None \<Rightarrow>
             if rq_queue_if_busy rq then
               bindM (on_db (queue_get_by_idempotency_key (rq_bench_id rq)
                  (the (rq_idempotency_key rq)) None)) (\<lambda>queued.
               returnM (map_option Enqueued queued))
             else returnM None)
      else returnM None)"

definition sv_enqueue_request :: "service \<Rightarrow> request \<Rightarrow> (world, booking) io" where
  "sv_enqueue_request s rq =
     bindM (sv_enqueue s (rq_bench_id rq) (rq_owner rq) (Some (request_duration s rq))
        (rq_idempotency_key rq)) (\<lambda>q. returnM (Enqueued q))"

definition requested_reservation ::
    "uuid \<Rightarrow> time \<Rightarrow> service \<Rightarrow> request \<Rightarrow> reservation" where
  "requested_reservation i now s rq =
     (let start = request_start rq now; immediate = (start = now)
      in \<lparr>res_id = i, res_organisation_id = LEGACY_ORGANISATION_ID,
          res_bench_id = rq_bench_id rq, res_owner = rq_owner rq,
          res_owner_principal_id = None, res_owner_principal_type = None,
          res_created_at = now, res_released_at = None,
          res_status = (if immediate then Active else Scheduled),
          res_requested_at = Some now, res_starts_at = Some start,
          res_ends_at = Some (start + seconds (request_duration s rq)),
          res_activated_at = (if immediate then Some now else None), res_expired_at = None,
          res_source = rq_source rq, res_metadata = rq_metadata rq,
          res_idempotency_key = rq_idempotency_key rq, res_release_pending = False\<rparr>)"

text \<open>The \<open>try\<close> block that inserts the reservation, and the event.\<close>

definition sv_insert :: "service \<Rightarrow> request \<Rightarrow> time \<Rightarrow> (world, booking) io" where
  "sv_insert s rq now =
     bindM uuid4 (\<lambda>i.
     bindM (make_reservation (requested_reservation i now s rq)) (\<lambda>r.
     bindM
       (catchM (bindM (on_db (repo_create r)) (\<lambda>created. returnM (Booked created)))
         (\<lambda>exc. if (exc = ReservationTimeConflictError \<or> exc = BenchOperationInProgressError) \<and>
                   request_start rq now = now \<and> rq_queue_if_busy rq
                then sv_enqueue_request s rq else raiseM exc))
       (\<lambda>b. case b of
          Enqueued q \<Rightarrow> returnM b
        | Booked r' \<Rightarrow>
            bindM (sv_emit r'
               (case rq_event_type_override rq of
                  Some t \<Rightarrow> if t \<noteq> [] then t
                            else if request_start rq now = now then ''RESERVATION_ACTIVATED''
                            else ''RESERVATION_SCHEDULED''
                | None \<Rightarrow> if request_start rq now = now then ''RESERVATION_ACTIVATED''
                          else ''RESERVATION_SCHEDULED'')
               (Some (rq_owner rq)) []) (\<lambda>_.
            returnM b))))"

text \<open>\<open>create\<close> after the lookups by key: the three refusals, each of which may queue, or the insert.\<close>

definition sv_create_new :: "service \<Rightarrow> request \<Rightarrow> time \<Rightarrow> (world, booking) io" where
  "sv_create_new s rq now =
     (let start = request_start rq now;
          immediate = (start = now);
          ends_at = start + seconds (request_duration s rq)
      in
      if immediate \<and> \<not> is_online s (rq_bench_id rq) then
        if rq_queue_if_busy rq then sv_enqueue_request s rq else raiseM BenchOfflineError
      else
        bindM (on_db (repo_find_conflict (rq_bench_id rq) start ends_at None)) (\<lambda>conflict.
        case conflict of
          Some x \<Rightarrow>
            if immediate \<and> rq_queue_if_busy rq then sv_enqueue_request s rq
            else if immediate \<and> holding x then raiseM BenchAlreadyReservedError
            else raiseM ReservationTimeConflictError
        | None \<Rightarrow>
            bindM (if immediate \<and> sv_has_operation_locks s
                   then on_db (lock_get (rq_bench_id rq)) else returnM None) (\<lambda>lock.
            case lock of
              Some _ \<Rightarrow>
                if rq_queue_if_busy rq then sv_enqueue_request s rq
                else raiseM BenchOperationInProgressError
            | None \<Rightarrow> sv_insert s rq now)))"

definition sv_create :: "service \<Rightarrow> request \<Rightarrow> (world, booking) io" where
  "sv_create s rq =
     bindM (validate_duration s (request_duration s rq)) (\<lambda>_.
     bindM (validate_identity (rq_bench_id rq) (rq_owner rq)) (\<lambda>_.
     bindM clock_now (\<lambda>now.
     if request_start rq now < now then raiseM ReservationTimeConflictError
     else
       bindM (sv_previous rq) (\<lambda>previous.
       case previous of Some b \<Rightarrow> returnM b | None \<Rightarrow> sv_create_new s rq now))))"

definition reserve_request :: "string \<Rightarrow> string \<Rightarrow> request" where
  "reserve_request bench owner =
     \<lparr>rq_bench_id = bench, rq_owner = owner, rq_duration_seconds = None, rq_starts_at = None,
      rq_queue_if_busy = False, rq_idempotency_key = None, rq_source = SourceApi,
      rq_metadata = [], rq_event_type_override = Some ''BENCH_RESERVED''\<rparr>"

definition sv_reserve :: "service \<Rightarrow> string \<Rightarrow> string \<Rightarrow> (world, reservation) io" where
  "sv_reserve s bench owner =
     bindM (on_db (repo_get_active bench None)) (\<lambda>existing.
     case existing of
       Some x \<Rightarrow> if res_owner x = owner \<and> res_status x = Active then returnM x
                 else raiseM BenchAlreadyReservedError
     | None \<Rightarrow>
         bindM (sv_create s (reserve_request bench owner)) (\<lambda>created.
         case created of
           Enqueued _ \<Rightarrow> raiseM AssertionError
         | Booked r \<Rightarrow> returnM r))"

section \<open>Lookups and guards\<close>

definition sv_get :: "uuid \<Rightarrow> (world, reservation) io" where
  "sv_get rid =
     bindM (on_db (repo_get rid None)) (\<lambda>found.
     case found of None \<Rightarrow> raiseM ReservationNotFoundError | Some r \<Rightarrow> returnM r)"

definition sv_require_active :: "string \<Rightarrow> string \<Rightarrow> (world, uuid) io" where
  "sv_require_active bench owner =
     bindM (on_db (repo_get_active bench None)) (\<lambda>found.
     case found of
       None \<Rightarrow> raiseM ReservationNotActiveError
     | Some r \<Rightarrow>
         if res_status r \<noteq> Active then raiseM ReservationNotActiveError
         else
           bindM (case res_ends_at r of None \<Rightarrow> returnM False
                  | Some e \<Rightarrow> bindM clock_now (\<lambda>now. returnM (e \<le> now))) (\<lambda>ended.
           if ended then raiseM ReservationNotActiveError
           else if res_owner r \<noteq> owner then raiseM ReservationOwnerMismatchError
           else returnM (res_id r)))"

definition sv_require_owner :: "string \<Rightarrow> string \<Rightarrow> (world, uuid) io" where
  "sv_require_owner bench owner =
     catchM (sv_require_active bench owner)
       (\<lambda>exc. if exc = ReservationNotActiveError then raiseM BenchNotReservedError else raiseM exc)"

section \<open>Releasing, cancelling, extending\<close>

text \<open>The part of \<open>release\<close> after the reservation is known; \<open>legacy\<close> when it was named by its bench.\<close>

definition sv_release_by_id ::
    "service \<Rightarrow> bool \<Rightarrow> uuid \<Rightarrow> string \<Rightarrow> (world, reservation) io" where
  "sv_release_by_id s legacy rid owner =
     bindM (sv_get rid) (\<lambda>r.
     bindM (check_owner r owner) (\<lambda>_.
     if res_status r = Released then returnM r
     else if res_status r \<noteq> Active then raiseM ReservationNotActiveError
     else
       bindM (if sv_has_operation_locks s then on_db (lock_get (res_bench_id r))
              else returnM None) (\<lambda>lock.
       case lock of
         Some _ \<Rightarrow> raiseM BenchOperationInProgressError
       | None \<Rightarrow>
           bindM clock_now (\<lambda>now.
           bindM (on_db (repo_update
              (r\<lparr>res_status := Released, res_released_at := Some now, res_release_pending := False\<rparr>)
              (Some Active) None True)) (\<lambda>updated.
           bindM (sv_emit updated (if legacy then ''BENCH_RELEASED'' else ''RESERVATION_RELEASED'')
              (Some owner) []) (\<lambda>_.
           returnM updated))))))"

text \<open>\<open>release\<close> takes a reservation's identifier, or a bench (\<open>str\<close>).\<close>

datatype release_target = ByReservation uuid | ByBench string

definition sv_release ::
    "service \<Rightarrow> release_target \<Rightarrow> string \<Rightarrow> (world, reservation option) io" where
  "sv_release s target owner =
     (case target of
        ByReservation rid \<Rightarrow> bindM (sv_release_by_id s False rid owner) (\<lambda>r. returnM (Some r))
      | ByBench bench \<Rightarrow>
          bindM (on_db (repo_get_active bench None)) (\<lambda>active.
          case active of
            None \<Rightarrow> returnM None
          | Some r \<Rightarrow> bindM (sv_release_by_id s True (res_id r) owner) (\<lambda>r. returnM (Some r))))"

definition sv_cancel :: "service \<Rightarrow> uuid \<Rightarrow> string \<Rightarrow> (world, reservation) io" where
  "sv_cancel s rid owner =
     bindM (sv_get rid) (\<lambda>r.
     bindM (check_owner r owner) (\<lambda>_.
     if res_status r = Cancelled then returnM r
     else if res_status r \<noteq> Scheduled \<and> res_status r \<noteq> Active
     then raiseM ReservationNotActiveError
     else
       bindM (if res_status r = Active \<and> sv_has_operation_locks s
              then on_db (lock_get (res_bench_id r)) else returnM None) (\<lambda>lock.
       case lock of
         Some _ \<Rightarrow> raiseM BenchOperationInProgressError
       | None \<Rightarrow>
           bindM clock_now (\<lambda>now.
           bindM (on_db (repo_update (r\<lparr>res_status := Cancelled, res_released_at := Some now\<rparr>)
              (Some (res_status r)) None (res_status r = Active))) (\<lambda>updated.
           bindM (sv_emit updated ''RESERVATION_CANCELLED'' (Some owner) []) (\<lambda>_.
           returnM updated))))))"

text \<open>\<open>starts_at or requested_at or created_at\<close>.\<close>

definition extension_base :: "reservation \<Rightarrow> time" where
  "extension_base r =
     (case res_starts_at r of Some t \<Rightarrow> t
      | None \<Rightarrow> (case res_requested_at r of Some t \<Rightarrow> t | None \<Rightarrow> res_created_at r))"

definition sv_extend :: "service \<Rightarrow> uuid \<Rightarrow> string \<Rightarrow> int \<Rightarrow> (world, reservation) io" where
  "sv_extend s rid owner duration_seconds =
     (if duration_seconds \<le> 0 then raiseM ValueError
      else
        bindM (sv_get rid) (\<lambda>r.
        bindM (check_owner r owner) (\<lambda>_.
        case res_ends_at r of
          None \<Rightarrow> raiseM ReservationNotActiveError
        | Some ends_at \<Rightarrow>
            if res_status r \<noteq> Active then raiseM ReservationNotActiveError
            else
              bindM clock_now (\<lambda>now.
              if ends_at \<le> now then raiseM ReservationAlreadyExpiredError
              else
                let new_end = ends_at + seconds duration_seconds
                in
                if seconds (sv_maximum_duration_seconds s) < new_end - extension_base r
                then raiseM ReservationMaxDurationExceededError
                else
                  bindM (on_db (repo_find_conflict (res_bench_id r) ends_at new_end
                     (Some (res_id r)))) (\<lambda>conflict.
                  case conflict of
                    Some _ \<Rightarrow> raiseM ReservationExtensionConflictError
                  | None \<Rightarrow>
                      bindM
                        (catchM (on_db (repo_update (r\<lparr>res_ends_at := Some new_end\<rparr>)
                             (Some Active) (Some ends_at) False))
                          (\<lambda>exc. if exc = ReservationTimeConflictError \<or>
                                    exc = ReservationNotActiveError
                                 then raiseM ReservationExtensionConflictError else raiseM exc))
                      (\<lambda>updated.
                      bindM (sv_emit updated ''RESERVATION_EXTENDED'' (Some owner)
                         [(''duration_seconds'', JInt duration_seconds),
                          (''ends_at'', JTime new_end)]) (\<lambda>_.
                      returnM updated)))))))"

section \<open>Every operation keeps the store sound\<close>

abbreviation sound :: "world \<Rightarrow> bool" where
  "sound w \<equiv> db_sound (w_db w)"

lemma wp_emit_event [wpM]:
  "wp (emit_event t ty src b r a p k) Q E w =
     Q () (w\<lparr>w_drawn := Suc (w_drawn w), w_db := event_added (make_event
        \<lparr>ev_id = w_uuids w (w_drawn w), ev_timestamp = t, ev_type = ty, ev_source = src,
         ev_bench_id = b, ev_reservation_id = r, ev_operation_id = None, ev_actor = a,
         ev_payload = p, ev_deduplication_key = k\<rparr>) (w_db w)\<rparr>)"
  by (simp add: emit_event_def wpM)

lemma keeps_checks [keeps_intros]:
  "keeps I (validate_duration s n)" "keeps I (validate_identity b owner)" "keeps I (check_owner r owner)"
  unfolding validate_duration_def validate_identity_def check_owner_def by (intro keeps_intros)+

lemma sound_emit [keeps_sound]: "keeps sound (sv_emit r ty a p)"
  unfolding sv_emit_def by (intro keeps_intros keeps_sound)

lemma keeps_make_reservation_bind:
  "(reservation_time_range_ok (strip_reservation r) \<Longrightarrow> keeps I (f (strip_reservation r))) \<Longrightarrow>
   keeps I (bindM (make_reservation r) f)"
  by (simp add: make_reservation_def Let_def keeps_intros)

lemma keeps_get_bind:
  assumes "\<And>r. res_starts_at r \<noteq> None \<Longrightarrow> res_ends_at r \<noteq> None \<Longrightarrow> keeps sound (f r)"
  shows "keeps sound (bindM (sv_get rid) f)"
proof (rule keepsI)
  fix w assume w: "sound w"
  show "sound (snd (bindM (sv_get rid) f w))"
  proof (cases "find_reservation rid (w_db w)")
    case None
    with w show ?thesis by (simp add: sv_get_def runM run_repo_get)
  next
    case (Some r)
    then have "res_starts_at r \<noteq> None \<and> res_ends_at r \<noteq> None"
      using w find_reservation_Some[OF Some] by (simp add: db_sound_def fully_timed_def)
    then have "sound (snd (f r w))" using keepsD[OF assms w] by simp
    with Some show ?thesis by (simp add: sv_get_def runM run_repo_get)
  qed
qed

lemma sound_enqueue [keeps_sound]: "keeps sound (sv_enqueue s b owner n key)"
  unfolding sv_enqueue_def Let_def by (intro keeps_intros keeps_sound)

lemma sound_cancel_queue_entry [keeps_sound]: "keeps sound (sv_cancel_queue_entry i owner)"
  unfolding sv_cancel_queue_entry_def by (intro keeps_intros keeps_sound)

lemma keeps_booking [keeps_intros]:
  "(\<And>r. keeps I (f r)) \<Longrightarrow> (\<And>q. keeps I (g q)) \<Longrightarrow>
   keeps I (case b of Booked r \<Rightarrow> f r | Enqueued q \<Rightarrow> g q)"
  by (simp split: booking.splits)

lemma sound_insert [keeps_sound]: "keeps sound (sv_insert s rq now)"
  unfolding sv_insert_def sv_enqueue_request_def
  by (intro keeps_make_reservation_bind keeps_intros keeps_sound)
    (simp_all add: requested_reservation_def Let_def)

lemma sound_create [keeps_sound]: "keeps sound (sv_create s rq)"
  unfolding sv_create_def sv_create_new_def Let_def sv_previous_def sv_enqueue_request_def
  by (intro keeps_intros keeps_sound)

lemma sound_reserve [keeps_sound]: "keeps sound (sv_reserve s b owner)"
  unfolding sv_reserve_def by (intro keeps_intros keeps_sound)

lemma sound_release_by_id [keeps_sound]: "keeps sound (sv_release_by_id s legacy rid owner)"
  unfolding sv_release_by_id_def by (intro keeps_get_bind keeps_intros keeps_sound) simp_all

lemma keeps_release_target [keeps_intros]:
  "(\<And>r. keeps I (f r)) \<Longrightarrow> (\<And>q. keeps I (g q)) \<Longrightarrow>
   keeps I (case b of ByReservation r \<Rightarrow> f r | ByBench q \<Rightarrow> g q)"
  by (simp split: release_target.splits)

lemma sound_release [keeps_sound]: "keeps sound (sv_release s target owner)"
  unfolding sv_release_def by (intro keeps_intros keeps_sound)

lemma sound_cancel [keeps_sound]: "keeps sound (sv_cancel s rid owner)"
  unfolding sv_cancel_def by (intro keeps_get_bind keeps_intros keeps_sound) simp_all

lemma sound_extend [keeps_sound]: "keeps sound (sv_extend s rid owner n)"
  unfolding sv_extend_def Let_def by (intro keeps_get_bind keeps_intros keeps_sound) simp_all

section \<open>What the operations do\<close>

lemma world_same_db [simp]: "w\<lparr>w_db := w_db w\<rparr> = w"
  by (cases w) simp

lemma wp_sv_get [wpM]:
  "wp (sv_get rid) Q E w =
     (case find_reservation rid (w_db w) of
        None \<Rightarrow> E ReservationNotFoundError w | Some r \<Rightarrow> Q r w)"
  by (simp add: sv_get_def wp_def runM run_repo_get split: option.splits)

lemma wp_check_owner [wpM]:
  "wp (check_owner r owner) Q E w =
     (if res_owner r = owner then Q () w else E ReservationOwnerMismatchError w)"
  by (simp add: check_owner_def wpM)

lemma wp_lock_get [wpM]: "wp (lock_get b) Q E d = Q (map_option lr_lock (lock_on b d)) d"
  by (simp add: wp_def run_lock_get)

text \<open>\<open>row_written x d d'\<close>: between the stores, only the row of \<open>x\<close> and the events differ.\<close>

definition row_written :: "reservation \<Rightarrow> db \<Rightarrow> db \<Rightarrow> bool" where
  "row_written x d d' \<longleftrightarrow> db_reservations d' = db_reservations (put_reservation x d) \<and>
     db_queue d' = db_queue d \<and> db_locks d' = db_locks d \<and> db_operations d' = db_operations d"

lemma row_written_event [simp]: "row_written x d (event_added e (put_reservation x d))"
  by (simp add: row_written_def)

lemma wp_sv_emit [wpM]:
  "wp (sv_emit r ty a p) Q E w = Q () (w\<lparr>w_ticks := Suc (w_ticks w), w_drawn := Suc (w_drawn w),
     w_db := event_added (make_event
        \<lparr>ev_id = w_uuids w (w_drawn w), ev_timestamp = w_clock w (w_ticks w), ev_type = ty,
         ev_source = ''platform'', ev_bench_id = Some (res_bench_id r),
         ev_reservation_id = Some (res_id r), ev_operation_id = None, ev_actor = a,
         ev_payload = reservation_payload r p,
         ev_deduplication_key = Some (reservation_event_key (res_id r) ty)\<rparr>) (w_db w)\<rparr>)"
  by (simp add: sv_emit_def wpM)

definition released_row :: "time \<Rightarrow> reservation \<Rightarrow> reservation" where
  "released_row now r = r\<lparr>res_status := Released, res_released_at := Some now, res_release_pending := False\<rparr>"

definition cancelled_row :: "time \<Rightarrow> reservation \<Rightarrow> reservation" where
  "cancelled_row now r = r\<lparr>res_status := Cancelled, res_released_at := Some now\<rparr>"

lemma released_row_simps [simp]:
  "res_id (released_row now r) = res_id r" "res_id (cancelled_row now r) = res_id r"
  "res_bench_id (released_row now r) = res_bench_id r" "res_bench_id (cancelled_row now r) = res_bench_id r"
  "res_owner (released_row now r) = res_owner r" "res_owner (cancelled_row now r) = res_owner r"
  "res_status (released_row now r) = Released" "res_status (cancelled_row now r) = Cancelled"
  "res_starts_at (released_row now r) = res_starts_at r" "res_ends_at (released_row now r) = res_ends_at r"
  "\<not> occupying (released_row now r)" "\<not> occupying (cancelled_row now r)"
  by (simp_all add: released_row_def cancelled_row_def occupying_def)

text \<open>
  Releasing: for the owner only, from an active reservation only, with no operation running. An
  error leaves the store as it was.
\<close>

lemma wp_sv_release_by_id:
  assumes "sound w"
  shows "wp (sv_release_by_id s legacy rid owner)
     (\<lambda>x w'. \<exists>r. find_reservation rid (w_db w) = Some r \<and> res_owner r = owner \<and>
        (res_status r = Released \<and> x = r \<and> w' = w \<or>
         res_status r = Active \<and> lock_on (res_bench_id r) (w_db w) = None \<and>
         (\<exists>now. x = released_row now r) \<and> row_written x (w_db w) (w_db w')))
     (\<lambda>e w'. w_db w' = w_db w) w"
proof (cases "find_reservation rid (w_db w)")
  case None
  then show ?thesis by (simp add: sv_release_by_id_def wpM)
next
  case (Some r)
  have ok: "reservations_ok (db_reservations (w_db w))" using assms db_soundD(2) by blast
  show ?thesis
  proof (cases "res_owner r = owner \<and> res_status r = Active \<and>
      (sv_has_operation_locks s \<longrightarrow> lock_on (res_bench_id r) (w_db w) = None)")
    case False
    with Some show ?thesis by (auto simp: sv_release_by_id_def wpM split: option.splits)
  next
    case True
    have upd: "wp (repo_update (released_row now r) (Some Active) None True)
        (\<lambda>x d'. x = released_row now r \<and> d' = put_reservation x (w_db w) \<and>
           lock_on (res_bench_id r) (w_db w) = None) (\<lambda>e d'. d' = w_db w) (w_db w)" for now
      by (rule wp_mono[OF wp_repo_update[OF ok]]) auto
    show ?thesis
      using Some True unfolding sv_release_by_id_def
      by (simp add: wpM flip: released_row_def) (auto intro!: wp_mono[OF upd])
  qed
qed

lemma wp_sv_cancel:
  assumes "sound w"
  shows "wp (sv_cancel s rid owner)
     (\<lambda>x w'. \<exists>r. find_reservation rid (w_db w) = Some r \<and> res_owner r = owner \<and>
        (res_status r = Cancelled \<and> x = r \<and> w' = w \<or>
         (res_status r = Scheduled \<or>
          res_status r = Active \<and> lock_on (res_bench_id r) (w_db w) = None) \<and>
         (\<exists>now. x = cancelled_row now r) \<and> row_written x (w_db w) (w_db w')))
     (\<lambda>e w'. w_db w' = w_db w) w"
proof (cases "find_reservation rid (w_db w)")
  case None
  then show ?thesis by (simp add: sv_cancel_def wpM)
next
  case (Some r)
  have ok: "reservations_ok (db_reservations (w_db w))" using assms db_soundD(2) by blast
  show ?thesis
  proof (cases "res_owner r = owner \<and> (res_status r = Scheduled \<or> res_status r = Active \<and>
      (sv_has_operation_locks s \<longrightarrow> lock_on (res_bench_id r) (w_db w) = None))")
    case False
    with Some show ?thesis by (auto simp: sv_cancel_def wpM split: option.splits)
  next
    case True
    have upd: "wp (repo_update (cancelled_row now r) st None u)
        (\<lambda>x d'. x = cancelled_row now r \<and> d' = put_reservation x (w_db w) \<and>
           (u \<longrightarrow> lock_on (res_bench_id r) (w_db w) = None))
        (\<lambda>e d'. d' = w_db w) (w_db w)" for now st u
      by (rule wp_mono[OF wp_repo_update[OF ok]]) auto
    show ?thesis
      using Some True unfolding sv_cancel_def
      by (auto simp: wpM simp flip: cancelled_row_def intro!: wp_mono[OF upd])
  qed
qed

text \<open>
  Extending: for the owner only, an active reservation that has not ended, by a positive number of
  seconds, within the maximum duration and clear of every other occupying reservation.
\<close>

lemma wp_sv_extend:
  assumes "sound w"
  shows "wp (sv_extend s rid owner n)
     (\<lambda>x w'. 0 < n \<and> (\<exists>r e. find_reservation rid (w_db w) = Some r \<and> res_owner r = owner \<and>
        res_status r = Active \<and> res_ends_at r = Some e \<and> w_clock w (w_ticks w) < e \<and>
        x = r\<lparr>res_ends_at := Some (e + seconds n)\<rparr> \<and>
        e + seconds n - extension_base r \<le> seconds (sv_maximum_duration_seconds s) \<and>
        row_written x (w_db w) (w_db w')))
     (\<lambda>e w'. w_db w' = w_db w) w"
proof (cases "find_reservation rid (w_db w)")
  case None
  then show ?thesis by (simp add: sv_extend_def wpM)
next
  case (Some r)
  have ok: "reservations_ok (db_reservations (w_db w))" using assms db_soundD(2) by blast
  obtain e where e: "res_ends_at r = Some e"
    using assms find_reservation_Some[OF Some] unfolding db_sound_def fully_timed_def by fastforce
  show ?thesis
  proof (cases "0 < n \<and> res_owner r = owner \<and> res_status r = Active \<and> w_clock w (w_ticks w) < e \<and>
      e + seconds n - extension_base r \<le> seconds (sv_maximum_duration_seconds s)")
    case False
    with Some e show ?thesis by (auto simp: sv_extend_def wpM Let_def)
  next
    case True
    let ?x = "r\<lparr>res_ends_at := Some (e + seconds n)\<rparr>"
    have upd: "wp (repo_update ?x (Some Active) (Some e) False)
        (\<lambda>x d'. x = ?x \<and> d' = put_reservation x (w_db w)) (\<lambda>e d'. d' = w_db w) (w_db w)"
      by (rule wp_mono[OF wp_repo_update[OF ok]]) auto
    show ?thesis
      by (cases rule: repo_find_conflict_cases[of "res_bench_id r" e "e + seconds n" "Some (res_id r)" "w_db w"])
        (use Some True e in \<open>auto simp: sv_extend_def wpM Let_def
          wp_def[of "repo_find_conflict _ _ _ _"] intro!: wp_mono[OF upd]\<close>)
  qed
qed

lemma non_owner_changes_nothing:
  assumes "find_reservation rid (w_db w) = Some r" and "res_owner r \<noteq> owner"
  shows "sv_release_by_id s legacy rid owner w = (Inl ReservationOwnerMismatchError, w)"
    and "sv_cancel s rid owner w = (Inl ReservationOwnerMismatchError, w)"
    and "0 < n \<Longrightarrow> sv_extend s rid owner n w = (Inl ReservationOwnerMismatchError, w)"
  using assms
  by (simp_all add: sv_release_by_id_def sv_cancel_def sv_extend_def sv_get_def runM run_repo_get
      check_owner_def)

text \<open>When the holder of a bench is released or cancelled, nothing holds the bench.\<close>

lemma bench_free_after:
  assumes sound: "sound w" and find: "find_reservation rid (w_db w) = Some r" and "holding r"
    and x: "res_id x = rid" "res_bench_id x = res_bench_id r" "\<not> occupying x"
    and wr: "row_written x (w_db w) d'"
  shows "\<not> (\<exists>y \<in> set (db_reservations d'). res_bench_id y = res_bench_id r \<and> holding y)"
proof
  assume "\<exists>y \<in> set (db_reservations d'). res_bench_id y = res_bench_id r \<and> holding y"
  then obtain y where y: "y \<in> set (db_reservations (put_reservation x (w_db w)))"
      "res_bench_id y = res_bench_id r" "holding y"
    using wr by (auto simp: row_written_def)
  have "y \<noteq> x" using y(3) x(3) holding_occupying by blast
  then have "y \<in> set (db_reservations (w_db w))" "res_id y \<noteq> rid"
    using y(1) x(1) by (auto simp: set_put_reservation)
  moreover have "y = r"
    using holding_unique[OF db_soundD(2)[OF sound] calculation(1), of r] y find_reservation_Some[OF find]
      \<open>holding r\<close> by simp
  ultimately show False using find_reservation_Some[OF find] by simp
qed

section \<open>Queueing and creating\<close>

definition normal_queue_entry :: "queue_entry \<Rightarrow> queue_entry" where
  "normal_queue_entry q = q\<lparr>qe_bench_id := trim (qe_bench_id q), qe_owner := trim (qe_owner q),
     qe_idempotency_key := map_option trim (qe_idempotency_key q),
     qe_description := normalize_description (map_option trim (qe_description q))\<rparr>"

lemma wp_make_queue_entry:
  "wp (make_queue_entry q) Q E w =
     (if queue_entry_valid (q\<lparr>qe_bench_id := trim (qe_bench_id q), qe_owner := trim (qe_owner q),
           qe_description := map_option trim (qe_description q),
           qe_idempotency_key := map_option trim (qe_idempotency_key q)\<rparr>)
      then Q (normal_queue_entry q) w else E ValueError w)"
  by (simp add: make_queue_entry_def Let_def wpM normal_queue_entry_def)

lemma wp_validate_duration [wpM]:
  "wp (validate_duration s n) Q E w =
     (if n \<le> 0 then E ValueError w
      else if sv_maximum_duration_seconds s < n then E ReservationMaxDurationExceededError w
      else Q () w)"
  by (simp add: validate_duration_def wpM)

lemma wp_validate_identity [wpM]:
  "wp (validate_identity b owner) Q E w =
     (if py_strip b = [] \<or> py_strip owner = [] then E ValueError w else Q () w)"
  by (simp add: validate_identity_def wpM)

lemma wp_queue_lookup [wpM]:
  "wp (queue_get_by_idempotency_key b k None) Q E d =
     Q (map_option (\<lambda>x. (qr_entry x)\<lparr>qe_position :=
     (if waiting_row x then Some (queue_position (qr_entry x) d) else None)\<rparr>)
     (first_row (filter (\<lambda>x. qe_bench_id (qr_entry x) = b \<and> qe_idempotency_key (qr_entry x) = Some k \<and>
        qe_organisation_id (qr_entry x) = LEGACY_ORGANISATION_ID) (db_queue d)))) d"
  by (simp add: queue_get_by_idempotency_key_def wp_def runM with_position_run waiting_row_def
      split: option.splits)

definition queue_replayed :: "string option \<Rightarrow> queue_entry \<Rightarrow> db \<Rightarrow> bool" where
  "queue_replayed key q d \<longleftrightarrow> truthy key \<and>
     (\<exists>x \<in> set (db_queue d). qe_id (qr_entry x) = qe_id q \<and> qe_bench_id (qr_entry x) = qe_bench_id q \<and>
        qe_idempotency_key (qr_entry x) = key)"

lemma wp_queue_create:
  assumes "qe_status q = QWaiting"
  shows "wp (queue_create q)
     (\<lambda>x d'. d' = queue_appended q d \<and> x = q\<lparr>qe_position :=
          Some (1 + int (length (filter (\<lambda>x. same_queue q x \<and> waiting_row x) (db_queue d))))\<rparr> \<or>
        d' = d \<and> queue_replayed (qe_idempotency_key q) x d)
     (\<lambda>e d'. d' = d \<and> e = IntegrityError) d"
proof -
  obtain res d' where run: "queue_create q d = (res, d')" by (cases "queue_create q d")
  show ?thesis
    by (cases rule: queue_create_result[OF run assms])
      (auto simp: wp_def run queue_replayed_def)
qed

text \<open>Between the stores only the queue and the events may differ.\<close>

definition queue_only :: "db \<Rightarrow> db \<Rightarrow> bool" where
  "queue_only d d' \<longleftrightarrow> db_reservations d' = db_reservations d \<and> db_locks d' = db_locks d \<and>
     db_operations d' = db_operations d"

definition joined_queue :: "service \<Rightarrow> string \<Rightarrow> string \<Rightarrow> int \<Rightarrow> queue_entry \<Rightarrow> db \<Rightarrow> db \<Rightarrow> bool" where
  "joined_queue s bench owner n q d d' \<longleftrightarrow>
     qe_bench_id q = trim bench \<and> qe_owner q = trim owner \<and> qe_status q = QWaiting \<and>
     qe_requested_duration_seconds q = n \<and> 0 < n \<and> n \<le> sv_maximum_duration_seconds s \<and>
     qe_position q = Some (1 + int (length (filter (\<lambda>x. same_queue q x \<and> waiting_row x) (db_queue d)))) \<and>
     db_queue d' = db_queue d @ [\<lparr>qr_order = next_queue_order d, qr_entry = q\<lparr>qe_position := None\<rparr>\<rparr>]"

lemma wp_sv_enqueue:
  "wp (sv_enqueue s bench owner (Some n) key)
     (\<lambda>q w'. sv_queue_enabled s \<and> queue_only (w_db w) (w_db w') \<and>
        (joined_queue s bench owner n q (w_db w) (w_db w') \<or>
         truthy key \<and> db_queue (w_db w') = db_queue (w_db w)))
     (\<lambda>e w'. w_db w' = w_db w) w"
proof -
  let ?q = "\<lambda>i t. normal_queue_entry \<lparr>qe_id = i, qe_organisation_id = LEGACY_ORGANISATION_ID,
     qe_bench_id = bench, qe_owner = owner, qe_owner_principal_id = None, qe_owner_principal_type = None,
     qe_requested_duration_seconds = n, qe_description = None, qe_status = QWaiting,
     qe_created_at = t, qe_promoted_at = None, qe_cancelled_at = None, qe_position = None,
     qe_idempotency_key = key\<rparr>"
  have tk: "truthy (map_option trim key) \<Longrightarrow> truthy key"
    by (auto simp: truthy_def trim_def strip_with_def split: option.splits)
  have create: "wp (queue_create (?q i t))
     (\<lambda>x d'. queue_only (w_db w) d' \<and> (d' = queue_appended (?q i t) (w_db w) \<and> x = (?q i t)\<lparr>qe_position :=
          Some (1 + int (length (filter (\<lambda>x. same_queue (?q i t) x \<and> waiting_row x) (db_queue (w_db w)))))\<rparr> \<or>
        d' = w_db w \<and> truthy key)) (\<lambda>e d'. d' = w_db w) (w_db w)" for i t
    by (rule wp_mono[OF wp_queue_create])
      (auto simp: normal_queue_entry_def queue_only_def queue_appended_def queue_replayed_def tk)
  have joined: "joined_queue s bench owner n ((?q i t)\<lparr>qe_position := Some (1 + int (length
       (filter (\<lambda>x. same_queue (?q i t) x \<and> waiting_row x) (db_queue d))))\<rparr>) d
       (event_added e (queue_appended (?q i t) d))"
    if "0 < n" "n \<le> sv_maximum_duration_seconds s" for i t e d
    using that
    by (simp add: joined_queue_def normal_queue_entry_def queue_appended_def same_queue_def)
  show ?thesis
    unfolding sv_enqueue_def Let_def
    by (simp add: wpM wp_make_queue_entry queue_only_def split: option.splits,
        intro conjI impI; rule wp_mono[OF create])
      (auto simp: queue_only_def simp del: One_nat_def intro!: joined)
qed

lemma wp_booking [wpM]:
  "wp (case b of Booked r \<Rightarrow> f r | Enqueued q \<Rightarrow> g q) Q E w =
     (case b of Booked r \<Rightarrow> wp (f r) Q E w | Enqueued q \<Rightarrow> wp (g q) Q E w)"
  by (simp split: booking.splits)

definition new_booking :: "service \<Rightarrow> request \<Rightarrow> time \<Rightarrow> reservation \<Rightarrow> db \<Rightarrow> db \<Rightarrow> bool" where
  "new_booking s rq now r d d' \<longleftrightarrow>
     res_bench_id r = trim (rq_bench_id rq) \<and> res_owner r = trim (rq_owner rq) \<and>
     res_status r = (if request_start rq now = now then Active else Scheduled) \<and>
     res_starts_at r = Some (request_start rq now) \<and>
     res_ends_at r = Some (request_start rq now + seconds (request_duration s rq)) \<and>
     db_reservations d' = db_reservations d @ [r] \<and> db_queue d' = db_queue d \<and>
     db_locks d' = db_locks d \<and> res_id r \<notin> res_id ` set (db_reservations d) \<and>
     \<not> row_rejected r (db_reservations d) \<and>
     (request_start rq now = now \<longrightarrow> lock_on (res_bench_id r) d = None)"

text \<open>The answer to a request: a new reservation, a place in the queue, or an earlier answer.\<close>

definition request_answer :: "service \<Rightarrow> request \<Rightarrow> time \<Rightarrow> booking \<Rightarrow> db \<Rightarrow> db \<Rightarrow> bool" where
  "request_answer s rq now b d d' \<longleftrightarrow> (case b of
     Booked r \<Rightarrow>
       new_booking s rq now r d d' \<or>
       truthy (rq_idempotency_key rq) \<and> r \<in> set (db_reservations d) \<and>
       db_reservations d' = db_reservations d \<and> db_queue d' = db_queue d \<and> db_locks d' = db_locks d
   | Enqueued q \<Rightarrow>
       rq_queue_if_busy rq \<and> queue_only d d' \<and>
       (joined_queue s (rq_bench_id rq) (rq_owner rq) (request_duration s rq) q d d' \<or>
        truthy (rq_idempotency_key rq) \<and> db_queue d' = db_queue d))"

lemma wp_sv_enqueue_request:
  assumes "rq_queue_if_busy rq"
  shows "wp (sv_enqueue_request s rq)
     (\<lambda>b w'. (\<exists>q. b = Enqueued q) \<and> request_answer s rq now b (w_db w) (w_db w'))
     (\<lambda>e w'. w_db w' = w_db w) w"
  unfolding sv_enqueue_request_def wp_bind wp_return
  by (rule wp_mono[OF wp_sv_enqueue]) (auto simp: request_answer_def assms)

lemma truthy_trim: "truthy (map_option trim k) \<Longrightarrow> truthy k"
  by (auto simp: truthy_def trim_def strip_with_def split: option.splits)

lemma wp_sv_insert:
  "wp (sv_insert s rq now) (\<lambda>b w'. request_answer s rq now b (w_db w) (w_db w'))
     (\<lambda>e w'. w_db w' = w_db w) w"
proof -
  define r where "r = strip_reservation (requested_reservation (w_uuids w (w_drawn w)) now s rq)"
  let ?w = "w\<lparr>w_drawn := Suc (w_drawn w)\<rparr>"
  have queue: "wp (sv_enqueue_request s rq)
     (\<lambda>b w'. (\<exists>q. b = Enqueued q) \<and> request_answer s rq now b (w_db w) (w_db w'))
     (\<lambda>e w'. w_db w' = w_db w) ?w" if "rq_queue_if_busy rq"
    using wp_sv_enqueue_request[OF that, of s now ?w] by simp
  have fields: "res_bench_id r = trim (rq_bench_id rq)" "res_owner r = trim (rq_owner rq)"
    "res_status r = (if request_start rq now = now then Active else Scheduled)"
    "res_starts_at r = Some (request_start rq now)"
    "res_ends_at r = Some (request_start rq now + seconds (request_duration s rq))"
    "res_idempotency_key r = map_option trim (rq_idempotency_key rq)"
    by (simp_all add: r_def requested_reservation_def Let_def)
  have new: "request_answer s rq now (Booked r) (w_db w) (event_added e d')"
    if "created r (w_db w) d'" for e d'
    using that by (simp add: request_answer_def new_booking_def created_def fields)
  have old: "request_answer s rq now (Booked x) (w_db w) (event_added e (w_db w))"
    if "replayed r x (w_db w)" for e x
    using that truthy_trim[of "rq_idempotency_key rq"]
    by (simp add: request_answer_def replayed_def fields)
  obtain res d' where run: "repo_create r (w_db w) = (res, d')"
    by (cases "repo_create r (w_db w)")
  have db: "?w\<lparr>w_db := w_db w\<rparr> = ?w" by (cases w) simp
  note go = sv_insert_def wpM r_def[symmetric] wp_def[of "repo_create r"] run
  show ?thesis
  proof (cases "reservation_time_range_ok r")
    case False
    then show ?thesis by (simp add: go)
  next
    case True
    from repo_create_result[OF run] show ?thesis
    proof (elim disjE exE conjE)
      assume "res = Inr r" "created r (w_db w) d'"
      then show ?thesis using True by (simp add: go new)
    next
      fix x assume "res = Inr x" "d' = w_db w" "replayed r x (w_db w)"
      then show ?thesis using True by (simp add: go old)
    qed (use True in \<open>auto simp: go db intro!: wp_mono[OF queue]\<close>)
  qed
qed

text \<open>
  What \<open>create\<close> promises. A new reservation starts now or later, lasts as asked within the maximum,
  clashes with no row of the store, and is active exactly when it starts now, on a bench that is
  online and unlocked. A failed request leaves the store unchanged.
\<close>

lemma wp_sv_previous:
  "wp (sv_previous rq) (\<lambda>p w'. w' = w \<and> (\<forall>b. p = Some b \<longrightarrow>
       request_answer s rq now b (w_db w) (w_db w) \<and>
       (\<forall>r. b = Booked r \<longrightarrow> r \<in> set (db_reservations (w_db w))))) (\<lambda>e w'. False) w"
proof (cases "truthy (rq_idempotency_key rq)")
  case True
  show ?thesis
    by (cases rule: repo_get_by_idempotency_key_cases[of "rq_bench_id rq" "the (rq_idempotency_key rq)"
          None "w_db w"])
      (auto simp: sv_previous_def True wpM wp_def[of "repo_get_by_idempotency_key _ _ _"]
        request_answer_def queue_only_def)
qed (simp add: sv_previous_def wpM)

lemma wp_repo_find_conflict [wpM]:
  "wp (repo_find_conflict b s e ex) Q E d =
     Q (first_row (order_by res_starts_at (filter (\<lambda>r. res_bench_id r = b \<and> occupying r \<and>
        row_meets s e r \<and> (case ex of None \<Rightarrow> True | Some i \<Rightarrow> res_id r \<noteq> i)) (db_reservations d)))) d"
  by (simp add: repo_find_conflict_def wpM)

definition promised :: "service \<Rightarrow> request \<Rightarrow> time \<Rightarrow> booking \<Rightarrow> db \<Rightarrow> db \<Rightarrow> bool" where
  "promised s rq now b d d' \<longleftrightarrow> request_answer s rq now b d d' \<and> now \<le> request_start rq now \<and>
     0 < request_duration s rq \<and> request_duration s rq \<le> sv_maximum_duration_seconds s \<and>
     (case b of Booked r \<Rightarrow> r \<notin> set (db_reservations d) \<longrightarrow> request_start rq now = now \<longrightarrow>
        is_online s (rq_bench_id rq) | Enqueued q \<Rightarrow> True)"

lemma wp_sv_create_new:
  "wp (sv_create_new s rq now) (\<lambda>b w'. request_answer s rq now b (w_db w) (w_db w') \<and>
      ((\<exists>r. b = Booked r) \<longrightarrow> request_start rq now = now \<longrightarrow> is_online s (rq_bench_id rq)))
     (\<lambda>e w'. w_db w' = w_db w) w"
  (is "wp ?m ?Q ?E w")
proof -
  let ?imm = "request_start rq now = now"
  let ?c = "first_row (order_by res_starts_at (filter (\<lambda>r. res_bench_id r = rq_bench_id rq \<and> occupying r \<and>
      row_meets (request_start rq now) (request_start rq now + seconds (request_duration s rq)) r \<and>
      (case None of None \<Rightarrow> True | Some i \<Rightarrow> res_id r \<noteq> i)) (db_reservations (w_db w))))"
  have queue: "wp (sv_enqueue_request s rq) ?Q ?E w" if "rq_queue_if_busy rq"
    by (rule wp_mono[OF wp_sv_enqueue_request[OF that, of s now w]]) auto
  show ?thesis
  proof (cases "?imm \<and> \<not> is_online s (rq_bench_id rq)")
    case True
    then show ?thesis using queue by (simp add: sv_create_new_def Let_def wpM)
  next
    case online: False
    have ins: "wp (sv_insert s rq now) ?Q ?E w"
      by (rule wp_mono[OF wp_sv_insert[of s rq now w]]) (use online in auto)
    show ?thesis
    proof (cases ?c)
      case (Some x)
      then show ?thesis using queue online by (simp add: sv_create_new_def Let_def wpM)
    next
      case None
      show ?thesis
        by (cases "?imm \<and> sv_has_operation_locks s"; cases "lock_on (rq_bench_id rq) (w_db w)")
          (use None online queue ins in \<open>simp_all add: sv_create_new_def Let_def wpM\<close>)
    qed
  qed
qed

lemma wp_sv_create:
  assumes now: "now = w_clock w (w_ticks w)"
  shows "wp (sv_create s rq) (\<lambda>b w'. promised s rq now b (w_db w) (w_db w'))
     (\<lambda>e w'. w_db w' = w_db w) w"
proof (cases "0 < request_duration s rq \<and> request_duration s rq \<le> sv_maximum_duration_seconds s \<and>
    py_strip (rq_bench_id rq) \<noteq> [] \<and> py_strip (rq_owner rq) \<noteq> [] \<and> now \<le> request_start rq now")
  case False
  then show ?thesis by (auto simp: sv_create_def wpM now[symmetric])
next
  case True
  let ?w = "w\<lparr>w_ticks := Suc (w_ticks w)\<rparr>"
  have new: "wp (sv_create_new s rq now) (\<lambda>b w'. promised s rq now b (w_db w) (w_db w'))
      (\<lambda>e w'. w_db w' = w_db w) ?w"
    by (rule wp_mono[OF wp_sv_create_new[of s rq now ?w]])
      (use True in \<open>auto simp: promised_def split: booking.splits\<close>)
  have rest: "wp (case p of Some b \<Rightarrow> returnM b | None \<Rightarrow> sv_create_new s rq now)
      (\<lambda>b w'. promised s rq now b (w_db w) (w_db w')) (\<lambda>e w'. w_db w' = w_db w) ?w"
    if "\<forall>b. p = Some b \<longrightarrow> request_answer s rq now b (w_db w) (w_db w) \<and>
       (\<forall>r. b = Booked r \<longrightarrow> r \<in> set (db_reservations (w_db w)))" for p
    using that True new
    by (cases p) (auto simp: wpM promised_def split: booking.splits)
  have "wp (sv_previous rq) (\<lambda>p. wp (case p of Some b \<Rightarrow> returnM b | None \<Rightarrow> sv_create_new s rq now)
      (\<lambda>b w'. promised s rq now b (w_db w) (w_db w')) (\<lambda>e w'. w_db w' = w_db w))
      (\<lambda>e w'. w_db w' = w_db w) ?w"
    by (rule wp_mono[OF wp_sv_previous[of rq ?w s now]]) (use rest in auto)
  then show ?thesis
    using True by (simp add: sv_create_def wp_bind wp_validate_duration wp_validate_identity
        wp_clock_now wp_if now[symmetric])
qed

text \<open>
  Idempotency: while a reservation of a bench carries a key, a request with that key is answered
  with that reservation and touches nothing in the store, whatever else the request says.
\<close>

lemma sv_create_replays:
  assumes sound: "sound w" and r: "r \<in> set (db_reservations (w_db w))"
    and key: "res_idempotency_key r = Some k" "k \<noteq> []" "res_organisation_id r = LEGACY_ORGANISATION_ID"
    and rq: "rq_bench_id rq = res_bench_id r" "rq_idempotency_key rq = Some k"
    and valid: "0 < request_duration s rq" "request_duration s rq \<le> sv_maximum_duration_seconds s"
      "py_strip (rq_bench_id rq) \<noteq> []" "py_strip (rq_owner rq) \<noteq> []"
      "w_clock w (w_ticks w) \<le> request_start rq (w_clock w (w_ticks w))"
  shows "sv_create s rq w = (Inr (Booked r), w\<lparr>w_ticks := Suc (w_ticks w)\<rparr>)"
proof -
  have "repo_get_by_idempotency_key (rq_bench_id rq) k None (w_db w) = (Inr (Some r), w_db w)"
  proof (cases rule: repo_get_by_idempotency_key_cases[of "rq_bench_id rq" k None "w_db w"])
    case none
    with r key rq show ?thesis by auto
  next
    case (some x)
    have "x = r"
    proof (rule reservation_by_id[OF db_soundD(2)[OF sound] some(2) r], rule ccontr)
      assume "res_id x \<noteq> res_id r"
      then have "compatible x r"
        using db_soundD(2)[OF sound] some(2) r by (simp add: reservations_ok_def)
      then show False using some key rq by (simp add: compatible_def)
    qed
    with some show ?thesis by simp
  qed
  with valid rq key(2) show ?thesis
    by (simp add: sv_create_def sv_previous_def runM validate_duration_def validate_identity_def truthy_def)
qed

section \<open>Properties\<close>

text \<open>
  C23: a new reservation that \<open>create\<close> returns is the one row it added; it starts when asked and not
  before the call, lasts as long as asked and no longer than the maximum, is active exactly when it
  starts at the call, and then its bench is online and unlocked; no occupying reservation of the
  bench overlaps it.
\<close>

theorem create_books_what_was_asked:
  assumes run: "sv_create s rq w = (Inr (Booked r), w')" and new: "r \<notin> set (db_reservations (w_db w))"
    and now: "now = w_clock w (w_ticks w)" and start: "start = request_start rq now"
  shows "db_reservations (w_db w') = db_reservations (w_db w) @ [r] \<and>
    res_bench_id r = trim (rq_bench_id rq) \<and> res_owner r = trim (rq_owner rq) \<and>
    now \<le> start \<and> res_starts_at r = Some start \<and>
    res_ends_at r = Some (start + seconds (request_duration s rq)) \<and>
    0 < request_duration s rq \<and> request_duration s rq \<le> sv_maximum_duration_seconds s \<and>
    res_status r = (if start = now then Active else Scheduled) \<and>
    (start = now \<longrightarrow> is_online s (rq_bench_id rq) \<and> lock_on (res_bench_id r) (w_db w) = None) \<and>
    (\<forall>x \<in> set (db_reservations (w_db w)). res_bench_id x = res_bench_id r \<longrightarrow> occupying x \<longrightarrow>
       \<not> row_meets start (start + seconds (request_duration s rq)) x)"
proof -
  have p: "promised s rq now (Booked r) (w_db w) (w_db w')"
    by (rule wp_Inr[OF wp_sv_create[OF now] run])
  then have nb: "new_booking s rq now r (w_db w) (w_db w')"
    using new by (auto simp: promised_def request_answer_def)
  have occ: "occupying r" using nb by (auto simp: new_booking_def occupying_def)
  have "\<not> time_trigger_aborts r (db_reservations (w_db w))"
    using nb by (simp add: new_booking_def row_rejected_def)
  then have "\<forall>x \<in> set (db_reservations (w_db w)). res_bench_id x = res_bench_id r \<longrightarrow> occupying x \<longrightarrow>
       \<not> row_meets start (start + seconds (request_duration s rq)) x"
    using nb occ start by (auto simp: time_trigger_aborts_def new_booking_def)
  then show ?thesis
    using p nb new start by (auto simp: promised_def new_booking_def)
qed

text \<open>A world in which ann asks for an hour on a free bench.\<close>

definition sample_service :: service where
  "sample_service = \<lparr>sv_availability = None, sv_has_operation_locks = True,
     sv_default_duration_seconds = 1800, sv_maximum_duration_seconds = 14400, sv_queue_enabled = True\<rparr>"

definition sample_request :: "string \<Rightarrow> string option \<Rightarrow> request" where
  "sample_request owner key = \<lparr>rq_bench_id = ''b'', rq_owner = owner, rq_duration_seconds = Some 3600,
     rq_starts_at = None, rq_queue_if_busy = True, rq_idempotency_key = key, rq_source = SourceApi,
     rq_metadata = [], rq_event_type_override = None\<rparr>"

lemmas sample_defs = sample_service_def sample_request_def

lemma sample_simps [simp]:
  "rq_bench_id (sample_request ow k) = ''b''" "rq_owner (sample_request ow k) = ow"
  "rq_idempotency_key (sample_request ow k) = k" "rq_queue_if_busy (sample_request ow k)"
  "rq_event_type_override (sample_request ow k) = None"
  "request_start (sample_request ow k) now = now"
  "request_duration sample_service (sample_request ow k) = 3600"
  "sv_maximum_duration_seconds sample_service = 14400" "sv_queue_enabled sample_service"
  "sv_has_operation_locks sample_service" "is_online sample_service b"
  by (simp_all add: sample_defs request_start_def request_duration_def is_online_def)

lemma trim_letters [simp]:
  "trim ''b'' = ''b''" "trim ''ann'' = ''ann''" "trim ''bob'' = ''bob''" "trim ''k'' = ''k''"
  "py_strip ''b'' \<noteq> []" "py_strip ''ann'' \<noteq> []" "py_strip ''bob'' \<noteq> []"
  by (simp_all add: trim_def py_strip_def strip_with_def unicode_space_def py_space_def Let_def)

definition ann_row :: "string option \<Rightarrow> reservation" where
  "ann_row key = strip_reservation (requested_reservation ''u'' 100 sample_service (sample_request ''ann'' key))"

lemma sample_world_uuid [simp]: "w_uuids (sample_world d t) n = replicate (Suc n) CHR ''u''"
  by (simp add: sample_world_def)

lemma run_repo_create_empty:
  assumes "res_starts_at r = Some s" and "res_ends_at r = Some e" and "s < e"
    and "res_status r = Active"
  shows "repo_create r empty_db = (Inr r, one_row_db r)"
  using assms
  by (simp add: repo_create_def runM require_no_operation_lock_def require_no_reservation_overlap_def
      select_reservations_def insert_reservation_def row_rejected_def time_trigger_aborts_def
      unique_index_aborts_def lock_on_def one_row_db_def empty_db_def)

lemma ann_row_simps [simp]:
  "res_status (ann_row k) = Active" "res_starts_at (ann_row k) = Some 100"
  "res_ends_at (ann_row k) = Some (100 + seconds 3600)" "res_bench_id (ann_row k) = ''b''"
  "res_owner (ann_row k) = ''ann''" "res_id (ann_row k) = ''u''"
  "res_idempotency_key (ann_row k) = map_option trim k"
  "res_organisation_id (ann_row k) = LEGACY_ORGANISATION_ID"
  by (simp_all add: ann_row_def requested_reservation_def sample_defs request_start_def
      request_duration_def Let_def)

lemma run_sample_create:
  obtains w' where "sv_create sample_service (sample_request ''ann'' None) (sample_world empty_db 100) =
      (Inr (Booked (ann_row None)), w')"
    "db_reservations (w_db w') = [ann_row None]" "db_locks (w_db w') = []" "db_queue (w_db w') = []"
    "w_clock w' = (\<lambda>n. 100 + int n)" "w_ticks w' = 2"
proof -
  have range: "reservation_time_range_ok (ann_row None)"
    by (rule reservation_time_range_okI[of _ 100 "100 + seconds 3600"]) simp_all
  have "wp (sv_create sample_service (sample_request ''ann'' None))
     (\<lambda>b w'. b = Booked (ann_row None) \<and> db_reservations (w_db w') = [ann_row None] \<and>
        db_locks (w_db w') = [] \<and> db_queue (w_db w') = [] \<and> w_clock w' = (\<lambda>n. 100 + int n) \<and> w_ticks w' = 2)
     (\<lambda>_ _. False) (sample_world empty_db 100)"
    using run_repo_create_empty[of "ann_row None" 100 "100 + seconds 3600"] range
    by (simp add: sv_create_def sv_create_new_def sv_insert_def sv_previous_def wpM Let_def
        ann_row_def[symmetric] wp_def[of "repo_create _"] truthy_def lock_on_def empty_db_def one_row_db_def)
      (simp add: sample_world_def)
  then show thesis
    using that by (auto simp: wp_def split: prod.splits sum.splits)
qed

theorem create_books_what_was_asked_witness:
  "(100 :: time) \<le> 100 \<and> 0 < request_duration sample_service (sample_request ''ann'' None) \<and>
   res_ends_at (ann_row None) = Some (100 + seconds 3600) \<and> res_status (ann_row None) = Active"
proof -
  obtain w' where run: "sv_create sample_service (sample_request ''ann'' None) (sample_world empty_db 100) =
      (Inr (Booked (ann_row None)), w')" by (rule run_sample_create)
  have "ann_row None \<notin> set (db_reservations (w_db (sample_world empty_db 100)))"
    by (simp add: empty_db_def)
  from create_books_what_was_asked[OF run this refl refl] show ?thesis by simp
qed

text \<open>
  A request that fails, with whichever error, leaves the store exactly as it was: no
  reservation, queue entry or event is left behind.
\<close>

theorem failed_create_changes_nothing:
  assumes "sv_create s rq w = (Inl e, w')"
  shows "w_db w' = w_db w"
  using wp_Inl[OF wp_sv_create[OF refl] assms] .

theorem failed_create_changes_nothing_witness:
  "w_db (snd (sv_create sample_service (sample_request '''' None) (sample_world empty_db 100))) = empty_db"
proof -
  have run: "sv_create sample_service (sample_request '''' None) (sample_world empty_db 100) =
      (Inl ValueError, sample_world empty_db 100)"
    by (simp add: sv_create_def runM validate_duration_def validate_identity_def py_strip_def strip_with_def)
  show ?thesis using failed_create_changes_nothing[OF run] by (simp add: run)
qed

text \<open>
  Creating is idempotent: while a reservation of the bench carries the key of a valid request,
  the request is answered with that reservation and the store does not change, whoever asks and
  whatever else the request says.
\<close>

theorem create_is_idempotent:
  assumes "db_sound (w_db w)" and "r \<in> set (db_reservations (w_db w))"
    and "res_idempotency_key r = Some k" and "k \<noteq> []" and "res_organisation_id r = LEGACY_ORGANISATION_ID"
    and "rq_bench_id rq = res_bench_id r" and "rq_idempotency_key rq = Some k"
    and "0 < request_duration s rq" and "request_duration s rq \<le> sv_maximum_duration_seconds s"
    and "py_strip (rq_bench_id rq) \<noteq> []" and "py_strip (rq_owner rq) \<noteq> []"
    and "w_clock w (w_ticks w) \<le> request_start rq (w_clock w (w_ticks w))"
  shows "\<exists>w'. sv_create s rq w = (Inr (Booked r), w') \<and> w_db w' = w_db w"
  using sv_create_replays[OF assms] by simp

theorem create_is_idempotent_witness:
  "\<exists>w'. sv_create sample_service (sample_request ''bob'' (Some ''k'')) (sample_world (one_row_db (ann_row (Some ''k''))) 500) =
      (Inr (Booked (ann_row (Some ''k''))), w') \<and> w_db w' = one_row_db (ann_row (Some ''k''))"
  using create_is_idempotent[of "sample_world (one_row_db (ann_row (Some ''k''))) 500" "ann_row (Some ''k'')" "''k''"
      "sample_request ''bob'' (Some ''k'')" sample_service]
  by (simp add: one_row_sound[of _ 100 "100 + seconds 3600"])

text \<open>
  A request to queue without an earlier answer to its key puts one waiting entry at the end:
  its order is above every order in the table, its position is one more than the number of entries
  that wait in its queue, its duration is within the maximum, and no reservation changes.
\<close>

theorem enqueue_joins_at_the_end:
  assumes run: "sv_enqueue s bench owner (Some n) key w = (Inr q, w')" and key: "\<not> truthy key"
  shows "\<exists>x. db_queue (w_db w') = db_queue (w_db w) @ [x] \<and> qr_entry x = q\<lparr>qe_position := None\<rparr> \<and>
    (\<forall>y \<in> set (db_queue (w_db w)). qr_order y < qr_order x) \<and>
    qe_bench_id q = trim bench \<and> qe_owner q = trim owner \<and> qe_status q = QWaiting \<and>
    qe_requested_duration_seconds q = n \<and> 0 < n \<and> n \<le> sv_maximum_duration_seconds s \<and>
    qe_position q = Some (1 + int (length (filter (\<lambda>y. same_queue q y \<and> waiting_row y) (db_queue (w_db w))))) \<and>
    db_reservations (w_db w') = db_reservations (w_db w)"
proof -
  have "joined_queue s bench owner n q (w_db w) (w_db w')" "queue_only (w_db w) (w_db w')"
    using wp_Inr[OF wp_sv_enqueue run] key by auto
  then show ?thesis
    using next_queue_order_fresh[of _ "w_db w"]
    by (intro exI[of _ "\<lparr>qr_order = next_queue_order (w_db w), qr_entry = q\<lparr>qe_position := None\<rparr>\<rparr>"])
      (simp add: joined_queue_def queue_only_def)
qed

lemma wp_queue_create_fresh:
  assumes "db_queue d = []" and "0 < qe_requested_duration_seconds q" and "qe_status q = QWaiting"
  shows "queue_create q d = (Inr (q\<lparr>qe_position := Some 1\<rparr>), queue_appended q d)"
proof -
  have "insert_queue_row \<lparr>qr_order = next_queue_order d, qr_entry = q\<lparr>qe_position := None\<rparr>\<rparr> d =
      (Inr (), queue_appended q d)"
    using assms(1,2) by (simp add: insert_queue_row_def queue_appended_def)
  moreover have "queue_position q (queue_appended q d) = 1"
    using position_of_appended[of d q] assms(1,3) by simp
  ultimately show ?thesis
    using assms(3) by (simp add: queue_create_def runM with_position_run)
qed

theorem enqueue_joins_at_the_end_witness:
  "length (db_queue (w_db (snd (sv_enqueue sample_service ''b'' ''bob'' (Some 60) None (sample_world empty_db 100))))) = 1"
proof -
  let ?w = "sample_world empty_db 100"
  have "wp (sv_enqueue sample_service ''b'' ''bob'' (Some 60) None) (\<lambda>_ _. True) (\<lambda>_ _. False) ?w"
    by (simp add: sv_enqueue_def wpM truthy_def wp_make_queue_entry queue_entry_valid_def
        wp_def[of "queue_create _"] wp_queue_create_fresh normal_queue_entry_def)
  then obtain q w' where run: "sv_enqueue sample_service ''b'' ''bob'' (Some 60) None ?w = (Inr q, w')"
    by (auto simp: wp_def split: prod.splits sum.splits)
  from enqueue_joins_at_the_end[OF run] show ?thesis
    by (auto simp: run truthy_def)
qed

text \<open>
  A release that succeeds is by the owner of the reservation. Either it had been released
  before, and nothing happens, or it was active on an unlocked bench: then it is released, no other
  reservation changes, and nothing holds the bench any more.
\<close>

theorem release_frees_the_bench:
  assumes sound: "db_sound (w_db w)" and run: "sv_release_by_id s legacy rid owner w = (Inr x, w')"
  shows "\<exists>r. find_reservation rid (w_db w) = Some r \<and> res_owner r = owner \<and>
    (res_status r = Released \<and> x = r \<and> w' = w \<or>
     res_status r = Active \<and> lock_on (res_bench_id r) (w_db w) = None \<and>
     res_status x = Released \<and> find_reservation rid (w_db w') = Some x \<and>
     (\<forall>i. i \<noteq> rid \<longrightarrow> find_reservation i (w_db w') = find_reservation i (w_db w)) \<and>
     \<not> (\<exists>y \<in> set (db_reservations (w_db w')). res_bench_id y = res_bench_id r \<and> holding y))"
proof -
  obtain r where r: "find_reservation rid (w_db w) = Some r" "res_owner r = owner"
      "res_status r = Released \<and> x = r \<and> w' = w \<or>
       res_status r = Active \<and> lock_on (res_bench_id r) (w_db w) = None \<and>
       (\<exists>now. x = released_row now r) \<and> row_written x (w_db w) (w_db w')"
    using wp_Inr[OF wp_sv_release_by_id[OF sound] run] by blast
  show ?thesis
  proof (cases "res_status r = Active")
    case False
    then show ?thesis using r by auto
  next
    case True
    then obtain now where x: "x = released_row now r" "row_written x (w_db w) (w_db w')"
        "lock_on (res_bench_id r) (w_db w) = None" using r(3) by auto
    have id: "res_id x = rid" using x(1) find_reservation_Some[OF r(1)] by simp
    have free: "\<not> (\<exists>y \<in> set (db_reservations (w_db w')). res_bench_id y = res_bench_id r \<and> holding y)"
      using bench_free_after[OF sound r(1) _ id _ _ x(2)] True x(1) by (simp add: holding_def)
    have find: "find_reservation i (w_db w') = find_reservation i (put_reservation x (w_db w))" for i
      using x(2) by (simp add: row_written_def find_reservation_def)
    show ?thesis
      using r(1,2) True x free id by (intro exI[of _ r]) (simp add: find find_put_reservation)
  qed
qed

theorem release_frees_the_bench_witness:
  "\<not> (\<exists>y \<in> set (db_reservations (w_db (snd (sv_release_by_id sample_service False ''u'' ''ann''
      (sample_world (one_row_db (ann_row None)) 200))))). holding y)"
proof -
  let ?w = "sample_world (one_row_db (ann_row None)) 200"
  have sound: "db_sound (w_db ?w)" by (simp add: one_row_sound[of _ 100 "100 + seconds 3600"])
  have ok: "reservations_ok (db_reservations (one_row_db (ann_row None)))"
    using db_soundD(2)[OF sound] by simp
  have same: "(released_row t (ann_row None))\<lparr>res_id := ''u''\<rparr> = released_row t (ann_row None)" for t
    by (rule reservation.equality) simp_all
  have upd: "wp (repo_update (released_row t (ann_row None)) (Some Active) None True) (\<lambda>_ _. True) (\<lambda>_ _. False)
      (one_row_db (ann_row None))" for t
  proof -
    have "\<not> row_rejected (released_row t (ann_row None)) (other_rows ''u'' (one_row_db (ann_row None)))"
      by (simp add: row_rejected_def time_trigger_aborts_def unique_index_aborts_def other_rows_def released_row_def)
    then show ?thesis
      by (simp add: repo_update_def wpM wp_require wp_update_reservation[OF ok])
        (simp add: same)
  qed
  have "wp (sv_release_by_id sample_service False ''u'' ''ann'') (\<lambda>_ _. True) (\<lambda>_ _. False) ?w"
    unfolding sv_release_by_id_def
    by (simp add: wpM flip: released_row_def) (rule wp_mono[OF upd]; simp)
  then obtain x w' where run: "sv_release_by_id sample_service False ''u'' ''ann'' ?w = (Inr x, w')"
    by (auto simp: wp_def split: prod.splits sum.splits)
  have rows: "\<forall>y \<in> set (db_reservations (w_db w')). res_bench_id y = ''b''"
    using wp_Inr[OF wp_sv_release_by_id[OF sound] run]
    by (auto simp: row_written_def set_put_reservation)
  show ?thesis using release_frees_the_bench[OF sound run] rows run by auto
qed

end
