(* ===== verification/Scheduling.thy ===== *)
theory Scheduling
  imports ReservationService
begin

text \<open>
  \<open>SchedulingService\<close> (\<open>core/scheduling.py\<close>) with its default policy \<open>FifoQueuePolicy\<close>
  (\<open>core/queueing.py\<close>): expiry, activation and queue promotion, each a loop of one transaction per
  candidate. The \<open>asyncio\<close> lock of a bench serialises the tasks that process it; a pass is one such
  task. The identifiers of the events a transaction may write are drawn before it.
\<close>

section \<open>Configuration and events\<close>

record scheduler =
  sch_online :: "string \<Rightarrow> bool"
  sch_protection_window_seconds :: int
  sch_expiry_grace_seconds :: int

definition make_scheduler :: "scheduler \<Rightarrow> error + scheduler" where
  "make_scheduler c =
     (if sch_protection_window_seconds c < 0 \<or> sch_expiry_grace_seconds c < 0
      then Inl ValueError else Inr c)"

definition scheduler_event ::
    "uuid \<Rightarrow> string \<Rightarrow> time \<Rightarrow> payload \<Rightarrow> reservation \<Rightarrow> event_record" where
  "scheduler_event i event_type timestamp payload r = make_event
     \<lparr>ev_id = i, ev_timestamp = timestamp, ev_type = event_type, ev_source = ''scheduler'',
      ev_bench_id = Some (res_bench_id r), ev_reservation_id = Some (res_id r),
      ev_operation_id = None, ev_actor = Some (res_owner r),
      ev_payload = reservation_payload r payload,
      ev_deduplication_key = Some (reservation_event_key (res_id r) event_type)\<rparr>"

definition expiry_event :: "scheduler \<Rightarrow> uuid \<Rightarrow> time \<Rightarrow> reservation \<Rightarrow> event_record" where
  "expiry_event c i timestamp r =
     scheduler_event i ''RESERVATION_EXPIRED'' timestamp
       [(''release_pending'', JBool (res_release_pending r)),
        (''grace_deadline'',
          if res_status r = ExpiredPendingOperation
          then (case res_ends_at r of
                  None \<Rightarrow> JNull
                | Some e \<Rightarrow> JTime (e + seconds (sch_expiry_grace_seconds c)))
          else JNull)] r"

definition promotion_event_pair ::
    "uuid \<Rightarrow> uuid \<Rightarrow> time \<Rightarrow> queue_entry \<Rightarrow> reservation \<Rightarrow> event_record list" where
  "promotion_event_pair i j timestamp q r =
     [make_event
       \<lparr>ev_id = i, ev_timestamp = timestamp, ev_type = ''QUEUE_ENTRY_PROMOTED'',
        ev_source = ''scheduler'', ev_bench_id = Some (res_bench_id r),
        ev_reservation_id = Some (res_id r), ev_operation_id = None,
        ev_actor = Some (res_owner r),
        ev_payload = [(''queue_entry_id'', JStr (qe_id q)), (''reservation_id'', JStr (res_id r))],
        ev_deduplication_key = Some (''queue:'' @ qe_id q @ '':promoted'')\<rparr>,
      scheduler_event j ''RESERVATION_ACTIVATED'' timestamp [] r]"

section \<open>The FIFO policy\<close>

text \<open>
  \<open>min(waiting, key=(position or inf, created_at, id), default=None)\<close>: an absent position sorts
  after every number. \<open>min\<close> returns the first of the least, as the head of a stable sort is.
\<close>

definition fifo_key :: "queue_entry \<Rightarrow> (bool \<times> int) \<times> time \<times> uuid" where
  "fifo_key q = ((case qe_position q of Some p \<Rightarrow> (False, p) | None \<Rightarrow> (True, 0)),
     qe_created_at q, qe_id q)"

definition fifo_select_next :: "queue_entry list \<Rightarrow> queue_entry option" where
  "fifo_select_next entries =
     first_row (order_by fifo_key (filter (\<lambda>q. qe_status q = QWaiting) entries))"

section \<open>The passes\<close>

definition process_due_step ::
    "scheduler \<Rightarrow> time \<Rightarrow> reservation \<Rightarrow> int \<Rightarrow> (world, int) io" where
  "process_due_step c now candidate activated =
     (if sql_le (res_ends_at candidate) now then returnM activated
      else if \<not> sch_online c (res_bench_id candidate) then returnM activated
      else
        bindM (on_db (lock_get (res_bench_id candidate))) (\<lambda>lock.
        case lock of Some _ \<Rightarrow> returnM activated
        | None \<Rightarrow>
            bindM (on_db (repo_get_active (res_bench_id candidate) None)) (\<lambda>active.
            case active of Some _ \<Rightarrow> returnM activated
            | None \<Rightarrow>
                bindM uuid4 (\<lambda>i.
                bindM (on_db (repo_activate_if_available (res_id candidate) now
                   (Some (scheduler_event i ''RESERVATION_ACTIVATED'' now [])))) (\<lambda>res.
                case res of None \<Rightarrow> returnM activated
                | Some _ \<Rightarrow> returnM (activated + 1))))))"

definition process_due_reservations :: "scheduler \<Rightarrow> (world, int) io" where
  "process_due_reservations c =
     bindM clock_now (\<lambda>now.
     bindM (on_db (repo_list_due now)) (\<lambda>candidates.
     foldM (process_due_step c now) candidates 0))"

definition expire_step :: "scheduler \<Rightarrow> time \<Rightarrow> reservation \<Rightarrow> int \<Rightarrow> (world, int) io" where
  "expire_step c now candidate expired =
     bindM uuid4 (\<lambda>i.
     bindM (on_db (repo_expire_if_due (res_id candidate) now (Some (expiry_event c i now)))) (\<lambda>res.
     case res of None \<Rightarrow> returnM expired | Some _ \<Rightarrow> returnM (expired + 1)))"

definition expire_reservations :: "scheduler \<Rightarrow> (world, int) io" where
  "expire_reservations c =
     bindM clock_now (\<lambda>now.
     bindM (on_db (repo_list_expired now)) (\<lambda>candidates.
     foldM (expire_step c now) candidates 0))"

definition promoted_reservation :: "uuid \<Rightarrow> string \<Rightarrow> time \<Rightarrow> queue_entry \<Rightarrow> reservation" where
  "promoted_reservation i bench now q =
     \<lparr>res_id = i, res_organisation_id = LEGACY_ORGANISATION_ID, res_bench_id = bench,
      res_owner = qe_owner q, res_owner_principal_id = None, res_owner_principal_type = None,
      res_created_at = qe_created_at q, res_released_at = None, res_status = Active,
      res_requested_at = Some (qe_created_at q), res_starts_at = Some now,
      res_ends_at = Some (now + seconds (qe_requested_duration_seconds q)),
      res_activated_at = Some now, res_expired_at = None, res_source = SourceSystem,
      res_metadata = [(''queue_entry_id'', qe_id q)], res_idempotency_key = None,
      res_release_pending = False\<rparr>"

definition promote_step :: "scheduler \<Rightarrow> time \<Rightarrow> string \<Rightarrow> int \<Rightarrow> (world, int) io" where
  "promote_step c now bench promoted_count =
     (if \<not> sch_online c bench then returnM promoted_count
      else
        bindM (on_db (lock_get bench)) (\<lambda>lock.
        case lock of Some _ \<Rightarrow> returnM promoted_count
        | None \<Rightarrow>
        bindM (on_db (repo_get_active bench None)) (\<lambda>active.
        case active of Some _ \<Rightarrow> returnM promoted_count
        | None \<Rightarrow>
        bindM (on_db (queue_list bench None (Some QWaiting))) (\<lambda>entries.
        case fifo_select_next entries of None \<Rightarrow> returnM promoted_count
        | Some selected \<Rightarrow>
        bindM (on_db (repo_next_scheduled bench now)) (\<lambda>scheduled.
        if protected_start_reached (case scheduled of None \<Rightarrow> None | Some r \<Rightarrow> res_starts_at r)
             (Some (seconds (sch_protection_window_seconds c)))
             (Some (now + seconds (qe_requested_duration_seconds selected)))
        then returnM promoted_count
        else
          bindM uuid4 (\<lambda>i.
          bindM (make_reservation (promoted_reservation i bench now selected)) (\<lambda>r.
          bindM uuid4 (\<lambda>j.
          bindM uuid4 (\<lambda>k.
          bindM (on_db (queue_promote (qe_id selected) r now
             (Some (seconds (sch_protection_window_seconds c)))
             (Some (promotion_event_pair j k now)))) (\<lambda>promoted.
          case promoted of None \<Rightarrow> returnM promoted_count
          | Some _ \<Rightarrow> returnM (promoted_count + 1)))))))))))"

definition promote_queues :: "scheduler \<Rightarrow> (world, int) io" where
  "promote_queues c =
     bindM clock_now (\<lambda>now.
     bindM (on_db (queue_list_waiting_benches None)) (\<lambda>benches.
     foldM (promote_step c now) benches 0))"

text \<open>\<open>process\<close>: expire, then activate, then promote; the result is (activated, expired, promoted).\<close>

definition scheduler_process :: "scheduler \<Rightarrow> (world, int \<times> int \<times> int) io" where
  "scheduler_process c =
     bindM (expire_reservations c) (\<lambda>expired.
     bindM (process_due_reservations c) (\<lambda>activated.
     bindM (promote_queues c) (\<lambda>promoted.
     returnM (activated, expired, promoted))))"

section \<open>Every pass keeps the store sound\<close>

lemma sound_process_due_step [keeps_sound]: "keeps sound (process_due_step c now x acc)"
  unfolding process_due_step_def by (intro keeps_intros keeps_sound)

lemma sound_process_due [keeps_sound]: "keeps sound (process_due_reservations c)"
  unfolding process_due_reservations_def by (intro keeps_intros keeps_sound)

lemma sound_expire_step [keeps_sound]: "keeps sound (expire_step c now x acc)"
  unfolding expire_step_def by (intro keeps_intros keeps_sound)

lemma sound_expire [keeps_sound]: "keeps sound (expire_reservations c)"
  unfolding expire_reservations_def by (intro keeps_intros keeps_sound)

lemma sound_promote_step [keeps_sound]: "keeps sound (promote_step c now b acc)"
  unfolding promote_step_def
  by (intro keeps_make_reservation_bind keeps_intros keeps_sound)
    (simp_all add: promoted_reservation_def)

lemma sound_promote [keeps_sound]: "keeps sound (promote_queues c)"
  unfolding promote_queues_def by (intro keeps_intros keeps_sound)

lemma sound_process [keeps_sound]: "keeps sound (scheduler_process c)"
  unfolding scheduler_process_def by (intro keeps_intros keeps_sound)

section \<open>Loops over candidates\<close>

text \<open>
  A loop whose every step succeeds, keeps \<open>I\<close>, settles its own candidate and unsettles none, ends
  with every candidate settled; what was settled before stays so.
\<close>

lemma foldM_settles:
  assumes step: "\<And>x acc w. x \<in> set xs \<Longrightarrow> I w \<Longrightarrow>
    \<exists>acc' w'. f x acc w = (Inr acc', w') \<and> I w' \<and> P x w' \<and> (\<forall>y. P y w \<longrightarrow> P y w')"
    and "I w"
  shows "\<exists>acc' w'. foldM f xs acc w = (Inr acc', w') \<and> I w' \<and> (\<forall>x \<in> set xs. P x w') \<and>
    (\<forall>y. P y w \<longrightarrow> P y w')"
  using assms
proof (induction xs arbitrary: acc w)
  case Nil
  then show ?case by (simp add: runM)
next
  case (Cons x xs)
  obtain acc1 w1 where 1: "f x acc w = (Inr acc1, w1)" "I w1" "P x w1" "\<forall>y. P y w \<longrightarrow> P y w1"
    using Cons.prems(1)[of x w acc] Cons.prems(2) by auto
  have "\<exists>acc' w'. foldM f xs acc1 w1 = (Inr acc', w') \<and> I w' \<and> (\<forall>x \<in> set xs. P x w') \<and>
      (\<forall>y. P y w1 \<longrightarrow> P y w')"
    by (rule Cons.IH[OF Cons.prems(1) 1(2)]) simp_all
  then obtain acc2 w2 where 2: "foldM f xs acc1 w1 = (Inr acc2, w2)" "I w2"
      "\<forall>x \<in> set xs. P x w2" "\<forall>y. P y w1 \<longrightarrow> P y w2" by blast
  have "foldM f (x # xs) acc w = (Inr acc2, w2)" using 1(1) 2(1) by (simp add: runM)
  then show ?case using 1 2 by auto
qed

text \<open>A loop whose steps change neither the accumulator nor the store.\<close>

lemma foldM_idle:
  assumes "\<And>x w. x \<in> set xs \<Longrightarrow> w_db w = d \<Longrightarrow> \<exists>w'. f x acc w = (Inr acc, w') \<and> w_db w' = d"
    and "w_db w = d"
  shows "\<exists>w'. foldM f xs acc w = (Inr acc, w') \<and> w_db w' = d"
  using assms
proof (induction xs arbitrary: w)
  case Nil
  then show ?case by (simp add: runM)
next
  case (Cons x xs)
  obtain w1 where 1: "f x acc w = (Inr acc, w1)" "w_db w1 = d"
    using Cons.prems by force
  with Cons.IH[of w1] Cons.prems(1) show ?case by (auto simp: runM)
qed

section \<open>Expiry\<close>

text \<open>
  The row of an identifier is settled at an instant when it is not due, or holds out: it is over,
  or waits for the operation that still holds the lock of its bench.
\<close>

definition expiry_settled :: "time \<Rightarrow> uuid \<Rightarrow> db \<Rightarrow> bool" where
  "expiry_settled now rid d \<longleftrightarrow> (\<forall>r. find_reservation rid d = Some r \<longrightarrow> sql_le (res_ends_at r) now \<longrightarrow>
     expiry_target (res_status r) (lock_on (res_bench_id r) d \<noteq> None) = None)"

lemma expiry_target_settles:
  "expiry_target st locked = Some t \<Longrightarrow> expiry_target t locked = None"
  by (auto simp: expiry_target_def split: if_splits)

lemma run_expire_step:
  assumes "sound w"
  obtains acc' w' where "expire_step c now x acc w = (Inr acc', w')"
    "sound w'" "expiry_settled now (res_id x) (w_db w')"
    "\<forall>y. expiry_settled now y (w_db w) \<longrightarrow> expiry_settled now y (w_db w')"
    "expiry_settled now (res_id x) (w_db w) \<Longrightarrow> acc' = acc \<and> w_db w' = w_db w"
    "db_locks (w_db w') = db_locks (w_db w)"
proof -
  let ?f = "Some (expiry_event c (w_uuids w (w_drawn w)) now)"
  have sound': "sound (snd (expire_step c now x acc w))"
    by (rule keepsD[where I = sound, OF sound_expire_step assms])
  show thesis
  proof (cases "expiry_settled now (res_id x) (w_db w)")
    case True
    then have "repo_expire_if_due (res_id x) now ?f (w_db w) = (Inr None, w_db w)"
      using run_repo_expire_if_due[OF assms] unfolding expiry_settled_def
      by (auto split: option.splits)
    then have "expire_step c now x acc w = (Inr acc, w\<lparr>w_drawn := Suc (w_drawn w)\<rparr>)"
      by (simp add: expire_step_def runM)
    with True assms that[of acc "w\<lparr>w_drawn := Suc (w_drawn w)\<rparr>"] show thesis by simp
  next
    case False
    then obtain r t where r: "find_reservation (res_id x) (w_db w) = Some r" "sql_le (res_ends_at r) now"
        "expiry_target (res_status r) (lock_on (res_bench_id r) (w_db w) \<noteq> None) = Some t"
      unfolding expiry_settled_def by auto
    let ?n = "expired_row t now r"
    let ?d = "maybe_event ?f ?n (put_reservation ?n (w_db w))"
    have id: "res_id r = res_id x" using find_reservation_Some[OF r(1)] by simp
    have lock: "lock_on b ?d = lock_on b (w_db w)" for b
      by (simp add: lock_on_def)
    have run: "expire_step c now x acc w = (Inr (acc + 1), w\<lparr>w_drawn := Suc (w_drawn w), w_db := ?d\<rparr>)"
      using run_repo_expire_if_due[OF assms, of "res_id x" now ?f] r by (simp add: expire_step_def runM)
    have own: "expiry_settled now (res_id x) ?d"
      using r id expiry_target_settles[OF r(3)] unfolding expiry_settled_def lock
      by (simp add: find_put_reservation)
    moreover have "expiry_settled now y ?d" if "expiry_settled now y (w_db w)" for y
      using that own id unfolding expiry_settled_def lock
      by (cases "y = res_id x") (simp_all add: find_put_reservation)
    ultimately show thesis
      using that[OF run] sound' run False by simp
  qed
qed

lemma in_list_expired:
  "repo_list_expired now d = (Inr rows, d') \<Longrightarrow>
   d' = d \<and> set rows = {r \<in> set (db_reservations d). occupying r \<and> sql_le (res_ends_at r) now}"
  by (auto simp: repo_list_expired_def select_reservations_def runM)

lemma unlisted_settled:
  assumes "reservations_ok (db_reservations d)"
    and "\<not> (\<exists>r \<in> set (db_reservations d). res_id r = rid \<and> occupying r \<and> sql_le (res_ends_at r) now)"
  shows "expiry_settled now rid d"
  using assms(2) find_reservation_Some unfolding expiry_settled_def expiry_target_def occupying_def
  by fastforce

text \<open>
  A pass never fails. After it, at that instant, every row is settled; no lock is touched.
\<close>

lemma expire_reservations_settles:
  assumes "sound w"
  obtains n w' where "expire_reservations c w = (Inr n, w')" "sound w'"
    "\<forall>rid. expiry_settled (w_clock w (w_ticks w)) rid (w_db w')"
    "db_locks (w_db w') = db_locks (w_db w)"
proof -
  let ?now = "w_clock w (w_ticks w)"
  let ?w = "w\<lparr>w_ticks := Suc (w_ticks w)\<rparr>"
  obtain rows d' where list: "repo_list_expired ?now (w_db w) = (Inr rows, d')"
    by (simp add: repo_list_expired_def select_reservations_def runM)
  note rows = in_list_expired[OF list]
  let ?I = "\<lambda>v. sound v \<and> db_locks (w_db v) = db_locks (w_db w)"
  have "\<exists>n w'. foldM (expire_step c ?now) rows 0 ?w = (Inr n, w') \<and> ?I w' \<and>
      (\<forall>x \<in> set rows. expiry_settled ?now (res_id x) (w_db w')) \<and>
      (\<forall>y. expiry_settled ?now (res_id y) (w_db ?w) \<longrightarrow> expiry_settled ?now (res_id (y::reservation)) (w_db w'))"
  proof (rule foldM_settles)
    fix x acc v assume v: "?I v"
    have "sound v" using v by simp
    from run_expire_step[OF this, of c ?now x acc] v show "\<exists>acc' w'. expire_step c ?now x acc v = (Inr acc', w') \<and> ?I w' \<and>
        expiry_settled ?now (res_id x) (w_db w') \<and>
        (\<forall>y. expiry_settled ?now (res_id y) (w_db v) \<longrightarrow> expiry_settled ?now (res_id (y::reservation)) (w_db w'))"
      by metis
  qed (use assms in simp)
  then obtain n w' where fold: "foldM (expire_step c ?now) rows 0 ?w = (Inr n, w')" "?I w'"
      "\<forall>x \<in> set rows. expiry_settled ?now (res_id x) (w_db w')"
      "\<forall>y. expiry_settled ?now (res_id y) (w_db w) \<longrightarrow> expiry_settled ?now (res_id (y::reservation)) (w_db w')"
    by auto
  have all: "expiry_settled ?now rid (w_db w')" for rid
  proof (cases "\<exists>r \<in> set rows. res_id r = rid")
    case True
    then show ?thesis using fold(3) by auto
  next
    case False
    then have "expiry_settled ?now rid (w_db w)"
      using rows by (intro unlisted_settled[OF db_soundD(2)[OF assms]]) auto
    then show ?thesis using spec[OF fold(4), of "undefined\<lparr>res_id := rid\<rparr>"] by simp
  qed
  have "expire_reservations c w = (Inr n, w')"
    using list rows fold(1) by (simp add: expire_reservations_def runM)
  then show thesis using that fold(2) all by blast
qed

text \<open>\<open>Calls are safe to repeat for the same timestamp\<close>.\<close>

lemma expire_reservations_idle:
  assumes sound: "sound w" and all: "\<forall>rid. expiry_settled (w_clock w (w_ticks w)) rid (w_db w)"
  obtains w' where "expire_reservations c w = (Inr 0, w')" "w_db w' = w_db w"
proof -
  let ?now = "w_clock w (w_ticks w)"
  let ?w = "w\<lparr>w_ticks := Suc (w_ticks w)\<rparr>"
  obtain rows d' where list: "repo_list_expired ?now (w_db w) = (Inr rows, d')"
    by (simp add: repo_list_expired_def select_reservations_def runM)
  have "\<exists>w'. foldM (expire_step c ?now) rows 0 ?w = (Inr 0, w') \<and> w_db w' = w_db w"
  proof (rule foldM_idle)
    fix x and v :: world assume "w_db v = w_db w"
    then show "\<exists>w'. expire_step c ?now x 0 v = (Inr 0, w') \<and> w_db w' = w_db w"
      using run_expire_step[of v c ?now x 0] sound all by metis
  qed simp
  then obtain w' where "foldM (expire_step c ?now) rows 0 ?w = (Inr 0, w')" "w_db w' = w_db w" by blast
  then show thesis
    using list in_list_expired[OF list] that[of w'] by (simp add: expire_reservations_def runM)
qed

section \<open>Activation\<close>

definition activation_due :: "time \<Rightarrow> reservation \<Rightarrow> bool" where
  "activation_due now r \<longleftrightarrow> res_status r = Scheduled \<and> sql_le (res_starts_at r) now \<and>
     sql_gt (res_ends_at r) now"

definition bench_held :: "string \<Rightarrow> db \<Rightarrow> bool" where
  "bench_held b d \<longleftrightarrow> (\<exists>a \<in> set (db_reservations d). res_bench_id a = b \<and> holding a)"

text \<open>
  The row of an identifier is settled for activation when it is not due, or its bench is offline,
  locked, or held.
\<close>

definition activation_settled :: "scheduler \<Rightarrow> time \<Rightarrow> uuid \<Rightarrow> db \<Rightarrow> bool" where
  "activation_settled c now rid d \<longleftrightarrow>
     (\<forall>r. find_reservation rid d = Some r \<longrightarrow> activation_due now r \<longrightarrow>
        \<not> sch_online c (res_bench_id r) \<or> lock_on (res_bench_id r) d \<noteq> None \<or>
        bench_held (res_bench_id r) d)"

text \<open>The slots of a store: what a pass over candidates read before does not change.\<close>

definition slot_of :: "uuid \<Rightarrow> db \<Rightarrow> (string \<times> time option \<times> time option) option" where
  "slot_of rid d = map_option (\<lambda>r. (res_bench_id r, res_starts_at r, res_ends_at r)) (find_reservation rid d)"

lemma bench_held_put:
  assumes "bench_held b d" and "find_reservation (res_id n) d = Some r" and "\<not> holding r"
    and "reservations_ok (db_reservations d)"
  shows "bench_held b (put_reservation n d)"
proof -
  obtain a where a: "a \<in> set (db_reservations d)" "res_bench_id a = b" "holding a"
    using assms(1) by (auto simp: bench_held_def)
  have "res_id a \<noteq> res_id n"
  proof
    assume "res_id a = res_id n"
    then have "find_reservation (res_id n) d = Some a"
      using find_reservation_unique[OF assms(4) a(1)] by simp
    with assms(2,3) a(3) show False by simp
  qed
  then have "a \<in> set (db_reservations (put_reservation n d))"
    using a(1) by (simp add: set_put_reservation)
  then show ?thesis unfolding bench_held_def by (rule bexI[rotated]) (simp add: a(2,3))
qed

lemma run_due_step:
  assumes sound: "sound w"
    and slot: "slot_of (res_id x) (w_db w) = Some (res_bench_id x, res_starts_at x, res_ends_at x)"
  obtains acc' w' where "process_due_step c now x acc w = (Inr acc', w')"
    "sound w'" "activation_settled c now (res_id x) (w_db w')"
    "\<forall>y. activation_settled c now y (w_db w) \<longrightarrow> activation_settled c now y (w_db w')"
    "activation_settled c now (res_id x) (w_db w) \<Longrightarrow> acc' = acc \<and> w_db w' = w_db w"
    "db_locks (w_db w') = db_locks (w_db w)" "\<forall>y. slot_of y (w_db w') = slot_of y (w_db w)"
proof -
  obtain r where r: "find_reservation (res_id x) (w_db w) = Some r" "res_bench_id r = res_bench_id x"
      "res_starts_at r = res_starts_at x" "res_ends_at r = res_ends_at x"
    using slot by (auto simp: slot_of_def)
  have ok: "reservations_ok (db_reservations (w_db w))" using sound db_soundD(2) by blast
  have rin: "r \<in> set (db_reservations (w_db w))" "res_id r = res_id x"
    using find_reservation_Some[OF r(1)] by auto
  obtain e where e: "res_ends_at x = Some e"
    using sound rin r(4) unfolding db_sound_def fully_timed_def by fastforce
  have sound': "sound (snd (process_due_step c now x acc w))"
    by (rule keepsD[where I = sound, OF sound_process_due_step sound])
  let ?b = "res_bench_id x"
  show thesis
  proof (cases "sql_le (res_ends_at x) now \<or> \<not> sch_online c ?b \<or> lock_on ?b (w_db w) \<noteq> None \<or>
      bench_held ?b (w_db w)")
    case True
    have held: "\<exists>a. repo_get_active ?b None (w_db w) = (Inr (Some a), w_db w)" if "bench_held ?b (w_db w)"
      by (cases rule: repo_get_active_cases[of ?b None "w_db w"])
        (use that in \<open>auto simp: bench_held_def\<close>)
    have "process_due_step c now x acc w = (Inr acc, w)"
    proof (cases "sql_le (res_ends_at x) now \<or> \<not> sch_online c ?b")
      case True
      then show ?thesis by (auto simp: process_due_step_def runM)
    next
      case on: False
      show ?thesis
      proof (cases "lock_on ?b (w_db w)")
        case None
        then obtain a where "repo_get_active ?b None (w_db w) = (Inr (Some a), w_db w)"
          using True on held by auto
        with on None show ?thesis by (simp add: process_due_step_def runM run_lock_get)
      qed (use on in \<open>simp add: process_due_step_def runM run_lock_get\<close>)
    qed
    moreover have "activation_settled c now (res_id x) (w_db w)"
      using True r e by (auto simp: activation_settled_def activation_due_def sql_compare_defs)
    ultimately show thesis using that[of acc w] sound by simp
  next
    case False
    have none: "repo_get_active ?b None (w_db w) = (Inr None, w_db w)"
      by (cases rule: repo_get_active_cases[of ?b None "w_db w"])
        (use False in \<open>auto simp: bench_held_def\<close>)
    let ?f = "Some (scheduler_event (w_uuids w (w_drawn w)) ''RESERVATION_ACTIVATED'' now [])"
    let ?w = "w\<lparr>w_drawn := Suc (w_drawn w)\<rparr>"
    have allowed: "activation_allowed now (w_db w) r \<longleftrightarrow> activation_due now r"
      using False r(2) by (auto simp: activation_allowed_def activation_due_def bench_held_def)
    show thesis
    proof (cases "activation_due now r")
      case due: False
      have "process_due_step c now x acc w = (Inr acc, ?w)"
        using False none due allowed r(1) run_repo_activate_if_available[OF sound, of "res_id x" now ?f]
        by (simp add: process_due_step_def runM run_lock_get)
      moreover have "activation_settled c now (res_id x) (w_db w)"
        using due r(1) by (simp add: activation_settled_def)
      ultimately show thesis using that[of acc ?w] sound by simp
    next
      case due: True
      let ?n = "activated_row now r"
      let ?d = "maybe_event ?f ?n (put_reservation ?n (w_db w))"
      have run: "process_due_step c now x acc w = (Inr (acc + 1), ?w\<lparr>w_db := ?d\<rparr>)"
        using False none due allowed r(1) run_repo_activate_if_available[OF sound, of "res_id x" now ?f]
        by (simp add: process_due_step_def runM run_lock_get)
      have idle: "\<not> holding r" using due by (simp add: activation_due_def holding_def)
      have lock: "lock_on b ?d = lock_on b (w_db w)" for b by (simp add: lock_on_def)
      have held: "bench_held b ?d" if "bench_held b (w_db w)" for b
        using bench_held_put[OF that, of ?n r] r(1) rin idle ok by (simp add: bench_held_def)
      have find: "find_reservation y ?d = (if y = res_id x then Some ?n else find_reservation y (w_db w))" for y
        using rin r(1) by (simp add: find_put_reservation)
      have own: "activation_settled c now (res_id x) ?d"
        unfolding activation_settled_def find by (simp add: activation_due_def)
      have mono: "activation_settled c now y ?d" if "activation_settled c now y (w_db w)" for y
        using that held own unfolding activation_settled_def lock find
        by (cases "y = res_id x") (simp_all, blast)
      have slots: "slot_of y ?d = slot_of y (w_db w)" for y
        using r rin unfolding slot_of_def find by (simp add: activated_row_def)
      have unsettled: "\<not> activation_settled c now (res_id x) (w_db w)"
        using False due r by (auto simp: activation_settled_def)
      show thesis
        using that[OF run] sound' run own mono slots unsettled by simp
    qed
  qed
qed

lemma in_list_due:
  "repo_list_due now d = (Inr rows, d') \<Longrightarrow>
   d' = d \<and> set rows = {r \<in> set (db_reservations d). res_status r = Scheduled \<and> sql_le (res_starts_at r) now}"
  by (auto simp: repo_list_due_def select_reservations_def runM)

lemma slot_of_row:
  assumes "reservations_ok (db_reservations d)" and "x \<in> set (db_reservations d)"
  shows "slot_of (res_id x) d = Some (res_bench_id x, res_starts_at x, res_ends_at x)"
  using find_reservation_unique[OF assms] by (simp add: slot_of_def)

text \<open>
  A pass never fails. After it, at that instant, a due reservation is still waiting only where its
  bench is offline, locked or held.
\<close>

lemma process_due_settles:
  assumes "sound w"
  obtains n w' where "process_due_reservations c w = (Inr n, w')" "sound w'"
    "\<forall>rid. activation_settled c (w_clock w (w_ticks w)) rid (w_db w')"
    "db_locks (w_db w') = db_locks (w_db w)"
proof -
  let ?now = "w_clock w (w_ticks w)"
  let ?w = "w\<lparr>w_ticks := Suc (w_ticks w)\<rparr>"
  obtain rows d' where list: "repo_list_due ?now (w_db w) = (Inr rows, d')"
    by (simp add: repo_list_due_def select_reservations_def runM)
  note rows = in_list_due[OF list]
  let ?I = "\<lambda>v. sound v \<and> db_locks (w_db v) = db_locks (w_db w) \<and>
      (\<forall>y. slot_of y (w_db v) = slot_of y (w_db w))"
  have "\<exists>n w'. foldM (process_due_step c ?now) rows 0 ?w = (Inr n, w') \<and> ?I w' \<and>
      (\<forall>x \<in> set rows. activation_settled c ?now (res_id x) (w_db w')) \<and>
      (\<forall>y. activation_settled c ?now (res_id y) (w_db ?w) \<longrightarrow>
         activation_settled c ?now (res_id (y::reservation)) (w_db w'))"
  proof (rule foldM_settles)
    fix x acc v assume x: "x \<in> set rows" and v: "?I v"
    have "slot_of (res_id x) (w_db v) = Some (res_bench_id x, res_starts_at x, res_ends_at x)"
      using v x rows slot_of_row[OF db_soundD(2)[OF assms], of x] by simp
    moreover have "sound v" using v by simp
    ultimately show "\<exists>acc' w'. process_due_step c ?now x acc v = (Inr acc', w') \<and> ?I w' \<and>
        activation_settled c ?now (res_id x) (w_db w') \<and>
        (\<forall>y. activation_settled c ?now (res_id y) (w_db v) \<longrightarrow>
           activation_settled c ?now (res_id (y::reservation)) (w_db w'))"
      using run_due_step[of v x c ?now acc] v by metis
  qed (use assms in simp)
  then obtain n w' where fold: "foldM (process_due_step c ?now) rows 0 ?w = (Inr n, w')" "?I w'"
      "\<forall>x \<in> set rows. activation_settled c ?now (res_id x) (w_db w')"
      "\<forall>y. activation_settled c ?now (res_id y) (w_db w) \<longrightarrow>
         activation_settled c ?now (res_id (y::reservation)) (w_db w')"
    by auto
  have all: "activation_settled c ?now rid (w_db w')" for rid
  proof (cases "\<exists>r \<in> set rows. res_id r = rid")
    case True
    then show ?thesis using fold(3) by auto
  next
    case False
    then have "activation_settled c ?now rid (w_db w)"
      using rows find_reservation_Some unfolding activation_settled_def activation_due_def by fastforce
    then show ?thesis using spec[OF fold(4), of "undefined\<lparr>res_id := rid\<rparr>"] by simp
  qed
  have "process_due_reservations c w = (Inr n, w')"
    using list rows fold(1) by (simp add: process_due_reservations_def runM)
  then show thesis using that fold(2) all by blast
qed

lemma process_due_idle:
  assumes sound: "sound w" and all: "\<forall>rid. activation_settled c (w_clock w (w_ticks w)) rid (w_db w)"
  obtains w' where "process_due_reservations c w = (Inr 0, w')" "w_db w' = w_db w"
proof -
  let ?now = "w_clock w (w_ticks w)"
  let ?w = "w\<lparr>w_ticks := Suc (w_ticks w)\<rparr>"
  obtain rows d' where list: "repo_list_due ?now (w_db w) = (Inr rows, d')"
    by (simp add: repo_list_due_def select_reservations_def runM)
  note rows = in_list_due[OF list]
  have "\<exists>w'. foldM (process_due_step c ?now) rows 0 ?w = (Inr 0, w') \<and> w_db w' = w_db w"
  proof (rule foldM_idle)
    fix x and v :: world assume x: "x \<in> set rows" and v: "w_db v = w_db w"
    have "slot_of (res_id x) (w_db v) = Some (res_bench_id x, res_starts_at x, res_ends_at x)"
      using v x rows slot_of_row[OF db_soundD(2)[OF sound], of x] by simp
    then show "\<exists>w'. process_due_step c ?now x 0 v = (Inr 0, w') \<and> w_db w' = w_db w"
      using run_due_step[of v x c ?now 0] sound all v by metis
  qed simp
  then obtain w' where "foldM (process_due_step c ?now) rows 0 ?w = (Inr 0, w')" "w_db w' = w_db w" by blast
  then show thesis
    using list rows that[of w'] by (simp add: process_due_reservations_def runM)
qed

section \<open>Promotion\<close>

definition bench_waiting :: "string \<Rightarrow> queue_row \<Rightarrow> bool" where
  "bench_waiting b x \<longleftrightarrow> qe_bench_id (qr_entry x) = b \<and> waiting_row x"

definition waiting_rows :: "string \<Rightarrow> db \<Rightarrow> queue_row list" where
  "waiting_rows b d = order_by (\<lambda>x. (qr_order x, qe_id (qr_entry x)))
     (filter (bench_waiting b) (db_queue d))"

definition waiting_entries :: "string \<Rightarrow> db \<Rightarrow> queue_entry list" where
  "waiting_entries b d =
     map (\<lambda>(i, x). (qr_entry x)\<lparr>qe_position := Some (int i)\<rparr>) (enumerate 1 (waiting_rows b d))"

lemma run_queue_list_bench: "queue_list b None (Some QWaiting) d = (Inr (waiting_entries b d), d)"
  by (simp add: waiting_entries_def queue_list_def runM in_scope_def waiting_rows_def bench_waiting_def [abs_def] waiting_row_def)

text \<open>The policy selects the row that was queued first.\<close>

lemma fifo_selects_first:
  "fifo_select_next (waiting_entries b d) =
   (case waiting_rows b d of [] \<Rightarrow> None | x # _ \<Rightarrow> Some ((qr_entry x)\<lparr>qe_position := Some 1\<rparr>))"
proof (cases "waiting_rows b d")
  case Nil
  then show ?thesis by (simp add: fifo_select_next_def waiting_entries_def)
next
  case (Cons x xs)
  let ?qs = "waiting_entries b d"
  note qs = waiting_entries_def
  let ?first = "(qr_entry x)\<lparr>qe_position := Some 1\<rparr>"
  have "\<forall>y \<in> set (waiting_rows b d). waiting_row y"
    by (simp add: waiting_rows_def bench_waiting_def)
  then have all: "filter (\<lambda>q. qe_status q = QWaiting) ?qs = ?qs"
    by (auto simp: qs filter_id_conv waiting_row_def in_set_enumerate_eq)
  have first: "?first \<in> set ?qs" using Cons by (simp add: qs)
  have "order_by fifo_key ?qs \<noteq> []" using Cons by (simp add: qs)
  then obtain q where q: "first_row (order_by fifo_key ?qs) = Some q"
    using first_row_None[of "order_by fifo_key ?qs"] by (metis not_None_eq)
  have "q \<in> set ?qs" using first_row_Some[OF q] by simp
  then obtain n where n: "n < length (waiting_rows b d)"
      "q = (qr_entry (waiting_rows b d ! n))\<lparr>qe_position := Some (int (Suc n))\<rparr>"
    by (auto simp: qs in_set_conv_nth nth_enumerate_eq simp del: of_nat_Suc)
  have "fifo_key q \<le> fifo_key ?first" by (rule first_order_by_le[OF q first])
  then have "n = 0" using n(2) by (auto simp: fifo_key_def less_eq_prod_def less_prod_def)
  then have "q = ?first" using n Cons by simp
  then show ?thesis using q all Cons by (simp add: fifo_select_next_def)
qed

lemma waiting_rows_head:
  assumes "waiting_rows b d = x # xs"
  shows "x \<in> set (db_queue d)" "bench_waiting b x"
    "\<And>y. y \<in> set (db_queue d) \<Longrightarrow> bench_waiting b y \<Longrightarrow> qr_order x \<le> qr_order y"
proof -
  have "x \<in> set (waiting_rows b d)" using assms by simp
  then show "x \<in> set (db_queue d)" "bench_waiting b x" by (simp_all add: waiting_rows_def)
  fix y assume "y \<in> set (db_queue d)" "bench_waiting b y"
  then have "(qr_order x, qe_id (qr_entry x)) \<le> (qr_order y, qe_id (qr_entry y))"
    using first_order_by_le[of "\<lambda>x. (qr_order x, qe_id (qr_entry x))" "filter (bench_waiting b) (db_queue d)" x y]
      assms by (simp add: waiting_rows_def)
  then show "qr_order x \<le> qr_order y" by (auto simp: less_eq_prod_def)
qed

text \<open>
  \<open>bench_promoted c now b x r d d'\<close>: between the stores, row \<open>x\<close> of the queue of bench \<open>b\<close> was turned
  into the active reservation \<open>r\<close>.
\<close>

definition bench_promoted ::
    "scheduler \<Rightarrow> time \<Rightarrow> string \<Rightarrow> queue_row \<Rightarrow> reservation \<Rightarrow> db \<Rightarrow> db \<Rightarrow> bool" where
  "bench_promoted c now b x r d d' \<longleftrightarrow>
     x \<in> set (db_queue d) \<and> bench_waiting b x \<and>
     (\<forall>y \<in> set (db_queue d). bench_waiting b y \<longrightarrow> qr_order x \<le> qr_order y) \<and>
     sch_online c b \<and> lock_on b d = None \<and> \<not> bench_held b d \<and>
     (\<forall>s \<in> set (db_reservations d). res_bench_id s = b \<longrightarrow> res_status s = Scheduled \<longrightarrow>
        (\<forall>t. res_starts_at s = Some t \<longrightarrow> now \<le> t \<longrightarrow>
           now + seconds (qe_requested_duration_seconds (qr_entry x)) +
             seconds (sch_protection_window_seconds c) \<le> t)) \<and>
     res_bench_id r = trim b \<and> res_owner r = trim (qe_owner (qr_entry x)) \<and> res_status r = Active \<and>
     res_starts_at r = Some now \<and>
     res_ends_at r = Some (now + seconds (qe_requested_duration_seconds (qr_entry x))) \<and>
     db_reservations d' = db_reservations d @ [r] \<and>
     db_queue d' = db_queue (put_queue_row x (promoted_entry now (qr_entry x)) d) \<and>
     db_locks d' = db_locks d"

lemma next_scheduled_none_before:
  assumes "repo_next_scheduled b now d = (Inr v, d')"
    and "s \<in> set (db_reservations d)" "res_bench_id s = b" "res_status s = Scheduled"
    and "res_starts_at s = Some t" "now \<le> t"
  obtains n u where "v = Some n" "res_starts_at n = Some u" "u \<le> t"
proof -
  let ?rows = "filter (\<lambda>r. res_bench_id r = b \<and> res_status r = Scheduled \<and> sql_ge (res_starts_at r) now)
      (db_reservations d)"
  let ?key = "\<lambda>r. (res_starts_at r, res_created_at r, res_id r)"
  have v: "v = first_row (order_by ?key ?rows)"
    using assms(1) by (auto simp: repo_next_scheduled_def select_reservations_def runM)
  have s: "s \<in> set ?rows" using assms(2-6) by (simp add: sql_ge_def)
  have "order_by ?key ?rows \<noteq> []"
    unfolding order_by_Nil by (rule notI, use s in \<open>simp only: empty_set[symmetric] empty_iff list.set\<close>)
  then obtain n where n: "v = Some n"
    using v first_row_None[of "order_by ?key ?rows"] by (metis not_None_eq)
  have "n \<in> set ?rows" using first_row_Some v n by fastforce
  then obtain u where u: "res_starts_at n = Some u" by (auto simp: sql_ge_def split: option.splits)
  have "?key n \<le> ?key s" by (rule first_order_by_le[OF _ s]) (use v n in simp)
  then have "u \<le> t" using u assms(5) by (auto simp: less_eq_prod_def)
  with n u show thesis using that by blast
qed

lemma run_repo_next_scheduled:
  obtains v where "repo_next_scheduled b now d = (Inr v, d)"
  by (simp add: repo_next_scheduled_def select_reservations_def runM)

lemma run_promote_step:
  assumes sound: "sound w"
  obtains (idle) w' where "promote_step c now b acc w = (Inr acc, w')" "w_db w' = w_db w"
  | (promoted) w' x r where "promote_step c now b acc w = (Inr (acc + 1), w')"
      "bench_promoted c now b x r (w_db w) (w_db w')"
proof -
  let ?d = "w_db w"
  have qok: "queue_ok (db_queue ?d)" using sound by (simp add: db_sound_def db_ok_def)
  obtain v where sched: "repo_next_scheduled b now ?d = (Inr v, ?d)" by (rule run_repo_next_scheduled)
  show thesis
  proof (cases "sch_online c b \<and> lock_on b ?d = None")
    case False
    then show thesis
      by (intro idle[of w]) (auto simp: promote_step_def runM run_lock_get split: option.splits)
  next
    case online: True
    show thesis
    proof (cases rule: repo_get_active_cases[of b None ?d])
      case (some a)
      then show thesis
        by (intro idle[of w]) (simp_all add: promote_step_def runM run_lock_get online)
    next
      case none
      note free = promote_step_def runM run_lock_get online none(1) run_queue_list_bench fifo_selects_first
      show thesis
      proof (cases "waiting_rows b ?d")
        case Nil
        then show thesis by (intro idle[of w]) (simp_all add: free)
      next
        case (Cons x xs)
        note head = waiting_rows_head[OF Cons]
        let ?q = "qr_entry x"
        let ?until = "now + seconds (qe_requested_duration_seconds ?q)"
        let ?win = "Some (seconds (sch_protection_window_seconds c))"
        let ?stop = "protected_start_reached (case v of None \<Rightarrow> None | Some r \<Rightarrow> res_starts_at r) ?win (Some ?until)"
        show thesis
        proof (cases ?stop)
          case True
          then show thesis using Cons sched by (intro idle[of w]) (simp_all add: free)
        next
          case False
          define r where "r = strip_reservation (promoted_reservation (w_uuids w (w_drawn w)) b now
              (?q\<lparr>qe_position := Some 1\<rparr>))"
          have r: "res_bench_id r = trim b" "res_owner r = trim (qe_owner ?q)" "res_status r = Active"
              "res_starts_at r = Some now" "res_ends_at r = Some ?until"
            by (simp_all add: r_def promoted_reservation_def)
          have "0 < qe_requested_duration_seconds ?q" using qok head(1) by (simp add: queue_ok_def)
          then have range: "reservation_time_range_ok r" using r by (simp add: reservation_time_range_ok_def)
          let ?f = "Some (promotion_event_pair (w_uuids w (Suc (w_drawn w))) (w_uuids w (Suc (Suc (w_drawn w)))) now)"
          let ?w = "w\<lparr>w_drawn := Suc (Suc (Suc (w_drawn w)))\<rparr>"
          have step: "promote_step c now b acc w =
            (case queue_promote (qe_id ?q) r now ?win ?f ?d of (res, d') \<Rightarrow>
              (case res of Inl e \<Rightarrow> (Inl e, ?w\<lparr>w_db := d'\<rparr>)
               | Inr None \<Rightarrow> (Inr acc, ?w\<lparr>w_db := d'\<rparr>)
               | Inr (Some _) \<Rightarrow> (Inr (acc + 1), ?w\<lparr>w_db := d'\<rparr>)))"
            using Cons sched False range
            by (simp add: free make_reservation_def Let_def r_def[symmetric] split: prod.splits sum.splits option.splits)
          show thesis
          proof (cases "\<exists>y \<in> set (db_queue ?d). promotable (qe_id ?q) r now ?win ?d y")
            case no: False
            then show thesis
              using step run_queue_promote[OF qok, of "qe_id ?q" r now ?win ?f]
              by (intro idle[of ?w]) simp_all
          next
            case True
            have only: "y = x" if "y \<in> set (db_queue ?d)" "qe_id (qr_entry y) = qe_id ?q" for y
              using distinct_map_eq[of "\<lambda>r. qe_id (qr_entry r)" "db_queue ?d" y x] that head(1) qok
              by (simp add: queue_ok_def)
            have px: "promotable (qe_id ?q) r now ?win ?d x"
            proof -
              obtain y where y: "promotable (qe_id ?q) r now ?win ?d y" using True by blast
              then have "y = x" using only[of y] by (simp add: promotable_def)
              with y show ?thesis by simp
            qed
            let ?sel = "filter (\<lambda>x. qe_id (qr_entry x) = qe_id ?q \<and>
                qe_organisation_id (qr_entry x) = res_organisation_id r \<and> waiting_row x) (db_queue ?d)"
            have "x \<in> set ?sel" using px by (simp add: promotable_def)
            from first_row_mem[OF this] obtain z where z: "first_row ?sel = Some z" by (rule exE)
            have "z = x" using first_row_Some[OF z] only[of z] by simp
            let ?p = "promoted_entry now ?q"
            let ?d' = "fold event_added (promotion_events ?f ?p r)
               (put_queue_row x ?p (?d\<lparr>db_reservations := db_reservations ?d @ [r]\<rparr>))"
            have "queue_promote (qe_id ?q) r now ?win ?f ?d = (Inr (Some (?p, r)), ?d')"
              using run_queue_promote[OF qok, of "qe_id ?q" r now ?win ?f] True z \<open>z = x\<close> by (simp add: Let_def)
            then have run: "promote_step c now b acc w = (Inr (acc + 1), ?w\<lparr>w_db := ?d'\<rparr>)"
              using step by simp
            have window: "?until + seconds (sch_protection_window_seconds c) \<le> t"
              if s: "s \<in> set (db_reservations ?d)" "res_bench_id s = b" "res_status s = Scheduled"
                "res_starts_at s = Some t" "now \<le> t" for s t
            proof -
              obtain n u where u: "v = Some n" "res_starts_at n = Some u" "u \<le> t"
                by (rule next_scheduled_none_before[OF sched s])
              have "\<not> u < ?until + seconds (sch_protection_window_seconds c)"
                using False u(1,2) by (simp add: protected_start_reached_def)
              with u(3) show ?thesis by simp
            qed
            have free': "\<not> bench_held b ?d" using none(2) by (simp add: bench_held_def)
            have "bench_promoted c now b x r ?d ?d'"
              unfolding bench_promoted_def
              by (intro conjI ballI impI allI)
                (simp_all add: head(1,2) online free' r put_queue_row_def, (rule head(3) window; assumption)+)
            then show thesis using promoted[OF run] by simp
          qed
        qed
      qed
    qed
  qed
qed

lemma promote_step_total:
  assumes "sound w"
  shows "\<exists>acc' w'. promote_step c now b acc w = (Inr acc', w') \<and> sound w'"
proof -
  have s: "sound (snd (promote_step c now b acc w))"
    by (rule keepsD[where I = sound, OF sound_promote_step assms])
  show ?thesis
    using s by (cases rule: run_promote_step[OF assms, of c now b acc]) auto
qed

lemma promote_queues_total:
  assumes "sound w"
  obtains n w' where "promote_queues c w = (Inr n, w')" "sound w'"
proof -
  let ?now = "w_clock w (w_ticks w)"
  let ?w = "w\<lparr>w_ticks := Suc (w_ticks w)\<rparr>"
  obtain bs where bs: "queue_list_waiting_benches None (w_db w) = (Inr bs, w_db w)"
    by (simp add: queue_list_waiting_benches_def runM)
  have "\<exists>n w'. foldM (promote_step c ?now) bs 0 ?w = (Inr n, w') \<and> sound w' \<and> (\<forall>b \<in> set bs. True) \<and>
      (\<forall>b :: string. True \<longrightarrow> True)"
  proof (rule foldM_settles)
    fix b acc v assume v: "sound v"
    from promote_step_total[OF v, of c ?now b acc]
    show "\<exists>acc' w'. promote_step c ?now b acc v = (Inr acc', w') \<and> sound w' \<and> True \<and>
        (\<forall>b :: string. True \<longrightarrow> True)" by simp
  qed (use assms in simp)
  then obtain n w' where "foldM (promote_step c ?now) bs 0 ?w = (Inr n, w')" "sound w'" by blast
  then show thesis using bs that[of n w'] by (simp add: promote_queues_def runM)
qed

text \<open>A whole scheduler tick never fails on a sound store.\<close>

lemma scheduler_process_total:
  assumes "sound w"
  obtains a e p w' where "scheduler_process c w = (Inr (a, e, p), w')" "sound w'"
proof -
  obtain e w1 where 1: "expire_reservations c w = (Inr e, w1)" "sound w1"
    using expire_reservations_settles[OF assms] by metis
  obtain a w2 where 2: "process_due_reservations c w1 = (Inr a, w2)" "sound w2"
    using process_due_settles[OF 1(2)] by metis
  obtain p w3 where 3: "promote_queues c w2 = (Inr p, w3)" "sound w3"
    using promote_queues_total[OF 2(2)] by metis
  have "scheduler_process c w = (Inr (a, e, p), w3)"
    using 1 2 3 by (simp add: scheduler_process_def runM)
  then show thesis using that 3(2) by blast
qed

end
