(* ===== verification/OperationLocks.thy ===== *)
theory OperationLocks
  imports ReservationService
begin

text \<open>
  \<open>OperationLockService\<close> (\<open>core/operation_locks.py\<close>): the lock that a mutating operation holds on a
  bench, taken on behalf of the owner of the bench's active reservation, or for the maintenance of
  an unreserved bench, and released with the finalisation of an expiry that waited for it.
\<close>

section \<open>The service\<close>

text \<open>\<open>_acquire\<close>. When the event cannot be written the lock is given back.\<close>

definition ol_acquire_lock ::
    "string \<Rightarrow> uuid \<Rightarrow> string \<Rightarrow> int option \<Rightarrow> bool \<Rightarrow> (world, operation_lock) io" where
  "ol_acquire_lock bench operation_id owner lease_seconds maintenance =
     (if (case lease_seconds of None \<Rightarrow> False | Some n \<Rightarrow> n \<le> 0) then raiseM ValueError
      else
        bindM clock_now (\<lambda>now.
        bindM (make_operation_lock
          \<lparr>lock_bench_id = bench, lock_operation_id = operation_id, lock_acquired_at = now,
           lock_expires_at = map_option (\<lambda>n. now + seconds n) lease_seconds\<rparr>) (\<lambda>lock.
        bindM (on_db (if maintenance then lock_acquire_for_maintenance lock now
                      else lock_acquire_for_active lock owner now)) (\<lambda>acquired.
        bindM (catchM
          (emit_event now ''OPERATION_LOCK_ACQUIRED'' ''platform'' (Some bench) None (Some owner)
             [(''operation_id'', JStr operation_id)]
             (Some (''operation:'' @ operation_id @ '':lock-acquired'')))
          (\<lambda>exc. bindM (on_db (lock_release bench operation_id)) (\<lambda>_. raiseM exc))) (\<lambda>_.
        returnM acquired)))))"

definition ol_acquire ::
    "string \<Rightarrow> uuid \<Rightarrow> string \<Rightarrow> int option \<Rightarrow> (world, operation_lock) io" where
  "ol_acquire bench operation_id owner lease_seconds =
     bindM (sv_require_active bench owner) (\<lambda>_.
     ol_acquire_lock bench operation_id owner lease_seconds False)"

definition ol_acquire_maintenance ::
    "string \<Rightarrow> uuid \<Rightarrow> string \<Rightarrow> int option \<Rightarrow> (world, operation_lock) io" where
  "ol_acquire_maintenance bench operation_id owner lease_seconds =
     ol_acquire_lock bench operation_id owner lease_seconds True"

definition ol_release :: "string \<Rightarrow> uuid \<Rightarrow> (world, bool) io" where
  "ol_release bench operation_id =
     bindM (on_db (lock_release bench operation_id)) (\<lambda>released.
     if \<not> released then returnM False
     else
       bindM clock_now (\<lambda>now.
       bindM (on_db (repo_finalize_pending_expiry bench now)) (\<lambda>_.
       bindM (emit_event now ''OPERATION_LOCK_RELEASED'' ''platform'' (Some bench) None None
          [(''operation_id'', JStr operation_id)]
          (Some (''operation:'' @ operation_id @ '':lock-released''))) (\<lambda>_.
       returnM True))))"

section \<open>Lemmas\<close>

lemma keeps_require_active [keeps_intros]: "keeps (\<lambda>w. I (w_db w)) (sv_require_active b owner)"
  unfolding sv_require_active_def by (intro keeps_intros)

lemma sound_ol_acquire_lock [keeps_sound]: "keeps sound (ol_acquire_lock b i owner n m)"
proof -
  have "keeps db_sound (if m then lock_acquire_for_maintenance l now else lock_acquire_for_active l owner now)"
    for l now by (simp add: keeps_sound)
  then show ?thesis
    unfolding ol_acquire_lock_def by (intro keeps_intros keeps_sound)
qed

lemma sound_ol_acquire [keeps_sound]: "keeps sound (ol_acquire b i owner n)"
  unfolding ol_acquire_def by (intro keeps_intros keeps_sound)

lemma sound_ol_acquire_maintenance [keeps_sound]: "keeps sound (ol_acquire_maintenance b i owner n)"
  unfolding ol_acquire_maintenance_def by (intro keeps_sound)

lemma sound_ol_release [keeps_sound]: "keeps sound (ol_release b i)"
  unfolding ol_release_def by (intro keeps_intros keeps_sound)

text \<open>
  A lock is returned to an owner only while the owner's reservation is active and has not ended,
  and then the bench is locked by that operation, and no reservation changed.
\<close>

lemma wp_ol_acquire_lock:
  "wp (ol_acquire_lock b i owner n False)
     (\<lambda>l w'. active_owner (trim b) owner (w_clock w (w_ticks w)) (w_db w) \<and>
        map_option lr_lock (lock_on (trim b) (w_db w')) = Some l \<and> lock_operation_id l = i \<and>
        db_reservations (w_db w') = db_reservations (w_db w))
     (\<lambda>e w'. w_db w' = w_db w) w"
proof (cases "case n of None \<Rightarrow> False | Some k \<Rightarrow> k \<le> 0")
  case True
  then show ?thesis by (simp add: ol_acquire_lock_def wpM)
next
  case False
  let ?now = "w_clock w (w_ticks w)"
  let ?l = "\<lparr>lock_bench_id = trim b, lock_operation_id = i, lock_acquired_at = ?now,
      lock_expires_at = map_option (\<lambda>n. ?now + seconds n) n\<rparr>"
  have added: "lock_on (trim b) (lock_added ?l d) =
      Some \<lparr>lr_lock = ?l, lr_organisation_id = LEGACY_ORGANISATION_ID\<rparr>"
    if "lock_on (trim b) d = None" for d
    using that by (simp add: lock_on_def lock_added_def)
  have acq: "wp (lock_acquire_for_active ?l owner ?now)
     (\<lambda>x d'. active_owner (trim b) owner ?now (w_db w) \<and> map_option lr_lock (lock_on (trim b) d') = Some x \<and>
        lock_operation_id x = i \<and> db_reservations d' = db_reservations (w_db w))
     (\<lambda>e d'. d' = w_db w) (w_db w)"
    by (rule wp_mono[OF wp_lock_acquire_for_active]) (auto simp: added, simp add: lock_added_def)
  show ?thesis
    unfolding ol_acquire_lock_def make_operation_lock_def
    by (simp add: False wpM) (rule wp_mono[OF acq]; simp)
qed

text \<open>
  Releasing: nothing changes unless the operation holds the lock; then the bench is unlocked and no
  reservation of the bench waits for an operation any more.
\<close>

lemma run_ol_release:
  assumes sound: "sound w"
  obtains w' where "ol_release b i w =
      (Inr (\<exists>x. lock_on b (w_db w) = Some x \<and> lock_operation_id (lr_lock x) = i), w')"
    "\<not> (\<exists>x. lock_on b (w_db w) = Some x \<and> lock_operation_id (lr_lock x) = i) \<Longrightarrow>
       db_locks (w_db w') = db_locks (w_db w) \<and> db_reservations (w_db w') = db_reservations (w_db w)"
    "(\<exists>x. lock_on b (w_db w) = Some x \<and> lock_operation_id (lr_lock x) = i) \<Longrightarrow>
       lock_on b (w_db w') = None \<and>
       \<not> (\<exists>r \<in> set (db_reservations (w_db w')). res_bench_id r = b \<and>
            res_status r = ExpiredPendingOperation)"
proof -
  let ?d = "lock_removed b i (w_db w)"
  have ok: "db_ok (w_db w)" using sound by (simp add: db_sound_def)
  have sound1: "db_sound ?d"
    using keeps_run[OF sound_locks(4) sound run_lock_release[OF ok, of b i]] .
  show thesis
  proof (cases "\<exists>x. lock_on b (w_db w) = Some x \<and> lock_operation_id (lr_lock x) = i")
    case False
    then have "ol_release b i w = (Inr False, w\<lparr>w_db := ?d\<rparr>)"
      by (simp add: ol_release_def runM run_lock_release[OF ok])
    moreover have "db_locks ?d = db_locks (w_db w)"
    proof -
      have "\<not> (lock_bench_id (lr_lock x) = b \<and> lock_operation_id (lr_lock x) = i)"
        if "x \<in> set (db_locks (w_db w))" for x
      proof
        assume x: "lock_bench_id (lr_lock x) = b \<and> lock_operation_id (lr_lock x) = i"
        have "lock_on b (w_db w) \<noteq> None" using that x by (auto simp: lock_on_None)
        then obtain y where y: "lock_on b (w_db w) = Some y" by auto
        have "y = x"
          using distinct_map_eq[of "\<lambda>l. lock_bench_id (lr_lock l)" "db_locks (w_db w)" y x]
            lock_on_Some[OF y] that x ok by (simp add: db_ok_def locks_ok_def)
        with y x False show False by simp
      qed
      then show ?thesis by (simp add: lock_removed_def filter_id_conv)
    qed
    ultimately show thesis using False by (intro that[of "w\<lparr>w_db := ?d\<rparr>"]) auto
  next
    case True
    let ?rows = "filter (\<lambda>r. res_bench_id r = b \<and> res_status r = ExpiredPendingOperation) (db_reservations ?d)"
    let ?now = "w_clock w (w_ticks w)"
    let ?d2 = "case first_row ?rows of None \<Rightarrow> ?d | Some r \<Rightarrow> put_reservation (finalized_row ?now r) ?d"
    obtain v where fin: "repo_finalize_pending_expiry b ?now ?d = (Inr v, ?d2)"
      using run_repo_finalize_pending_expiry[OF sound1, of b ?now] by (simp split: option.splits)
    have unlocked: "lock_on b ?d = None"
    proof -
      obtain x where x: "lock_on b (w_db w) = Some x" "lock_operation_id (lr_lock x) = i" using True by auto
      have "lock_operation_id (lr_lock y) = i"
        if "y \<in> set (db_locks (w_db w))" "lock_bench_id (lr_lock y) = b" for y
        using distinct_map_eq[of "\<lambda>l. lock_bench_id (lr_lock l)" "db_locks (w_db w)" y x]
          lock_on_Some[OF x(1)] that x(2) ok by (simp add: db_ok_def locks_ok_def)
      then show ?thesis by (auto simp: lock_on_None lock_removed_def)
    qed
    have lock2: "lock_on b ?d2 = None" using unlocked by (simp add: lock_on_def split: option.splits)
    have pend: "\<not> (\<exists>r \<in> set (db_reservations ?d2). res_bench_id r = b \<and> res_status r = ExpiredPendingOperation)"
    proof (cases "first_row ?rows")
      case None
      then show ?thesis by (auto simp: filter_empty_conv)
    next
      case (Some r)
      have r: "r \<in> set (db_reservations ?d)" "res_bench_id r = b" "res_status r = ExpiredPendingOperation"
        using first_row_Some[OF Some] by auto
      have "y = r" if "y \<in> set (db_reservations ?d)" "res_bench_id y = b"
        "res_status y = ExpiredPendingOperation" for y
        using holding_unique[OF db_soundD(2)[OF sound1] that(1) r(1)] that r by (simp add: holding_def)
      then show ?thesis using Some by (auto simp: set_put_reservation)
    qed
    have "wp (ol_release b i) (\<lambda>x w'. x \<and> lock_on b (w_db w') = lock_on b ?d2 \<and>
        db_reservations (w_db w') = db_reservations ?d2) (\<lambda>_ _. False) w"
      unfolding ol_release_def
      by (simp only: wp_bind wp_on_db wp_def[of "lock_release b i"] run_lock_release[OF ok] True
          prod.case sum.case wp_if wp_clock_now not_True_eq_False if_False)
        (simp add: wp_def[of "repo_finalize_pending_expiry _ _"] fin wpM)
    note post = this
    obtain res w' where run: "ol_release b i w = (res, w')" by (cases "ol_release b i w")
    have res: "res = Inr True" and w': "lock_on b (w_db w') = lock_on b ?d2"
      "db_reservations (w_db w') = db_reservations ?d2"
      using post unfolding wp_def run prod.case by (simp_all split: sum.splits)
    show thesis
    proof (rule that[of w'])
      show "ol_release b i w =
          (Inr (\<exists>x. lock_on b (w_db w) = Some x \<and> lock_operation_id (lr_lock x) = i), w')"
        unfolding run res using True by (simp only: simp_thms)
    next
      show "lock_on b (w_db w') = None \<and> \<not> (\<exists>r \<in> set (db_reservations (w_db w')).
          res_bench_id r = b \<and> res_status r = ExpiredPendingOperation)"
        unfolding w' using lock2 pend by (rule conjI)
    qed (use True in blast)
  qed
qed

end
