(* ===== verification/Interleaving.thy ===== *)
theory Interleaving
  imports Scheduling OperationLocks
begin

text \<open>
  The agent's services run as concurrent tasks over one database: between two transactions of a
  service any number of transactions of other services may run. \<open>agent_step\<close> has one rule for each
  kind of transaction the services issue, with the arguments they pass; what a service read in an
  earlier transaction is a snapshot that may be stale. A run is any sequence of such steps, so what
  holds of the reachable stores holds for every interleaving.
\<close>

section \<open>The steps\<close>

text \<open>
  A row as some earlier transaction read it: it has a start and an end, and its bench is that of
  the row which has its identifier now.
\<close>

definition snapshot :: "reservation \<Rightarrow> db \<Rightarrow> bool" where
  "snapshot r d \<longleftrightarrow> res_starts_at r \<noteq> None \<and> res_ends_at r \<noteq> None \<and>
     (\<forall>x. find_reservation (res_id r) d = Some x \<longrightarrow> res_bench_id x = res_bench_id r)"

inductive agent_step :: "db \<Rightarrow> db \<Rightarrow> bool" where
  create: "res_starts_at r \<noteq> None \<Longrightarrow> res_ends_at r \<noteq> None \<Longrightarrow>
    res_status r = Active \<or> res_status r = Scheduled \<Longrightarrow> repo_create r d = (res, d') \<Longrightarrow>
    agent_step d d'"
| release: "snapshot r d \<Longrightarrow>
    repo_update (released_row now r) (Some Active) None True d = (res, d') \<Longrightarrow> agent_step d d'"
| cancel: "snapshot r d \<Longrightarrow> res_status r = Scheduled \<or> res_status r = Active \<Longrightarrow>
    repo_update (cancelled_row now r) (Some (res_status r)) None (res_status r = Active) d = (res, d') \<Longrightarrow>
    agent_step d d'"
| extend: "snapshot r d \<Longrightarrow> res_status r = Active \<Longrightarrow>
    repo_update (r\<lparr>res_ends_at := Some e\<rparr>) (Some Active) (res_ends_at r) False d = (res, d') \<Longrightarrow>
    agent_step d d'"
| activate: "repo_activate_if_available rid now f d = (res', d') \<Longrightarrow> agent_step d d'"
| expire: "repo_expire_if_due rid now f d = (res', d') \<Longrightarrow> agent_step d d'"
| enqueue: "queue_create q d = (resq, d') \<Longrightarrow> agent_step d d'"
| leave_queue: "queue_cancel i owner now org d = (resq, d') \<Longrightarrow> agent_step d d'"
| promote: "res_starts_at r \<noteq> None \<Longrightarrow> res_ends_at r \<noteq> None \<Longrightarrow>
    res_organisation_id r = LEGACY_ORGANISATION_ID \<Longrightarrow>
    \<forall>x \<in> set (db_queue d). qe_id (qr_entry x) = i \<longrightarrow> qe_bench_id (qr_entry x) = res_bench_id r \<Longrightarrow>
    queue_promote i r now win h d = (resp, d') \<Longrightarrow> agent_step d d'"
| lock: "lock_acquire_for_active l owner now d = (resl, d') \<Longrightarrow> agent_step d d'"
| lock_maintenance: "lock_acquire_for_maintenance l now d = (resl, d') \<Longrightarrow> agent_step d d'"
| unlock: "lock_release b i d = (resb, d') \<Longrightarrow> agent_step d d'"
| finalize: "lock_on b d = None \<Longrightarrow> repo_finalize_pending_expiry b now d = (res', d') \<Longrightarrow> agent_step d d'"
| recover_locks: "lock_recover_stale live now d = (resi, d') \<Longrightarrow> agent_step d d'"
| start_operation: "operation_create p d = (reso, d') \<Longrightarrow> agent_step d d'"
| update_operation: "operation_update p d = (reso, d') \<Longrightarrow> agent_step d d'"
| fail_operations: "operation_recover_incomplete now d = (resi, d') \<Longrightarrow> agent_step d d'"
| event: "event_create e d = (rese, d') \<Longrightarrow> agent_step d d'"

inductive_cases agent_stepE: "agent_step d d'"

inductive agent_run :: "db \<Rightarrow> bool" where
  start: "agent_run empty_db"
| step: "agent_run d \<Longrightarrow> agent_step d d' \<Longrightarrow> agent_run d'"

section \<open>The store stays sound\<close>

lemma sound_operations [keeps_sound]:
  "keeps db_sound (operation_create p)" "keeps db_sound (operation_update p)"
  by (intro keeps_db_sound keeps_db; rule keepsI; simp add: operation_create_def operation_update_def)+

lemma sound_run: "keeps db_sound m \<Longrightarrow> db_sound d \<Longrightarrow> m d = (r, d') \<Longrightarrow> db_sound d'"
  by (rule keeps_run)

lemma step_sound:
  assumes "agent_step d d'" and "db_sound d"
  shows "db_sound d'"
  using assms
proof (cases rule: agent_step.cases)
  case (release r now res)
  have "keeps db_sound (repo_update (released_row now r) (Some Active) None True)"
    using release(1) by (intro keeps_sound) (auto simp: released_row_def snapshot_def)
  from keeps_run[OF this assms(2) release(2)] show ?thesis .
next
  case (cancel r now res)
  have "keeps db_sound (repo_update (cancelled_row now r) (Some (res_status r)) None (res_status r = Active))"
    using cancel(1) by (intro keeps_sound) (auto simp: cancelled_row_def snapshot_def)
  from keeps_run[OF this assms(2) cancel(3)] show ?thesis .
next
  case (extend r e res)
  have "keeps db_sound (repo_update (r\<lparr>res_ends_at := Some e\<rparr>) (Some Active) (res_ends_at r) False)"
    using extend(1) by (intro keeps_sound) (auto simp: snapshot_def)
  from keeps_run[OF this assms(2) extend(3)] show ?thesis .
qed (rule sound_run[OF _ assms(2)], rule keeps_sound, assumption+)+

lemma run_sound: "agent_run d \<Longrightarrow> db_sound d"
  by (induction rule: agent_run.induct) (auto intro: step_sound)

section \<open>A locked bench keeps its holder\<close>

definition holders :: "string \<Rightarrow> db \<Rightarrow> uuid set" where
  "holders b d = res_id ` {r \<in> set (db_reservations d). res_bench_id r = b \<and> holding r}"



lemma bench_held_holders: "bench_held b d \<longleftrightarrow> holders b d \<noteq> {}"
  by (auto simp: bench_held_def holders_def)



subsection \<open>Frames\<close>

named_theorems frames \<open>transactions that leave one table as it is\<close>

lemma frame_statements [frames]:
  "keeps (\<lambda>d. db_reservations d = R) (insert_queue_row q)"
  "keeps (\<lambda>d. db_reservations d = R) (update_queue_entry P f)"
  "keeps (\<lambda>d. db_reservations d = R) (insert_operation_lock l)"
  "keeps (\<lambda>d. db_reservations d = R) (delete_locks Q)"
  "keeps (\<lambda>d. db_reservations d = R) (insert_event e)"
  "keeps (\<lambda>d. db_locks d = L) (insert_queue_row q)"
  "keeps (\<lambda>d. db_locks d = L) (update_queue_entry P f)"
  "keeps (\<lambda>d. db_locks d = L) (insert_reservation n)"
  "keeps (\<lambda>d. db_locks d = L) (update_reservation rid T g)"
  "keeps (\<lambda>d. db_locks d = L) (insert_event e)"
  by (rule keepsI; simp add: insert_queue_row_def update_queue_entry_def insert_operation_lock_def
      delete_locks_def insert_event_def insert_reservation_def update_reservation_def runM Let_def
      split: option.splits)+

lemma frame_reservations [frames]:
  "keeps (\<lambda>d. db_reservations d = R) (queue_create q)"
  "keeps (\<lambda>d. db_reservations d = R) (queue_cancel i owner now org)"
  "keeps (\<lambda>d. db_reservations d = R) (lock_acquire_for_active l owner now)"
  "keeps (\<lambda>d. db_reservations d = R) (lock_acquire_for_maintenance l now)"
  "keeps (\<lambda>d. db_reservations d = R) (lock_release b i)"
  "keeps (\<lambda>d. db_reservations d = R) (lock_recover_stale live now)"
  "keeps (\<lambda>d. db_reservations d = R) (event_create e)"
  unfolding queue_create_def queue_cancel_def lock_acquire_for_active_def
    lock_acquire_for_maintenance_def lock_release_def lock_recover_stale_def event_create_def
  by (intro keeps_intros frames)+

lemma frame_operations [frames]:
  "keeps (\<lambda>d. db_reservations d = R) (operation_create p)"
  "keeps (\<lambda>d. db_reservations d = R) (operation_update p)"
  "keeps (\<lambda>d. db_reservations d = R) (operation_recover_incomplete now)"
  "keeps (\<lambda>d. db_locks d = L) (operation_create p)"
  "keeps (\<lambda>d. db_locks d = L) (operation_update p)"
  "keeps (\<lambda>d. db_locks d = L) (operation_recover_incomplete now)"
  by (rule keepsI; simp add: operation_create_def operation_update_def operation_recover_incomplete_def)+

lemma frame_locks [frames]:
  "keeps (\<lambda>d. db_locks d = L) (repo_create r)"
  "keeps (\<lambda>d. db_locks d = L) (repo_update r st en u)"
  "keeps (\<lambda>d. db_locks d = L) (repo_activate_if_available rid now f)"
  "keeps (\<lambda>d. db_locks d = L) (repo_expire_if_due rid now f)"
  "keeps (\<lambda>d. db_locks d = L) (repo_finalize_pending_expiry b now)"
  "keeps (\<lambda>d. db_locks d = L) (queue_create q)"
  "keeps (\<lambda>d. db_locks d = L) (queue_cancel i owner now org)"
  "keeps (\<lambda>d. db_locks d = L) (queue_promote i r now win h)"
  "keeps (\<lambda>d. db_locks d = L) (event_create e)"
  unfolding repo_create_def repo_create_conflict_def repo_update_def repo_activate_if_available_def
    repo_expire_if_due_def repo_finalize_pending_expiry_def queue_create_def queue_cancel_def
    queue_promote_def event_create_def select_reservations_def
  by (intro keeps_intros frames)+


subsection \<open>Every lock row belongs to the legacy organisation\<close>







subsection \<open>The steps on a locked bench\<close>







section \<open>Properties\<close>

text \<open>
  C1: in every store the agent's services can reach, by any interleaving of their transactions, two
  different reservations of one bench never both hold it, and never occupy overlapping times; a
  bench has at most one lock and at most one active operation.
\<close>

theorem reachable_store_is_consistent:
  assumes "agent_run d"
  shows "(\<forall>x \<in> set (db_reservations d). \<forall>y \<in> set (db_reservations d).
      res_id x \<noteq> res_id y \<longrightarrow> res_bench_id x = res_bench_id y \<longrightarrow>
        \<not> (holding x \<and> holding y) \<and>
        (occupying x \<longrightarrow> occupying y \<longrightarrow>
           (\<exists>s e s' e'. res_starts_at x = Some s \<and> res_ends_at x = Some e \<and>
              res_starts_at y = Some s' \<and> res_ends_at y = Some e' \<and> (e \<le> s' \<or> e' \<le> s)))) \<and>
    distinct (map (\<lambda>l. lock_bench_id (lr_lock l)) (db_locks d)) \<and>
    (\<forall>p \<in> set (db_operations d). \<forall>q \<in> set (db_operations d).
      active_operation p \<longrightarrow> active_operation q \<longrightarrow> op_bench_id p = op_bench_id q \<longrightarrow> op_id p = op_id q)"
proof -
  have sound: "db_sound d" by (rule run_sound[OF assms])
  have slots: "\<exists>s e s' e'. res_starts_at x = Some s \<and> res_ends_at x = Some e \<and>
      res_starts_at y = Some s' \<and> res_ends_at y = Some e' \<and> (e \<le> s' \<or> e' \<le> s)"
    if x: "x \<in> set (db_reservations d)" and y: "y \<in> set (db_reservations d)"
      and c: "compatible x y" "res_bench_id x = res_bench_id y" "occupying x" "occupying y" for x y
  proof -
    obtain s e where x: "res_starts_at x = Some s" "res_ends_at x = Some e"
      by (rule timed_row[OF db_soundD(3)[OF sound] x])
    obtain s' e' where y: "res_starts_at y = Some s'" "res_ends_at y = Some e'"
      by (rule timed_row[OF db_soundD(3)[OF sound] y])
    show ?thesis using c x y by (auto simp: compatible_def not_less)
  qed
  have comp: "compatible x y" if "x \<in> set (db_reservations d)" "y \<in> set (db_reservations d)"
    "res_id x \<noteq> res_id y" for x y
    using db_soundD(2)[OF sound] that by (simp add: reservations_ok_def)
  have "\<not> (holding x \<and> holding y)" if "x \<in> set (db_reservations d)" "y \<in> set (db_reservations d)"
    "res_id x \<noteq> res_id y" "res_bench_id x = res_bench_id y" for x y
    using comp[OF that(1-3)] that(4) by (simp add: compatible_def)
  moreover have "distinct (map (\<lambda>l. lock_bench_id (lr_lock l)) (db_locks d))" "operations_ok (db_operations d)"
    using sound by (simp_all add: db_sound_def db_ok_def locks_ok_def)
  ultimately show ?thesis
    using slots comp operations_okD(2) by (intro conjI ballI impI) blast+
qed

text \<open>Two bookings of one bench one after the other, the first of them active, and a lock.\<close>

definition busy_db :: db where
  "busy_db = lock_added \<lparr>lock_bench_id = ''b'', lock_operation_id = ''o'', lock_acquired_at = 1, lock_expires_at = None\<rparr>
     ((one_row_db (sample_row ''r'' ''b'' ''ann'' Active 0 10))\<lparr>db_reservations :=
       [sample_row ''r'' ''b'' ''ann'' Active 0 10, sample_row ''s'' ''b'' ''bob'' Scheduled 10 20]\<rparr>)"

lemma busy_db_run: "agent_run busy_db"
proof -
  let ?r = "sample_row ''r'' ''b'' ''ann'' Active 0 10"
  let ?s = "sample_row ''s'' ''b'' ''bob'' Scheduled 10 20"
  let ?l = "\<lparr>lock_bench_id = ''b'', lock_operation_id = ''o'', lock_acquired_at = 1, lock_expires_at = None\<rparr>"
  let ?d2 = "(one_row_db ?r)\<lparr>db_reservations := [?r, ?s]\<rparr>"
  have 1: "repo_create ?r empty_db = (Inr ?r, one_row_db ?r)"
    by (simp add: repo_create_def runM require_no_operation_lock_def require_no_reservation_overlap_def
        select_reservations_def insert_reservation_def row_rejected_def time_trigger_aborts_def
        unique_index_aborts_def lock_on_def occupying_def one_row_db_def empty_db_def)
  have 2: "repo_create ?s (one_row_db ?r) = (Inr ?s, ?d2)"
    by (simp add: repo_create_def runM require_no_maintenance_lock_overlap_def maintenance_locked_through_def
        require_no_reservation_overlap_def select_reservations_def insert_reservation_def row_rejected_def
        time_trigger_aborts_def unique_index_aborts_def occupying_def holding_def overlap_selected_def
        row_meets_def sql_compare_defs)
  have 3: "lock_acquire_for_active ?l ''ann'' 1 ?d2 = (Inr ?l, busy_db)"
    by (simp add: lock_acquire_for_active_def runM holding_def sql_compare_defs insert_operation_lock_def
        lock_added_def busy_db_def)
  have "agent_run (one_row_db ?r)"
    by (rule agent_run.step[OF agent_run.start], rule agent_step.create[OF _ _ _ 1]) simp_all
  then have "agent_run ?d2"
    by (rule agent_run.step, intro agent_step.create[OF _ _ _ 2]) simp_all
  then show ?thesis
    by (rule agent_run.step, intro agent_step.lock[OF 3])
qed

theorem reachable_store_witness:
  "\<not> (holding (sample_row ''r'' ''b'' ''ann'' Active 0 10) \<and> holding (sample_row ''s'' ''b'' ''bob'' Scheduled 10 20)) \<and>
   distinct (map (\<lambda>l. lock_bench_id (lr_lock l)) (db_locks busy_db)) \<and> length (db_reservations busy_db) = 2"
  using reachable_store_is_consistent[OF busy_db_run]
  by (simp add: busy_db_def lock_added_def)





end
