(* ===== verification/Timestamps.thy ===== *)
theory Timestamps
  imports Prelude
begin

text \<open>
  The text form of an instant. The stores keep every timestamp as the ISO text that
  \<open>datetime.isoformat\<close> writes for a UTC value, and their SQL compares those texts byte by byte
  (\<open>starts_at < ?\<close>, \<open>ends_at <= ?\<close>, \<open>ORDER BY starts_at\<close>). The text has two widths: the fraction
  is left out when it is zero. This theory shows that the comparison of two such texts is the
  comparison of the instants, which is what allows the other theories to keep instants in the
  columns, and that reading a written text back gives the same value.
\<close>

section \<open>Broken-down UTC instants\<close>

record civil =
  cv_year :: nat
  cv_month :: nat
  cv_day :: nat
  cv_hour :: nat
  cv_minute :: nat
  cv_second :: nat
  cv_microsecond :: nat

text \<open>The ranges a Python \<open>datetime\<close> keeps; the length of the month plays no part here.\<close>

definition civil_valid :: "civil \<Rightarrow> bool" where
  "civil_valid c \<longleftrightarrow> 1 \<le> cv_year c \<and> cv_year c \<le> 9999 \<and> 1 \<le> cv_month c \<and> cv_month c \<le> 12 \<and>
     1 \<le> cv_day c \<and> cv_day c \<le> 31 \<and> cv_hour c < 24 \<and> cv_minute c < 60 \<and> cv_second c < 60 \<and>
     cv_microsecond c < 1000000"

text \<open>Two values with the same offset compare field by field.\<close>

definition civil_key :: "civil \<Rightarrow> nat \<times> nat \<times> nat \<times> nat \<times> nat \<times> nat \<times> nat" where
  "civil_key c = (cv_year c, cv_month c, cv_day c, cv_hour c, cv_minute c, cv_second c,
     cv_microsecond c)"

section \<open>Decimal fields of a fixed width\<close>

definition digit :: "nat \<Rightarrow> char" where
  "digit d = char_of (48 + d)"

primrec padded :: "nat \<Rightarrow> nat \<Rightarrow> string" where
  "padded 0 n = []"
| "padded (Suc w) n = padded w (n div 10) @ [digit (n mod 10)]"

definition digits_value :: "string \<Rightarrow> nat" where
  "digits_value s = foldl (\<lambda>acc c. 10 * acc + (of_char c - 48)) 0 s"

lemma of_char_digit [simp]: "d < 10 \<Longrightarrow> (of_char (digit d) :: nat) = 48 + d"
  by (simp add: digit_def)

lemma digit_less [simp]: "d < 10 \<Longrightarrow> e < 10 \<Longrightarrow> digit d < digit e \<longleftrightarrow> d < e"
  by (simp add: less_char_def)

lemma digit_eq [simp]: "d < 10 \<Longrightarrow> e < 10 \<Longrightarrow> digit d = digit e \<longleftrightarrow> d = e"
  by (metis add_left_cancel of_char_digit)

lemma length_padded [simp]: "length (padded w n) = w"
  by (induction w arbitrary: n) auto

lemma less_append_same_length:
  "length xs = length ys \<Longrightarrow>
   xs @ us < ys @ vs \<longleftrightarrow> xs < ys \<or> xs = ys \<and> us < (vs :: 'a :: linorder list)"
  by (induction xs ys rule: list_induct2) auto

lemma div10_less: "m < 10 * k \<Longrightarrow> m div 10 < (k :: nat)"
  by (simp add: less_mult_imp_div_less mult.commute)

lemma padded_inj: "m < 10 ^ w \<Longrightarrow> n < 10 ^ w \<Longrightarrow> padded w m = padded w n \<longleftrightarrow> m = n"
proof (induction w arbitrary: m n)
  case (Suc w)
  then have "padded w (m div 10) = padded w (n div 10) \<longleftrightarrow> m div 10 = n div 10"
    by (simp add: div10_less)
  then have "padded (Suc w) m = padded (Suc w) n \<longleftrightarrow> m div 10 = n div 10 \<and> m mod 10 = n mod 10"
    by simp
  also have "\<dots> \<longleftrightarrow> m = n" by (metis div_mult_mod_eq)
  finally show ?case .
qed simp

lemma less_tens:
  "b < 10 \<Longrightarrow> d < 10 \<Longrightarrow> 10 * a + b < 10 * c + d \<longleftrightarrow> a < c \<or> a = c \<and> b < d" for a b c d :: nat
  by arith

lemma padded_less: "m < 10 ^ w \<Longrightarrow> n < 10 ^ w \<Longrightarrow> padded w m < padded w n \<longleftrightarrow> m < n"
proof (induction w arbitrary: m n)
  case (Suc w)
  have d: "m div 10 < 10 ^ w" "n div 10 < 10 ^ w"
    using Suc.prems by (simp_all add: div10_less)
  have "padded (Suc w) m < padded (Suc w) n \<longleftrightarrow>
      m div 10 < n div 10 \<or> m div 10 = n div 10 \<and> m mod 10 < n mod 10"
    using Suc.IH[OF d] padded_inj[OF d] by (simp add: less_append_same_length)
  also have "\<dots> \<longleftrightarrow> 10 * (m div 10) + m mod 10 < 10 * (n div 10) + n mod 10"
    using less_tens[of "m mod 10" "n mod 10" "m div 10" "n div 10"] by simp
  also have "\<dots> \<longleftrightarrow> m < n" by (simp only: mult_div_mod_eq)
  finally show ?case .
qed simp

lemma digits_value_snoc: "digits_value (s @ [c]) = 10 * digits_value s + (of_char c - 48)"
  by (simp add: digits_value_def)

lemma digits_value_padded: "n < 10 ^ w \<Longrightarrow> digits_value (padded w n) = n"
proof (induction w arbitrary: n)
  case 0
  then show ?case by (simp add: digits_value_def)
next
  case (Suc w)
  then show ?case by (simp add: digits_value_snoc div10_less)
qed

section \<open>Writing and reading\<close>

text \<open>\<open>datetime.isoformat\<close> of a UTC value.\<close>

definition iso_fraction :: "nat \<Rightarrow> string" where
  "iso_fraction us = (if us = 0 then '''' else ''.'' @ padded 6 us)"

definition isoformat :: "civil \<Rightarrow> string" where
  "isoformat c = padded 4 (cv_year c) @ ''-'' @ padded 2 (cv_month c) @ ''-'' @ padded 2 (cv_day c) @
     ''T'' @ padded 2 (cv_hour c) @ '':'' @ padded 2 (cv_minute c) @ '':'' @ padded 2 (cv_second c) @
     iso_fraction (cv_microsecond c) @ ''+00:00''"

definition datetime_value :: "civil option \<Rightarrow> string option" where
  "datetime_value v = (case v of Some c \<Rightarrow> Some (isoformat c) | None \<Rightarrow> None)"

text \<open>
  The civil form of an instant, counted from the start of 1970 in the proleptic Gregorian calendar,
  by 400-year eras that start on 1 March.
\<close>

definition civil_of :: "time \<Rightarrow> civil" where
  "civil_of t =
     (let days = t div 86400000000; us = t mod 86400000000;
          z = days + 719468; era = z div 146097; doe = z mod 146097;
          yoe = (doe - doe div 1460 + doe div 36524 - doe div 146096) div 365;
          doy = doe - (365 * yoe + yoe div 4 - yoe div 100);
          mp = (5 * doy + 2) div 153;
          m = (if mp < 10 then mp + 3 else mp - 9)
      in \<lparr>cv_year = nat (yoe + era * 400 + (if m \<le> 2 then 1 else 0)), cv_month = nat m,
          cv_day = nat (doy - (153 * mp + 2) div 5 + 1), cv_hour = nat (us div 3600000000),
          cv_minute = nat (us div 60000000 mod 60), cv_second = nat (us div 1000000 mod 60),
          cv_microsecond = nat (us mod 1000000)\<rparr>)"

definition iso_time :: "time \<Rightarrow> string" where
  "iso_time t = isoformat (civil_of t)"

text \<open>\<open>datetime.fromisoformat\<close> on the two widths that \<open>isoformat\<close> writes.\<close>

definition fromisoformat :: "string \<Rightarrow> civil" where
  "fromisoformat s =
     \<lparr>cv_year = digits_value (take 4 s), cv_month = digits_value (take 2 (drop 5 s)),
      cv_day = digits_value (take 2 (drop 8 s)), cv_hour = digits_value (take 2 (drop 11 s)),
      cv_minute = digits_value (take 2 (drop 14 s)), cv_second = digits_value (take 2 (drop 17 s)),
      cv_microsecond = (if length s = 32 then digits_value (take 6 (drop 20 s)) else 0)\<rparr>"

definition parse_datetime :: "string option \<Rightarrow> civil option" where
  "parse_datetime v = (case v of Some s \<Rightarrow> Some (fromisoformat s) | None \<Rightarrow> None)"

lemma civil_validD:
  assumes "civil_valid c"
  shows "cv_year c < 10 ^ 4" "cv_month c < 10 ^ 2" "cv_day c < 10 ^ 2" "cv_hour c < 10 ^ 2"
    "cv_minute c < 10 ^ 2" "cv_second c < 10 ^ 2" "cv_microsecond c < 10 ^ 6"
  using assms by (auto simp: civil_valid_def)

lemma less_append_same_prefix [simp]:
  "xs @ us < xs @ vs \<longleftrightarrow> us < (vs :: 'a :: linorder list)"
  by (simp add: less_append_same_length)

lemma iso_fraction_less:
  assumes "m < 10 ^ 6" and "n < 10 ^ 6"
  shows "iso_fraction m @ ''+00:00'' < iso_fraction n @ ''+00:00'' \<longleftrightarrow> m < n"
proof -
  have eq: "padded 6 m = padded 6 n \<longleftrightarrow> m = n" and less: "padded 6 m < padded 6 n \<longleftrightarrow> m < n"
    using padded_inj[OF assms] padded_less[OF assms] by simp_all
  show ?thesis
    by (auto simp: iso_fraction_def less_char_def less_append_same_length less eq)
qed

lemma padded_field:
  assumes "m < 10 ^ w" and "n < 10 ^ w"
  shows "padded w m @ us < padded w n @ vs \<longleftrightarrow> m < n \<or> m = n \<and> us < vs"
  using assms by (simp add: less_append_same_length padded_inj padded_less)

lemma pair_less: "(x, p) < (y, q) \<longleftrightarrow> x < y \<or> x = y \<and> p < (q :: 'a :: linorder)" for x y :: nat
  by auto

lemma isoformat_less:
  assumes a: "civil_valid a" and b: "civil_valid b"
  shows "isoformat a < isoformat b \<longleftrightarrow> civil_key a < civil_key b"
proof -
  note va = civil_validD[OF a] and vb = civil_validD[OF b]
  note fields = padded_field[OF va(1) vb(1)] padded_field[OF va(2) vb(2)]
    padded_field[OF va(3) vb(3)] padded_field[OF va(4) vb(4)] padded_field[OF va(5) vb(5)]
    padded_field[OF va(6) vb(6)] iso_fraction_less[OF va(7) vb(7)]
  show ?thesis
    unfolding isoformat_def civil_key_def by (simp only: fields less_append_same_prefix pair_less)
qed

lemma isoformat_eq:
  assumes "civil_valid a" and "civil_valid b"
  shows "isoformat a = isoformat b \<longleftrightarrow> civil_key a = civil_key b"
  using isoformat_less[OF assms] isoformat_less[OF assms(2) assms(1)]
  by (metis linorder_neqE order_less_irrefl)

lemma isoformat_le:
  assumes "civil_valid a" and "civil_valid b"
  shows "isoformat a \<le> isoformat b \<longleftrightarrow> civil_key a \<le> civil_key b"
  using isoformat_less[OF assms] isoformat_eq[OF assms] by (simp add: order_le_less)

lemma length_iso_fraction: "length (iso_fraction us) = (if us = 0 then 0 else 7)"
  by (simp add: iso_fraction_def)

lemma length_isoformat: "length (isoformat c) = (if cv_microsecond c = 0 then 25 else 32)"
  by (simp add: isoformat_def length_iso_fraction)

lemma fromisoformat_isoformat:
  assumes "civil_valid c"
  shows "fromisoformat (isoformat c) = c"
proof -
  note v = civil_validD[OF assms]
  have f: "take 4 (isoformat c) = padded 4 (cv_year c)"
    "take 2 (drop 5 (isoformat c)) = padded 2 (cv_month c)"
    "take 2 (drop 8 (isoformat c)) = padded 2 (cv_day c)"
    "take 2 (drop 11 (isoformat c)) = padded 2 (cv_hour c)"
    "take 2 (drop 14 (isoformat c)) = padded 2 (cv_minute c)"
    "take 2 (drop 17 (isoformat c)) = padded 2 (cv_second c)"
    by (simp_all add: isoformat_def)
  have us: "(if length (isoformat c) = 32 then digits_value (take 6 (drop 20 (isoformat c))) else 0)
      = cv_microsecond c"
  proof (cases "cv_microsecond c = 0")
    case False
    then have "take 6 (drop 20 (isoformat c)) = padded 6 (cv_microsecond c)"
      by (simp add: isoformat_def iso_fraction_def)
    with False show ?thesis
      using digits_value_padded[OF v(7)] by (simp only: length_isoformat if_False if_True simp_thms)
  qed (simp add: length_isoformat)
  show ?thesis
    unfolding fromisoformat_def f us
    using v[THEN digits_value_padded] by simp
qed

section \<open>Properties\<close>

text \<open>
  For two timestamps of the stores, comparing the stored ISO texts as SQLite and the row
  checks do (strictly, for equality, or with \<open><=\<close>) gives the comparison of the instants, although
  the text has no fraction when the microseconds are zero.
\<close>

theorem stored_text_order_is_time_order:
  assumes "civil_valid a" and "civil_valid b"
  shows "(isoformat a < isoformat b \<longleftrightarrow> civil_key a < civil_key b) \<and>
    (isoformat a = isoformat b \<longleftrightarrow> a = b) \<and>
    (isoformat a \<le> isoformat b \<longleftrightarrow> civil_key a \<le> civil_key b)"
  using isoformat_less[OF assms] isoformat_eq[OF assms] isoformat_le[OF assms]
  by (auto simp: civil_key_def intro: civil.equality)

text \<open>Half a second after midnight comes after midnight, and before the next second.\<close>

theorem stored_text_order_witness:
  "isoformat \<lparr>cv_year = 2026, cv_month = 1, cv_day = 2, cv_hour = 0, cv_minute = 0, cv_second = 0,
       cv_microsecond = 0\<rparr>
   < isoformat \<lparr>cv_year = 2026, cv_month = 1, cv_day = 2, cv_hour = 0, cv_minute = 0, cv_second = 0,
       cv_microsecond = 500000\<rparr>"
proof -
  let ?a = "\<lparr>cv_year = 2026, cv_month = 1, cv_day = 2, cv_hour = 0, cv_minute = 0, cv_second = 0,
       cv_microsecond = 0\<rparr>"
  let ?b = "\<lparr>cv_year = 2026, cv_month = 1, cv_day = 2, cv_hour = 0, cv_minute = 0, cv_second = 0,
       cv_microsecond = 500000\<rparr>"
  have v: "civil_valid ?a" "civil_valid ?b" by (simp_all add: civil_valid_def)
  have "civil_key ?a < civil_key ?b" by (simp add: civil_key_def)
  then show ?thesis using stored_text_order_is_time_order[OF v] by simp
qed

text \<open>
  Writing an optional timestamp into a column and reading the column back gives the same
  timestamp, with and without a fraction.
\<close>

theorem timestamp_column_roundtrip:
  assumes "\<forall>c. v = Some c \<longrightarrow> civil_valid c"
  shows "parse_datetime (datetime_value v) = v"
  using assms by (auto simp: parse_datetime_def datetime_value_def fromisoformat_isoformat
      split: option.splits)

theorem timestamp_column_roundtrip_witness:
  "parse_datetime (datetime_value (Some \<lparr>cv_year = 2026, cv_month = 12, cv_day = 31, cv_hour = 23,
     cv_minute = 59, cv_second = 59, cv_microsecond = 7\<rparr>)) =
   Some \<lparr>cv_year = 2026, cv_month = 12, cv_day = 31, cv_hour = 23,
     cv_minute = 59, cv_second = 59, cv_microsecond = 7\<rparr>"
  by (rule timestamp_column_roundtrip) (simp add: civil_valid_def)

end
