(* ===== verification/Recovery.thy ===== *)
theory Recovery
  imports Scheduling OperationLocks Timestamps
begin

text \<open>
  \<open>RecoveryService.recover\<close> (\<open>core/recovery.py\<close>), run when an agent starts: the operations that were
  running are failed, every lock is removed, and the scheduler catches up.
\<close>

record recovery =
  rv_scheduler :: scheduler
  rv_has_records :: bool
  rv_automatic_assignment :: bool

definition recovery_event_key :: "time \<Rightarrow> string \<Rightarrow> string option" where
  "recovery_event_key started_at step = Some (''recovery:'' @ iso_time started_at @ '':'' @ step)"

definition stale_lock_event :: "time \<Rightarrow> operation_lock \<Rightarrow> unit \<Rightarrow> (world, unit) io" where
  "stale_lock_event started_at lock u =
     emit_event started_at ''STALE_LOCK_RECOVERED'' ''recovery'' (Some (lock_bench_id lock)) None None
       [(''operation_id'', JStr (lock_operation_id lock))]
       (Some (''operation:'' @ lock_operation_id lock @ '':stale-lock-recovered''))"

definition report_payload :: "recovery_report \<Rightarrow> payload" where
  "report_payload r =
     [(''started_at'', JTime (rr_started_at r)), (''completed_at'', JTime (rr_completed_at r)),
      (''interrupted_operations'', JInt (rr_interrupted_operations r)),
      (''stale_locks_removed'', JInt (rr_stale_locks_removed r)),
      (''reservations_expired'', JInt (rr_reservations_expired r)),
      (''reservations_activated'', JInt (rr_reservations_activated r)),
      (''queue_entries_promoted'', JInt (rr_queue_entries_promoted r))]"

text \<open>\<open>recover\<close> up to the removal of the locks, for its \<open>started_at\<close>.\<close>

definition recover_clear ::
    "recovery \<Rightarrow> int option \<Rightarrow> time \<Rightarrow> (world, int option \<times> int \<times> operation_lock list \<times> int) io" where
  "recover_clear v interrupted_operations started_at =
     bindM (if rv_has_records v
            then bindM (on_db (recovery_start started_at)) (\<lambda>i. returnM (Some i))
            else returnM None) (\<lambda>record_id.
     bindM (emit_event started_at ''RECOVERY_STARTED'' ''recovery'' None None None []
        (recovery_event_key started_at ''started'')) (\<lambda>_.
     bindM (case interrupted_operations of
              None \<Rightarrow> on_db (operation_recover_incomplete started_at)
            | Some n \<Rightarrow> returnM n) (\<lambda>interrupted.
     bindM (on_db lock_list) (\<lambda>locks_before_recovery.
     bindM (on_db (lock_recover_stale {} started_at)) (\<lambda>stale.
     returnM (record_id, interrupted, locks_before_recovery, stale))))))"

text \<open>The rest of \<open>recover\<close>.\<close>

definition recover_catch_up ::
    "recovery \<Rightarrow> time \<Rightarrow> int option \<times> int \<times> operation_lock list \<times> int \<Rightarrow> (world, recovery_report) io" where
  "recover_catch_up v started_at cleared =
     (case cleared of (record_id, interrupted, locks_before_recovery, stale) \<Rightarrow>
     bindM (foldM (stale_lock_event started_at) locks_before_recovery ()) (\<lambda>_.
     bindM (expire_reservations (rv_scheduler v)) (\<lambda>expired.
     bindM (process_due_reservations (rv_scheduler v)) (\<lambda>activated.
     bindM (if rv_automatic_assignment v then promote_queues (rv_scheduler v) else returnM 0)
       (\<lambda>promoted.
     bindM clock_now (\<lambda>completed_at.
     bindM (make_recovery_report
        \<lparr>rr_started_at = started_at, rr_completed_at = completed_at,
         rr_interrupted_operations = interrupted, rr_stale_locks_removed = stale,
         rr_reservations_expired = expired, rr_reservations_activated = activated,
         rr_queue_entries_promoted = promoted\<rparr>) (\<lambda>report.
     bindM (case record_id of
              None \<Rightarrow> returnM ()
            | Some i \<Rightarrow> on_db (recovery_complete i report)) (\<lambda>_.
     bindM (emit_event completed_at ''RECOVERY_COMPLETED'' ''recovery'' None None None
        (report_payload report) (recovery_event_key started_at ''completed'')) (\<lambda>_.
     returnM report)))))))))"

definition recover :: "recovery \<Rightarrow> int option \<Rightarrow> (world, recovery_report) io" where
  "recover v interrupted_operations =
     bindM clock_now (\<lambda>started_at.
     bindM (recover_clear v interrupted_operations started_at) (\<lambda>cleared.
     recover_catch_up v started_at cleared))"

section \<open>Lemmas\<close>

lemma sound_stale_lock_event [keeps_sound]: "keeps sound (stale_lock_event t l u)"
  unfolding stale_lock_event_def by (intro keeps_sound)

lemma sound_recover [keeps_sound]: "keeps sound (recover v n)"
  unfolding recover_def recover_clear_def recover_catch_up_def by (intro keeps_intros keeps_sound)

text \<open>What is left of the previous run: no lock, and no operation that is still active.\<close>

definition run_cleared :: "db \<Rightarrow> bool" where
  "run_cleared d \<longleftrightarrow> db_locks d = [] \<and> \<not> (\<exists>p \<in> set (db_operations d). active_operation p)"

named_theorems keeps_cleared \<open>operations that leave a cleared store cleared\<close>

lemma cleared_statements [keeps_cleared]:
  "keeps run_cleared (insert_reservation n)" "keeps run_cleared (update_reservation i P f)"
  "keeps run_cleared (update_queue_entry Q g)" "keeps run_cleared (insert_event e)"
  "keeps run_cleared (recovery_complete k rep)"
  by (rule keepsI; simp add: insert_reservation_def update_reservation_def update_queue_entry_def
      insert_event_def recovery_complete_def runM run_cleared_def Let_def split: option.splits)+

lemma cleared_repository [keeps_cleared]:
  "keeps run_cleared (repo_activate_if_available i now f)"
  "keeps run_cleared (repo_expire_if_due i now f)"
  "keeps run_cleared (queue_promote i r now win h)"
  "keeps run_cleared (event_create e)"
  unfolding repo_activate_if_available_def repo_expire_if_due_def queue_promote_def event_create_def
  by (intro keeps_intros keeps_cleared)+

lemma cleared_emit_event [keeps_cleared]:
  "keeps (\<lambda>w. run_cleared (w_db w)) (emit_event t ty s b r a p k)"
  unfolding emit_event_def by (intro keeps_intros keeps_cleared)

lemma cleared_passes [keeps_cleared]:
  "keeps (\<lambda>w. run_cleared (w_db w)) (expire_reservations c)"
  "keeps (\<lambda>w. run_cleared (w_db w)) (process_due_reservations c)"
  "keeps (\<lambda>w. run_cleared (w_db w)) (promote_queues c)"
  "keeps (\<lambda>w. run_cleared (w_db w)) (stale_lock_event t l u)"
  unfolding expire_reservations_def expire_step_def process_due_reservations_def process_due_step_def
    promote_queues_def promote_step_def stale_lock_event_def
  by (intro keeps_intros keeps_cleared)+

lemma cleared_catch_up [keeps_cleared]:
  "keeps (\<lambda>w. run_cleared (w_db w)) (recover_catch_up v t cleared)"
  unfolding recover_catch_up_def by (intro keeps_intros keeps_cleared)

lemma not_active_after_recover:
  "\<forall>p \<in> set (update_where active_operation (interrupted_operation now) ps). \<not> active_operation p"
proof
  fix p assume "p \<in> set (update_where active_operation (interrupted_operation now) ps)"
  then obtain r where "p = (if active_operation r then interrupted_operation now r else r)"
    by (auto simp: set_update_where)
  then show "\<not> active_operation p" by (cases "active_operation r") simp_all
qed

lemma wp_lock_recover_stale_all:
  "wp (lock_recover_stale {} now) Q E d = Q (int (length (db_locks d))) (d\<lparr>db_locks := []\<rparr>)"
  by (simp add: wp_def run_lock_recover_stale_all)

lemma wp_operation_recover:
  "wp (operation_recover_incomplete now) Q E d =
     Q (int (length (filter active_operation (db_operations d))))
       (d\<lparr>db_operations := update_where active_operation (interrupted_operation now) (db_operations d)\<rparr>)"
  by (simp add: wp_def operation_recover_incomplete_def)

lemma wp_recovery_start:
  "wp (recovery_start t) Q E d = Q (db_recovery_sequence d + 1)
     (d\<lparr>db_recovery_sequence := db_recovery_sequence d + 1, db_recovery := db_recovery d @
       [\<lparr>rec_id = db_recovery_sequence d + 1, rec_started_at = t, rec_completed_at = None,
         rec_report = None\<rparr>]\<rparr>)"
  by (simp add: recovery_start_def wpM)

lemma event_added_recovery [simp]:
  "db_recovery_sequence (event_added e d) = db_recovery_sequence d"
  by (simp add: event_added_def)

text \<open>Clearing always succeeds, and counts what it cleared.\<close>

lemma wp_recover_clear:
  "wp (recover_clear v None t)
     (\<lambda>x w'. run_cleared (w_db w') \<and> set (fst (snd (snd x))) = lr_lock ` set (db_locks (w_db w)) \<and>
        fst (snd x) = int (length (filter active_operation (db_operations (w_db w)))) \<and>
        snd (snd (snd x)) = int (length (db_locks (w_db w))))
     (\<lambda>_ _. False) w"
  unfolding recover_clear_def
  by (cases "rv_has_records v")
    (simp_all add: wpM wp_recovery_start wp_operation_recover wp_lock_recover_stale_all lock_list_def
      run_cleared_def not_active_after_recover)

lemma recover_clears: "run_cleared (w_db (snd (recover v None w)))"
proof -
  have "wp (recover_catch_up v t x) (\<lambda>_ w. run_cleared (w_db w)) (\<lambda>_ w. run_cleared (w_db w)) w'"
    if "run_cleared (w_db w')" for t x w'
    using cleared_catch_up that unfolding keeps_wp by blast
  then have "wp (recover v None) (\<lambda>_ w. run_cleared (w_db w)) (\<lambda>_ w. run_cleared (w_db w)) w"
    unfolding recover_def wp_bind wp_clock_now by (intro wp_mono[OF wp_recover_clear]) simp_all
  then show ?thesis by (simp add: wp_def case_prod_beta split: sum.splits)
qed

end

