(* ===== verification/AgentProperties.thy ===== *)
theory AgentProperties
  imports Interleaving Recovery
begin

text \<open>
  What the reservation side of an agent promises, as properties of its services: the queue
  repository, the three passes of the scheduler, operation locks, start-up recovery, the life cycle
  of an operation, and the operations of the owner of a reservation.
\<close>

section \<open>The queue\<close>

text \<open>
  Within an organisation the positions that listing a queue numbers are the positions that
  reading an entry counts: every listed entry, read by its identifier, is returned as listed.
\<close>

theorem listed_positions_are_read_positions:
  assumes "agent_run d" and "queue_list bench (Some g) (Some QWaiting) d = (Inr qs, d')" and "q \<in> set qs"
  shows "queue_get (qe_id q) (Some g) d = (Inr (Some q), d)"
proof -
  have ok: "queue_ok (db_queue d)"
    using run_sound[OF assms(1)] by (simp add: db_sound_def db_ok_def)
  have "d' = d"
    using keeps_run[OF keeps_queue_reads(3)[of "(=) d"] refl assms(2)] by simp
  then show ?thesis using queue_list_positions_agree[OF ok _ assms(3)] assms(2) by simp
qed


text \<open>A queue of two on a free bench: ann asked before bob.\<close>

definition sample_entry :: "uuid \<Rightarrow> string \<Rightarrow> queue_entry" where
  "sample_entry i owner = \<lparr>qe_id = i, qe_organisation_id = LEGACY_ORGANISATION_ID, qe_bench_id = ''b'',
     qe_owner = owner, qe_owner_principal_id = None, qe_owner_principal_type = None,
     qe_requested_duration_seconds = 60, qe_description = None, qe_status = QWaiting,
     qe_created_at = 0, qe_promoted_at = None, qe_cancelled_at = None, qe_position = None,
     qe_idempotency_key = None\<rparr>"

lemma sample_entry_simps [simp]:
  "qe_id (sample_entry i ow) = i" "qe_organisation_id (sample_entry i ow) = LEGACY_ORGANISATION_ID"
  "qe_bench_id (sample_entry i ow) = ''b''" "qe_owner (sample_entry i ow) = ow"
  "qe_requested_duration_seconds (sample_entry i ow) = 60" "qe_status (sample_entry i ow) = QWaiting"
  "qe_idempotency_key (sample_entry i ow) = None"
  "(sample_entry i ow)\<lparr>qe_position := None\<rparr> = sample_entry i ow"
  by (simp_all add: sample_entry_def)

definition queued_db :: db where
  "queued_db = empty_db\<lparr>db_queue := [\<lparr>qr_order = 1, qr_entry = sample_entry ''p'' ''ann''\<rparr>,
     \<lparr>qr_order = 2, qr_entry = sample_entry ''q'' ''bob''\<rparr>]\<rparr>"

lemma queued_db_simps [simp]:
  "db_queue queued_db = [\<lparr>qr_order = 1, qr_entry = sample_entry ''p'' ''ann''\<rparr>,
     \<lparr>qr_order = 2, qr_entry = sample_entry ''q'' ''bob''\<rparr>]"
  "db_reservations queued_db = []" "db_locks queued_db = []" "lock_on b queued_db = None"
  by (simp_all add: queued_db_def lock_on_def)

lemma queue_create_entry:
  assumes "\<forall>x \<in> set (db_queue d). qe_id (qr_entry x) \<noteq> i"
  shows "\<exists>res. queue_create (sample_entry i owner) d = (res, queue_appended (sample_entry i owner) d)"
  using assms
  by (auto simp: queue_create_def runM with_position_run insert_queue_row_def
      queue_appended_def next_queue_order_fresh less_imp_neq[OF next_queue_order_fresh])

lemma queued_db_run: "agent_run queued_db"
proof -
  let ?p = "sample_entry ''p'' ''ann''" and ?q = "sample_entry ''q'' ''bob''"
  let ?d1 = "queue_appended ?p empty_db"
  have q1: "db_queue ?d1 = [\<lparr>qr_order = 1, qr_entry = ?p\<rparr>]"
    by (simp add: queue_appended_def next_queue_order_def)
  obtain r1 where 1: "queue_create ?p empty_db = (r1, ?d1)" using queue_create_entry[of empty_db "''p''"] by auto
  have "\<forall>x \<in> set (db_queue ?d1). qe_id (qr_entry x) \<noteq> ''q''" by (simp add: q1)
  from queue_create_entry[OF this] obtain r2 where 2: "queue_create ?q ?d1 = (r2, queue_appended ?q ?d1)" by blast
  have "queue_appended ?q ?d1 = queued_db"
    using q1 by (simp add: queue_appended_def[of ?q] next_queue_order_def queued_db_def)
      (simp add: queue_appended_def)
  moreover have "agent_run ?d1" by (rule agent_run.step[OF agent_run.start], rule agent_step.enqueue[OF 1])
  ultimately show ?thesis using agent_run.step[of ?d1] agent_step.enqueue[OF 2] by simp
qed

theorem listed_positions_are_read_positions_witness:
  "queue_get ''q'' (Some LEGACY_ORGANISATION_ID) queued_db =
     (Inr (Some ((sample_entry ''q'' ''bob'')\<lparr>qe_position := Some 2\<rparr>)), queued_db)"
proof -
  let ?q = "(sample_entry ''q'' ''bob'')\<lparr>qe_position := Some 2\<rparr>"
  obtain qs where qs: "queue_list ''b'' (Some LEGACY_ORGANISATION_ID) (Some QWaiting) queued_db = (Inr qs, queued_db)"
      "?q \<in> set qs"
    by (simp add: queue_list_def runM order_by_def in_scope_def)
  have "qe_id ?q = ''q''" by simp
  then show ?thesis using listed_positions_are_read_positions[OF queued_db_run qs] by simp
qed


text \<open>
  Promotion is all or nothing. In one transaction the entry, which still waits with no
  occupying reservation and no lock in its way, is marked as promoted and its reservation is
  inserted; in every other case the store does not change and nothing is reported.
\<close>

theorem promotion_is_all_or_nothing:
  assumes "agent_run d" and run: "queue_promote i r now window f d = (res, d')"
  shows "res = Inr None \<and> d' = d \<or>
    (\<exists>x \<in> set (db_queue d). qe_id (qr_entry x) = i \<and> waiting_row x \<and>
       \<not> promotion_blocked (qr_entry x) d \<and> \<not> row_rejected r (db_reservations d) \<and>
       res = Inr (Some (promoted_entry now (qr_entry x), r)) \<and>
       db_reservations d' = db_reservations d @ [r] \<and>
       db_queue d' = db_queue (put_queue_row x (promoted_entry now (qr_entry x)) d) \<and>
       db_locks d' = db_locks d)"
proof -
  have ok: "queue_ok (db_queue d)"
    using run_sound[OF assms(1)] by (simp add: db_sound_def db_ok_def)
  show ?thesis
  proof (cases "\<exists>x \<in> set (db_queue d). promotable i r now window d x")
    case False
    then show ?thesis using run by (simp add: run_queue_promote[OF ok])
  next
    case True
    then obtain x where x: "promotable i r now window d x" by blast
    let ?rows = "filter (\<lambda>x. qe_id (qr_entry x) = i \<and>
        qe_organisation_id (qr_entry x) = res_organisation_id r \<and> waiting_row x) (db_queue d)"
    have "x \<in> set ?rows" using x by (simp add: promotable_def)
    then obtain y where y: "first_row ?rows = Some y" by (cases ?rows) (simp_all add: first_row_def)
    have "y = x"
      using first_row_Some[OF y] x ok distinct_map_eq[of "\<lambda>x. qe_id (qr_entry x)" "db_queue d" y x]
      by (simp add: promotable_def queue_ok_def)
    with y x True run show ?thesis
      by (intro disjI2 bexI[of _ x]) (auto simp: run_queue_promote[OF ok] Let_def promotable_def put_queue_row_def)
  qed
qed

definition ann_promoted :: reservation where
  "ann_promoted = (sample_row ''r'' ''b'' ''ann'' Active 100 160)"

theorem promotion_is_all_or_nothing_witness:
  "let (res, d') = queue_promote ''p'' ann_promoted 100 None None queued_db
   in (res = Inr None \<and> d' = queued_db) \<noteq>
      (res \<noteq> Inr None \<and> db_reservations d' = [ann_promoted])"
proof -
  obtain res d' where run: "queue_promote ''p'' ann_promoted 100 None None queued_db = (res, d')"
    by (cases "queue_promote ''p'' ann_promoted 100 None None queued_db")
  show ?thesis using promotion_is_all_or_nothing[OF queued_db_run run] by (auto simp: run)
qed

section \<open>The scheduler\<close>

definition sample_scheduler :: scheduler where
  "sample_scheduler = \<lparr>sch_online = (\<lambda>_. True), sch_protection_window_seconds = 300, sch_expiry_grace_seconds = 30\<rparr>"

text \<open>
  C21: a tick of the scheduler (expire, activate, promote) never fails on a store the services can
  reach, whatever the configuration, the clock and the benches that are online, and leaves the
  store consistent.
\<close>

theorem scheduler_tick_never_fails:
  assumes "agent_run (w_db w)"
  shows "\<exists>activated expired promoted w'.
    scheduler_process c w = (Inr (activated, expired, promoted), w') \<and> db_sound (w_db w')"
  by (rule scheduler_process_total[OF run_sound[OF assms], of c]) blast

theorem scheduler_tick_never_fails_witness:
  "\<exists>activated expired promoted w'.
    scheduler_process sample_scheduler (sample_world busy_db 50) = (Inr (activated, expired, promoted), w') \<and>
    db_sound (w_db w')"
  by (rule scheduler_tick_never_fails) (simp add: busy_db_run)

text \<open>
  C7: after an expiry pass no occupying reservation is past its end, except one that waits for the
  operation that still holds the lock of its bench; no lock is touched; and running the pass again
  at the same instant changes nothing.
\<close>

theorem expiry_pass_settles:
  assumes "agent_run (w_db w)"
  shows "\<exists>n w'. expire_reservations c w = (Inr n, w') \<and> db_locks (w_db w') = db_locks (w_db w) \<and>
    (\<forall>r \<in> set (db_reservations (w_db w')). occupying r \<longrightarrow> sql_le (res_ends_at r) (w_clock w (w_ticks w)) \<longrightarrow>
       res_status r = ExpiredPendingOperation \<and> lock_on (res_bench_id r) (w_db w') \<noteq> None) \<and>
    (\<forall>v. w_db v = w_db w' \<longrightarrow> w_clock v (w_ticks v) = w_clock w (w_ticks w) \<longrightarrow>
       (\<exists>v'. expire_reservations c v = (Inr 0, v') \<and> w_db v' = w_db v))"
proof -
  let ?now = "w_clock w (w_ticks w)"
  obtain n w' where run: "expire_reservations c w = (Inr n, w')" "sound w'"
      "\<forall>rid. expiry_settled ?now rid (w_db w')" "db_locks (w_db w') = db_locks (w_db w)"
    by (rule expire_reservations_settles[OF run_sound[OF assms]])
  have rows: "res_status r = ExpiredPendingOperation \<and> lock_on (res_bench_id r) (w_db w') \<noteq> None"
    if "r \<in> set (db_reservations (w_db w'))" "occupying r" "sql_le (res_ends_at r) ?now" for r
  proof -
    have "find_reservation (res_id r) (w_db w') = Some r"
      using find_reservation_unique[OF db_soundD(2)[OF run(2)] that(1)] .
    then have "expiry_target (res_status r) (lock_on (res_bench_id r) (w_db w') \<noteq> None) = None"
      using run(3)[unfolded expiry_settled_def] that(3) by blast
    then show ?thesis using that(2) by (auto simp: expiry_target_def occupying_def split: if_splits)
  qed
  have "\<exists>v'. expire_reservations c v = (Inr 0, v') \<and> w_db v' = w_db v"
    if "w_db v = w_db w'" "w_clock v (w_ticks v) = ?now" for v
  proof -
    have "sound v" "\<forall>rid. expiry_settled (w_clock v (w_ticks v)) rid (w_db v)"
      using run(2,3) that by simp_all
    from expire_reservations_idle[OF this] show ?thesis by blast
  qed
  with run rows show ?thesis by blast
qed


theorem expiry_pass_settles_witness:
  "\<exists>n w'. expire_reservations sample_scheduler (sample_world busy_db 99) = (Inr n, w') \<and>
     (\<forall>r \<in> set (db_reservations (w_db w')). occupying r \<longrightarrow> sql_le (res_ends_at r) 99 \<longrightarrow>
        res_status r = ExpiredPendingOperation) \<and> db_locks (w_db w') = db_locks busy_db"
  using expiry_pass_settles[of "sample_world busy_db 99" sample_scheduler] busy_db_run by auto






section \<open>Operation locks and recovery\<close>

text \<open>
  C25: an operation is granted the lock of a bench only on behalf of the owner of a reservation
  that is active and has not ended; then it is the one holder of the lock and no reservation
  changed. When it is refused, nothing changed.
\<close>

theorem lock_is_granted_to_the_active_owner:
  assumes "ol_acquire b i owner n w = (res, w')"
  shows "case res of Inl e \<Rightarrow> w_db w' = w_db w
    | Inr l \<Rightarrow> (\<exists>k \<ge> w_ticks w. active_owner (trim b) owner (w_clock w k) (w_db w)) \<and>
        map_option lr_lock (lock_on (trim b) (w_db w')) = Some l \<and> lock_operation_id l = i \<and>
        db_reservations (w_db w') = db_reservations (w_db w)"
proof -
  let ?Q = "\<lambda>l w'. (\<exists>k \<ge> w_ticks w. active_owner (trim b) owner (w_clock w k) (w_db w)) \<and>
        map_option lr_lock (lock_on (trim b) (w_db w')) = Some l \<and> lock_operation_id l = i \<and>
        db_reservations (w_db w') = db_reservations (w_db w)"
  have acq: "wp (ol_acquire_lock b i owner n False) ?Q (\<lambda>e w'. w_db w' = w_db w) v"
    if v: "w_db v = w_db w" "w_clock v = w_clock w" "w_ticks w \<le> w_ticks v" for v
    by (rule wp_mono[OF wp_ol_acquire_lock]) (use v in auto)
  have "wp (sv_require_active b owner)
      (\<lambda>_ v. w_db v = w_db w \<and> w_clock v = w_clock w \<and> w_ticks w \<le> w_ticks v) (\<lambda>_ v. w_db v = w_db w) w"
    by (simp add: sv_require_active_def wpM repo_get_active_def select_reservations_def split: option.splits)
  then have "wp (ol_acquire b i owner n) ?Q (\<lambda>e w'. w_db w' = w_db w) w"
    unfolding ol_acquire_def wp_bind by (rule wp_mono) (use acq in blast)+
  then show ?thesis using assms by (auto simp: wp_def split: sum.splits)
qed

theorem lock_is_granted_to_the_active_owner_witness:
  "fst (ol_acquire ''b'' ''o'' ''bob'' None (sample_world busy_db 5)) \<noteq> Inr \<lparr>lock_bench_id = ''b'', lock_operation_id = ''o'', lock_acquired_at = 5, lock_expires_at = None\<rparr>"
proof
  obtain res w' where run: "ol_acquire ''b'' ''o'' ''bob'' None (sample_world busy_db 5) = (res, w')"
    by (cases "ol_acquire ''b'' ''o'' ''bob'' None (sample_world busy_db 5)")
  assume "fst (ol_acquire ''b'' ''o'' ''bob'' None (sample_world busy_db 5)) = Inr \<lparr>lock_bench_id = ''b'', lock_operation_id = ''o'', lock_acquired_at = 5, lock_expires_at = None\<rparr>"
  then show False
    using lock_is_granted_to_the_active_owner[OF run] run
    by (auto simp: active_owner_def busy_db_def lock_added_def)
qed

text \<open>
  Releasing reports whether the operation held the lock of the bench. If it did, the bench is
  unlocked and the expiry that waited for the operation is final; if not, locks and reservations are
  as before.
\<close>

theorem release_of_a_lock_finalises_expiry:
  assumes "agent_run (w_db w)"
  shows "\<exists>held w'. ol_release b i w = (Inr held, w') \<and>
    held = (\<exists>x. lock_on b (w_db w) = Some x \<and> lock_operation_id (lr_lock x) = i) \<and>
    (if held then lock_on b (w_db w') = None \<and>
       (\<forall>r \<in> set (db_reservations (w_db w')). res_bench_id r = b \<longrightarrow> res_status r \<noteq> ExpiredPendingOperation)
     else db_locks (w_db w') = db_locks (w_db w) \<and> db_reservations (w_db w') = db_reservations (w_db w))"
  by (rule run_ol_release[OF run_sound[OF assms], of b i]) auto

theorem release_of_a_lock_finalises_expiry_witness:
  "\<exists>w'. ol_release ''b'' ''o'' (sample_world busy_db 5) = (Inr True, w') \<and> lock_on ''b'' (w_db w') = None"
proof -
  have "lock_on ''b'' (w_db (sample_world busy_db 5)) =
      Some \<lparr>lr_lock = \<lparr>lock_bench_id = ''b'', lock_operation_id = ''o'', lock_acquired_at = 1,
        lock_expires_at = None\<rparr>, lr_organisation_id = LEGACY_ORGANISATION_ID\<rparr>"
    by (simp add: busy_db_def lock_added_def lock_on_def)
  then show ?thesis
    using release_of_a_lock_finalises_expiry[of "sample_world busy_db 5" "''b''" "''o''"] busy_db_run by auto
qed



text \<open>
  C28: the life cycle of an operation: a transition that is accepted is one of the table, leads to
  its target with the identity kept, and the recorded times fit the status: a completion time
  exactly in the terminal statuses, and a start time once it ran. A terminal operation accepts
  no transition.
\<close>

theorem operation_life_cycle:
  assumes "operation_wf p"
  shows "case operation_transition utc_now p target now progress message code msg of
      Inl e \<Rightarrow> target \<notin> operation_transitions (op_status p)
    | Inr q \<Rightarrow> op_status p \<notin> TERMINAL_OPERATION_STATUSES \<and> operation_wf q \<and> op_status q = target \<and>
        op_id q = op_id p \<and> op_bench_id q = op_bench_id p"
proof (cases "operation_transition utc_now p target now progress message code msg")
  case (Inl e)
  then show ?thesis using operation_transition_Inl_iff[of utc_now p target now progress message code msg] by auto
next
  case (Inr q)
  have "op_status p \<notin> TERMINAL_OPERATION_STATUSES"
    using operation_transition_fields(1)[OF Inr] operation_transitions_terminal by auto
  then show ?thesis using operation_transition_wf[OF assms Inr] Inr by simp
qed

theorem operation_life_cycle_witness:
  "case operation_transition 5 (operation_pending ''o'' 0 ''b'' PowerOn ''ann'' None) OpRunning None None None None None
   of Inl e \<Rightarrow> False | Inr q \<Rightarrow> operation_wf q \<and> op_started_at q = Some 5"
  using operation_life_cycle[OF operation_pending_wf[of "''o''" 0 "''b''" PowerOn "''ann''" None],
      where utc_now = 5 and target = OpRunning and now = None and progress = None and message = None
        and code = None and msg = None]
  by (simp add: operation_transition_def operation_pending_def Let_def TERMINAL_OPERATION_STATUSES_def)


section \<open>The owner of a reservation\<close>

text \<open>
  Whoever is not the owner of a reservation is refused with the mismatch error by release,
  cancel and extend, and nothing at all changes, not even the event log.
\<close>

theorem only_the_owner_acts:
  assumes "find_reservation rid (w_db w) = Some r" and "res_owner r \<noteq> owner" and "0 < n"
  shows "sv_release_by_id s legacy rid owner w = (Inl ReservationOwnerMismatchError, w) \<and>
    sv_cancel s rid owner w = (Inl ReservationOwnerMismatchError, w) \<and>
    sv_extend s rid owner n w = (Inl ReservationOwnerMismatchError, w)"
  using non_owner_changes_nothing[OF assms(1,2)] assms(3) by blast

theorem only_the_owner_acts_witness:
  "sv_cancel sample_service ''r'' ''bob'' (sample_world busy_db 5) =
     (Inl ReservationOwnerMismatchError, sample_world busy_db 5)"
  using only_the_owner_acts[of "''r''" "sample_world busy_db 5" "sample_row ''r'' ''b'' ''ann'' Active 0 10" "''bob''" 1]
  by (simp add: busy_db_def lock_added_def find_reservation_def)

text \<open>
  C24: an extension that succeeds is by the owner, of an active reservation that had not ended; it
  moves the end by exactly the seconds asked, keeps the whole reservation within the maximum, and
  the result is still the only holder of its bench: it meets no other occupying reservation. An
  extension that fails changes nothing.
\<close>

theorem extension_stays_in_bounds:
  assumes run: "agent_run (w_db w)" and ext: "sv_extend s rid owner n w = (res, w')"
  shows "case res of Inl e \<Rightarrow> w_db w' = w_db w
    | Inr x \<Rightarrow> 0 < n \<and>
       (\<exists>r e. find_reservation rid (w_db w) = Some r \<and> res_owner r = owner \<and> res_status r = Active \<and>
          res_ends_at r = Some e \<and> w_clock w (w_ticks w) < e \<and> x = r\<lparr>res_ends_at := Some (e + seconds n)\<rparr> \<and>
          e + seconds n - extension_base r \<le> seconds (sv_maximum_duration_seconds s)) \<and>
       find_reservation rid (w_db w') = Some x \<and>
       (\<forall>y \<in> set (db_reservations (w_db w')). res_id y \<noteq> rid \<longrightarrow> compatible x y)"
proof (cases res)
  case (Inl e)
  then show ?thesis using wp_Inl[OF wp_sv_extend[OF run_sound[OF run]] ext[unfolded Inl]] by simp
next
  case (Inr x)
  note post = wp_Inr[OF wp_sv_extend[OF run_sound[OF run]] ext[unfolded Inr]]
  then obtain r where r: "find_reservation rid (w_db w) = Some r" "res_id x = rid"
      "row_written x (w_db w) (w_db w')" using find_reservation_Some by fastforce
  have sound: "sound w'" by (rule keeps_run[OF sound_extend run_sound[OF run] ext])
  have find: "find_reservation rid (w_db w') = Some x"
  proof -
    have "find_reservation rid (w_db w') = find_reservation rid (put_reservation x (w_db w))"
      using r(3) by (simp add: row_written_def find_reservation_def)
    then show ?thesis using r(1,2) by (simp add: find_put_reservation)
  qed
  have "x \<in> set (db_reservations (w_db w'))" using find_reservation_Some[OF find] by simp
  then have "\<forall>y \<in> set (db_reservations (w_db w')). res_id y \<noteq> rid \<longrightarrow> compatible x y"
    using db_soundD(2)[OF sound] r(2) unfolding reservations_ok_def by metis
  with post find Inr show ?thesis by auto
qed

theorem extension_stays_in_bounds_witness:
  "case sv_extend sample_service ''r'' ''ann'' 99999 (sample_world busy_db 5) of (res, w') \<Rightarrow>
     (case res of Inl e \<Rightarrow> w_db w' = busy_db | Inr x \<Rightarrow> False)"
proof -
  obtain res w' where run: "sv_extend sample_service ''r'' ''ann'' 99999 (sample_world busy_db 5) = (res, w')"
    by (cases "sv_extend sample_service ''r'' ''ann'' 99999 (sample_world busy_db 5)")
  let ?r = "sample_row ''r'' ''b'' ''ann'' Active 0 10"
  have find: "find_reservation ''r'' busy_db = Some ?r"
    by (simp add: find_reservation_def busy_db_def lock_added_def)
  have base: "extension_base ?r = 0" by (simp add: extension_base_def sample_row_def)
  note post = extension_stays_in_bounds[OF _ run, unfolded sample_world_simps, OF busy_db_run]
  show ?thesis
  proof (cases res)
    case (Inl e)
    then show ?thesis using post by (simp add: run)
  next
    case (Inr x)
    then show ?thesis using post by (auto simp: find base seconds_def)
  qed
qed

text \<open>
  The event of an extension is written at most once in the life of a reservation: its
  deduplication key names the reservation and the type only, so when the log has the event of an
  earlier extension, a later one that succeeds leaves no trace of its own.
\<close>

theorem later_extensions_leave_no_event:
  assumes run: "sv_extend s rid owner n w = (Inr x, w')"
    and e: "e \<in> set (db_events (w_db w))"
      "ev_deduplication_key e = Some (reservation_event_key rid ''RESERVATION_EXTENDED'')"
  shows "db_events (w_db w') = db_events (w_db w)"
proof -
  have keep: "keeps (\<lambda>d. db_events d = db_events (w_db w)) (repo_update y st en l)" for y st en l
  proof -
    have "keeps (\<lambda>d. db_events d = db_events (w_db w)) (update_reservation i P f)" for i P f
      by (rule keepsI) (simp add: update_reservation_def Let_def split: option.splits)
    then show ?thesis unfolding repo_update_def by (intro keeps_intros)
  qed
  have upd: "wp (repo_update y st en l) (\<lambda>x d'. x = y \<and> db_events d' = db_events (w_db w)) (\<lambda>_ _. True) (w_db w)"
    for y st en l
    using keepsD[OF keep, of "w_db w" y st en l]
    by (cases "repo_update y st en l (w_db w)") (auto simp: wp_def repo_update_def bindM_def returnM_def split: sum.splits prod.splits)
  have "wp (sv_extend s rid owner n) (\<lambda>x w'. db_events (w_db w') = db_events (w_db w)) (\<lambda>_ _. True) w"
  proof (cases "find_reservation rid (w_db w)")
    case None
    then show ?thesis by (simp add: sv_extend_def wpM)
  next
    case (Some r)
    have id: "res_id r = rid" using find_reservation_Some[OF Some] by simp
    show ?thesis
    proof (cases "res_ends_at r")
      case None
      with Some show ?thesis by (simp add: sv_extend_def wpM)
    next
      case (Some t)
      let ?x = "r\<lparr>res_ends_at := Some (t + seconds n)\<rparr>"
      have key: "trim (reservation_event_key i ''RESERVATION_EXTENDED'') = reservation_event_key i ''RESERVATION_EXTENDED''" for i
        by (rule trim_id) (simp_all add: reservation_event_key_def unicode_space_def py_space_def)
      have dropped: "db_events (event_added y d) = db_events (w_db w)"
        if "db_events d = db_events (w_db w)" "ev_deduplication_key y = ev_deduplication_key e" for y d
        using that e unfolding event_added_def by auto
      show ?thesis
        using \<open>find_reservation rid (w_db w) = Some r\<close> Some id e(2)
        by (auto simp: sv_extend_def wpM Let_def key dropped make_event_def split: option.splits intro!: wp_mono[OF upd])
    qed
  qed
  from wp_Inr[OF this run] show ?thesis .
qed


definition extended_event :: event_record where
  "extended_event = \<lparr>ev_id = ''e'', ev_timestamp = 1, ev_type = ''RESERVATION_EXTENDED'', ev_source = ''platform'',
     ev_bench_id = Some ''b'', ev_reservation_id = Some ''r'', ev_operation_id = None, ev_actor = Some ''ann'',
     ev_payload = [], ev_deduplication_key = Some (reservation_event_key ''r'' ''RESERVATION_EXTENDED'')\<rparr>"

theorem later_extensions_leave_no_event_witness:
  "\<exists>x w'. sv_extend sample_service ''r'' ''ann'' 10 (sample_world ((one_row_db
      (sample_row ''r'' ''b'' ''ann'' Active 0 10))\<lparr>db_events := [extended_event]\<rparr>) 5) = (Inr x, w') \<and>
     db_events (w_db w') = [extended_event]"
proof -
  let ?r = "sample_row ''r'' ''b'' ''ann'' Active 0 10"
  let ?d = "(one_row_db ?r)\<lparr>db_events := [extended_event]\<rparr>"
  let ?x = "?r\<lparr>res_ends_at := Some (10 + seconds 10)\<rparr>"
  have find: "find_reservation ''r'' ?d = Some ?r" by (simp add: find_reservation_def)
  have base: "extension_base ?r = 0" by (simp add: extension_base_def sample_row_def)
  have conflict: "repo_find_conflict ''b'' 10 t (Some ''r'') ?d = (Inr None, ?d)" for t
    by (simp add: repo_find_conflict_def select_reservations_def runM)
  have upd: "wp (repo_update ?x (Some Active) (Some 10) False) (\<lambda>_ _. True) (\<lambda>_ _. False) ?d"
    by (simp add: wp_def repo_update_def runM occupying_def require_no_reservation_overlap_def select_reservations_def
        overlap_selected_def update_reservation_def row_rejected_def time_trigger_aborts_def
        unique_index_aborts_def seconds_def Let_def)
  have "wp (sv_extend sample_service ''r'' ''ann'' 10) (\<lambda>_ _. True) (\<lambda>_ _. False) (sample_world ?d 5)"
    by (simp add: sv_extend_def wpM find base conflict wp_def[of "repo_find_conflict _ _ _ _"] seconds_def Let_def)
      (insert upd, simp add: seconds_def, erule wp_mono; simp)
  then obtain x w' where run: "sv_extend sample_service ''r'' ''ann'' 10 (sample_world ?d 5) = (Inr x, w')"
    by (auto simp: wp_def split: prod.splits sum.splits)
  have "extended_event \<in> set (db_events (w_db (sample_world ?d 5)))"
    "ev_deduplication_key extended_event = Some (reservation_event_key ''r'' ''RESERVATION_EXTENDED'')"
    by (simp_all add: extended_event_def)
  from later_extensions_leave_no_event[OF run this] run show ?thesis by auto
qed

end
