(* ===== verification/Json.thy ===== *)
theory Json
  imports Timestamps
begin

text \<open>
  JSON documents: \<open>json.dumps\<close> with sorted keys and compact separators, the size of its UTF-8
  encoding, and the bound that the distributed models put on the mappings they carry
  (\<open>_bounded_json_mapping\<close>, \<open>models/distributed.py\<close>).
\<close>

section \<open>Text of a document\<close>

fun nat_text :: "nat \<Rightarrow> string" where
  "nat_text n = (if n < 10 then [digit n] else nat_text (n div 10) @ [digit (n mod 10)])"

declare nat_text.simps [simp del]

definition int_text :: "int \<Rightarrow> string" where
  "int_text i = (if i < 0 then ''-'' @ nat_text (nat (- i)) else nat_text (nat i))"

definition hex_digit :: "nat \<Rightarrow> char" where
  "hex_digit n = (if n < 10 then digit n else char_of (87 + n))"

definition json_char :: "char \<Rightarrow> string" where
  "json_char c = (let n = (of_char c :: nat) in
     if n = 34 then [CHR 0x5C, CHR 0x22]
     else if n = 92 then [CHR 0x5C, CHR 0x5C]
     else if n = 8 then [CHR 0x5C, CHR ''b'']
     else if n = 9 then [CHR 0x5C, CHR ''t'']
     else if n = 10 then [CHR 0x5C, CHR ''n'']
     else if n = 12 then [CHR 0x5C, CHR ''f'']
     else if n = 13 then [CHR 0x5C, CHR ''r'']
     else if n < 32 then [CHR 0x5C, CHR ''u'', CHR ''0'', CHR ''0'', hex_digit (n div 16), hex_digit (n mod 16)]
     else [c])"

definition json_string :: "string \<Rightarrow> string" where
  "json_string s = [CHR 0x22] @ concat (map json_char s) @ [CHR 0x22]"

fun joined :: "string \<Rightarrow> string list \<Rightarrow> string" where
  "joined sep [] = []"
| "joined sep [x] = x"
| "joined sep (x # y # xs) = x @ sep @ joined sep (y # xs)"

text \<open>\<open>json.dumps(value, ensure_ascii=False, separators=(",", ":"), sort_keys=True)\<close>.\<close>

primrec json_dumps :: "json \<Rightarrow> string" where
  "json_dumps JNull = ''null''"
| "json_dumps (JBool b) = (if b then ''true'' else ''false'')"
| "json_dumps (JInt i) = int_text i"
| "json_dumps (JStr s) = json_string s"
| "json_dumps (JTime t) = json_string (iso_time t)"
| "json_dumps (JList xs) = ''['' @ joined '','' (map json_dumps xs) @ '']''"
| "json_dumps (JObj kvs) = ''{'' @ joined '',''
     (map (\<lambda>(k, t). json_string k @ '':'' @ t) (order_by fst (map (map_prod id json_dumps) kvs))) @ ''}''"

text \<open>The UTF-8 encoding takes one byte for an ASCII character, two for the other Latin-1 ones.\<close>

definition utf8_length :: "string \<Rightarrow> nat" where
  "utf8_length s = sum_list (map (\<lambda>c. if of_char c < (128 :: nat) then 1 else 2) s)"

section \<open>Bounded mappings\<close>

text \<open>The depth at which the deepest item is visited, and the number of items in all.\<close>

primrec json_depth :: "json \<Rightarrow> nat" where
  "json_depth JNull = 1"
| "json_depth (JBool b) = 1"
| "json_depth (JInt i) = 1"
| "json_depth (JStr s) = 1"
| "json_depth (JTime t) = 1"
| "json_depth (JList xs) = Suc (fold max (map json_depth xs) 0)"
| "json_depth (JObj kvs) = Suc (fold max (map snd (map (map_prod id json_depth) kvs)) 0)"

primrec json_items :: "json \<Rightarrow> nat" where
  "json_items JNull = 0"
| "json_items (JBool b) = 0"
| "json_items (JInt i) = 0"
| "json_items (JStr s) = 0"
| "json_items (JTime t) = 0"
| "json_items (JList xs) = length xs + sum_list (map json_items xs)"
| "json_items (JObj kvs) = length kvs + sum_list (map snd (map (map_prod id json_items) kvs))"

definition bounded_json_mapping :: "nat \<Rightarrow> payload \<Rightarrow> bool" where
  "bounded_json_mapping maximum_bytes kvs \<longleftrightarrow>
     utf8_length (json_dumps (JObj kvs)) \<le> maximum_bytes \<and>
     json_depth (JObj kvs) \<le> 12 \<and> json_items (JObj kvs) \<le> 20000"

lemma bounded_empty [simp]: "2 \<le> m \<Longrightarrow> bounded_json_mapping m []"
  by (simp add: bounded_json_mapping_def utf8_length_def)

lemma json_depth_pos [simp]: "0 < json_depth v"
  by (cases v) simp_all

end
