(* ===== verification/Leases.thy ===== *)
theory Leases
  imports Prelude
begin

text \<open>
  The leases an agent keeps of the reservations the control plane made for its benches
  (\<open>models/distributed.py\<close>, \<open>agent_runtime/leases.py\<close>, \<open>agent_runtime/sqlite_state.py\<close>): the model
  \<open>ReservationLease\<close>, the reference store in memory, and the durable store on the table
  \<open>agent_local_reservation_leases\<close>. A lease has a version; a release leaves a tombstone of its
  version behind. \<open>clock\<close> is what \<open>self._clock()\<close> returns when it is called.
\<close>

section \<open>Leases and tombstones\<close>

record reservation_lease =
  ls_reservation_id :: uuid
  ls_agent_id :: uuid
  ls_bench_id :: string
  ls_owner :: string
  ls_valid_from :: time
  ls_valid_until :: time
  ls_lease_version :: int
  ls_released_at :: "time option"

definition lease_valid :: "reservation_lease \<Rightarrow> bool" where
  "lease_valid l \<longleftrightarrow>
     3 \<le> length (ls_bench_id l) \<and> length (ls_bench_id l) \<le> 600 \<and>
     1 \<le> length (ls_owner l) \<and> length (ls_owner l) \<le> 200 \<and> 1 \<le> ls_lease_version l \<and>
     ls_valid_from l < ls_valid_until l \<and>
     (case ls_released_at l of None \<Rightarrow> True | Some t \<Rightarrow> ls_valid_from l \<le> t)"

text \<open>\<open>ReservationLease(...)\<close>: white space is stripped, then the fields and the timeline are checked.\<close>

definition make_reservation_lease :: "reservation_lease \<Rightarrow> error + reservation_lease" where
  "make_reservation_lease l =
     (let l' = l\<lparr>ls_bench_id := trim (ls_bench_id l), ls_owner := trim (ls_owner l)\<rparr>
      in if lease_valid l' then Inr l' else Inl ValueError)"

definition is_valid_at :: "reservation_lease \<Rightarrow> time \<Rightarrow> int \<Rightarrow> error + bool" where
  "is_valid_at l now maximum_clock_skew_seconds =
     (if maximum_clock_skew_seconds < 0 then Inl ValueError
      else let skew = seconds maximum_clock_skew_seconds
           in Inr (ls_released_at l = None \<and> ls_valid_from l - skew \<le> now \<and> now \<le> ls_valid_until l + skew))"

record tombstone =
  tb_reservation_id :: uuid
  tb_agent_id :: uuid
  tb_bench_id :: string
  tb_lease_version :: int
  tb_released_at :: time

definition make_tombstone :: "tombstone \<Rightarrow> error + tombstone" where
  "make_tombstone t = (if py_strip (tb_bench_id t) = [] \<or> tb_lease_version t < 1 then Inl ValueError else Inr t)"

datatype stored_lease = Lease reservation_lease | Tombstone tombstone

fun st_reservation_id :: "stored_lease \<Rightarrow> uuid" where
  "st_reservation_id (Lease l) = ls_reservation_id l"
| "st_reservation_id (Tombstone t) = tb_reservation_id t"

fun st_agent_id :: "stored_lease \<Rightarrow> uuid" where
  "st_agent_id (Lease l) = ls_agent_id l"
| "st_agent_id (Tombstone t) = tb_agent_id t"

fun st_bench_id :: "stored_lease \<Rightarrow> string" where
  "st_bench_id (Lease l) = ls_bench_id l"
| "st_bench_id (Tombstone t) = tb_bench_id t"

fun st_version :: "stored_lease \<Rightarrow> int" where
  "st_version (Lease l) = ls_lease_version l"
| "st_version (Tombstone t) = tb_lease_version t"

fun is_tombstone :: "stored_lease \<Rightarrow> bool" where
  "is_tombstone (Lease _) = False"
| "is_tombstone (Tombstone _) = True"

text \<open>\<open>resolve_lease_version\<close>: \<open>None\<close> means that the incoming record replaces the previous one.\<close>

definition resolve_lease_version :: "stored_lease \<Rightarrow> stored_lease \<Rightarrow> error + stored_lease option" where
  "resolve_lease_version previous incoming =
     (if st_version incoming < st_version previous then Inl ReservationLeaseVersionMismatchError
      else if st_version previous < st_version incoming then Inr None
      else if st_agent_id previous \<noteq> st_agent_id incoming \<or> st_bench_id previous \<noteq> st_bench_id incoming \<or>
              st_reservation_id previous \<noteq> st_reservation_id incoming
        then Inl ReservationLeaseInvalidError
      else if is_tombstone previous then
        (if is_tombstone incoming then Inr (Some previous) else Inl ReservationLeaseVersionMismatchError)
      else if is_tombstone incoming then Inr None
      else if previous = incoming then Inr (Some previous)
      else Inl ReservationLeaseVersionMismatchError)"

definition require_lease_time_valid :: "reservation_lease \<Rightarrow> time \<Rightarrow> duration \<Rightarrow> error + unit" where
  "require_lease_time_valid lease observed skew =
     (if observed < ls_valid_from lease - skew then Inl ReservationLeaseInvalidError
      else if ls_valid_until lease + skew < observed then Inl ReservationLeaseExpiredError
      else Inr ())"

definition lease_clock_skew :: "int \<Rightarrow> error + duration" where
  "lease_clock_skew n = (if n < 0 then Inl ValueError else Inr (seconds n))"

text \<open>\<open>_stored_from_lease\<close>: a lease that was released arrives as a tombstone.\<close>

definition stored_from_lease :: "reservation_lease \<Rightarrow> error + stored_lease" where
  "stored_from_lease lease =
     (case ls_released_at lease of
        None \<Rightarrow> Inr (Lease lease)
      | Some t \<Rightarrow>
          map_sum id Tombstone (make_tombstone
            \<lparr>tb_reservation_id = ls_reservation_id lease, tb_agent_id = ls_agent_id lease,
             tb_bench_id = ls_bench_id lease, tb_lease_version = ls_lease_version lease,
             tb_released_at = t\<rparr>))"

section \<open>The checks a stored record must pass to authorise a command\<close>

definition require_stored_identity ::
    "stored_lease \<Rightarrow> uuid \<Rightarrow> uuid \<Rightarrow> string \<Rightarrow> error + unit" where
  "require_stored_identity r agent_id reservation_id bench_id =
     (if st_agent_id r \<noteq> agent_id \<or> st_bench_id r \<noteq> bench_id then Inl ReservationLeaseInvalidError
      else if st_reservation_id r \<noteq> reservation_id then Inl ReservationLeaseInvalidError
      else Inr ())"

definition require_current ::
    "stored_lease option \<Rightarrow> uuid \<Rightarrow> uuid \<Rightarrow> string \<Rightarrow> int \<Rightarrow> time option \<Rightarrow> int \<Rightarrow> time \<Rightarrow> ('w, stored_lease) io" where
  "require_current found agent_id reservation_id bench_id lease_version observed_at skew clock =
     (case found of
        None \<Rightarrow> raiseM ReservationLeaseInvalidError
      | Some r \<Rightarrow>
          bindM (liftE (require_stored_identity r agent_id reservation_id bench_id)) (\<lambda>_.
          if st_version r \<noteq> lease_version then raiseM ReservationLeaseVersionMismatchError
          else case r of
            Tombstone _ \<Rightarrow> raiseM ReservationLeaseInvalidError
          | Lease l \<Rightarrow>
              bindM (liftE (lease_clock_skew skew)) (\<lambda>sk.
              bindM (liftE (require_lease_time_valid l
                 (case observed_at of Some t \<Rightarrow> t | None \<Rightarrow> clock) sk)) (\<lambda>_.
              returnM r))))"


section \<open>The reference store\<close>

record mem_leases =
  ml_agent_id :: uuid
  ml_records :: "(string \<times> stored_lease) list"

definition mem_leases_init :: "uuid \<Rightarrow> mem_leases" where
  "mem_leases_init agent_id = \<lparr>ml_agent_id = agent_id, ml_records = []\<rparr>"

definition mem_require_agent :: "uuid \<Rightarrow> (mem_leases, unit) io" where
  "mem_require_agent agent_id =
     bindM (getsM ml_agent_id) (\<lambda>own. if agent_id \<noteq> own then raiseM ReservationLeaseInvalidError else returnM ())"

definition mem_record :: "string \<Rightarrow> mem_leases \<Rightarrow> stored_lease option" where
  "mem_record bench_id s = map_of (ml_records s) bench_id"

definition mem_put :: "string \<Rightarrow> stored_lease \<Rightarrow> (mem_leases, unit) io" where
  "mem_put bench_id r = modifyM (\<lambda>s. s\<lparr>ml_records := dict_set bench_id r (ml_records s)\<rparr>)"

definition mem_apply ::
    "reservation_lease \<Rightarrow> time option \<Rightarrow> int \<Rightarrow> time \<Rightarrow> (mem_leases, stored_lease) io" where
  "mem_apply lease observed_at maximum_clock_skew_seconds clock =
     bindM (mem_require_agent (ls_agent_id lease)) (\<lambda>_.
     bindM (liftE (lease_clock_skew maximum_clock_skew_seconds)) (\<lambda>skew.
     bindM (if ls_released_at lease = None
            then liftE (require_lease_time_valid lease (case observed_at of Some t \<Rightarrow> t | None \<Rightarrow> clock) skew)
            else returnM ()) (\<lambda>_.
     bindM (liftE (stored_from_lease lease)) (\<lambda>incoming.
     bindM (getsM (mem_record (ls_bench_id lease))) (\<lambda>previous.
     bindM (case previous of None \<Rightarrow> returnM None
            | Some p \<Rightarrow> liftE (resolve_lease_version p incoming)) (\<lambda>replay.
     case replay of
       Some r \<Rightarrow> returnM r
     | None \<Rightarrow> bindM (mem_put (ls_bench_id lease) incoming) (\<lambda>_. returnM incoming)))))))"

text \<open>An equal-version release supersedes the active lease.\<close>

definition mem_release ::
    "uuid \<Rightarrow> uuid \<Rightarrow> string \<Rightarrow> int \<Rightarrow> time \<Rightarrow> (mem_leases, stored_lease) io" where
  "mem_release agent_id reservation_id bench_id lease_version released_at =
     bindM (mem_require_agent agent_id) (\<lambda>_.
     bindM (liftE (make_tombstone
        \<lparr>tb_reservation_id = reservation_id, tb_agent_id = agent_id, tb_bench_id = bench_id,
         tb_lease_version = lease_version, tb_released_at = released_at\<rparr>)) (\<lambda>t.
     bindM (getsM (mem_record bench_id)) (\<lambda>previous.
     bindM (case previous of None \<Rightarrow> returnM None
            | Some p \<Rightarrow> liftE (resolve_lease_version p (Tombstone t))) (\<lambda>replay.
     case replay of
       Some (Tombstone r) \<Rightarrow> returnM (Tombstone r)
     | _ \<Rightarrow> bindM (mem_put bench_id (Tombstone t)) (\<lambda>_. returnM (Tombstone t))))))"

definition mem_validate ::
    "uuid \<Rightarrow> uuid \<Rightarrow> string \<Rightarrow> int \<Rightarrow> time option \<Rightarrow> int \<Rightarrow> time \<Rightarrow> (mem_leases, stored_lease) io" where
  "mem_validate agent_id reservation_id bench_id lease_version observed_at skew clock =
     bindM (mem_require_agent agent_id) (\<lambda>_.
     if lease_version < 1 then raiseM ReservationLeaseVersionMismatchError
     else
       bindM (getsM (mem_record bench_id)) (\<lambda>found.
       require_current found agent_id reservation_id bench_id lease_version observed_at skew clock))"

definition mem_get :: "string \<Rightarrow> (mem_leases, stored_lease option) io" where
  "mem_get bench_id = getsM (mem_record bench_id)"

definition mem_list :: "(mem_leases, stored_lease list) io" where
  "mem_list = getsM (\<lambda>s. map (\<lambda>b. the (mem_record b s)) (sort (map fst (ml_records s))))"

section \<open>The durable store\<close>

text \<open>
  A row of \<open>agent_local_reservation_leases\<close> has the columns of a lease, its timestamps as text
  (\<open>Timestamps\<close> shows that text and instant determine each other).
\<close>

record sql_leases =
  sl_agent_id :: uuid
  sl_rows :: "reservation_lease list"

definition LEASE_TOMBSTONE_OWNER :: string where
  "LEASE_TOMBSTONE_OWNER = ''__released_before_activation__''"

definition sql_require_agent :: "uuid \<Rightarrow> (sql_leases, unit) io" where
  "sql_require_agent agent_id =
     bindM (getsM sl_agent_id) (\<lambda>own. if agent_id \<noteq> own then raiseM ReservationLeaseInvalidError else returnM ())"

definition stored_lease_from_row :: "reservation_lease \<Rightarrow> error + stored_lease" where
  "stored_lease_from_row row =
     (case ls_released_at row of
        Some t \<Rightarrow>
          map_sum id Tombstone (make_tombstone
            \<lparr>tb_reservation_id = ls_reservation_id row, tb_agent_id = ls_agent_id row,
             tb_bench_id = ls_bench_id row, tb_lease_version = ls_lease_version row, tb_released_at = t\<rparr>)
      | None \<Rightarrow> map_sum id Lease (make_reservation_lease row))"

definition current_row :: "string \<Rightarrow> sql_leases \<Rightarrow> reservation_lease option" where
  "current_row bench_id s =
     first_row (order_by_desc ls_lease_version (filter (\<lambda>x. ls_bench_id x = bench_id) (sl_rows s)))"

definition current_lease :: "string \<Rightarrow> (sql_leases, stored_lease option) io" where
  "current_lease bench_id =
     bindM (getsM (current_row bench_id)) (\<lambda>row.
     case row of None \<Rightarrow> returnM None
     | Some x \<Rightarrow> bindM (liftE (stored_lease_from_row x)) (\<lambda>r. returnM (Some r)))"

fun row_of_stored :: "stored_lease \<Rightarrow> reservation_lease" where
  "row_of_stored (Lease l) =
     \<lparr>ls_reservation_id = ls_reservation_id l, ls_agent_id = ls_agent_id l, ls_bench_id = ls_bench_id l,
      ls_owner = ls_owner l, ls_valid_from = ls_valid_from l, ls_valid_until = ls_valid_until l,
      ls_lease_version = ls_lease_version l, ls_released_at = None\<rparr>"
| "row_of_stored (Tombstone t) =
     \<lparr>ls_reservation_id = tb_reservation_id t, ls_agent_id = tb_agent_id t, ls_bench_id = tb_bench_id t,
      ls_owner = LEASE_TOMBSTONE_OWNER, ls_valid_from = tb_released_at t, ls_valid_until = tb_released_at t,
      ls_lease_version = tb_lease_version t, ls_released_at = Some (tb_released_at t)\<rparr>"

text \<open>
  \<open>PRIMARY KEY (bench_id, lease_version)\<close>, \<open>UNIQUE (reservation_id, lease_version)\<close> and
  \<open>CHECK (lease_version > 0)\<close>.
\<close>

definition lease_row_rejected :: "reservation_lease \<Rightarrow> reservation_lease list \<Rightarrow> bool" where
  "lease_row_rejected n rows \<longleftrightarrow> ls_lease_version n \<le> 0 \<or>
     (\<exists>x \<in> set rows. ls_lease_version x = ls_lease_version n \<and>
        (ls_bench_id x = ls_bench_id n \<or> ls_reservation_id x = ls_reservation_id n))"

definition insert_stored_lease :: "stored_lease \<Rightarrow> (sql_leases, unit) io" where
  "insert_stored_lease r = (\<lambda>s.
     if lease_row_rejected (row_of_stored r) (sl_rows s) then (Inl IntegrityError, s)
     else (Inr (), s\<lparr>sl_rows := sl_rows s @ [row_of_stored r]\<rparr>))"

definition insert_or_invalid :: "stored_lease \<Rightarrow> (sql_leases, stored_lease) io" where
  "insert_or_invalid r =
     catchM (bindM (insert_stored_lease r) (\<lambda>_. returnM r))
       (\<lambda>exc. if exc = IntegrityError then raiseM ReservationLeaseInvalidError else raiseM exc)"

definition mark_released :: "string \<Rightarrow> int \<Rightarrow> time \<Rightarrow> (sql_leases, unit) io" where
  "mark_released bench_id lease_version t = modifyM (\<lambda>s. s\<lparr>sl_rows :=
     update_where (\<lambda>x. ls_bench_id x = bench_id \<and> ls_lease_version x = lease_version \<and> ls_released_at x = None)
       (\<lambda>x. x\<lparr>ls_released_at := Some t\<rparr>) (sl_rows s)\<rparr>)"

definition sql_apply ::
    "reservation_lease \<Rightarrow> time option \<Rightarrow> int \<Rightarrow> time \<Rightarrow> (sql_leases, stored_lease) io" where
  "sql_apply lease observed_at maximum_clock_skew_seconds clock =
     bindM (sql_require_agent (ls_agent_id lease)) (\<lambda>_.
     bindM (liftE (lease_clock_skew maximum_clock_skew_seconds)) (\<lambda>skew.
     bindM (if ls_released_at lease = None
            then liftE (require_lease_time_valid lease (case observed_at of Some t \<Rightarrow> t | None \<Rightarrow> clock) skew)
            else returnM ()) (\<lambda>_.
     bindM (liftE (stored_from_lease lease)) (\<lambda>incoming.
     transactionM
       (bindM (current_lease (ls_bench_id lease)) (\<lambda>previous.
        case previous of
          None \<Rightarrow> insert_or_invalid incoming
        | Some p \<Rightarrow>
            bindM (sql_require_agent (st_agent_id p)) (\<lambda>_.
            bindM (liftE (resolve_lease_version p incoming)) (\<lambda>replay.
            case replay of
              Some r \<Rightarrow> returnM r
            | None \<Rightarrow>
                (case incoming of
                   Tombstone t \<Rightarrow>
                     if tb_lease_version t = st_version p
                     then bindM (mark_released (tb_bench_id t) (tb_lease_version t) (tb_released_at t))
                            (\<lambda>_. returnM incoming)
                     else insert_or_invalid incoming
                 | Lease _ \<Rightarrow> insert_or_invalid incoming)))))))))"

definition sql_release ::
    "uuid \<Rightarrow> uuid \<Rightarrow> string \<Rightarrow> int \<Rightarrow> time \<Rightarrow> (sql_leases, stored_lease) io" where
  "sql_release agent_id reservation_id bench_id lease_version released_at =
     bindM (sql_require_agent agent_id) (\<lambda>_.
     bindM (liftE (make_tombstone
        \<lparr>tb_reservation_id = reservation_id, tb_agent_id = agent_id, tb_bench_id = bench_id,
         tb_lease_version = lease_version, tb_released_at = released_at\<rparr>)) (\<lambda>t.
     transactionM
       (bindM (current_lease bench_id) (\<lambda>previous.
        case previous of
          None \<Rightarrow> insert_or_invalid (Tombstone t)
        | Some p \<Rightarrow>
            bindM (sql_require_agent (st_agent_id p)) (\<lambda>_.
            bindM (liftE (resolve_lease_version p (Tombstone t))) (\<lambda>replay.
            case replay of
              Some (Tombstone r) \<Rightarrow> returnM (Tombstone r)
            | Some (Lease _) \<Rightarrow> raiseM AssertionError
            | None \<Rightarrow>
                if st_version p = lease_version
                then bindM (mark_released bench_id lease_version (tb_released_at t)) (\<lambda>_. returnM (Tombstone t))
                else insert_or_invalid (Tombstone t)))))))"

definition sql_validate ::
    "uuid \<Rightarrow> uuid \<Rightarrow> string \<Rightarrow> int \<Rightarrow> time option \<Rightarrow> int \<Rightarrow> time \<Rightarrow> (sql_leases, stored_lease) io" where
  "sql_validate agent_id reservation_id bench_id lease_version observed_at skew clock =
     bindM (sql_require_agent agent_id) (\<lambda>_.
     if lease_version < 1 then raiseM ReservationLeaseVersionMismatchError
     else
       bindM (current_lease bench_id) (\<lambda>found.
       require_current found agent_id reservation_id bench_id lease_version observed_at skew clock))"

definition sql_get :: "string \<Rightarrow> (sql_leases, stored_lease option) io" where
  "sql_get bench_id =
     bindM (current_lease bench_id) (\<lambda>found.
     bindM (case found of None \<Rightarrow> returnM () | Some r \<Rightarrow> sql_require_agent (st_agent_id r)) (\<lambda>_.
     returnM found))"

text \<open>\<open>list\<close>: of each bench, the row of its greatest version.\<close>

definition is_latest :: "reservation_lease list \<Rightarrow> reservation_lease \<Rightarrow> bool" where
  "is_latest rows x \<longleftrightarrow> list_all (\<lambda>y. ls_bench_id y = ls_bench_id x \<longrightarrow> ls_lease_version y \<le> ls_lease_version x) rows"

definition sql_list_step :: "reservation_lease \<Rightarrow> stored_lease list \<Rightarrow> (sql_leases, stored_lease list) io" where
  "sql_list_step x acc = bindM (liftE (stored_lease_from_row x)) (\<lambda>r. returnM (acc @ [r]))"

definition sql_list :: "(sql_leases, stored_lease list) io" where
  "sql_list =
     bindM (getsM (\<lambda>s. order_by ls_bench_id (filter (is_latest (sl_rows s)) (sl_rows s)))) (\<lambda>rows.
     bindM (foldM sql_list_step rows []) (\<lambda>records.
     bindM (foldM (\<lambda>r _. sql_require_agent (st_agent_id r)) records ()) (\<lambda>_.
     returnM records)))"


section \<open>The order of the records of a bench\<close>

text \<open>
  What may follow a record of a bench: a record of a greater version, or at the same version and
  identity the tombstone of an active lease. Nothing else, and a record is never forgotten.
\<close>

definition supersedes :: "stored_lease option \<Rightarrow> stored_lease option \<Rightarrow> bool" where
  "supersedes p q \<longleftrightarrow> (case p of None \<Rightarrow> True | Some x \<Rightarrow> (case q of None \<Rightarrow> False | Some y \<Rightarrow>
     x = y \<or> st_version x < st_version y \<or>
     st_version x = st_version y \<and> st_reservation_id x = st_reservation_id y \<and>
       \<not> is_tombstone x \<and> is_tombstone y))"

lemma supersedes_refl [simp]: "supersedes p p"
  by (simp add: supersedes_def split: option.splits)

lemma supersedes_trans: "supersedes p q \<Longrightarrow> supersedes q r \<Longrightarrow> supersedes p r"
  by (auto simp: supersedes_def split: option.splits)

lemma resolve_supersedes:
  "resolve_lease_version p r = Inr None \<Longrightarrow> supersedes (Some p) (Some r)"
  by (auto simp: resolve_lease_version_def supersedes_def split: if_splits)

lemma resolve_replay: "resolve_lease_version p r = Inr (Some x) \<Longrightarrow> x = p"
  by (simp add: resolve_lease_version_def split: if_splits)

lemma resolve_replay_release:
  "resolve_lease_version p (Tombstone t) = Inr (Some x) \<Longrightarrow> \<exists>u. x = Tombstone u"
  by (cases p) (auto simp: resolve_lease_version_def split: if_splits)

lemma stored_from_lease_fields:
  assumes "stored_from_lease l = Inr r"
  shows "st_bench_id r = ls_bench_id l" "st_agent_id r = ls_agent_id l"
    "st_reservation_id r = ls_reservation_id l" "st_version r = ls_lease_version l"
  using assms by (auto simp: stored_from_lease_def make_tombstone_def split: option.splits if_splits)

section \<open>The interface of a store\<close>

text \<open>
  What a client sees of a lease store: the record of a bench, and operations that only let a record
  be superseded. The client's lemma is the fencing property: once a tombstone of some version is
  stored, no later operation brings back a lease of that version or an older one.
\<close>

locale lease_store =
  fixes record_of :: "string \<Rightarrow> 's \<Rightarrow> stored_lease option"
    and perform :: "'op \<Rightarrow> 's \<Rightarrow> 's"
    and invar :: "'s \<Rightarrow> bool"
  assumes perform_invar: "invar s \<Longrightarrow> invar (perform op s)"
    and perform_supersedes: "invar s \<Longrightarrow> supersedes (record_of b s) (record_of b (perform op s))"
begin

lemma history_invar: "invar s \<Longrightarrow> invar (fold perform ops s)"
  by (induction ops arbitrary: s) (simp_all add: perform_invar)

lemma history_supersedes:
  "invar s \<Longrightarrow> supersedes (record_of b s) (record_of b (fold perform ops s))"
proof (induction ops arbitrary: s)
  case (Cons op ops)
  then show ?case
    using perform_supersedes[of s b op] perform_invar[of s op] supersedes_trans by fastforce
qed simp

lemma released_stays_fenced:
  assumes "invar s" and "record_of b s = Some (Tombstone t)"
    and "record_of b (fold perform ops s) = Some (Lease l)"
  shows "tb_lease_version t < ls_lease_version l"
  using history_supersedes[OF assms(1), of b ops] assms(2,3) by (simp add: supersedes_def)

lemma version_grows:
  assumes "invar s" and "record_of b s = Some p" and "record_of b (fold perform ops s) = Some q"
  shows "st_version p \<le> st_version q"
  using history_supersedes[OF assms(1), of b ops] assms(2,3) by (auto simp: supersedes_def)

end

section \<open>The reference store is a lease store\<close>

datatype lease_op =
    LeaseApply reservation_lease "time option" int time
  | LeaseRelease uuid uuid string int time

fun mem_perform :: "lease_op \<Rightarrow> mem_leases \<Rightarrow> mem_leases" where
  "mem_perform (LeaseApply l observed_at skew clock) s = snd (mem_apply l observed_at skew clock s)"
| "mem_perform (LeaseRelease agent reservation bench version t) s =
     snd (mem_release agent reservation bench version t s)"

lemma mem_record_put:
  "mem_record b (s\<lparr>ml_records := dict_set b' r (ml_records s)\<rparr>) = (if b = b' then Some r else mem_record b s)"
  by (simp add: mem_record_def dict_set_map_of)

lemma wp_mem_require_agent [wpM]:
  "wp (mem_require_agent a) Q E s = (if a = ml_agent_id s then Q () s else E ReservationLeaseInvalidError s)"
  by (simp add: mem_require_agent_def wpM)

lemma wp_mem_put [wpM]:
  "wp (mem_put b r) Q E s = Q () (s\<lparr>ml_records := dict_set b r (ml_records s)\<rparr>)"
  by (simp add: mem_put_def wpM)

definition mem_step_ok :: "mem_leases \<Rightarrow> mem_leases \<Rightarrow> bool" where
  "mem_step_ok s s' \<longleftrightarrow> ml_agent_id s' = ml_agent_id s \<and> (\<forall>b. supersedes (mem_record b s) (mem_record b s'))"

lemma mem_step_ok_refl [simp]: "mem_step_ok s s"
  by (simp add: mem_step_ok_def)

lemma mem_step_ok_put:
  "supersedes (mem_record b s) (Some r) \<Longrightarrow> mem_step_ok s (s\<lparr>ml_records := dict_set b r (ml_records s)\<rparr>)"
  by (simp add: mem_step_ok_def mem_record_put)

lemma supersedes_None [simp]: "supersedes None q"
  by (simp add: supersedes_def)

lemma wp_mem_apply:
  "wp (mem_apply l ob k c) (\<lambda>r s'. mem_step_ok s s' \<and> mem_record (ls_bench_id l) s' = Some r)
     (\<lambda>_ s'. s' = s) s"
  by (auto simp: mem_apply_def wpM mem_record_put dest: resolve_supersedes resolve_replay
      intro!: mem_step_ok_put split: sum.splits option.splits)

lemma wp_mem_release:
  "wp (mem_release a i b v t) (\<lambda>r s'. mem_step_ok s s' \<and> mem_record b s' = Some r \<and> is_tombstone r \<and>
       st_version r = v \<and> st_reservation_id r = i)
     (\<lambda>_ s'. s' = s) s"
proof -
  have replay: "x = p \<and> is_tombstone p \<and> st_version p = v \<and> st_reservation_id p = i"
    if "resolve_lease_version p (Tombstone u) = Inr (Some x)" "tb_lease_version u = v" "tb_reservation_id u = i"
    for p u x
    using that by (auto simp: resolve_lease_version_def split: if_splits)
  show ?thesis
    by (auto simp: mem_release_def wpM mem_record_put make_tombstone_def
        dest: resolve_supersedes replay intro!: mem_step_ok_put split: sum.splits option.splits stored_lease.splits)
qed


lemma wp_step:
  assumes "wp m (\<lambda>_ s'. P s') (\<lambda>_ s'. P s') s"
  shows "P (snd (m s))"
  using assms by (simp add: wp_def case_prod_beta split: sum.splits)

lemma mem_perform_ok: "mem_step_ok s (mem_perform op s)"
proof (cases op)
  case (LeaseApply l ob k c)
  then show ?thesis
    using wp_step[of "mem_apply l ob k c" "mem_step_ok s"] wp_mono[OF wp_mem_apply] by auto
next
  case (LeaseRelease a i b v t)
  then show ?thesis
    using wp_step[of "mem_release a i b v t" "mem_step_ok s"] wp_mono[OF wp_mem_release] by auto
qed

interpretation mem_store: lease_store mem_record mem_perform "\<lambda>_. True"
  using mem_perform_ok by unfold_locales (auto simp: mem_step_ok_def)

section \<open>The durable store refines the reference store\<close>

lemma trim_fixed_strip: "l\<lparr>ls_bench_id := trim (ls_bench_id l), ls_owner := trim (ls_owner l)\<rparr> = l \<longleftrightarrow>
    trim (ls_bench_id l) = ls_bench_id l \<and> trim (ls_owner l) = ls_owner l"
  by (cases l) simp

text \<open>A value of the model \<open>ReservationLease\<close>: one that its constructor returned.\<close>

definition lease_object :: "reservation_lease \<Rightarrow> bool" where
  "lease_object l \<longleftrightarrow> make_reservation_lease l = Inr l"

lemma lease_objectD:
  assumes "lease_object l"
  shows "lease_valid l" "make_reservation_lease l = Inr l" "1 \<le> ls_lease_version l"
proof -
  let ?l = "l\<lparr>ls_bench_id := trim (ls_bench_id l), ls_owner := trim (ls_owner l)\<rparr>"
  have "lease_valid ?l" "?l = l"
    using assms by (simp_all add: lease_object_def make_reservation_lease_def Let_def split: if_splits)
  then show "lease_valid l" by metis
  then show "1 \<le> ls_lease_version l" by (simp add: lease_valid_def)
  show "make_reservation_lease l = Inr l" using assms by (simp add: lease_object_def)
qed

text \<open>A row that reads back as a record.\<close>

definition lease_row_ok :: "reservation_lease \<Rightarrow> bool" where
  "lease_row_ok x \<longleftrightarrow> (case ls_released_at x of
      None \<Rightarrow> lease_object x
    | Some _ \<Rightarrow> py_strip (ls_bench_id x) \<noteq> [] \<and> 1 \<le> ls_lease_version x)"

definition sql_leases_ok :: "sql_leases \<Rightarrow> bool" where
  "sql_leases_ok s \<longleftrightarrow>
     (\<forall>x \<in> set (sl_rows s). ls_agent_id x = sl_agent_id s \<and> lease_row_ok x) \<and>
     distinct (map (\<lambda>x. (ls_bench_id x, ls_lease_version x)) (sl_rows s))"

definition stored_of_row :: "reservation_lease \<Rightarrow> stored_lease" where
  "stored_of_row x = (case ls_released_at x of None \<Rightarrow> Lease x | Some t \<Rightarrow> Tombstone
     \<lparr>tb_reservation_id = ls_reservation_id x, tb_agent_id = ls_agent_id x, tb_bench_id = ls_bench_id x,
      tb_lease_version = ls_lease_version x, tb_released_at = t\<rparr>)"

definition sql_record :: "string \<Rightarrow> sql_leases \<Rightarrow> stored_lease option" where
  "sql_record b s = map_option stored_of_row (current_row b s)"

lemma stored_lease_from_row_ok: "lease_row_ok x \<Longrightarrow> stored_lease_from_row x = Inr (stored_of_row x)"
  by (auto simp: stored_lease_from_row_def stored_of_row_def lease_row_ok_def lease_objectD make_tombstone_def
      split: option.splits)

lemma stored_of_row_fields [simp]:
  "st_bench_id (stored_of_row x) = ls_bench_id x" "st_agent_id (stored_of_row x) = ls_agent_id x"
  "st_reservation_id (stored_of_row x) = ls_reservation_id x" "st_version (stored_of_row x) = ls_lease_version x"
  "is_tombstone (stored_of_row x) \<longleftrightarrow> ls_released_at x \<noteq> None"
  by (simp_all add: stored_of_row_def split: option.splits)

lemma first_order_by_desc_ge:
  assumes "first_row (order_by_desc k rows) = Some r" and "x \<in> set rows"
  shows "k x \<le> k r"
proof -
  obtain rest where rest: "order_by_desc k rows = r # rest"
    using assms(1) by (auto simp: first_row_def split: list.splits)
  have "sort_key k (rev rows) = rev (r # rest)"
    using rest by (simp add: order_by_desc_def rev_swap)
  then have "sorted (map k (rev (r # rest)))" using sorted_sort_key[of k "rev rows"] by simp
  moreover have "x \<in> set (r # rest)" using assms(2) rest set_order_by_desc[of k rows] by simp
  ultimately show ?thesis by (auto simp: sorted_append)
qed

lemma current_row_Some_iff:
  assumes "sql_leases_ok s"
  shows "current_row b s = Some x \<longleftrightarrow> x \<in> set (sl_rows s) \<and> ls_bench_id x = b \<and>
     (\<forall>y \<in> set (sl_rows s). ls_bench_id y = b \<longrightarrow> ls_lease_version y \<le> ls_lease_version x)" (is "_ \<longleftrightarrow> ?top x")
proof -
  let ?rows = "filter (\<lambda>x. ls_bench_id x = b) (sl_rows s)"
  have max: "?top x" if "current_row b s = Some x" for x
    using first_row_Some[OF that[unfolded current_row_def]] first_order_by_desc_ge[OF that[unfolded current_row_def]]
    by auto
  have "current_row b s = Some x" if top: "?top x"
  proof -
    have "?rows \<noteq> []" using top by (auto simp: filter_empty_conv)
    then obtain r where r: "current_row b s = Some r" by (cases "current_row b s") (auto simp: current_row_def)
    have "ls_lease_version x = ls_lease_version r" using max[OF r] top by (simp add: eq_iff)
    then have "r = x"
      using assms max[OF r] top distinct_map_eq[of "\<lambda>x. (ls_bench_id x, ls_lease_version x)" "sl_rows s" r x]
      by (simp add: sql_leases_ok_def)
    with r show ?thesis by simp
  qed
  with max show ?thesis by blast
qed

lemma current_row_None: "current_row b s = None \<longleftrightarrow> (\<forall>y \<in> set (sl_rows s). ls_bench_id y \<noteq> b)"
  by (auto simp: current_row_def filter_empty_conv)

lemma run_current_lease:
  assumes "sql_leases_ok s"
  shows "current_lease b s = (Inr (sql_record b s), s)"
proof (cases "current_row b s")
  case None
  then show ?thesis by (simp add: current_lease_def runM sql_record_def)
next
  case (Some x)
  then have "lease_row_ok x" using assms current_row_Some_iff[OF assms] by (simp add: sql_leases_ok_def)
  with Some show ?thesis by (simp add: current_lease_def runM sql_record_def stored_lease_from_row_ok)
qed


lemma wp_sql_require_agent [wpM]:
  "wp (sql_require_agent a) Q E s = (if a = sl_agent_id s then Q () s else E ReservationLeaseInvalidError s)"
  by (simp add: sql_require_agent_def wpM)

lemma run_sql_require_agent [runM]:
  "sql_require_agent a s = (if a = sl_agent_id s then (Inr (), s) else (Inl ReservationLeaseInvalidError, s))"
  by (simp add: sql_require_agent_def runM)

lemma run_mem_require_agent [runM]:
  "mem_require_agent a s = (if a = ml_agent_id s then (Inr (), s) else (Inl ReservationLeaseInvalidError, s))"
  by (simp add: mem_require_agent_def runM)

lemma run_mem_put [runM]: "mem_put b r s = (Inr (), s\<lparr>ml_records := dict_set b r (ml_records s)\<rparr>)"
  by (simp add: mem_put_def runM)

text \<open>The two stores hold the same records of the same agent.\<close>

definition same_leases :: "mem_leases \<Rightarrow> sql_leases \<Rightarrow> bool" where
  "same_leases m s \<longleftrightarrow> ml_agent_id m = sl_agent_id s \<and> sql_leases_ok s \<and> (\<forall>b. mem_record b m = sql_record b s)"

text \<open>
  A record that can be stored: of this agent, and readable once it is a row.
\<close>

definition storable :: "sql_leases \<Rightarrow> stored_lease \<Rightarrow> bool" where
  "storable s r \<longleftrightarrow> st_agent_id r = sl_agent_id s \<and> lease_row_ok (row_of_stored r) \<and>
     stored_of_row (row_of_stored r) = r"

lemma row_of_stored_fields [simp]:
  "ls_bench_id (row_of_stored r) = st_bench_id r" "ls_agent_id (row_of_stored r) = st_agent_id r"
  "ls_reservation_id (row_of_stored r) = st_reservation_id r" "ls_lease_version (row_of_stored r) = st_version r"
  by (cases r; simp)+

lemma sql_record_Some:
  assumes "sql_leases_ok s" and "sql_record b s = Some p"
  obtains x where "x \<in> set (sl_rows s)" "ls_bench_id x = b" "stored_of_row x = p" "current_row b s = Some x"
    "\<forall>y \<in> set (sl_rows s). ls_bench_id y = b \<longrightarrow> ls_lease_version y \<le> ls_lease_version x"
  using assms current_row_Some_iff[OF assms(1), of b] by (auto simp: sql_record_def)

text \<open>A row of a version above those of its bench becomes the record of the bench.\<close>

lemma insert_newer:
  assumes ok: "sql_leases_ok s" and r: "storable s r"
    and newer: "\<forall>p. sql_record (st_bench_id r) s = Some p \<longrightarrow> st_version p < st_version r"
    and acc: "\<not> lease_row_rejected (row_of_stored r) (sl_rows s)"
  defines "s' \<equiv> s\<lparr>sl_rows := sl_rows s @ [row_of_stored r]\<rparr>"
  shows "sql_leases_ok s'" and "sql_record b s' = (if b = st_bench_id r then Some r else sql_record b s)"
proof -
  let ?x = "row_of_stored r"
  have below: "ls_lease_version y < st_version r" if "y \<in> set (sl_rows s)" "ls_bench_id y = st_bench_id r" for y
  proof -
    have "current_row (st_bench_id r) s \<noteq> None" using that by (auto simp: current_row_None)
    then obtain x where x: "current_row (st_bench_id r) s = Some x" by blast
    then have "ls_lease_version y \<le> ls_lease_version x" using current_row_Some_iff[OF ok] that by blast
    also have "\<dots> < st_version r" using newer x by (auto simp: sql_record_def)
    finally show ?thesis .
  qed
  have "(st_bench_id r, st_version r) \<notin> (\<lambda>x. (ls_bench_id x, ls_lease_version x)) ` set (sl_rows s)"
    using below by fastforce
  then show ok': "sql_leases_ok s'"
    using ok r by (simp add: sql_leases_ok_def s'_def storable_def)
  have rows: "set (sl_rows s') = insert ?x (set (sl_rows s))" by (simp add: s'_def)
  show "sql_record b s' = (if b = st_bench_id r then Some r else sql_record b s)"
  proof (cases "b = st_bench_id r")
    case True
    then have "current_row b s' = Some ?x"
      using below rows by (auto simp: current_row_Some_iff[OF ok'] less_imp_le)
    with True r show ?thesis by (simp add: sql_record_def storable_def)
  next
    case False
    then have "current_row b s' = current_row b s"
      by (simp add: current_row_def s'_def)
    with False show ?thesis by (simp add: sql_record_def)
  qed
qed

lemma run_insert_or_invalid:
  "insert_or_invalid r s =
     (if lease_row_rejected (row_of_stored r) (sl_rows s) then (Inl ReservationLeaseInvalidError, s)
      else (Inr r, s\<lparr>sl_rows := sl_rows s @ [row_of_stored r]\<rparr>))"
  by (simp add: insert_or_invalid_def insert_stored_lease_def runM)

lemma filter_update_other:
  "(\<And>x. P x \<Longrightarrow> \<not> Q x \<and> \<not> Q (f x)) \<Longrightarrow> filter Q (update_where P f rows) = filter Q rows"
  by (induction rows) (auto simp: update_where_def)

text \<open>Marking the row of the active record makes its tombstone the record of the bench.\<close>

lemma mark_current:
  assumes ok: "sql_leases_ok s" and p: "sql_record b s = Some p" and "\<not> is_tombstone p"
    and t: "tb_bench_id t = b" "tb_lease_version t = st_version p" "tb_reservation_id t = st_reservation_id p"
      "tb_agent_id t = st_agent_id p" "py_strip b \<noteq> []"
  obtains s' where "mark_released b (st_version p) (tb_released_at t) s = (Inr (), s')"
    "sql_leases_ok s'" "sl_agent_id s' = sl_agent_id s"
    "\<And>b'. sql_record b' s' = (if b' = b then Some (Tombstone t) else sql_record b' s)"
proof -
  obtain x where x: "x \<in> set (sl_rows s)" "ls_bench_id x = b" "stored_of_row x = p" "current_row b s = Some x"
      "\<forall>y \<in> set (sl_rows s). ls_bench_id y = b \<longrightarrow> ls_lease_version y \<le> ls_lease_version x"
    by (rule sql_record_Some[OF ok p])
  let ?P = "\<lambda>y. ls_bench_id y = b \<and> ls_lease_version y = st_version p \<and> ls_released_at y = None"
  let ?f = "\<lambda>y. y\<lparr>ls_released_at := Some (tb_released_at t)\<rparr>"
  let ?s = "s\<lparr>sl_rows := update_where ?P ?f (sl_rows s)\<rparr>"
  have px: "?P x" using x(2,3) assms(3) by auto
  have only: "y = x" if "y \<in> set (sl_rows s)" "?P y" for y
    using ok that px x(1) distinct_map_eq[of "\<lambda>x. (ls_bench_id x, ls_lease_version x)" "sl_rows s" y x]
    by (simp add: sql_leases_ok_def)
  have mem: "z \<in> set (sl_rows ?s) \<longleftrightarrow> z = ?f x \<or> z \<in> set (sl_rows s) \<and> z \<noteq> x" for z
  proof -
    have "z \<in> set (sl_rows ?s) \<longleftrightarrow> (\<exists>y \<in> set (sl_rows s). z = (if ?P y then ?f y else y))"
      by (simp add: set_update_where)
    also have "\<dots> \<longleftrightarrow> (\<exists>y \<in> set (sl_rows s). z = (if y = x then ?f x else y))"
      by (rule bex_cong[OF refl]) (use only px in metis)
    also have "\<dots> \<longleftrightarrow> z = ?f x \<or> z \<in> set (sl_rows s) \<and> z \<noteq> x"
      using x(1) by metis
    finally show ?thesis .
  qed
  have ver: "1 \<le> ls_lease_version x"
    using ok x(1) px lease_objectD(3) unfolding sql_leases_ok_def lease_row_ok_def by fastforce
  have "lease_row_ok (?f x)" using ver t(5) x(2) by (simp add: lease_row_ok_def)
  moreover have "map (\<lambda>x. (ls_bench_id x, ls_lease_version x)) (sl_rows ?s) =
      map (\<lambda>x. (ls_bench_id x, ls_lease_version x)) (sl_rows s)"
    by (simp add: update_where_map)
  moreover have "\<forall>z \<in> set (sl_rows ?s). ls_agent_id z = sl_agent_id s"
    using ok x(1) by (auto simp: sql_leases_ok_def set_update_where)
  ultimately have ok': "sql_leases_ok ?s"
    using ok mem by (auto simp: sql_leases_ok_def)
  show thesis
  proof (rule that[of ?s])
    show "mark_released b (st_version p) (tb_released_at t) s = (Inr (), ?s)"
      by (simp add: mark_released_def runM)
    show "sql_record b' ?s = (if b' = b then Some (Tombstone t) else sql_record b' s)" for b'
    proof (cases "b' = b")
      case True
      have "current_row b ?s = Some (?f x)"
        using x(2,5) mem by (auto simp: current_row_Some_iff[OF ok'])
      moreover have "stored_of_row (?f x) = Tombstone t"
      proof -
        have "tb_bench_id t = ls_bench_id x" "tb_lease_version t = ls_lease_version x"
          "tb_reservation_id t = ls_reservation_id x" "tb_agent_id t = ls_agent_id x"
          using t(1-4) x(2) by (simp_all flip: x(3))
        then show ?thesis by (cases t) (simp add: stored_of_row_def)
      qed
      ultimately show ?thesis using True by (simp add: sql_record_def)
    next
      case False
      have "filter (\<lambda>x. ls_bench_id x = b') (update_where ?P ?f (sl_rows s)) = filter (\<lambda>x. ls_bench_id x = b') (sl_rows s)"
        using False by (intro filter_update_other) auto
      with False show ?thesis by (simp add: sql_record_def current_row_def)
    qed
  qed (use ok' in simp_all)
qed


text \<open>
  Outcomes agree, except that the durable store refuses a record whose reservation and version it
  has already seen on another bench.
\<close>

definition version_taken :: "uuid \<Rightarrow> int \<Rightarrow> string \<Rightarrow> sql_leases \<Rightarrow> bool" where
  "version_taken i v b s \<longleftrightarrow>
     (\<exists>x \<in> set (sl_rows s). ls_reservation_id x = i \<and> ls_lease_version x = v \<and> ls_bench_id x \<noteq> b)"

definition leases_agree ::
    "(error + stored_lease) \<times> mem_leases \<Rightarrow> (error + stored_lease) \<times> sql_leases \<Rightarrow> bool" where
  "leases_agree m s \<longleftrightarrow> fst m = fst s \<and> same_leases (snd m) (snd s)"

lemma same_leases_agent: "same_leases m s \<Longrightarrow> ml_agent_id m = sl_agent_id s"
  by (simp add: same_leases_def)

lemma store_newer:
  assumes same: "same_leases m s" and r: "storable s r"
    and newer: "\<forall>p. sql_record (st_bench_id r) s = Some p \<longrightarrow> st_version p < st_version r" and pos: "1 \<le> st_version r"
  shows "leases_agree (Inr r, m\<lparr>ml_records := dict_set (st_bench_id r) r (ml_records m)\<rparr>) (insert_or_invalid r s) \<or>
    insert_or_invalid r s = (Inl ReservationLeaseInvalidError, s) \<and>
      version_taken (st_reservation_id r) (st_version r) (st_bench_id r) s"
proof (cases "lease_row_rejected (row_of_stored r) (sl_rows s)")
  case False
  have ok: "sql_leases_ok s" using same by (simp add: same_leases_def)
  note ins = insert_newer[OF ok r newer False]
  show ?thesis
    using same False ins by (simp add: leases_agree_def same_leases_def run_insert_or_invalid mem_record_put)
next
  case True
  have ok: "sql_leases_ok s" using same by (simp add: same_leases_def)
  obtain x where x: "x \<in> set (sl_rows s)" "ls_lease_version x = st_version r"
      "ls_bench_id x = st_bench_id r \<or> ls_reservation_id x = st_reservation_id r"
    using True pos by (auto simp: lease_row_rejected_def)
  have "ls_bench_id x \<noteq> st_bench_id r"
  proof
    assume b: "ls_bench_id x = st_bench_id r"
    then obtain y where y: "current_row (st_bench_id r) s = Some y"
      using x(1) by (cases "current_row (st_bench_id r) s") (auto simp: current_row_None)
    then have "ls_lease_version x \<le> ls_lease_version y" "ls_lease_version y < st_version r"
      using current_row_Some_iff[OF ok] x(1) b newer by (auto simp: sql_record_def)
    with x(2) show False by simp
  qed
  with x True show ?thesis by (auto simp: run_insert_or_invalid version_taken_def)
qed

lemma resolve_None_cases:
  assumes "resolve_lease_version p r = Inr None"
  shows "st_version p < st_version r \<or>
    st_version r = st_version p \<and> st_agent_id r = st_agent_id p \<and> st_reservation_id r = st_reservation_id p \<and>
      \<not> is_tombstone p \<and> is_tombstone r"
  using assms by (auto simp: resolve_lease_version_def split: if_splits)

text \<open>The transaction that \<open>apply\<close> and \<open>release\<close> share, against the step of the reference store.\<close>

lemma store_record:
  assumes same: "same_leases m s" and r: "storable s r" "1 \<le> st_version r"
      "is_tombstone r \<Longrightarrow> py_strip (st_bench_id r) \<noteq> []"
    and res: "resolve_lease_version p r = Inr None" and p: "sql_record (st_bench_id r) s = Some p"
  shows "let q = (case r of
            Tombstone t \<Rightarrow> if tb_lease_version t = st_version p
              then bindM (mark_released (tb_bench_id t) (tb_lease_version t) (tb_released_at t)) (\<lambda>_. returnM r) s
              else insert_or_invalid r s
          | Lease _ \<Rightarrow> insert_or_invalid r s)
    in leases_agree (Inr r, m\<lparr>ml_records := dict_set (st_bench_id r) r (ml_records m)\<rparr>) q \<or>
       q = (Inl ReservationLeaseInvalidError, s) \<and>
       version_taken (st_reservation_id r) (st_version r) (st_bench_id r) s"
proof (cases "st_version p < st_version r")
  case True
  then have "\<forall>p. sql_record (st_bench_id r) s = Some p \<longrightarrow> st_version p < st_version r" using p by simp
  from store_newer[OF same r(1) this r(2)] True show ?thesis by (cases r) (auto simp: Let_def)
next
  case False
  then have eq: "st_version r = st_version p" "st_agent_id r = st_agent_id p"
      "st_reservation_id r = st_reservation_id p" "\<not> is_tombstone p" "is_tombstone r"
    using resolve_None_cases[OF res] by auto
  then obtain t where t: "r = Tombstone t" by (cases r) simp_all
  have ok: "sql_leases_ok s" using same by (simp add: same_leases_def)
  obtain s' where s': "mark_released (tb_bench_id t) (st_version p) (tb_released_at t) s = (Inr (), s')"
      "sql_leases_ok s'" "sl_agent_id s' = sl_agent_id s"
      "\<And>b'. sql_record b' s' = (if b' = tb_bench_id t then Some (Tombstone t) else sql_record b' s)"
    by (rule mark_current[OF ok, of "tb_bench_id t" p t]) (use p eq r t in auto)
  show ?thesis
    using same s' eq t by (simp add: Let_def runM leases_agree_def same_leases_def mem_record_put)
qed


lemma stored_from_lease_storable:
  assumes "lease_object l" and "stored_from_lease l = Inr r" and "ls_agent_id l = sl_agent_id s"
  shows "storable s r" "1 \<le> st_version r" "is_tombstone r \<Longrightarrow> py_strip (st_bench_id r) \<noteq> []"
proof -
  have row: "row_of_stored (Lease l) = l" if "ls_released_at l = None" using that by (cases l) simp
  show "storable s r"
  proof (cases "ls_released_at l")
    case None
    then show ?thesis
      using assms row by (auto simp: stored_from_lease_def storable_def lease_row_ok_def stored_of_row_def)
  next
    case (Some t)
    then show ?thesis
      using assms by (auto simp: stored_from_lease_def make_tombstone_def storable_def lease_row_ok_def
          stored_of_row_def split: if_splits)
  qed
  show "1 \<le> st_version r" using stored_from_lease_fields(4)[OF assms(2)] lease_objectD(3)[OF assms(1)] by simp
  show "is_tombstone r \<Longrightarrow> py_strip (st_bench_id r) \<noteq> []"
    using assms(2) by (auto simp: stored_from_lease_def make_tombstone_def split: option.splits if_splits)
qed

lemma leases_agree_same: "same_leases m s \<Longrightarrow> leases_agree (x, m) (x, s)"
  by (simp add: leases_agree_def)

lemma apply_refines:
  assumes same: "same_leases m s" and l: "lease_object l"
  shows "leases_agree (mem_apply l ob k c m) (sql_apply l ob k c s) \<or>
    sql_apply l ob k c s = (Inl ReservationLeaseInvalidError, s) \<and>
    version_taken (ls_reservation_id l) (ls_lease_version l) (ls_bench_id l) s"
proof -
  have ok: "sql_leases_ok s" and agent: "ml_agent_id m = sl_agent_id s"
    and rec: "\<And>b. mem_record b m = sql_record b s"
    using same by (simp_all add: same_leases_def)
  note simps = mem_apply_def sql_apply_def runM run_current_lease[OF ok] rec agent leases_agree_same[OF same]
  show ?thesis
  proof (cases "ls_agent_id l = sl_agent_id s")
    case False
    then show ?thesis by (simp add: simps)
  next
    case agent_ok: True
    show ?thesis
    proof (cases "lease_clock_skew k")
      case (Inl e)
      then show ?thesis by (simp add: simps agent_ok)
    next
      case skew: (Inr sk)
      let ?time = "require_lease_time_valid l (case ob of None \<Rightarrow> c | Some t \<Rightarrow> t) sk"
      show ?thesis
      proof (cases "ls_released_at l = None \<and> ?time \<noteq> Inr ()")
        case True
        then obtain e where "?time = Inl e" by (cases ?time) auto
        with True show ?thesis by (simp add: simps agent_ok skew)
      next
        case timely: False
        show ?thesis
        proof (cases "stored_from_lease l")
          case (Inl e)
          then show ?thesis using timely by (auto simp: simps agent_ok skew)
        next
          case inc: (Inr r)
          note f = stored_from_lease_fields[OF inc]
          note st = stored_from_lease_storable[OF l inc agent_ok]
          show ?thesis
          proof (cases "sql_record (ls_bench_id l) s")
            case None
            have "\<forall>p. sql_record (st_bench_id r) s = Some p \<longrightarrow> st_version p < st_version r"
              using None f by simp
            note store = store_newer[OF same st(1) this st(2)]
            show ?thesis
              using store None timely f
              by (cases "insert_or_invalid r s"; cases "fst (insert_or_invalid r s)")
                (auto simp: simps agent_ok skew inc run_insert_or_invalid split: if_splits)
          next
            case (Some p)
            obtain x where x: "x \<in> set (sl_rows s)" "stored_of_row x = p"
              by (rule sql_record_Some[OF ok Some])
            have pa: "st_agent_id p = sl_agent_id s"
              using ok x by (auto simp: sql_leases_ok_def simp flip: x(2))
            show ?thesis
            proof (cases "resolve_lease_version p r")
              case (Inl e)
              then show ?thesis using timely by (auto simp: simps agent_ok skew inc Some pa)
            next
              case res: (Inr v)
              show ?thesis
              proof (cases v)
                case (Some y)
                then show ?thesis using timely res \<open>sql_record (ls_bench_id l) s = Some p\<close>
                  by (auto simp: simps agent_ok skew inc pa)
              next
                case None
                note store = store_record[OF same st res[unfolded None], unfolded f Let_def, OF _ Some]
                show ?thesis
                  using store timely res None f Some
                  by (cases r) (auto simp: simps agent_ok skew inc pa run_insert_or_invalid mark_released_def split: if_splits)
              qed
            qed
          qed
        qed
      qed
    qed
  qed
qed


lemma release_refines:
  assumes same: "same_leases m s"
  shows "leases_agree (mem_release a i b v t m) (sql_release a i b v t s) \<or>
    sql_release a i b v t s = (Inl ReservationLeaseInvalidError, s) \<and> version_taken i v b s"
proof -
  have ok: "sql_leases_ok s" and agent: "ml_agent_id m = sl_agent_id s"
    and rec: "\<And>b. mem_record b m = sql_record b s"
    using same by (simp_all add: same_leases_def)
  note simps = mem_release_def sql_release_def runM run_current_lease[OF ok] rec agent leases_agree_same[OF same]
  let ?t = "\<lparr>tb_reservation_id = i, tb_agent_id = a, tb_bench_id = b, tb_lease_version = v, tb_released_at = t\<rparr>"
  show ?thesis
  proof (cases "a = sl_agent_id s \<and> make_tombstone ?t = Inr ?t")
    case False
    then show ?thesis by (auto simp: simps make_tombstone_def)
  next
    case True
    then have agent_ok: "a = sl_agent_id s" and tomb: "make_tombstone ?t = Inr ?t" by auto
    have pos: "1 \<le> st_version (Tombstone ?t)" "py_strip (st_bench_id (Tombstone ?t)) \<noteq> []"
      using tomb by (auto simp: make_tombstone_def split: if_splits)
    then have st: "storable s (Tombstone ?t)"
      using agent_ok by (simp add: storable_def lease_row_ok_def stored_of_row_def)
    show ?thesis
    proof (cases "sql_record b s")
      case None
      then have "\<forall>p. sql_record (st_bench_id (Tombstone ?t)) s = Some p \<longrightarrow> st_version p < st_version (Tombstone ?t)"
        by simp
      from store_newer[OF same st this pos(1)] show ?thesis
        using None tomb by (auto simp: simps agent_ok run_insert_or_invalid split: if_splits)
    next
      case (Some p)
      obtain x where x: "x \<in> set (sl_rows s)" "stored_of_row x = p"
        by (rule sql_record_Some[OF ok Some])
      have pa: "st_agent_id p = sl_agent_id s"
        using ok x by (auto simp: sql_leases_ok_def simp flip: x(2))
      show ?thesis
      proof (cases "resolve_lease_version p (Tombstone ?t)")
        case (Inl e)
        then show ?thesis using tomb by (simp add: simps agent_ok Some pa)
      next
        case res: (Inr y)
        show ?thesis
        proof (cases y)
          case (Some z)
          obtain u where "z = Tombstone u" using resolve_replay_release res Some by blast
          then show ?thesis
            using res Some tomb \<open>sql_record b s = Some p\<close> by (simp add: simps agent_ok pa)
        next
          case None
          have "sql_record (st_bench_id (Tombstone ?t)) s = Some p" using Some by simp
          note store = store_record[OF same st pos res[unfolded None] this, unfolded Let_def]
          show ?thesis
            using store res None tomb Some
            by (auto simp: simps agent_ok pa run_insert_or_invalid mark_released_def split: if_splits)
        qed
      qed
    qed
  qed
qed

lemma run_require_current:
  "require_current f a i b v ob k c w = (fst (require_current f a i b v ob k c (undefined :: unit)), w)"
  by (simp add: require_current_def runM split: option.splits stored_lease.splits sum.splits)

lemma validate_refines:
  assumes same: "same_leases m s"
  shows "leases_agree (mem_validate a i b v ob k c m) (sql_validate a i b v ob k c s)"
proof -
  have ok: "sql_leases_ok s" and agent: "ml_agent_id m = sl_agent_id s"
    and rec: "\<And>b. mem_record b m = sql_record b s"
    using same by (simp_all add: same_leases_def)
  show ?thesis
    using same by (simp add: mem_validate_def sql_validate_def runM run_current_lease[OF ok] rec agent leases_agree_same
        run_require_current[of _ _ _ _ _ _ _ _ m] run_require_current[of _ _ _ _ _ _ _ _ s])
qed

lemma get_refines:
  assumes "same_leases m s"
  shows "mem_get b m = (Inr (sql_record b s), m)" and "sql_get b s = (Inr (sql_record b s), s)"
proof -
  have ok: "sql_leases_ok s" using assms by (simp add: same_leases_def)
  show "mem_get b m = (Inr (sql_record b s), m)" using assms by (simp add: mem_get_def runM same_leases_def)
  have "st_agent_id p = sl_agent_id s" if "sql_record b s = Some p" for p
    using sql_record_Some[OF ok that] ok unfolding sql_leases_ok_def by (metis stored_of_row_fields(2))
  then show "sql_get b s = (Inr (sql_record b s), s)"
    by (auto simp: sql_get_def runM run_current_lease[OF ok] split: option.splits)
qed


text \<open>Every operation of the durable store keeps its rows well-formed and its records in order.\<close>

fun sql_perform :: "lease_op \<Rightarrow> sql_leases \<Rightarrow> sql_leases" where
  "sql_perform (LeaseApply l observed_at skew clock) s = snd (sql_apply l observed_at skew clock s)"
| "sql_perform (LeaseRelease agent reservation bench version t) s =
     snd (sql_release agent reservation bench version t s)"

fun lease_op_ok :: "lease_op \<Rightarrow> bool" where
  "lease_op_ok (LeaseApply l _ _ _) = lease_object l"
| "lease_op_ok (LeaseRelease _ _ _ _ _) = True"

text \<open>The reference store with the same records as a durable store.\<close>

definition mem_of_sql :: "sql_leases \<Rightarrow> mem_leases" where
  "mem_of_sql s = \<lparr>ml_agent_id = sl_agent_id s,
     ml_records = map (\<lambda>x. (ls_bench_id x, stored_of_row x)) (filter (is_latest (sl_rows s)) (sl_rows s))\<rparr>"

lemma latest_rows:
  assumes "sql_leases_ok s"
  shows "x \<in> set (filter (is_latest (sl_rows s)) (sl_rows s)) \<longleftrightarrow> current_row (ls_bench_id x) s = Some x"
  by (auto simp: is_latest_def list_all_iff current_row_Some_iff[OF assms])

lemma distinct_latest:
  assumes "sql_leases_ok s"
  shows "distinct (map ls_bench_id (filter (is_latest (sl_rows s)) (sl_rows s)))"
proof -
  have "distinct (sl_rows s)"
    using assms by (auto simp: sql_leases_ok_def distinct_map)
  moreover have "inj_on ls_bench_id (set (filter (is_latest (sl_rows s)) (sl_rows s)))"
  proof (rule inj_onI)
    fix x y
    assume "x \<in> set (filter (is_latest (sl_rows s)) (sl_rows s))"
      "y \<in> set (filter (is_latest (sl_rows s)) (sl_rows s))" "ls_bench_id x = ls_bench_id y"
    then show "x = y" using latest_rows[OF assms, of x] latest_rows[OF assms, of y] by simp
  qed
  ultimately show ?thesis by (simp add: distinct_map)
qed

lemma same_leases_mem_of_sql:
  assumes ok: "sql_leases_ok s"
  shows "same_leases (mem_of_sql s) s"
proof -
  have "mem_record b (mem_of_sql s) = sql_record b s" for b
  proof (cases "current_row b s")
    case None
    then have "\<forall>x \<in> set (sl_rows s). ls_bench_id x \<noteq> b" by (simp add: current_row_None)
    with None show ?thesis
      by (auto simp: mem_record_def mem_of_sql_def sql_record_def map_of_eq_None_iff)
  next
    case (Some x)
    then have x: "x \<in> set (filter (is_latest (sl_rows s)) (sl_rows s))" "ls_bench_id x = b"
      using current_row_Some_iff[OF ok] latest_rows[OF ok, of x] by auto
    have "map_of (map (\<lambda>x. (ls_bench_id x, stored_of_row x)) (filter (is_latest (sl_rows s)) (sl_rows s))) b =
        Some (stored_of_row x)"
      by (rule map_of_is_SomeI) (use distinct_latest[OF ok] x in \<open>auto simp: o_def\<close>)
    with Some show ?thesis by (simp add: mem_record_def mem_of_sql_def sql_record_def)
  qed
  then show ?thesis using ok by (simp add: same_leases_def) (simp add: mem_of_sql_def)
qed

lemma sql_perform_refines:
  assumes "same_leases m s" and "lease_op_ok op"
  shows "same_leases (mem_perform op m) (sql_perform op s) \<or> sql_perform op s = s"
proof (cases op)
  case (LeaseApply l ob k c)
  then show ?thesis using apply_refines[OF assms(1), of l ob k c] assms(2) by (auto simp: leases_agree_def)
next
  case (LeaseRelease a i b v t)
  then show ?thesis using release_refines[OF assms(1), of a i b v t] by (auto simp: leases_agree_def)
qed

lemma sql_perform_ok:
  assumes ok: "sql_leases_ok s" and op: "lease_op_ok op"
  shows "sql_leases_ok (sql_perform op s)" and "supersedes (sql_record b s) (sql_record b (sql_perform op s))"
proof -
  note same = same_leases_mem_of_sql[OF ok]
  have step: "supersedes (mem_record b (mem_of_sql s)) (mem_record b (mem_perform op (mem_of_sql s)))"
    using mem_perform_ok by (simp add: mem_step_ok_def)
  consider "same_leases (mem_perform op (mem_of_sql s)) (sql_perform op s)" | "sql_perform op s = s"
    using sql_perform_refines[OF same op] by blast
  then show "sql_leases_ok (sql_perform op s)" "supersedes (sql_record b s) (sql_record b (sql_perform op s))"
    using step same ok by (cases; simp add: same_leases_def)+
qed

text \<open>
  Requests reach a store as values of the models, so the interface is met by the operations on
  those.
\<close>

definition sql_perform_request :: "lease_op \<Rightarrow> sql_leases \<Rightarrow> sql_leases" where
  "sql_perform_request op s = (if lease_op_ok op then sql_perform op s else s)"

interpretation sql_store: lease_store sql_record sql_perform_request sql_leases_ok
  by unfold_locales (simp_all add: sql_perform_request_def sql_perform_ok)


lemma validation_of_record:
  assumes ok: "sql_leases_ok s" and "fst (sql_validate a i b v ob k c s) = Inr x"
  shows "\<exists>l. sql_record b s = Some (Lease l) \<and> ls_lease_version l = v"
  using assms(2)
  by (cases "sql_record b s")
    (auto simp: sql_validate_def runM run_current_lease[OF ok] require_current_def
      split: stored_lease.splits sum.splits if_splits)

lemma release_stores_tombstone:
  assumes ok: "sql_leases_ok s" and rel: "sql_release a i b v t s = (Inr r, s1)"
  shows "\<exists>u. sql_record b s1 = Some (Tombstone u) \<and> tb_lease_version u = v \<and> r = Tombstone u"
proof -
  let ?m = "mem_of_sql s"
  have agree: "leases_agree (mem_release a i b v t ?m) (Inr r, s1)"
    using release_refines[OF same_leases_mem_of_sql[OF ok], of a i b v t] rel by simp
  then obtain m1 where m1: "mem_release a i b v t ?m = (Inr r, m1)" "same_leases m1 s1"
    by (cases "mem_release a i b v t ?m") (auto simp: leases_agree_def)
  show ?thesis
    using wp_Inr[OF wp_mem_release m1(1)] m1(2) by (cases r) (auto simp: same_leases_def)
qed

section \<open>Properties\<close>

text \<open>
  C4: the durable store refines the reference store: on the same records, applying, releasing and
  validating give the same answer, error or record, and lead to the same records again. The one
  exception is a record whose reservation and version the table already has for another bench: the
  durable store refuses it and does not change.
\<close>

theorem durable_leases_refine_the_reference:
  assumes "same_leases m s" and "lease_object l"
  shows "(leases_agree (mem_apply l ob k c m) (sql_apply l ob k c s) \<or>
      sql_apply l ob k c s = (Inl ReservationLeaseInvalidError, s) \<and>
      version_taken (ls_reservation_id l) (ls_lease_version l) (ls_bench_id l) s) \<and>
    (leases_agree (mem_release a i b v t m) (sql_release a i b v t s) \<or>
      sql_release a i b v t s = (Inl ReservationLeaseInvalidError, s) \<and> version_taken i v b s) \<and>
    leases_agree (mem_validate a i b v ob k c m) (sql_validate a i b v ob k c s)"
  using apply_refines[OF assms] release_refines[OF assms(1)] validate_refines[OF assms(1)] by blast

definition sample_lease :: reservation_lease where
  "sample_lease = \<lparr>ls_reservation_id = ''r'', ls_agent_id = ''a'', ls_bench_id = ''lab'', ls_owner = ''ann'',
     ls_valid_from = 0, ls_valid_until = 100, ls_lease_version = 1, ls_released_at = None\<rparr>"

definition empty_leases :: sql_leases where
  "empty_leases = \<lparr>sl_agent_id = ''a'', sl_rows = []\<rparr>"

lemma sample_lease_simps [simp]:
  "ls_agent_id sample_lease = ''a''" "ls_bench_id sample_lease = ''lab''" "ls_lease_version sample_lease = 1"
  "ls_reservation_id sample_lease = ''r''" "ls_released_at sample_lease = None" "lease_object sample_lease"
  "require_lease_time_valid sample_lease 50 0 = Inr ()" "row_of_stored (Lease sample_lease) = sample_lease"
  by (simp_all add: sample_lease_def lease_object_def make_reservation_lease_def lease_valid_def trim_def
      strip_with_def unicode_space_def Let_def require_lease_time_valid_def)

lemma empty_leases_simps [simp]:
  "sl_agent_id empty_leases = ''a''" "sl_rows empty_leases = []" "sql_leases_ok empty_leases"
  by (simp_all add: empty_leases_def sql_leases_ok_def)

lemma apply_sample_lease:
  "sql_apply sample_lease (Some 50) 0 c empty_leases = (Inr (Lease sample_lease), empty_leases\<lparr>sl_rows := [sample_lease]\<rparr>)"
  by (simp add: sql_apply_def runM lease_clock_skew_def seconds_def stored_from_lease_def current_lease_def
      current_row_def run_insert_or_invalid lease_row_rejected_def)

theorem durable_leases_refine_the_reference_witness:
  "fst (mem_apply sample_lease (Some 50) 0 0 (mem_of_sql empty_leases)) = Inr (Lease sample_lease)"
  using durable_leases_refine_the_reference[OF same_leases_mem_of_sql[OF empty_leases_simps(3)] sample_lease_simps(6),
      of "Some 50" 0 0]
  by (auto simp: apply_sample_lease leases_agree_def version_taken_def)

text \<open>
  A command is authorised exactly by the current lease of its bench: validation succeeds if and
  only if the store's latest record of the bench is an active lease of this agent, reservation and
  version, and the observed time is within its validity widened by the clock skew. It never changes
  the store.
\<close>

theorem validation_is_exact:
  assumes ok: "sql_leases_ok s"
  shows "sql_validate a i b v ob k c s = (Inr x, s') \<longleftrightarrow>
    s' = s \<and> a = sl_agent_id s \<and> 1 \<le> v \<and> 0 \<le> k \<and>
    (\<exists>l. x = Lease l \<and> sql_record b s = Some (Lease l) \<and> ls_agent_id l = a \<and> ls_bench_id l = b \<and>
       ls_reservation_id l = i \<and> ls_lease_version l = v \<and>
       is_valid_at l (case ob of Some t \<Rightarrow> t | None \<Rightarrow> c) k = Inr True)"
proof -
  have live: "ls_released_at l = None" if rec: "sql_record b s = Some (Lease l)" for l
    by (rule sql_record_Some[OF ok rec]) (auto simp: stored_of_row_def split: option.splits)
  show ?thesis
    using live
    by (cases "sql_record b s")
      (auto simp: sql_validate_def runM run_current_lease[OF ok] require_current_def require_stored_identity_def
        lease_clock_skew_def require_lease_time_valid_def is_valid_at_def Let_def not_less
        split: stored_lease.splits sum.splits if_splits option.splits)
qed

theorem validation_is_exact_witness:
  "sql_validate ''a'' ''r'' ''lab'' 1 (Some 100) 0 0 (empty_leases\<lparr>sl_rows := [sample_lease]\<rparr>) =
     (Inr (Lease sample_lease), empty_leases\<lparr>sl_rows := [sample_lease]\<rparr>)"
proof -
  let ?s = "empty_leases\<lparr>sl_rows := [sample_lease]\<rparr>"
  have ok: "sql_leases_ok ?s" by (simp add: sql_leases_ok_def lease_row_ok_def)
  have rec: "sql_record ''lab'' ?s = Some (Lease sample_lease)"
    by (simp add: sql_record_def current_row_def order_by_desc_def stored_of_row_def)
  show ?thesis
    by (subst validation_is_exact[OF ok]) (simp add: rec, simp add: is_valid_at_def sample_lease_def seconds_def)
qed

text \<open>
  C5: a release fences: once the durable store has accepted the release of a version, no sequence of
  later requests, whatever leases they carry, ever lets a command of that version or an older one
  be authorised on the bench again.
\<close>

theorem released_version_is_fenced:
  assumes ok: "sql_leases_ok s" and rel: "sql_release a i b v t s = (Inr r, s1)" and old: "v' \<le> v"
  shows "fst (sql_validate a' i' b v' ob k c (fold sql_perform_request ops s1)) \<noteq> Inr x"
proof
  assume valid: "fst (sql_validate a' i' b v' ob k c (fold sql_perform_request ops s1)) = Inr x"
  have step: "sql_perform_request (LeaseRelease a i b v t) s = s1" by (simp add: sql_perform_request_def rel)
  then have ok1: "sql_leases_ok s1" using sql_store.perform_invar[OF ok] by metis
  have ok2: "sql_leases_ok (fold sql_perform_request ops s1)" by (rule sql_store.history_invar[OF ok1])
  obtain l where l: "sql_record b (fold sql_perform_request ops s1) = Some (Lease l)" "ls_lease_version l = v'"
    using valid validation_of_record[OF ok2] by blast
  obtain u where u: "sql_record b s1 = Some (Tombstone u)" "tb_lease_version u = v"
    using release_stores_tombstone[OF ok rel] by blast
  from sql_store.released_stays_fenced[OF ok1 u(1) l(1)] l(2) u(2) old show False by simp
qed

theorem released_version_is_fenced_witness:
  "fst (sql_validate ''a'' ''r'' ''lab'' 1 (Some 50) 0 0 (fold sql_perform_request
     [LeaseApply sample_lease (Some 50) 0 0]
     (snd (sql_release ''a'' ''r'' ''lab'' 1 40 empty_leases)))) \<noteq> Inr (Lease sample_lease)"
proof -
  have "sql_release ''a'' ''r'' ''lab'' 1 40 empty_leases =
      (Inr (Tombstone \<lparr>tb_reservation_id = ''r'', tb_agent_id = ''a'', tb_bench_id = ''lab'',
         tb_lease_version = 1, tb_released_at = 40\<rparr>), snd (sql_release ''a'' ''r'' ''lab'' 1 40 empty_leases))"
    by (simp add: sql_release_def runM make_tombstone_def py_strip_def strip_with_def py_space_def Let_def
        current_lease_def current_row_def run_insert_or_invalid lease_row_rejected_def)
  then show ?thesis by (rule released_version_is_fenced[OF empty_leases_simps(3)]) simp
qed

end
