(* ===== verification/RemoteCommands.thy ===== *)
theory RemoteCommands
  imports Json Leases ReservationModels
begin

text \<open>
  The models of the distributed control plane that travel between it and its agents
  (\<open>models/distributed.py\<close>): remote commands, their delivery attempts, the operations that track
  them, and the entries of an agent's command journal, each with the validators its constructor
  runs. \<open>REMOTE_COMMAND_TRANSITIONS\<close> and \<open>DISTRIBUTED_OPERATION_TRANSITIONS\<close> are the two state
  machines. Payload dictionaries are taken with their keys stripped, as pydantic leaves them.
\<close>

section \<open>Statuses and their transitions\<close>

datatype remote_command_type =
  Probe | Flash | Reset | ReadSerial | RunWorkflow | CancelOperation | RefreshInventory

datatype remote_command_status =
    RcCreated | RcQueued | RcDispatched | RcAccepted | RcRunning | RcSucceeded | RcFailed | RcCancelled
  | RcExpired | RcUnknown

definition TERMINAL_REMOTE_COMMAND_STATUSES :: "remote_command_status list" where
  "TERMINAL_REMOTE_COMMAND_STATUSES = [RcSucceeded, RcFailed, RcCancelled, RcExpired]"

abbreviation terminal_command :: "remote_command_status \<Rightarrow> bool" where
  "terminal_command st \<equiv> st \<in> set TERMINAL_REMOTE_COMMAND_STATUSES"

lemma terminal_command_iff [simp]:
  "terminal_command st \<longleftrightarrow> st = RcSucceeded \<or> st = RcFailed \<or> st = RcCancelled \<or> st = RcExpired"
  by (auto simp: TERMINAL_REMOTE_COMMAND_STATUSES_def)

text \<open>\<open>REMOTE_COMMAND_TRANSITIONS.get(status, frozenset())\<close>: no entry for a terminal status.\<close>

fun remote_command_transitions :: "remote_command_status \<Rightarrow> remote_command_status list" where
  "remote_command_transitions RcCreated = [RcQueued, RcDispatched, RcExpired, RcCancelled]"
| "remote_command_transitions RcQueued = [RcDispatched, RcExpired, RcCancelled]"
| "remote_command_transitions RcDispatched = [RcAccepted, RcCancelled, RcFailed, RcExpired, RcUnknown]"
| "remote_command_transitions RcAccepted = [RcRunning, RcSucceeded, RcFailed, RcCancelled, RcUnknown]"
| "remote_command_transitions RcRunning = [RcSucceeded, RcFailed, RcCancelled, RcUnknown]"
| "remote_command_transitions RcUnknown = [RcAccepted, RcRunning, RcSucceeded, RcFailed, RcCancelled, RcExpired]"
| "remote_command_transitions _ = []"

datatype distributed_operation_status =
    DoCreated | DoDispatched | DoAccepted | DoRunning | DoSucceeded | DoFailed | DoCancelled | DoUnknown
  | DoReconciling

definition TERMINAL_DISTRIBUTED_OPERATION_STATUSES :: "distributed_operation_status list" where
  "TERMINAL_DISTRIBUTED_OPERATION_STATUSES = [DoSucceeded, DoFailed, DoCancelled]"

abbreviation terminal_operation :: "distributed_operation_status \<Rightarrow> bool" where
  "terminal_operation st \<equiv> st \<in> set TERMINAL_DISTRIBUTED_OPERATION_STATUSES"

lemma terminal_operation_iff [simp]:
  "terminal_operation st \<longleftrightarrow> st = DoSucceeded \<or> st = DoFailed \<or> st = DoCancelled"
  by (auto simp: TERMINAL_DISTRIBUTED_OPERATION_STATUSES_def)

fun distributed_operation_transitions :: "distributed_operation_status \<Rightarrow> distributed_operation_status list" where
  "distributed_operation_transitions DoCreated = [DoDispatched, DoCancelled, DoFailed]"
| "distributed_operation_transitions DoDispatched = [DoAccepted, DoUnknown, DoCancelled, DoFailed]"
| "distributed_operation_transitions DoAccepted = [DoRunning, DoUnknown, DoSucceeded, DoFailed, DoCancelled]"
| "distributed_operation_transitions DoRunning = [DoUnknown, DoSucceeded, DoFailed, DoCancelled]"
| "distributed_operation_transitions DoUnknown = [DoReconciling, DoSucceeded, DoFailed, DoCancelled]"
| "distributed_operation_transitions DoReconciling = [DoAccepted, DoRunning, DoSucceeded, DoFailed, DoCancelled]"
| "distributed_operation_transitions _ = []"

section \<open>Field checks the models share\<close>

definition sized :: "nat \<Rightarrow> nat \<Rightarrow> string \<Rightarrow> bool" where
  "sized lo hi s \<longleftrightarrow> lo \<le> length s \<and> length s \<le> hi"

definition optional_sized :: "nat \<Rightarrow> string option \<Rightarrow> bool" where
  "optional_sized hi v = (case v of None \<Rightarrow> True | Some s \<Rightarrow> length s \<le> hi)"

text \<open>Every value that is given is at or after the one given before it.\<close>

fun chronological :: "time \<Rightarrow> time option list \<Rightarrow> bool" where
  "chronological previous [] = True"
| "chronological previous (None # ts) = chronological previous ts"
| "chronological previous (Some t # ts) = (previous \<le> t \<and> chronological t ts)"

definition not_before :: "time \<Rightarrow> time option \<Rightarrow> bool" where
  "not_before t v = (case v of None \<Rightarrow> True | Some u \<Rightarrow> t \<le> u)"

section \<open>Remote commands\<close>

record actor_context =
  ac_principal_id :: uuid
  ac_principal_type :: principal_type
  ac_display_name :: string
  ac_organisation_id :: uuid
  ac_authorisation_snapshot_id :: "uuid option"

record remote_command =
  rc_id :: uuid
  rc_organisation_id :: uuid
  rc_agent_id :: uuid
  rc_bench_id :: string
  rc_command_type :: remote_command_type
  rc_payload :: payload
  rc_status :: remote_command_status
  rc_created_at :: time
  rc_dispatched_at :: "time option"
  rc_acknowledged_at :: "time option"
  rc_started_at :: "time option"
  rc_completed_at :: "time option"
  rc_expires_at :: time
  rc_idempotency_key :: string
  rc_attempt_count :: int
  rc_operation_id :: "uuid option"
  rc_reservation_id :: "uuid option"
  rc_lease_version :: "int option"
  rc_error_code :: "string option"
  rc_error_message :: "string option"
  rc_actor_context :: "actor_context option"
  rc_authorisation_snapshot_id :: "uuid option"

definition strip_remote_command :: "remote_command \<Rightarrow> remote_command" where
  "strip_remote_command c = c\<lparr>rc_bench_id := trim (rc_bench_id c),
     rc_idempotency_key := trim (rc_idempotency_key c), rc_error_code := map_option trim (rc_error_code c),
     rc_error_message := map_option trim (rc_error_message c)\<rparr>"

definition command_fields_valid :: "remote_command \<Rightarrow> bool" where
  "command_fields_valid c \<longleftrightarrow>
     sized 3 600 (rc_bench_id c) \<and> sized 1 500 (rc_idempotency_key c) \<and> 0 \<le> rc_attempt_count c \<and>
     (case rc_lease_version c of None \<Rightarrow> True | Some v \<Rightarrow> 1 \<le> v) \<and>
     optional_sized 200 (rc_error_code c) \<and> optional_sized 2000 (rc_error_message c) \<and>
     bounded_json_mapping 1048576 (rc_payload c)"

text \<open>\<open>validate_actor_snapshot\<close>.\<close>

definition actor_snapshot_valid :: "remote_command \<Rightarrow> bool" where
  "actor_snapshot_valid c =
     (case (rc_actor_context c, rc_authorisation_snapshot_id c) of
        (Some a, Some i) \<Rightarrow> ac_authorisation_snapshot_id a = Some i
      | _ \<Rightarrow> True)"

text \<open>\<open>validate_timeline_and_status\<close>.\<close>

definition command_timeline_valid :: "remote_command \<Rightarrow> bool" where
  "command_timeline_valid c \<longleftrightarrow>
     rc_created_at c < rc_expires_at c \<and>
     chronological (rc_created_at c)
       [rc_dispatched_at c, rc_acknowledged_at c, rc_started_at c, rc_completed_at c] \<and>
     (rc_completed_at c \<noteq> None \<longleftrightarrow> terminal_command (rc_status c)) \<and>
     (rc_reservation_id c = None \<longleftrightarrow> rc_lease_version c = None) \<and>
     (rc_status c \<in> {RcDispatched, RcAccepted, RcRunning, RcUnknown, RcSucceeded, RcFailed} \<longrightarrow>
        rc_dispatched_at c \<noteq> None) \<and>
     (rc_status c \<in> {RcAccepted, RcRunning} \<longrightarrow> rc_acknowledged_at c \<noteq> None) \<and>
     (rc_status c = RcRunning \<longrightarrow> rc_started_at c \<noteq> None)"

definition remote_command_valid :: "remote_command \<Rightarrow> bool" where
  "remote_command_valid c \<longleftrightarrow> command_fields_valid c \<and> actor_snapshot_valid c \<and> command_timeline_valid c"

definition make_remote_command :: "remote_command \<Rightarrow> error + remote_command" where
  "make_remote_command c =
     (let c' = strip_remote_command c in if remote_command_valid c' then Inr c' else Inl ValueError)"

record command_attempt =
  at_id :: uuid
  at_command_id :: uuid
  at_attempt_number :: int
  at_connection_id :: "uuid option"
  at_sequence_number :: "int option"
  at_dispatched_at :: time
  at_acknowledged_at :: "time option"
  at_failed_at :: "time option"
  at_error_code :: "string option"

definition command_attempt_valid :: "command_attempt \<Rightarrow> bool" where
  "command_attempt_valid a \<longleftrightarrow>
     1 \<le> at_attempt_number a \<and> (case at_sequence_number a of None \<Rightarrow> True | Some n \<Rightarrow> 1 \<le> n) \<and>
     optional_sized 200 (at_error_code a) \<and>
     not_before (at_dispatched_at a) (at_acknowledged_at a) \<and> not_before (at_dispatched_at a) (at_failed_at a) \<and>
     \<not> (at_acknowledged_at a \<noteq> None \<and> at_failed_at a \<noteq> None)"

section \<open>Distributed operations\<close>

record distributed_operation =
  do_id :: uuid
  do_organisation_id :: uuid
  do_remote_command_id :: uuid
  do_agent_id :: uuid
  do_bench_id :: string
  do_reservation_id :: "uuid option"
  do_operation_type :: string
  do_status :: distributed_operation_status
  do_progress :: "int option"
  do_message :: "string option"
  do_result :: "payload option"
  do_created_at :: time
  do_dispatched_at :: "time option"
  do_started_at :: "time option"
  do_completed_at :: "time option"
  do_last_agent_update_at :: "time option"
  do_reconciliation_deadline :: "time option"
  do_error_code :: "string option"
  do_error_message :: "string option"

definition distributed_operation_valid :: "distributed_operation \<Rightarrow> bool" where
  "distributed_operation_valid p \<longleftrightarrow>
     sized 3 600 (do_bench_id p) \<and> sized 1 200 (do_operation_type p) \<and>
     (case do_progress p of None \<Rightarrow> True | Some n \<Rightarrow> 0 \<le> n \<and> n \<le> 100) \<and>
     optional_sized 2000 (do_message p) \<and> optional_sized 200 (do_error_code p) \<and>
     optional_sized 2000 (do_error_message p) \<and>
     (case do_result p of None \<Rightarrow> True | Some r \<Rightarrow> bounded_json_mapping 1048576 r) \<and>
     list_all (not_before (do_created_at p))
       [do_dispatched_at p, do_started_at p, do_completed_at p, do_last_agent_update_at p,
        do_reconciliation_deadline p] \<and>
     (terminal_operation (do_status p) \<longleftrightarrow> do_completed_at p \<noteq> None)"

section \<open>Journal entries\<close>

record journal_entry =
  je_command_id :: uuid
  je_idempotency_key :: string
  je_command_type :: remote_command_type
  je_bench_id :: string
  je_status :: remote_command_status
  je_received_at :: time
  je_started_at :: "time option"
  je_completed_at :: "time option"
  je_result :: "payload option"
  je_error_code :: "string option"
  je_error_message :: "string option"

definition strip_journal_entry :: "journal_entry \<Rightarrow> journal_entry" where
  "strip_journal_entry e = e\<lparr>je_idempotency_key := trim (je_idempotency_key e),
     je_bench_id := trim (je_bench_id e), je_error_code := map_option trim (je_error_code e),
     je_error_message := map_option trim (je_error_message e)\<rparr>"

definition journal_entry_valid :: "journal_entry \<Rightarrow> bool" where
  "journal_entry_valid e \<longleftrightarrow>
     sized 1 500 (je_idempotency_key e) \<and> sized 3 600 (je_bench_id e) \<and>
     optional_sized 200 (je_error_code e) \<and> optional_sized 2000 (je_error_message e) \<and>
     (case je_result e of None \<Rightarrow> True | Some r \<Rightarrow> bounded_json_mapping 1048576 r) \<and>
     chronological (je_received_at e) [je_started_at e, je_completed_at e] \<and>
     (terminal_command (je_status e) \<longleftrightarrow> je_completed_at e \<noteq> None)"

definition make_journal_entry :: "journal_entry \<Rightarrow> error + journal_entry" where
  "make_journal_entry e =
     (let e' = strip_journal_entry e in if journal_entry_valid e' then Inr e' else Inl ValueError)"

text \<open>A value of the model: one that its constructor returned.\<close>

definition journal_object :: "journal_entry \<Rightarrow> bool" where
  "journal_object e \<longleftrightarrow> strip_journal_entry e = e \<and> journal_entry_valid e"

lemma make_journal_entry_object: "make_journal_entry e = Inr e' \<Longrightarrow> journal_object e'"
  by (auto simp: make_journal_entry_def journal_object_def Let_def strip_journal_entry_def option.map_comp o_def
      split: if_splits)

lemma make_journal_entry_self: "journal_object e \<Longrightarrow> make_journal_entry e = Inr e"
  by (simp add: make_journal_entry_def journal_object_def)

lemma terminal_no_transition: "terminal_command st \<Longrightarrow> remote_command_transitions st = []"
  by auto

lemma terminal_operation_no_transition: "terminal_operation st \<Longrightarrow> distributed_operation_transitions st = []"
  by auto

end
