(* ===== verification/CommandJournal.thy ===== *)
theory CommandJournal
  imports RemoteCommands
begin

text \<open>
  The agent's durable journal of remote commands (\<open>agent_runtime/command_journal.py\<close>) on the tables
  \<open>agent_command_journal\<close> and \<open>agent_runtime_metadata\<close>. A row is a journal entry with the fingerprint
  of the command's execution content. SHA-256 and pydantic's JSON form of a lease are code outside
  the repository: they are the parameters in \<open>digests\<close>. A mapping keeps the order in which it was
  given; Python compares mappings without regard to order.
\<close>

section \<open>Requests and fingerprints\<close>

record digests =
  dg_sha256 :: "string \<Rightarrow> string"
  dg_dump_lease :: "reservation_lease \<Rightarrow> json"

record command_request =
  cq_command :: remote_command
  cq_reservation_lease :: "reservation_lease option"

text \<open>\<open>validate_lease_binding\<close> of \<open>CommandRequestPayload\<close>.\<close>

definition command_request_valid :: "command_request \<Rightarrow> bool" where
  "command_request_valid q =
     (let c = cq_command q in
      case rc_reservation_id c of
        None \<Rightarrow> cq_reservation_lease q = None
      | Some i \<Rightarrow>
          (case cq_reservation_lease q of
             None \<Rightarrow> False
           | Some l \<Rightarrow> ls_reservation_id l = i \<and> ls_agent_id l = rc_agent_id c \<and>
               ls_bench_id l = rc_bench_id c \<and> Some (ls_lease_version l) = rc_lease_version c))"

definition DELIVERY_FIELDS :: "string list" where
  "DELIVERY_FIELDS = [''transfer_id'', ''download_url'', ''transfer_token'', ''expires_at'']"

fun durable_artifact_descriptor :: "json \<Rightarrow> json" where
  "durable_artifact_descriptor (JObj kvs) = JObj (filter (\<lambda>(k, v). k \<notin> set DELIVERY_FIELDS) kvs)"
| "durable_artifact_descriptor v = v"

definition durable_command_payload :: "remote_command_type \<Rightarrow> payload \<Rightarrow> payload" where
  "durable_command_payload ty p =
     (if ty = RunWorkflow then
        (case map_of p ''artifact_transfers'' of
           Some (JList items) \<Rightarrow> dict_set ''artifact_transfers'' (JList (map durable_artifact_descriptor items)) p
         | _ \<Rightarrow> p)
      else if ty = Flash then
        (case map_of p ''artifact'' of
           Some (JObj kvs) \<Rightarrow> dict_set ''artifact'' (durable_artifact_descriptor (JObj kvs)) p
         | _ \<Rightarrow> p)
      else p)"

fun command_type_value :: "remote_command_type \<Rightarrow> string" where
  "command_type_value Probe = ''PROBE''"
| "command_type_value Flash = ''FLASH''"
| "command_type_value Reset = ''RESET''"
| "command_type_value ReadSerial = ''READ_SERIAL''"
| "command_type_value RunWorkflow = ''RUN_WORKFLOW''"
| "command_type_value CancelOperation = ''CANCEL_OPERATION''"
| "command_type_value RefreshInventory = ''REFRESH_INVENTORY''"

definition optional_text :: "string option \<Rightarrow> json" where
  "optional_text v = (case v of None \<Rightarrow> JNull | Some s \<Rightarrow> JStr s)"

definition execution_document :: "digests \<Rightarrow> command_request \<Rightarrow> json" where
  "execution_document dg q =
     (let c = cq_command q in JObj
       [(''agent_id'', JStr (rc_agent_id c)), (''bench_id'', JStr (rc_bench_id c)),
        (''command_type'', JStr (command_type_value (rc_command_type c))),
        (''payload'', JObj (durable_command_payload (rc_command_type c) (rc_payload c))),
        (''created_at'', JTime (rc_created_at c)), (''expires_at'', JTime (rc_expires_at c)),
        (''operation_id'', optional_text (rc_operation_id c)),
        (''reservation_id'', optional_text (rc_reservation_id c)),
        (''lease_version'', (case rc_lease_version c of None \<Rightarrow> JNull | Some v \<Rightarrow> JInt v)),
        (''reservation_lease'', (case cq_reservation_lease q of None \<Rightarrow> JNull | Some l \<Rightarrow> dg_dump_lease dg l))])"

definition command_fingerprint :: "digests \<Rightarrow> command_request \<Rightarrow> string" where
  "command_fingerprint dg q = dg_sha256 dg (json_dumps (execution_document dg q))"

section \<open>The tables\<close>

record journal_row =
  jr_entry :: journal_entry
  jr_fingerprint :: string

record journal_db =
  jd_rows :: "journal_row list"
  jd_metadata :: "(string \<times> string) list"

definition empty_journal :: journal_db where
  "empty_journal = \<lparr>jd_rows = [], jd_metadata = []\<rparr>"

definition record_from_row :: "journal_row \<Rightarrow> error + journal_row" where
  "record_from_row row =
     map_sum id (\<lambda>e. \<lparr>jr_entry = e, jr_fingerprint = jr_fingerprint row\<rparr>) (make_journal_entry (jr_entry row))"

definition select_journal :: "(journal_entry \<Rightarrow> bool) \<Rightarrow> (journal_db, journal_row list) io" where
  "select_journal P = getsM (\<lambda>d. filter (\<lambda>r. P (jr_entry r)) (jd_rows d))"

text \<open>\<open>command_id\<close> is the primary key, \<open>idempotency_key\<close> is unique.\<close>

definition insert_journal_row :: "journal_row \<Rightarrow> (journal_db, unit) io" where
  "insert_journal_row n = (\<lambda>d.
     if \<exists>r \<in> set (jd_rows d). je_command_id (jr_entry r) = je_command_id (jr_entry n) \<or>
          je_idempotency_key (jr_entry r) = je_idempotency_key (jr_entry n)
     then (Inl IntegrityError, d) else (Inr (), d\<lparr>jd_rows := jd_rows d @ [n]\<rparr>))"

definition update_journal ::
    "uuid \<Rightarrow> (journal_entry \<Rightarrow> bool) \<Rightarrow> (journal_entry \<Rightarrow> journal_entry) \<Rightarrow> (journal_db, unit) io" where
  "update_journal cid P f = modifyM (\<lambda>d. d\<lparr>jd_rows :=
     update_where (\<lambda>r. je_command_id (jr_entry r) = cid \<and> P (jr_entry r))
       (\<lambda>r. r\<lparr>jr_entry := f (jr_entry r)\<rparr>) (jd_rows d)\<rparr>)"

section \<open>Operations\<close>

definition active_entry :: "journal_entry \<Rightarrow> bool" where
  "active_entry e \<longleftrightarrow> je_status e = RcAccepted \<or> je_status e = RcRunning"

definition boot_marker_key :: string where
  "boot_marker_key = ''agent_command_journal:active_boot_id''"

definition interrupted_entry :: "time \<Rightarrow> journal_entry \<Rightarrow> journal_entry" where
  "interrupted_entry recovered e = e\<lparr>je_status := RcFailed,
     je_completed_at := Some (max recovered
       (case je_started_at e of Some t \<Rightarrow> t | None \<Rightarrow> je_received_at e)),
     je_result := None, je_error_code := Some ''AGENT_RESTARTED_DURING_OPERATION'',
     je_error_message := Some ''Agent process restarted before command execution completed.''\<rparr>"

definition interrupt_row :: "time \<Rightarrow> journal_row \<Rightarrow> journal_row list \<Rightarrow> (journal_db, journal_row list) io" where
  "interrupt_row recovered row interrupted =
     bindM (liftE (record_from_row row)) (\<lambda>r.
     bindM (liftE (make_journal_entry (interrupted_entry recovered (jr_entry r)))) (\<lambda>entry.
     bindM (update_journal (je_command_id entry) active_entry (\<lambda>e. e\<lparr>je_status := je_status entry,
        je_completed_at := je_completed_at entry, je_result := None, je_error_code := je_error_code entry,
        je_error_message := je_error_message entry\<rparr>)) (\<lambda>_.
     returnM (interrupted @ [\<lparr>jr_entry = entry, jr_fingerprint = jr_fingerprint r\<rparr>]))))"

definition recover_interrupted :: "uuid \<Rightarrow> time \<Rightarrow> (journal_db, journal_row list) io" where
  "recover_interrupted boot_id recovered =
     transactionM
       (bindM (getsM (\<lambda>d. map_of (jd_metadata d) boot_marker_key)) (\<lambda>marker.
        if marker = Some boot_id then returnM []
        else
          bindM (getsM (\<lambda>d. order_by (\<lambda>r. (je_received_at (jr_entry r), je_command_id (jr_entry r)))
             (filter (\<lambda>r. active_entry (jr_entry r)) (jd_rows d)))) (\<lambda>rows.
          bindM (foldM (interrupt_row recovered) rows []) (\<lambda>interrupted.
          bindM (modifyM (\<lambda>d. d\<lparr>jd_metadata := dict_set boot_marker_key boot_id (jd_metadata d)\<rparr>)) (\<lambda>_.
          returnM interrupted)))))"

definition journal_find :: "command_request \<Rightarrow> string \<Rightarrow> (journal_db, journal_row option) io" where
  "journal_find q fingerprint =
     (let c = cq_command q in
      bindM (select_journal (\<lambda>e. je_command_id e = rc_id c \<or> je_idempotency_key e = rc_idempotency_key c)) (\<lambda>rows.
      case rows of
        [] \<Rightarrow> returnM None
      | [row] \<Rightarrow>
          bindM (liftE (record_from_row row)) (\<lambda>existing.
          let same_command_id = je_command_id (jr_entry existing) = rc_id c;
              same_key = je_idempotency_key (jr_entry existing) = rc_idempotency_key c
          in if jr_fingerprint existing \<noteq> fingerprint \<or> same_command_id \<and> \<not> same_key
             then raiseM RemoteCommandDuplicateError else returnM (Some existing))
      | _ \<Rightarrow> raiseM RemoteCommandDuplicateError))"

definition find_replay :: "digests \<Rightarrow> command_request \<Rightarrow> (journal_db, journal_row option) io" where
  "find_replay dg q = transactionM (journal_find q (command_fingerprint dg q))"

definition accepted_entry :: "command_request \<Rightarrow> time \<Rightarrow> journal_entry" where
  "accepted_entry q received = (let c = cq_command q in
     \<lparr>je_command_id = rc_id c, je_idempotency_key = rc_idempotency_key c, je_command_type = rc_command_type c,
      je_bench_id = rc_bench_id c, je_status = RcAccepted, je_received_at = received, je_started_at = None,
      je_completed_at = None, je_result = None, je_error_code = None, je_error_message = None\<rparr>)"

text \<open>The result is the record and whether it was created.\<close>

definition create_or_replay :: "digests \<Rightarrow> command_request \<Rightarrow> time \<Rightarrow> (journal_db, journal_row \<times> bool) io" where
  "create_or_replay dg q received =
     (let fingerprint = command_fingerprint dg q in
      transactionM
        (bindM (journal_find q fingerprint) (\<lambda>found.
         case found of
           Some existing \<Rightarrow> returnM (existing, False)
         | None \<Rightarrow>
             bindM (liftE (make_journal_entry (accepted_entry q received))) (\<lambda>entry.
             let row = \<lparr>jr_entry = entry, jr_fingerprint = fingerprint\<rparr> in
             bindM (catchM (insert_journal_row row)
                (\<lambda>exc. if exc = IntegrityError then raiseM RemoteCommandDuplicateError else raiseM exc)) (\<lambda>_.
             returnM (row, True))))))"

definition journal_select_one :: "(journal_entry \<Rightarrow> bool) \<Rightarrow> (journal_db, journal_row option) io" where
  "journal_select_one P =
     bindM (select_journal P) (\<lambda>rows.
     case first_row rows of None \<Rightarrow> returnM None
     | Some row \<Rightarrow> bindM (liftE (record_from_row row)) (\<lambda>r. returnM (Some r)))"

definition journal_get :: "uuid \<Rightarrow> (journal_db, journal_row option) io" where
  "journal_get cid = journal_select_one (\<lambda>e. je_command_id e = cid)"

definition journal_get_by_idempotency_key :: "string \<Rightarrow> (journal_db, journal_row option) io" where
  "journal_get_by_idempotency_key key = journal_select_one (\<lambda>e. je_idempotency_key e = key)"

text \<open>\<open>_require_row\<close> and \<open>_record_from_row\<close>.\<close>

definition require_record :: "uuid \<Rightarrow> (journal_db, journal_row) io" where
  "require_record cid =
     bindM (journal_get cid) (\<lambda>found. case found of None \<Rightarrow> raiseM KeyError | Some r \<Rightarrow> returnM r)"

definition mark_running :: "uuid \<Rightarrow> time \<Rightarrow> (journal_db, journal_row) io" where
  "mark_running cid started =
     transactionM
       (bindM (require_record cid) (\<lambda>current.
        if je_status (jr_entry current) \<noteq> RcAccepted then returnM current
        else
          bindM (liftE (make_journal_entry ((jr_entry current)\<lparr>je_status := RcRunning, je_started_at := Some started\<rparr>)))
            (\<lambda>entry.
          bindM (update_journal cid (\<lambda>e. je_status e = RcAccepted)
            (\<lambda>e. e\<lparr>je_status := je_status entry, je_started_at := je_started_at entry\<rparr>)) (\<lambda>_.
          returnM \<lparr>jr_entry = entry, jr_fingerprint = jr_fingerprint current\<rparr>))))"

definition journal_complete ::
    "uuid \<Rightarrow> remote_command_status \<Rightarrow> time \<Rightarrow> payload option \<Rightarrow> string option \<Rightarrow> string option \<Rightarrow>
     (journal_db, journal_row) io" where
  "journal_complete cid status completed result error_code error_message =
     (if \<not> terminal_command status then raiseM ValueError
      else transactionM
        (bindM (require_record cid) (\<lambda>current.
         let st = je_status (jr_entry current) in
         if terminal_command st then returnM current
         else if st \<noteq> RcAccepted \<and> st \<noteq> RcRunning then raiseM ValueError
         else
           bindM (liftE (make_journal_entry ((jr_entry current)\<lparr>je_status := status,
              je_completed_at := Some completed, je_result := result, je_error_code := error_code,
              je_error_message := error_message\<rparr>))) (\<lambda>entry.
           bindM (update_journal cid (\<lambda>_. True) (\<lambda>e. e\<lparr>je_status := je_status entry,
              je_completed_at := je_completed_at entry, je_result := je_result entry,
              je_error_code := je_error_code entry, je_error_message := je_error_message entry\<rparr>)) (\<lambda>_.
           returnM \<lparr>jr_entry = entry, jr_fingerprint = jr_fingerprint current\<rparr>)))))"

definition journal_list :: "remote_command_status option \<Rightarrow> int \<Rightarrow> (journal_db, journal_row list) io" where
  "journal_list status limit =
     (if limit < 1 then raiseM ValueError
      else
        bindM (select_journal (\<lambda>e. case status of None \<Rightarrow> True | Some st \<Rightarrow> je_status e = st)) (\<lambda>rows.
        foldM (\<lambda>row acc. bindM (liftE (record_from_row row)) (\<lambda>r. returnM (acc @ [r])))
          (limit_rows limit (order_by (\<lambda>r. (- je_received_at (jr_entry r), je_command_id (jr_entry r))) rows)) []))"


section \<open>Logs that only grow\<close>

text \<open>
  The contract of a table whose rows are appended, never removed, and only ever advance along an
  order: what its readers may rely on through any history of operations.
\<close>

locale growing_log =
  fixes rows_of :: "'s \<Rightarrow> 'r list"
    and perform :: "'op \<Rightarrow> 's \<Rightarrow> 's"
    and invar :: "'s \<Rightarrow> bool"
    and advances :: "'r \<Rightarrow> 'r \<Rightarrow> bool"
  assumes perform_invar: "invar s \<Longrightarrow> invar (perform op s)"
    and perform_grows: "invar s \<Longrightarrow>
      \<exists>ys zs. rows_of (perform op s) = ys @ zs \<and> list_all2 advances (rows_of s) ys"
    and advances_refl: "advances r r"
    and advances_trans: "advances r r' \<Longrightarrow> advances r' r'' \<Longrightarrow> advances r r''"
begin

lemma history_invar: "invar s \<Longrightarrow> invar (fold perform ops s)"
  by (induction ops arbitrary: s) (simp_all add: perform_invar)

lemma perform_row:
  assumes "invar s" and "r \<in> set (rows_of s)"
  obtains r' where "r' \<in> set (rows_of (perform op s))" "advances r r'"
proof -
  obtain ys zs where y: "rows_of (perform op s) = ys @ zs" "list_all2 advances (rows_of s) ys"
    using perform_grows[OF assms(1)] by blast
  then obtain r' where "r' \<in> set ys" "advances r r'" using assms(2) by (metis list_all2_conv_all_nth in_set_conv_nth)
  with y(1) show thesis using that by auto
qed

lemma history_row:
  assumes "invar s" and "r \<in> set (rows_of s)"
  shows "\<exists>r' \<in> set (rows_of (fold perform ops s)). advances r r'"
  using assms
proof (induction ops arbitrary: s r)
  case Nil
  then show ?case using advances_refl by auto
next
  case (Cons op ops)
  obtain r' where r': "r' \<in> set (rows_of (perform op s))" "advances r r'"
    by (rule perform_row[OF Cons.prems])
  from Cons.IH[OF perform_invar[OF Cons.prems(1)] r'(1)] show ?case
    using advances_trans[OF r'(2)] by auto
qed

lemma final_row_stays:
  assumes "invar s" and "r \<in> set (rows_of s)" and "\<And>r'. advances r r' \<Longrightarrow> r' = r"
  shows "r \<in> set (rows_of (fold perform ops s))"
  using history_row[OF assms(1,2), of ops] assms(3) by blast

end

section \<open>The journal is such a log\<close>

definition entry_ok :: "journal_entry \<Rightarrow> bool" where
  "entry_ok e \<longleftrightarrow> journal_object e \<and> (active_entry e \<or> terminal_command (je_status e))"

definition journal_ok :: "journal_db \<Rightarrow> bool" where
  "journal_ok d \<longleftrightarrow>
     (\<forall>r \<in> set (jd_rows d). entry_ok (jr_entry r)) \<and>
     distinct (map (\<lambda>r. je_command_id (jr_entry r)) (jd_rows d)) \<and>
     distinct (map (\<lambda>r. je_idempotency_key (jr_entry r)) (jd_rows d))"

text \<open>
  An entry keeps its identity and its fingerprint; it goes from accepted to running, and from
  either to a terminal status; a terminal entry never changes.
\<close>

definition row_advances :: "journal_row \<Rightarrow> journal_row \<Rightarrow> bool" where
  "row_advances r r' \<longleftrightarrow> r' = r \<or>
     jr_fingerprint r' = jr_fingerprint r \<and>
     je_command_id (jr_entry r') = je_command_id (jr_entry r) \<and>
     je_idempotency_key (jr_entry r') = je_idempotency_key (jr_entry r) \<and>
     je_command_type (jr_entry r') = je_command_type (jr_entry r) \<and>
     je_bench_id (jr_entry r') = je_bench_id (jr_entry r) \<and>
     je_received_at (jr_entry r') = je_received_at (jr_entry r) \<and>
     (je_status (jr_entry r) = RcAccepted \<and> je_status (jr_entry r') = RcRunning \<or>
      active_entry (jr_entry r) \<and> terminal_command (je_status (jr_entry r')))"

lemma row_advances_refl [simp]: "row_advances r r"
  by (simp add: row_advances_def)

lemma row_advances_trans: "row_advances r r' \<Longrightarrow> row_advances r' r'' \<Longrightarrow> row_advances r r''"
  unfolding row_advances_def active_entry_def by (elim disjE conjE) auto

lemma row_advances_terminal:
  "terminal_command (je_status (jr_entry r)) \<Longrightarrow> row_advances r r' \<Longrightarrow> r' = r"
  by (auto simp: row_advances_def active_entry_def)

lemma row_advances_identity:
  "row_advances r r' \<Longrightarrow> je_command_id (jr_entry r') = je_command_id (jr_entry r) \<and>
     je_idempotency_key (jr_entry r') = je_idempotency_key (jr_entry r)"
  by (auto simp: row_advances_def)

definition journal_step :: "journal_db \<Rightarrow> journal_db \<Rightarrow> bool" where
  "journal_step d d' \<longleftrightarrow> journal_ok d' \<and>
     (\<exists>ys zs. jd_rows d' = ys @ zs \<and> list_all2 row_advances (jd_rows d) ys)"

lemma journal_step_refl [simp]: "journal_ok d \<Longrightarrow> journal_step d d"
  unfolding journal_step_def by (intro conjI exI[of _ "jd_rows d"] exI[of _ "[]"]) (auto intro: list.rel_refl)

lemma record_from_row_self: "journal_object (jr_entry r) \<Longrightarrow> record_from_row r = Inr r"
  by (simp add: record_from_row_def make_journal_entry_self)

lemma journal_okD:
  assumes "journal_ok d" and "r \<in> set (jd_rows d)"
  shows "journal_object (jr_entry r)" "record_from_row r = Inr r"
    "active_entry (jr_entry r) \<or> terminal_command (je_status (jr_entry r))"
  using assms record_from_row_self[of r] by (simp_all add: journal_ok_def entry_ok_def)

lemma journal_row_by_id:
  assumes "journal_ok d" and "r \<in> set (jd_rows d)" and "s \<in> set (jd_rows d)"
    and "je_command_id (jr_entry r) = je_command_id (jr_entry s)"
  shows "r = s"
  using assms distinct_map_eq[of "\<lambda>r. je_command_id (jr_entry r)" "jd_rows d" r s] by (simp add: journal_ok_def)

text \<open>Replacing the entry of one row.\<close>

definition put_entry :: "journal_row \<Rightarrow> journal_entry \<Rightarrow> journal_db \<Rightarrow> journal_db" where
  "put_entry r e d = d\<lparr>jd_rows := update_where (\<lambda>x. x = r) (\<lambda>x. x\<lparr>jr_entry := e\<rparr>) (jd_rows d)\<rparr>"

lemma put_entry_metadata [simp]: "jd_metadata (put_entry r e d) = jd_metadata d"
  by (simp add: put_entry_def)

lemma run_update_journal:
  assumes ok: "journal_ok d" and r: "r \<in> set (jd_rows d)" "je_command_id (jr_entry r) = cid" "P (jr_entry r)"
  shows "update_journal cid P f d = (Inr (), put_entry r (f (jr_entry r)) d)"
proof -
  have "update_where (\<lambda>x. je_command_id (jr_entry x) = cid \<and> P (jr_entry x)) (\<lambda>x. x\<lparr>jr_entry := f (jr_entry x)\<rparr>) (jd_rows d) =
      update_where (\<lambda>x. x = r) (\<lambda>x. x\<lparr>jr_entry := f (jr_entry r)\<rparr>) (jd_rows d)"
    unfolding update_where_def
  proof (rule map_cong[OF refl])
    fix x assume x: "x \<in> set (jd_rows d)"
    have "je_command_id (jr_entry x) = cid \<longleftrightarrow> x = r" using journal_row_by_id[OF ok x r(1)] r(2) by auto
    then show "(if je_command_id (jr_entry x) = cid \<and> P (jr_entry x) then x\<lparr>jr_entry := f (jr_entry x)\<rparr> else x) =
        (if x = r then x\<lparr>jr_entry := f (jr_entry r)\<rparr> else x)" using r(3) by auto
  qed
  then show ?thesis by (simp add: update_journal_def runM put_entry_def)
qed

lemma put_entry_step:
  assumes ok: "journal_ok d" and r: "r \<in> set (jd_rows d)" and e: "entry_ok e"
    and adv: "row_advances r (r\<lparr>jr_entry := e\<rparr>)"
  shows "journal_step d (put_entry r e d)"
proof -
  let ?rows = "update_where (\<lambda>x. x = r) (\<lambda>x. x\<lparr>jr_entry := e\<rparr>) (jd_rows d)"
  have id: "je_command_id e = je_command_id (jr_entry r)" "je_idempotency_key e = je_idempotency_key (jr_entry r)"
    using row_advances_identity[OF adv] by simp_all
  have "map (\<lambda>r. je_command_id (jr_entry r)) ?rows = map (\<lambda>r. je_command_id (jr_entry r)) (jd_rows d)"
    "map (\<lambda>r. je_idempotency_key (jr_entry r)) ?rows = map (\<lambda>r. je_idempotency_key (jr_entry r)) (jd_rows d)"
    using id by (auto intro: update_where_map)
  moreover have "\<forall>x \<in> set ?rows. entry_ok (jr_entry x)"
    using ok e by (auto simp: journal_ok_def set_update_where)
  ultimately have "journal_ok (put_entry r e d)"
    using ok by (simp add: journal_ok_def put_entry_def)
  moreover have "list_all2 row_advances (jd_rows d) ?rows"
    using adv by (auto simp: update_where_def list_all2_conv_all_nth)
  ultimately show ?thesis
    unfolding journal_step_def put_entry_def by (intro conjI exI[of _ ?rows] exI[of _ "[]"]) simp_all
qed


section \<open>Every operation is a step of the log\<close>

lemma run_journal_select_one:
  assumes "journal_ok d"
  shows "journal_select_one P d = (Inr (first_row (filter (\<lambda>r. P (jr_entry r)) (jd_rows d))), d)"
proof (cases "first_row (filter (\<lambda>r. P (jr_entry r)) (jd_rows d))")
  case None
  then show ?thesis by (simp add: journal_select_one_def select_journal_def runM)
next
  case (Some r)
  then have "r \<in> set (jd_rows d)" using first_row_Some[OF Some] by simp
  with Some show ?thesis
    by (simp add: journal_select_one_def select_journal_def runM journal_okD(2)[OF assms])
qed

lemma run_require_record:
  assumes ok: "journal_ok d"
  obtains (absent) "require_record cid d = (Inl KeyError, d)"
    "\<forall>r \<in> set (jd_rows d). je_command_id (jr_entry r) \<noteq> cid"
  | (present) r where "require_record cid d = (Inr r, d)" "r \<in> set (jd_rows d)" "je_command_id (jr_entry r) = cid"
proof (cases "first_row (filter (\<lambda>r. je_command_id (jr_entry r) = cid) (jd_rows d))")
  case None
  then show thesis
    using absent by (simp add: require_record_def journal_get_def runM run_journal_select_one[OF ok] filter_empty_conv)
next
  case (Some r)
  then show thesis
    using present[of r] first_row_Some[OF Some]
    by (simp add: require_record_def journal_get_def runM run_journal_select_one[OF ok])
qed

lemma make_journal_entry_fields:
  assumes "make_journal_entry e = Inr e'"
  shows "je_command_id e' = je_command_id e" "je_idempotency_key e' = trim (je_idempotency_key e)"
    "je_command_type e' = je_command_type e" "je_bench_id e' = trim (je_bench_id e)" "je_status e' = je_status e"
    "je_received_at e' = je_received_at e" "je_started_at e' = je_started_at e"
    "je_completed_at e' = je_completed_at e" "je_result e' = je_result e"
    "je_error_code e' = map_option trim (je_error_code e)" "je_error_message e' = map_option trim (je_error_message e)"
  using assms by (auto simp: make_journal_entry_def strip_journal_entry_def Let_def split: if_splits)

lemma journal_object_trimmed:
  assumes "journal_object e"
  shows "trim (je_idempotency_key e) = je_idempotency_key e" "trim (je_bench_id e) = je_bench_id e"
    "map_option trim (je_error_code e) = je_error_code e" "map_option trim (je_error_message e) = je_error_message e"
proof -
  have "strip_journal_entry e = e" using assms by (simp add: journal_object_def)
  then have "je_idempotency_key (strip_journal_entry e) = je_idempotency_key e"
    "je_bench_id (strip_journal_entry e) = je_bench_id e"
    "je_error_code (strip_journal_entry e) = je_error_code e"
    "je_error_message (strip_journal_entry e) = je_error_message e" by simp_all
  then show "trim (je_idempotency_key e) = je_idempotency_key e" "trim (je_bench_id e) = je_bench_id e"
    "map_option trim (je_error_code e) = je_error_code e" "map_option trim (je_error_message e) = je_error_message e"
    by (simp_all add: strip_journal_entry_def)
qed

lemma journal_step_trans:
  assumes "journal_step d d'" and "journal_step d' d''"
  shows "journal_step d d''"
proof -
  obtain ys zs where y: "jd_rows d' = ys @ zs" "list_all2 row_advances (jd_rows d) ys"
    using assms(1) unfolding journal_step_def by blast
  obtain us vs where u: "jd_rows d'' = us @ vs" "list_all2 row_advances (ys @ zs) us"
    using assms(2) y(1) unfolding journal_step_def by auto
  obtain us1 us2 where split: "us = us1 @ us2" "list_all2 row_advances ys us1"
    using u(2) by (auto simp: list_all2_append1)
  have "list_all2 row_advances (jd_rows d) us1"
    by (rule list_all2_trans[OF _ y(2) split(2)]) (rule row_advances_trans)
  then show ?thesis
    using assms(2) u(1) split(1) unfolding journal_step_def by auto
qed

lemma wp_mark_running:
  assumes ok: "journal_ok d"
  shows "wp (mark_running cid t)
     (\<lambda>r d'. journal_step d d' \<and> jd_metadata d' = jd_metadata d \<and> je_command_id (jr_entry r) = cid \<and> r \<in> set (jd_rows d') \<and>
        je_status (jr_entry r) \<noteq> RcAccepted)
     (\<lambda>_ d'. d' = d) d"
proof (cases rule: run_require_record[OF ok, of cid])
  case absent: 1
  then show ?thesis by (simp add: wp_def mark_running_def runM)
next
  case present: (2 r)
  let ?e = "(jr_entry r)\<lparr>je_status := RcRunning, je_started_at := Some t\<rparr>"
  show ?thesis
  proof (cases "je_status (jr_entry r) = RcAccepted")
    case False
    then show ?thesis using present ok by (simp add: wp_def mark_running_def runM)
  next
    case True
    show ?thesis
    proof (cases "make_journal_entry ?e")
      case (Inl x)
      then show ?thesis using present True by (simp add: wp_def mark_running_def runM)
    next
      case (Inr e')
      note f = make_journal_entry_fields[OF Inr]
      note trimmed = journal_object_trimmed[OF journal_okD(1)[OF ok present(2)]]
      have same: "(jr_entry r)\<lparr>je_status := RcRunning, je_started_at := Some t\<rparr> = e'"
        by (rule journal_entry.equality) (simp_all add: f trimmed)
      have upd: "update_journal cid (\<lambda>e. je_status e = RcAccepted)
          (\<lambda>e. e\<lparr>je_status := RcRunning, je_started_at := Some t\<rparr>) d = (Inr (), put_entry r e' d)"
        using run_update_journal[OF ok present(2,3), of "\<lambda>e. je_status e = RcAccepted"] True same by simp
      have "entry_ok e'"
        using make_journal_entry_object[OF Inr] f by (simp add: entry_ok_def active_entry_def)
      moreover have "row_advances r (r\<lparr>jr_entry := e'\<rparr>)"
        using True f trimmed by (simp add: row_advances_def)
      ultimately have "journal_step d (put_entry r e' d)" by (rule put_entry_step[OF ok present(2)])
      moreover have "r\<lparr>jr_entry := e'\<rparr> = \<lparr>jr_entry = e', jr_fingerprint = jr_fingerprint r\<rparr>" by (cases r) simp
      then have "\<lparr>jr_entry = e', jr_fingerprint = jr_fingerprint r\<rparr> \<in> set (jd_rows (put_entry r e' d))"
        using present(2) by (force simp: put_entry_def set_update_where)
      ultimately show ?thesis
        using present True Inr upd f by (simp add: wp_def mark_running_def runM)
    qed
  qed
qed

lemma wp_journal_complete:
  assumes ok: "journal_ok d"
  shows "wp (journal_complete cid st t res code msg)
     (\<lambda>r d'. journal_step d d' \<and> jd_metadata d' = jd_metadata d \<and> je_command_id (jr_entry r) = cid \<and> r \<in> set (jd_rows d') \<and>
        terminal_command (je_status (jr_entry r)))
     (\<lambda>_ d'. d' = d) d"
proof (cases "terminal_command st")
  case False
  then show ?thesis by (simp add: wp_def journal_complete_def runM)
next
  case st: True
  show ?thesis
  proof (cases rule: run_require_record[OF ok, of cid])
    case absent: 1
    then show ?thesis by (simp add: wp_def journal_complete_def runM)
  next
    case present: (2 r)
    let ?e = "(jr_entry r)\<lparr>je_status := st, je_completed_at := Some t, je_result := res, je_error_code := code,
        je_error_message := msg\<rparr>"
    show ?thesis
    proof (cases "terminal_command (je_status (jr_entry r))")
      case True
      then show ?thesis using present ok st by (simp add: wp_def journal_complete_def runM Let_def)
    next
      case False
      then have act: "active_entry (jr_entry r)" using journal_okD(3)[OF ok present(2)] by simp
      then have act': "\<not> (je_status (jr_entry r) \<noteq> RcAccepted \<and> je_status (jr_entry r) \<noteq> RcRunning)"
        by (simp add: active_entry_def)
      show ?thesis
      proof (cases "make_journal_entry ?e")
        case (Inl x)
        then show ?thesis using present False act' st by (simp add: wp_def journal_complete_def runM Let_def)
      next
        case (Inr e')
        note f = make_journal_entry_fields[OF Inr]
        note trimmed = journal_object_trimmed[OF journal_okD(1)[OF ok present(2)]]
        let ?f = "\<lambda>e. e\<lparr>je_status := je_status e', je_completed_at := je_completed_at e', je_result := je_result e',
            je_error_code := je_error_code e', je_error_message := je_error_message e'\<rparr>"
        have same: "?f (jr_entry r) = e'"
          by (rule journal_entry.equality) (simp_all add: f trimmed)
        have upd: "update_journal cid (\<lambda>_. True) ?f d = (Inr (), put_entry r e' d)"
          using run_update_journal[OF ok present(2,3), of "\<lambda>_. True" ?f] same by simp
        have "entry_ok e'"
          using make_journal_entry_object[OF Inr] f st by (simp add: entry_ok_def)
        moreover have "row_advances r (r\<lparr>jr_entry := e'\<rparr>)"
          using act f trimmed st by (simp add: row_advances_def)
        ultimately have "journal_step d (put_entry r e' d)" by (rule put_entry_step[OF ok present(2)])
        moreover have "r\<lparr>jr_entry := e'\<rparr> = \<lparr>jr_entry = e', jr_fingerprint = jr_fingerprint r\<rparr>" by (cases r) simp
        then have "\<lparr>jr_entry = e', jr_fingerprint = jr_fingerprint r\<rparr> \<in> set (jd_rows (put_entry r e' d))"
          using present(2) by (force simp: put_entry_def set_update_where)
        ultimately show ?thesis
          using present False act' st Inr upd f(1,5)
          unfolding wp_def journal_complete_def by (simp add: runM Let_def)
      qed
    qed
  qed
qed


text \<open>
  Finding: at most one row has the identifier or the key of the request; it is replayed when its
  fingerprint is the request's, and a conflict of any kind is an error.
\<close>

definition request_rows :: "command_request \<Rightarrow> journal_db \<Rightarrow> journal_row list" where
  "request_rows q d = filter (\<lambda>r. je_command_id (jr_entry r) = rc_id (cq_command q) \<or>
     je_idempotency_key (jr_entry r) = rc_idempotency_key (cq_command q)) (jd_rows d)"

lemma run_journal_find:
  assumes ok: "journal_ok d"
  shows "journal_find q fp d =
    (case request_rows q d of
       [] \<Rightarrow> (Inr None, d)
     | [r] \<Rightarrow>
         (if jr_fingerprint r \<noteq> fp \<or> je_idempotency_key (jr_entry r) \<noteq> rc_idempotency_key (cq_command q)
          then (Inl RemoteCommandDuplicateError, d) else (Inr (Some r), d))
     | _ \<Rightarrow> (Inl RemoteCommandDuplicateError, d))"
proof -
  have "record_from_row r = Inr r" "je_command_id (jr_entry r) = rc_id (cq_command q) \<or>
      je_idempotency_key (jr_entry r) = rc_idempotency_key (cq_command q)" if "request_rows q d = [r]" for r
  proof -
    have "r \<in> set (request_rows q d)" using that by simp
    then show "record_from_row r = Inr r" "je_command_id (jr_entry r) = rc_id (cq_command q) \<or>
      je_idempotency_key (jr_entry r) = rc_idempotency_key (cq_command q)"
      using journal_okD(2)[OF ok] by (auto simp: request_rows_def)
  qed
  then show ?thesis
    by (auto simp: journal_find_def select_journal_def runM Let_def request_rows_def[symmetric] split: list.splits)
qed

text \<open>A journal entry accepted for a request that came as a value of the model.\<close>

definition request_object :: "command_request \<Rightarrow> bool" where
  "request_object q \<longleftrightarrow> trim (rc_idempotency_key (cq_command q)) = rc_idempotency_key (cq_command q) \<and>
     trim (rc_bench_id (cq_command q)) = rc_bench_id (cq_command q)"

lemma wp_create_or_replay:
  assumes ok: "journal_ok d" and q: "request_object q"
  shows "wp (create_or_replay dg q t)
     (\<lambda>x d'. journal_step d d' \<and> jd_metadata d' = jd_metadata d \<and>
        jr_fingerprint (fst x) = command_fingerprint dg q \<and>
        je_idempotency_key (jr_entry (fst x)) = rc_idempotency_key (cq_command q) \<and>
        fst x \<in> set (jd_rows d') \<and>
        (snd x \<longleftrightarrow> request_rows q d = []) \<and>
        (if snd x then jd_rows d' = jd_rows d @ [fst x] \<and> jr_entry (fst x) = accepted_entry q t else d' = d))
     (\<lambda>_ d'. d' = d) d"
proof -
  let ?fp = "command_fingerprint dg q"
  consider (none) "request_rows q d = []" | (one) r where "request_rows q d = [r]"
    | (many) r s rs where "request_rows q d = r # s # rs" by (metis list.exhaust)
  then show ?thesis
  proof cases
    case none
    show ?thesis
    proof (cases "make_journal_entry (accepted_entry q t)")
      case (Inl x)
      then show ?thesis
        using none by (simp add: wp_def create_or_replay_def runM Let_def run_journal_find[OF ok])
    next
      case (Inr e)
      note f = make_journal_entry_fields[OF Inr]
      have e: "e = accepted_entry q t"
        by (rule journal_entry.equality) (use f q in \<open>simp_all add: accepted_entry_def Let_def request_object_def\<close>)
      let ?row = "\<lparr>jr_entry = e, jr_fingerprint = ?fp\<rparr>"
      have new: "\<forall>r \<in> set (jd_rows d). je_command_id (jr_entry r) \<noteq> rc_id (cq_command q) \<and>
          je_idempotency_key (jr_entry r) \<noteq> rc_idempotency_key (cq_command q)"
        using none by (auto simp: request_rows_def filter_empty_conv)
      have id: "je_command_id e = rc_id (cq_command q)" "je_idempotency_key e = rc_idempotency_key (cq_command q)"
        "je_status e = RcAccepted" by (simp_all add: e accepted_entry_def Let_def)
      have ins: "insert_journal_row ?row d = (Inr (), d\<lparr>jd_rows := jd_rows d @ [?row]\<rparr>)"
        using new id by (auto simp: insert_journal_row_def)
      have "entry_ok e"
        using make_journal_entry_object[OF Inr] id by (simp add: entry_ok_def active_entry_def)
      then have "journal_ok (d\<lparr>jd_rows := jd_rows d @ [?row]\<rparr>)"
        using ok new id by (auto simp: journal_ok_def)
      then have "journal_step d (d\<lparr>jd_rows := jd_rows d @ [?row]\<rparr>)"
        unfolding journal_step_def
        by (intro conjI exI[of _ "jd_rows d"] exI[of _ "[?row]"]) (auto intro: list.rel_refl)
      then show ?thesis
        using none Inr ins id e by (simp add: wp_def create_or_replay_def runM Let_def run_journal_find[OF ok])
    qed
  next
    case (one r)
    then have "r \<in> set (request_rows q d)" by simp
    then have "r \<in> set (jd_rows d)" by (simp add: request_rows_def)
    with one ok show ?thesis
      by (simp add: wp_def create_or_replay_def runM Let_def run_journal_find[OF ok])
  next
    case many
    then show ?thesis
      by (simp add: wp_def create_or_replay_def runM Let_def run_journal_find[OF ok])
  qed
qed

lemma interrupted_entry_ok:
  assumes e: "journal_object e" and act: "active_entry e"
  shows "journal_object (interrupted_entry t e)"
proof -
  let ?msg = "''Agent process restarted before command execution completed.''"
  have msg: "trim ?msg = ?msg" by (rule trim_id) (simp_all add: unicode_space_def)
  have code: "trim ''AGENT_RESTARTED_DURING_OPERATION'' = ''AGENT_RESTARTED_DURING_OPERATION''"
    by (rule trim_id) (simp_all add: unicode_space_def)
  have "je_completed_at e = None"
    using e act by (auto simp: journal_object_def journal_entry_valid_def active_entry_def)
  then show ?thesis
    using e journal_object_trimmed[OF e] msg code
    by (cases "je_started_at e")
      (auto simp: journal_object_def interrupted_entry_def strip_journal_entry_def journal_entry_valid_def
        optional_sized_def)
qed

definition interrupted_row :: "time \<Rightarrow> journal_row \<Rightarrow> journal_row" where
  "interrupted_row t r = r\<lparr>jr_entry := interrupted_entry t (jr_entry r)\<rparr>"

lemma interrupted_row_alt: "\<lparr>jr_entry = interrupted_entry t (jr_entry r), jr_fingerprint = jr_fingerprint r\<rparr> = interrupted_row t r"
  by (cases r) (simp add: interrupted_row_def)

lemma run_interrupt_row:
  assumes ok: "journal_ok d" and r: "r \<in> set (jd_rows d)" "active_entry (jr_entry r)"
  shows "interrupt_row t r acc d = (Inr (acc @ [interrupted_row t r]), put_entry r (interrupted_entry t (jr_entry r)) d)"
    and "journal_step d (put_entry r (interrupted_entry t (jr_entry r)) d)"
proof -
  let ?e = "interrupted_entry t (jr_entry r)"
  note obj = interrupted_entry_ok[OF journal_okD(1)[OF ok r(1)] r(2), of t]
  have "(jr_entry r)\<lparr>je_status := je_status ?e, je_completed_at := je_completed_at ?e, je_result := None,
      je_error_code := je_error_code ?e, je_error_message := je_error_message ?e\<rparr> = ?e"
    by (simp add: interrupted_entry_def)
  moreover have "je_command_id ?e = je_command_id (jr_entry r)" by (simp add: interrupted_entry_def)
  ultimately show "interrupt_row t r acc d = (Inr (acc @ [interrupted_row t r]), put_entry r ?e d)"
    using run_update_journal[OF ok r(1) refl, of active_entry] r(2)
    by (simp add: interrupt_row_def runM journal_okD(2)[OF ok r(1)] make_journal_entry_self[OF obj] interrupted_row_alt)
  have "entry_ok ?e" using obj by (simp add: entry_ok_def) (simp add: interrupted_entry_def)
  moreover have "row_advances r (r\<lparr>jr_entry := ?e\<rparr>)" using r(2) by (simp add: row_advances_def interrupted_entry_def)
  ultimately show "journal_step d (put_entry r ?e d)" by (rule put_entry_step[OF ok r(1)])
qed

lemma run_interrupt_rows:
  assumes "journal_ok d" and "set rows \<subseteq> set (jd_rows d)" and "distinct rows" and "\<forall>r \<in> set rows. active_entry (jr_entry r)"
  shows "foldM (interrupt_row t) rows acc d = (Inr (acc @ map (interrupted_row t) rows),
      d\<lparr>jd_rows := update_where (\<lambda>r. r \<in> set rows) (interrupted_row t) (jd_rows d)\<rparr>) \<and>
    journal_step d (d\<lparr>jd_rows := update_where (\<lambda>r. r \<in> set rows) (interrupted_row t) (jd_rows d)\<rparr>)"
  using assms
proof (induction rows arbitrary: d acc)
  case Nil
  then show ?case by (simp add: runM update_where_def)
next
  case (Cons r rows)
  let ?d = "put_entry r (interrupted_entry t (jr_entry r)) d"
  have r: "r \<in> set (jd_rows d)" "active_entry (jr_entry r)" using Cons.prems by auto
  note step = run_interrupt_row[OF Cons.prems(1) r, of t]
  have new: "interrupted_row t r \<notin> set rows"
  proof
    assume "interrupted_row t r \<in> set rows"
    then have "active_entry (jr_entry (interrupted_row t r))" using Cons.prems(4) by simp
    then show False by (simp add: interrupted_row_def interrupted_entry_def active_entry_def)
  qed
  have sub: "set rows \<subseteq> set (jd_rows ?d)"
    using Cons.prems(2,3) by (force simp: put_entry_def set_update_where)
  have ok: "journal_ok ?d" using step(2) by (simp add: journal_step_def)
  have act: "\<forall>r \<in> set rows. active_entry (jr_entry r)" using Cons.prems(4) by simp
  have dist: "distinct rows" using Cons.prems(3) by simp
  have rows: "update_where (\<lambda>r. r \<in> set rows) (interrupted_row t) (jd_rows ?d) =
      update_where (\<lambda>x. x \<in> set (r # rows)) (interrupted_row t) (jd_rows d)"
    using new Cons.prems(3) by (auto simp: put_entry_def update_where_def interrupted_row_def)
  note ih = Cons.IH[OF ok sub dist act, of "acc @ [interrupted_row t r]"]
  have eq: "?d\<lparr>jd_rows := update_where (\<lambda>r. r \<in> set rows) (interrupted_row t) (jd_rows ?d)\<rparr> =
      d\<lparr>jd_rows := update_where (\<lambda>x. x \<in> set (r # rows)) (interrupted_row t) (jd_rows d)\<rparr>"
    unfolding rows by (simp add: put_entry_def)
  show ?case
    using ih step unfolding eq by (simp add: runM journal_step_trans[OF step(2)])
qed


lemma journal_step_cong: "jd_rows e = jd_rows d' \<Longrightarrow> journal_step d d' \<Longrightarrow> journal_step d e"
  by (simp add: journal_step_def journal_ok_def)

lemma run_recover_interrupted:
  assumes ok: "journal_ok d"
  obtains (same_boot) "map_of (jd_metadata d) boot_marker_key = Some boot" "recover_interrupted boot t d = (Inr [], d)"
  | (new_boot) out d' where "map_of (jd_metadata d) boot_marker_key \<noteq> Some boot"
      "recover_interrupted boot t d = (Inr out, d')" "journal_step d d'"
      "map_of (jd_metadata d') boot_marker_key = Some boot"
      "jd_rows d' = map (\<lambda>r. if active_entry (jr_entry r) then interrupted_row t r else r) (jd_rows d)"
      "set out = interrupted_row t ` {r \<in> set (jd_rows d). active_entry (jr_entry r)}"
proof (cases "map_of (jd_metadata d) boot_marker_key = Some boot")
  case True
  then show thesis using same_boot by (simp add: recover_interrupted_def runM)
next
  case False
  let ?rows = "order_by (\<lambda>r. (je_received_at (jr_entry r), je_command_id (jr_entry r)))
     (filter (\<lambda>r. active_entry (jr_entry r)) (jd_rows d))"
  let ?d = "d\<lparr>jd_rows := update_where (\<lambda>r. r \<in> set ?rows) (interrupted_row t) (jd_rows d)\<rparr>"
  let ?d' = "?d\<lparr>jd_metadata := dict_set boot_marker_key boot (jd_metadata d)\<rparr>"
  have "distinct (jd_rows d)" using ok by (auto simp: journal_ok_def distinct_map)
  then have "set ?rows \<subseteq> set (jd_rows d)" "distinct ?rows" "\<forall>r \<in> set ?rows. active_entry (jr_entry r)"
    by simp_all
  note all = run_interrupt_rows[OF ok this, of t "[]", unfolded append_Nil]
  note run = all[THEN conjunct1] all[THEN conjunct2]
  show thesis
  proof (rule new_boot[OF False, of "map (interrupted_row t) ?rows" ?d'])
    show "recover_interrupted boot t d = (Inr (map (interrupted_row t) ?rows), ?d')"
      using False run(1) by (simp add: recover_interrupted_def runM)
    show "journal_step d ?d'" by (rule journal_step_cong[OF _ run(2)]) simp
    show "jd_rows ?d' = map (\<lambda>r. if active_entry (jr_entry r) then interrupted_row t r else r) (jd_rows d)"
      by (auto simp: update_where_def)
  qed (auto simp: dict_set_map_of)
qed

datatype journal_op =
    JournalCreate command_request time
  | JournalRun uuid time
  | JournalComplete uuid remote_command_status time "payload option" "string option" "string option"
  | JournalRecover uuid time

fun journal_perform :: "digests \<Rightarrow> journal_op \<Rightarrow> journal_db \<Rightarrow> journal_db" where
  "journal_perform dg (JournalCreate q t) d = (if request_object q then snd (create_or_replay dg q t d) else d)"
| "journal_perform dg (JournalRun cid t) d = snd (mark_running cid t d)"
| "journal_perform dg (JournalComplete cid st t res code msg) d = snd (journal_complete cid st t res code msg d)"
| "journal_perform dg (JournalRecover boot t) d = snd (recover_interrupted boot t d)"

lemma journal_perform_step:
  assumes ok: "journal_ok d"
  shows "journal_step d (journal_perform dg op d)"
proof (cases op)
  case (JournalCreate q t)
  show ?thesis
  proof (cases "request_object q")
    case True
    have "wp (create_or_replay dg q t) (\<lambda>_ d'. journal_step d d') (\<lambda>_ d'. journal_step d d') d"
      by (rule wp_mono[OF wp_create_or_replay[OF ok True]]) (use ok in simp_all)
    from wp_step[OF this] JournalCreate True show ?thesis by simp
  qed (use JournalCreate ok in simp)
next
  case (JournalRun cid t)
  have "wp (mark_running cid t) (\<lambda>_ d'. journal_step d d') (\<lambda>_ d'. journal_step d d') d"
    by (rule wp_mono[OF wp_mark_running[OF ok]]) (use ok in simp_all)
  from wp_step[OF this] JournalRun show ?thesis by simp
next
  case (JournalComplete cid st t res code msg)
  have "wp (journal_complete cid st t res code msg) (\<lambda>_ d'. journal_step d d') (\<lambda>_ d'. journal_step d d') d"
    by (rule wp_mono[OF wp_journal_complete[OF ok]]) (use ok in simp_all)
  from wp_step[OF this] JournalComplete show ?thesis by simp
next
  case (JournalRecover boot t)
  then show ?thesis by (cases rule: run_recover_interrupted[OF ok, of boot t]) (use ok in simp_all)
qed

interpretation journal: growing_log jd_rows "journal_perform dg" journal_ok row_advances for dg
proof unfold_locales
  fix d op
  assume ok: "journal_ok d"
  show "journal_ok (journal_perform dg op d)"
    using journal_perform_step[OF ok] by (simp add: journal_step_def)
  show "\<exists>ys zs. jd_rows (journal_perform dg op d) = ys @ zs \<and> list_all2 row_advances (jd_rows d) ys"
    using journal_perform_step[OF ok, of dg op] unfolding journal_step_def by blast
qed (auto intro: row_advances_trans)

section \<open>Properties\<close>

lemma empty_journal_ok [simp]: "journal_ok empty_journal"
  by (simp add: empty_journal_def journal_ok_def)

definition reset_command :: "uuid \<Rightarrow> string \<Rightarrow> remote_command" where
  "reset_command i key = \<lparr>rc_id = i, rc_organisation_id = LEGACY_ORGANISATION_ID, rc_agent_id = ''a'',
     rc_bench_id = ''lab'', rc_command_type = Reset, rc_payload = [], rc_status = RcDispatched,
     rc_created_at = 0, rc_dispatched_at = Some 1, rc_acknowledged_at = None, rc_started_at = None,
     rc_completed_at = None, rc_expires_at = 100, rc_idempotency_key = key, rc_attempt_count = 1,
     rc_operation_id = None, rc_reservation_id = None, rc_lease_version = None, rc_error_code = None,
     rc_error_message = None, rc_actor_context = None, rc_authorisation_snapshot_id = None\<rparr>"

definition reset_request :: "uuid \<Rightarrow> command_request" where
  "reset_request i = \<lparr>cq_command = reset_command i ''k'', cq_reservation_lease = None\<rparr>"

definition plain_digests :: digests where
  "plain_digests = \<lparr>dg_sha256 = (\<lambda>s. s), dg_dump_lease = (\<lambda>_. JNull)\<rparr>"

lemma reset_request_object [simp]: "request_object (reset_request i)"
  by (simp add: request_object_def reset_request_def reset_command_def trim_def strip_with_def unicode_space_def)

lemma create_sample:
  "create_or_replay plain_digests (reset_request ''c'') 5 empty_journal =
     (Inr (\<lparr>jr_entry = accepted_entry (reset_request ''c'') 5,
        jr_fingerprint = command_fingerprint plain_digests (reset_request ''c'')\<rparr>, True),
      snd (create_or_replay plain_digests (reset_request ''c'') 5 empty_journal))"
proof -
  have "make_journal_entry (accepted_entry (reset_request ''c'') 5) = Inr (accepted_entry (reset_request ''c'') 5)"
    by (rule make_journal_entry_self)
      (simp add: journal_object_def strip_journal_entry_def journal_entry_valid_def accepted_entry_def
        reset_request_def reset_command_def sized_def optional_sized_def trim_def strip_with_def unicode_space_def)
  then show ?thesis
    by (simp add: create_or_replay_def runM Let_def run_journal_find request_rows_def insert_journal_row_def
        empty_journal_def journal_ok_def)
qed

text \<open>
  C6: a command is accepted for execution at most once. Once a request has created its entry, no
  sequence of later journal operations (retries, completions, restarts) lets a request with the same
  command identifier or the same idempotency key create one again: it is replayed or refused.
\<close>

theorem command_is_accepted_once:
  assumes ok: "journal_ok d" and q: "request_object q" and created: "create_or_replay dg q t d = (Inr (r, True), d')"
    and q': "request_object q'"
    and same: "rc_id (cq_command q') = rc_id (cq_command q) \<or>
      rc_idempotency_key (cq_command q') = rc_idempotency_key (cq_command q)"
  shows "fst (create_or_replay dg q' t' (fold (journal_perform dg) ops d')) \<noteq> Inr (r', True)"
proof
  assume again: "fst (create_or_replay dg q' t' (fold (journal_perform dg) ops d')) = Inr (r', True)"
  have r: "r \<in> set (jd_rows d')" "jr_entry r = accepted_entry q t" "journal_ok d'"
    using wp_Inr[OF wp_create_or_replay[OF ok q] created] by (simp_all add: journal_step_def)
  obtain s where s: "s \<in> set (jd_rows (fold (journal_perform dg) ops d'))" "row_advances r s"
    using journal.history_row[OF r(3,1), of dg ops] by blast
  have "je_command_id (jr_entry s) = rc_id (cq_command q)" "je_idempotency_key (jr_entry s) = rc_idempotency_key (cq_command q)"
    using row_advances_identity[OF s(2)] r(2) by (simp_all add: accepted_entry_def Let_def)
  then have "s \<in> set (request_rows q' (fold (journal_perform dg) ops d'))"
    using s(1) same by (auto simp: request_rows_def)
  moreover have "request_rows q' (fold (journal_perform dg) ops d') = []"
    using wp_Inr[OF wp_create_or_replay[OF journal.history_invar[OF r(3)] q'], of dg t' dg ops "(r', True)"] again
    by (cases "create_or_replay dg q' t' (fold (journal_perform dg) ops d')") auto
  ultimately show False by simp
qed

theorem command_is_accepted_once_witness:
  "fst (create_or_replay plain_digests (reset_request ''e'') 9 (fold (journal_perform plain_digests)
      [JournalRun ''c'' 6, JournalRecover ''boot'' 7]
      (snd (create_or_replay plain_digests (reset_request ''c'') 5 empty_journal)))) \<noteq>
   Inr (\<lparr>jr_entry = accepted_entry (reset_request ''e'') 9, jr_fingerprint = []\<rparr>, True)"
  by (rule command_is_accepted_once[OF empty_journal_ok reset_request_object create_sample reset_request_object])
    (simp add: reset_request_def reset_command_def)


text \<open>
  The outcome of a command is final: once its entry is terminal it is in the journal unchanged
  after any history of operations, and completing the command again, with whatever outcome,
  answers with that entry and changes nothing.
\<close>

theorem terminal_outcome_is_final:
  assumes ok: "journal_ok d" and r: "r \<in> set (jd_rows d)" "terminal_command (je_status (jr_entry r))"
    and st: "terminal_command st"
  shows "r \<in> set (jd_rows (fold (journal_perform dg) ops d)) \<and>
    journal_complete (je_command_id (jr_entry r)) st t result code msg (fold (journal_perform dg) ops d) =
      (Inr r, fold (journal_perform dg) ops d)"
proof -
  let ?d = "fold (journal_perform dg) ops d"
  have ok': "journal_ok ?d" by (rule journal.history_invar[OF ok])
  have stays: "r \<in> set (jd_rows ?d)"
    by (rule journal.final_row_stays[OF ok r(1)]) (rule row_advances_terminal[OF r(2)])
  have "journal_complete (je_command_id (jr_entry r)) st t result code msg ?d = (Inr r, ?d)"
  proof (cases rule: run_require_record[OF ok', of "je_command_id (jr_entry r)"])
    case 1
    with stays show ?thesis by blast
  next
    case (2 x)
    then have "x = r" using journal_row_by_id[OF ok' 2(2) stays] by simp
    with 2 r(2) st show ?thesis by (simp add: journal_complete_def runM Let_def)
  qed
  with stays show ?thesis by simp
qed

definition cancelled_command :: journal_row where
  "cancelled_command = \<lparr>jr_entry = (accepted_entry (reset_request ''c'') 5)\<lparr>je_status := RcCancelled, je_completed_at := Some 6\<rparr>,
     jr_fingerprint = ''f''\<rparr>"

lemma cancelled_journal_ok: "journal_ok (empty_journal\<lparr>jd_rows := [cancelled_command]\<rparr>)"
  by (simp add: journal_ok_def entry_ok_def cancelled_command_def journal_object_def strip_journal_entry_def
      journal_entry_valid_def accepted_entry_def reset_request_def reset_command_def sized_def optional_sized_def
      trim_def strip_with_def unicode_space_def)

theorem terminal_outcome_is_final_witness:
  "fst (journal_complete ''c'' RcSucceeded 9 None None None (fold (journal_perform plain_digests)
     [JournalRun ''c'' 7, JournalRecover ''boot'' 8] (empty_journal\<lparr>jd_rows := [cancelled_command]\<rparr>))) = Inr cancelled_command"
proof -
  have row: "cancelled_command \<in> set (jd_rows (empty_journal\<lparr>jd_rows := [cancelled_command]\<rparr>))"
    "terminal_command (je_status (jr_entry cancelled_command))" "terminal_command RcSucceeded"
    by (simp_all add: cancelled_command_def)
  have id: "je_command_id (jr_entry cancelled_command) = ''c''"
    by (simp add: cancelled_command_def accepted_entry_def reset_request_def reset_command_def)
  show ?thesis
    using terminal_outcome_is_final[OF cancelled_journal_ok row, unfolded id, THEN conjunct2] by (simp only: fst_conv)
qed



lemma dict_set_twice: "dict_set k v (dict_set k u p) = dict_set k v p"
proof (cases "k \<in> fst ` set p")
  case True
  then have "k \<in> fst ` set (map (\<lambda>(k', v'). if k' = k then (k, u) else (k', v')) p)" by force
  with True show ?thesis by (simp add: dict_set_def o_def split_beta cong: if_cong)
next
  case False
  then have "map (\<lambda>(k', v'). if k' = k then (k, v) else (k', v')) p = p"
    by (intro map_idI) force
  with False show ?thesis by (simp add: dict_set_def)
qed

text \<open>
  What only concerns the delivery of a command does not change its replay identity: two
  requests to flash whose artifact descriptors agree outside the fields of one download (transfer,
  address, token, expiry), at any status and attempt, have the same fingerprint.
\<close>

theorem fingerprint_ignores_delivery:
  assumes "rc_command_type c = Flash"
    and "filter (\<lambda>(k, v). k \<notin> set DELIVERY_FIELDS) kvs = filter (\<lambda>(k, v). k \<notin> set DELIVERY_FIELDS) kvs'"
  shows "command_fingerprint dg \<lparr>cq_command = c\<lparr>rc_payload := dict_set ''artifact'' (JObj kvs) p\<rparr>,
      cq_reservation_lease = l\<rparr> =
    command_fingerprint dg \<lparr>cq_command = c\<lparr>rc_payload := dict_set ''artifact'' (JObj kvs') p, rc_status := st,
      rc_dispatched_at := t, rc_attempt_count := n\<rparr>, cq_reservation_lease = l\<rparr>"
proof -
  show ?thesis
    using assms by (simp add: command_fingerprint_def execution_document_def durable_command_payload_def
        dict_set_map_of dict_set_twice Let_def)
qed

theorem fingerprint_ignores_delivery_witness:
  "command_fingerprint plain_digests \<lparr>cq_command = (reset_command ''c'' ''k'')\<lparr>rc_command_type := Flash, rc_payload :=
       [(''artifact'', JObj [(''sha256'', JStr ''0''), (''transfer_token'', JStr ''x'')])]\<rparr>, cq_reservation_lease = None\<rparr> =
   command_fingerprint plain_digests \<lparr>cq_command = (reset_command ''c'' ''k'')\<lparr>rc_command_type := Flash, rc_payload :=
       [(''artifact'', JObj [(''sha256'', JStr ''0''), (''transfer_token'', JStr ''y'')])], rc_status := RcUnknown,
       rc_dispatched_at := Some 2, rc_attempt_count := 2\<rparr>, cq_reservation_lease = None\<rparr>"
  using fingerprint_ignores_delivery[of "(reset_command ''c'' ''k'')\<lparr>rc_command_type := Flash\<rparr>"
      "[(''sha256'', JStr ''0''), (''transfer_token'', JStr ''x'')]"
      "[(''sha256'', JStr ''0''), (''transfer_token'', JStr ''y'')]" plain_digests "[]" None 2 "Some 2" RcUnknown]
  by (simp add: DELIVERY_FIELDS_def dict_set_def)

end
