(* ===== verification/EventBuffer.thy ===== *)
theory EventBuffer
  imports RemoteCommands "HOL-Library.Multiset"
begin

text \<open>
  The buffer of events an agent has not yet delivered to the control plane: the events, and the
  in-memory reference buffer (\<open>agent_runtime/event_buffer.py\<close>) with its invariant. A buffer holds at
  most \<open>capacity\<close> ordinary events and one marker that tells how many events were dropped. What the
  clock and the factory of identifiers return during a call is an argument of the call (\<open>draws\<close>).
\<close>

section \<open>Events\<close>

datatype event_priority = PrProgress | PrState | PrFailure | PrTerminal

fun priority_value :: "event_priority \<Rightarrow> int" where
  "priority_value PrProgress = 10"
| "priority_value PrState = 50"
| "priority_value PrFailure = 80"
| "priority_value PrTerminal = 100"

instantiation event_priority :: linorder
begin

definition less_eq_event_priority :: "event_priority \<Rightarrow> event_priority \<Rightarrow> bool" where
  "p \<le> q \<longleftrightarrow> priority_value p \<le> priority_value q"

definition less_event_priority :: "event_priority \<Rightarrow> event_priority \<Rightarrow> bool" where
  "p < q \<longleftrightarrow> priority_value p < priority_value q"

instance
proof
  fix p q :: event_priority
  show "p \<le> q \<Longrightarrow> q \<le> p \<Longrightarrow> p = q"
    by (cases p; cases q; simp add: less_eq_event_priority_def)
qed (auto simp: less_eq_event_priority_def less_event_priority_def)

end

record buffered_event =
  be_id :: uuid
  be_agent_id :: uuid
  be_sequence_number :: int
  be_event_type :: string
  be_payload :: payload
  be_priority :: event_priority
  be_created_at :: time

definition buffered_event_valid :: "buffered_event \<Rightarrow> bool" where
  "buffered_event_valid e \<longleftrightarrow> 1 \<le> be_sequence_number e \<and> sized 1 200 (be_event_type e) \<and>
     bounded_json_mapping 262144 (be_payload e)"

definition make_buffered_event :: "buffered_event \<Rightarrow> error + buffered_event" where
  "make_buffered_event e =
     (let e' = e\<lparr>be_event_type := trim (be_event_type e)\<rparr>
      in if buffered_event_valid e' then Inr e' else Inl ValueError)"

section \<open>What a call is given\<close>

record append_request =
  ar_event_type :: string
  ar_payload :: payload
  ar_priority :: event_priority
  ar_event_id :: "uuid option"
  ar_created_at :: "time option"
  ar_coalesce_key :: "string option"

record draws =
  dr_event_id :: uuid
  dr_created_at :: time
  dr_marker_id :: uuid
  dr_marker_at :: time

definition request_identifier :: "append_request \<Rightarrow> draws \<Rightarrow> uuid" where
  "request_identifier q dr = (case ar_event_id q of Some i \<Rightarrow> i | None \<Rightarrow> dr_event_id dr)"

definition requested_event :: "append_request \<Rightarrow> draws \<Rightarrow> uuid \<Rightarrow> int \<Rightarrow> buffered_event" where
  "requested_event q dr agent_id sequence =
     \<lparr>be_id = request_identifier q dr, be_agent_id = agent_id, be_sequence_number = sequence,
      be_event_type = ar_event_type q, be_payload = ar_payload q, be_priority = ar_priority q,
      be_created_at = (case ar_created_at q of Some t \<Rightarrow> t | None \<Rightarrow> dr_created_at dr)\<rparr>"

text \<open>
  \<open>str\<close> of a JSON value, which the key of a progress event contains; inside a list or a dictionary
  it is \<open>repr\<close>.
\<close>

definition repr_char :: "char \<Rightarrow> char \<Rightarrow> string" where
  "repr_char quote c = (let n = (of_char c :: nat) in
     if c = quote \<or> n = 92 then [CHR 0x5C, c]
     else if n = 9 then [CHR 0x5C, CHR ''t'']
     else if n = 10 then [CHR 0x5C, CHR ''n'']
     else if n = 13 then [CHR 0x5C, CHR ''r'']
     else if n < 32 \<or> 127 \<le> n \<and> n \<le> 160 \<or> n = 173
       then [CHR 0x5C, CHR ''x'', hex_digit (n div 16), hex_digit (n mod 16)]
     else [c])"

definition repr_string :: "string \<Rightarrow> string" where
  "repr_string s = (let quote = (if CHR 0x27 \<in> set s \<and> CHR 0x22 \<notin> set s then CHR 0x22 else CHR 0x27)
     in [quote] @ concat (map (repr_char quote) s) @ [quote])"

primrec py_repr :: "json \<Rightarrow> string" where
  "py_repr JNull = ''None''"
| "py_repr (JBool b) = (if b then ''True'' else ''False'')"
| "py_repr (JInt i) = int_text i"
| "py_repr (JStr s) = repr_string s"
| "py_repr (JTime t) = repr_string (iso_time t)"
| "py_repr (JList xs) = ''['' @ joined '', '' (map py_repr xs) @ '']''"
| "py_repr (JObj kvs) = ''{'' @ joined '', ''
     (map (\<lambda>(k, t). repr_string k @ '': '' @ t) (map (map_prod id py_repr) kvs)) @ ''}''"

fun py_str :: "json \<Rightarrow> string" where
  "py_str (JStr s) = s"
| "py_str (JTime t) = iso_time t"
| "py_str v = py_repr v"

definition progress_identity_fields :: "string list" where
  "progress_identity_fields =
     [''command_id'', ''operation_id'', ''workflow_run_id'', ''step_index'', ''bench_id'']"

definition default_progress_key :: "string \<Rightarrow> payload \<Rightarrow> string" where
  "default_progress_key event_type payload =
     joined ''|'' (event_type # concat (map (\<lambda>field.
        case map_of payload field of
          None \<Rightarrow> [] | Some JNull \<Rightarrow> [] | Some v \<Rightarrow> [field @ ''='' @ py_str v]) progress_identity_fields))"

definition progress_key :: "append_request \<Rightarrow> string option" where
  "progress_key q =
     (if ar_priority q = PrProgress
      then Some (if truthy (ar_coalesce_key q) then the (ar_coalesce_key q)
                 else default_progress_key (ar_event_type q) (ar_payload q))
      else None)"

section \<open>The overflow marker\<close>

definition EVENT_BUFFER_OVERFLOW :: string where
  "EVENT_BUFFER_OVERFLOW = ''EVENT_BUFFER_OVERFLOW''"

definition dropped_total :: "(event_priority \<Rightarrow> int) \<Rightarrow> int" where
  "dropped_total dropped = dropped PrProgress + dropped PrState + dropped PrFailure + dropped PrTerminal"

definition overflow_payload :: "(event_priority \<Rightarrow> int) \<Rightarrow> payload" where
  "overflow_payload dropped =
     [(''dropped_total'', JInt (dropped_total dropped)),
      (''dropped_progress'', JInt (dropped PrProgress)), (''dropped_state'', JInt (dropped PrState)),
      (''dropped_failure'', JInt (dropped PrFailure)), (''dropped_terminal'', JInt (dropped PrTerminal))]"

text \<open>
  The marker's validators accept it: its sequence number is positive and its payload is five
  integers, far below the limit on the size of a payload.
\<close>

definition overflow_marker :: "draws \<Rightarrow> uuid \<Rightarrow> int \<Rightarrow> (event_priority \<Rightarrow> int) \<Rightarrow> buffered_event" where
  "overflow_marker dr agent_id sequence dropped =
     \<lparr>be_id = dr_marker_id dr, be_agent_id = agent_id, be_sequence_number = sequence,
      be_event_type = EVENT_BUFFER_OVERFLOW, be_payload = overflow_payload dropped,
      be_priority = PrFailure, be_created_at = dr_marker_at dr\<rparr>"

text \<open>The event that is dropped when there is no room: lowest priority first, then oldest.\<close>

definition eviction_key :: "buffered_event \<Rightarrow> event_priority \<times> int" where
  "eviction_key e = (be_priority e, be_sequence_number e)"

record buffer_stats =
  bs_buffered_events :: int
  bs_buffered_data_events :: int
  bs_last_issued_sequence :: int
  bs_last_acknowledged_sequence :: int
  bs_dropped :: "event_priority \<Rightarrow> int"
  bs_coalesced_progress :: int

section \<open>The reference buffer\<close>

record mem_buffer =
  mb_agent_id :: uuid
  mb_capacity :: int
  mb_events :: "(int \<times> buffered_event) list"
  mb_coalesce :: "(string \<times> int) list"
  mb_marker :: "buffered_event option"
  mb_known :: "(uuid \<times> buffered_event option) list"
  mb_next_sequence :: int
  mb_last_acknowledged :: int
  mb_last_peeked :: int
  mb_dropped :: "event_priority \<Rightarrow> int"
  mb_coalesced_progress :: int

definition mem_buffer_init :: "uuid \<Rightarrow> int \<Rightarrow> error + mem_buffer" where
  "mem_buffer_init agent_id capacity =
     (if capacity < 1 then Inl ValueError
      else Inr \<lparr>mb_agent_id = agent_id, mb_capacity = capacity, mb_events = [], mb_coalesce = [],
        mb_marker = None, mb_known = [], mb_next_sequence = 1, mb_last_acknowledged = 0,
        mb_last_peeked = 0, mb_dropped = (\<lambda>_. 0), mb_coalesced_progress = 0\<rparr>)"

definition drop_event :: "int \<Rightarrow> mem_buffer \<Rightarrow> mem_buffer" where
  "drop_event n s = s\<lparr>mb_events := filter (\<lambda>(k, _). k \<noteq> n) (mb_events s)\<rparr>"

text \<open>\<open>_remove_coalescing_reference\<close>.\<close>

definition drop_references :: "int \<Rightarrow> (string \<times> int) list \<Rightarrow> (string \<times> int) list" where
  "drop_references n d = filter (\<lambda>(_, k). k \<noteq> n) d"

definition discarded :: "int \<Rightarrow> mem_buffer \<Rightarrow> mem_buffer" where
  "discarded n s = (drop_event n s)\<lparr>mb_coalesce := drop_references n (mb_coalesce s)\<rparr>"

definition bumped :: "mem_buffer \<Rightarrow> mem_buffer" where
  "bumped s = s\<lparr>mb_next_sequence := mb_next_sequence s + 1\<rparr>"

definition mem_new_event :: "append_request \<Rightarrow> draws \<Rightarrow> (mem_buffer, buffered_event) io" where
  "mem_new_event q dr =
     bindM (getsM (\<lambda>s. requested_event q dr (mb_agent_id s) (mb_next_sequence s))) (\<lambda>given.
     bindM (liftE (make_buffered_event given)) (\<lambda>event.
     bindM (modifyM bumped) (\<lambda>_. returnM event)))"

text \<open>\<open>_record_overflow\<close>: count the event and bring the marker up to date.\<close>

definition overflowed :: "event_priority \<Rightarrow> draws \<Rightarrow> mem_buffer \<Rightarrow> mem_buffer" where
  "overflowed p dr s =
     (let dropped = (mb_dropped s)(p := mb_dropped s p + 1)
      in case mb_marker s of
           None \<Rightarrow>
             let marker = overflow_marker dr (mb_agent_id s) (mb_next_sequence s) dropped
             in s\<lparr>mb_dropped := dropped, mb_next_sequence := mb_next_sequence s + 1,
                  mb_marker := Some marker, mb_known := dict_set (be_id marker) (Some marker) (mb_known s)\<rparr>
         | Some old \<Rightarrow>
             let marker = old\<lparr>be_payload := overflow_payload dropped\<rparr>
             in s\<lparr>mb_dropped := dropped, mb_marker := Some marker,
                  mb_known := dict_set (be_id marker) (Some marker) (mb_known s)\<rparr>)"

text \<open>A progress event takes the place of the one with the same key that is still buffered.\<close>

definition coalesced :: "string option \<Rightarrow> mem_buffer \<Rightarrow> mem_buffer" where
  "coalesced key s =
     (case key of None \<Rightarrow> s
      | Some k \<Rightarrow>
          (case map_of (mb_coalesce s) k of
             None \<Rightarrow> s
           | Some n \<Rightarrow>
               if map_of (mb_events s) n = None then s
               else (drop_event n s)\<lparr>mb_coalesced_progress := mb_coalesced_progress s + 1\<rparr>))"

definition refused :: "uuid \<Rightarrow> mem_buffer \<Rightarrow> mem_buffer" where
  "refused identifier s = s\<lparr>mb_known := dict_set identifier None (mb_known s)\<rparr>"

text \<open>Whether there is room for an event of priority \<open>p\<close>, after dropping another if need be.\<close>

definition mem_make_room :: "uuid \<Rightarrow> event_priority \<Rightarrow> draws \<Rightarrow> (mem_buffer, bool) io" where
  "mem_make_room identifier p dr =
     bindM (getsM (\<lambda>s. int (length (mb_events s)) < mb_capacity s)) (\<lambda>free.
     if free then returnM True
     else
       bindM (getsM (\<lambda>s. first_row (order_by eviction_key (map snd (mb_events s))))) (\<lambda>candidate.
       case candidate of
         None \<Rightarrow> raiseM ValueError
       | Some e \<Rightarrow>
           if be_priority e < p then
             bindM (modifyM (discarded (be_sequence_number e))) (\<lambda>_.
             bindM (modifyM (overflowed (be_priority e) dr)) (\<lambda>_. returnM True))
           else
             bindM (modifyM (refused identifier)) (\<lambda>_.
             bindM (modifyM (overflowed p dr)) (\<lambda>_. returnM False))))"

definition stored :: "string option \<Rightarrow> buffered_event \<Rightarrow> mem_buffer \<Rightarrow> mem_buffer" where
  "stored key event s = s\<lparr>
     mb_events := dict_set (be_sequence_number event) event (mb_events s),
     mb_known := dict_set (be_id event) (Some event) (mb_known s),
     mb_coalesce := (case key of None \<Rightarrow> mb_coalesce s
                     | Some k \<Rightarrow> dict_set k (be_sequence_number event) (mb_coalesce s))\<rparr>"

definition mem_append :: "append_request \<Rightarrow> draws \<Rightarrow> (mem_buffer, buffered_event option) io" where
  "mem_append q dr =
     bindM (getsM (\<lambda>s. map_of (mb_known s) (request_identifier q dr))) (\<lambda>known.
     case known of
       Some outcome \<Rightarrow> returnM outcome
     | None \<Rightarrow>
         bindM (mem_new_event q dr) (\<lambda>event.
         bindM (modifyM (coalesced (progress_key q))) (\<lambda>_.
         bindM (mem_make_room (request_identifier q dr) (ar_priority q) dr) (\<lambda>room.
         if room then bindM (modifyM (stored (progress_key q) event)) (\<lambda>_. returnM (Some event))
         else returnM None))))"

definition mem_peek :: "int \<Rightarrow> (mem_buffer, buffered_event list) io" where
  "mem_peek limit =
     (if limit < 1 then raiseM ValueError
      else
        bindM (getsM (\<lambda>s. take (nat limit) (order_by be_sequence_number
          (map snd (mb_events s) @ (case mb_marker s of None \<Rightarrow> [] | Some m \<Rightarrow> [m]))))) (\<lambda>result.
        bindM (modifyM (\<lambda>s. if result = [] then s
          else s\<lparr>mb_last_peeked := max (mb_last_peeked s) (be_sequence_number (last result))\<rparr>)) (\<lambda>_.
        returnM result)))"

text \<open>\<open>acknowledge_through\<close>.\<close>

definition mem_acknowledge :: "int \<Rightarrow> (mem_buffer, int) io" where
  "mem_acknowledge n =
     (if n < 0 then raiseM ValueError
      else bindM (getsM id) (\<lambda>s.
        if n \<le> mb_last_acknowledged s then returnM 0
        else if mb_last_peeked s < n then raiseM ValueError
        else
          let gone = filter (\<lambda>k. k \<le> n) (map fst (mb_events s));
              marked = (case mb_marker s of None \<Rightarrow> False | Some m \<Rightarrow> be_sequence_number m \<le> n)
          in bindM (modifyM (\<lambda>s. s\<lparr>
               mb_events := filter (\<lambda>(k, _). \<not> k \<le> n) (mb_events s),
               mb_coalesce := fold drop_references (sort gone) (mb_coalesce s),
               mb_marker := (if marked then None else mb_marker s),
               mb_last_acknowledged := n\<rparr>)) (\<lambda>_.
             returnM (int (length gone) + (if marked then 1 else 0)))))"

definition mem_stats :: "(mem_buffer, buffer_stats) io" where
  "mem_stats = getsM (\<lambda>s.
     \<lparr>bs_buffered_events = int (length (mb_events s)) + (if mb_marker s = None then 0 else 1),
      bs_buffered_data_events = int (length (mb_events s)),
      bs_last_issued_sequence = mb_next_sequence s - 1,
      bs_last_acknowledged_sequence = mb_last_acknowledged s,
      bs_dropped = mb_dropped s, bs_coalesced_progress = mb_coalesced_progress s\<rparr>)"

section \<open>The invariant of the reference buffer\<close>

definition mem_contents :: "mem_buffer \<Rightarrow> buffered_event list" where
  "mem_contents s = map snd (mb_events s) @ (case mb_marker s of None \<Rightarrow> [] | Some m \<Rightarrow> [m])"

text \<open>A buffered event is not acknowledged yet, has been issued, and is the outcome of its identifier.\<close>

definition kept :: "mem_buffer \<Rightarrow> buffered_event \<Rightarrow> bool" where
  "kept s e \<longleftrightarrow> mb_last_acknowledged s < be_sequence_number e \<and> be_sequence_number e < mb_next_sequence s \<and>
     be_agent_id e = mb_agent_id s \<and> map_of (mb_known s) (be_id e) = Some (Some e)"

definition mem_buffer_ok :: "mem_buffer \<Rightarrow> bool" where
  "mem_buffer_ok s \<longleftrightarrow>
     1 \<le> mb_capacity s \<and> int (length (mb_events s)) \<le> mb_capacity s \<and>
     0 \<le> mb_last_acknowledged s \<and> mb_last_acknowledged s \<le> mb_last_peeked s \<and>
     mb_last_peeked s < mb_next_sequence s \<and>
     distinct (map fst (mb_events s)) \<and> (\<forall>x \<in> set (mb_events s). be_sequence_number (snd x) = fst x) \<and>
     (\<forall>e \<in> set (mem_contents s). kept s e) \<and>
     (\<forall>m. mb_marker s = Some m \<longrightarrow> be_sequence_number m \<notin> fst ` set (mb_events s)) \<and>
     distinct (map fst (mb_coalesce s)) \<and> distinct (map snd (mb_coalesce s)) \<and>
     snd ` set (mb_coalesce s) \<subseteq> fst ` set (mb_events s) \<and>
     (\<forall>p. 0 \<le> mb_dropped s p) \<and> 0 \<le> mb_coalesced_progress s"

lemma kept_unique:
  assumes "kept s e" and "kept s e'" and "be_id e = be_id e'"
  shows "e = e'"
  using assms by (simp add: kept_def)

lemma in_mem_contents:
  "e \<in> set (mem_contents s) \<longleftrightarrow> e \<in> snd ` set (mb_events s) \<or> mb_marker s = Some e"
  by (auto simp: mem_contents_def split: option.splits)

lemma marker_id_unused:
  assumes "mem_buffer_ok s" and "mb_marker s = Some m" and "x \<in> set (mb_events s)"
  shows "be_id (snd x) \<noteq> be_id m"
proof
  assume "be_id (snd x) = be_id m"
  moreover have "kept s (snd x)" "kept s m"
    using assms by (auto simp: mem_buffer_ok_def in_mem_contents)
  ultimately have "snd x = m" by (metis kept_unique)
  then show False using assms by (auto simp: mem_buffer_ok_def)
qed

lemma mem_contents_cong:
  "mb_events s' = mb_events s \<Longrightarrow> mb_marker s' = mb_marker s \<Longrightarrow> mem_contents s' = mem_contents s"
  by (simp add: mem_contents_def)

lemma ok_bump:
  assumes "mem_buffer_ok s"
  shows "mem_buffer_ok (bumped s)"
proof -
  have "mem_contents (bumped s) = mem_contents s" by (rule mem_contents_cong) (simp_all add: bumped_def)
  then show ?thesis using assms by (simp add: mem_buffer_ok_def kept_def bumped_def) fastforce
qed

lemma mem_buffer_okD:
  assumes "mem_buffer_ok s"
  shows "1 \<le> mb_capacity s" "int (length (mb_events s)) \<le> mb_capacity s" "0 \<le> mb_last_acknowledged s"
    "mb_last_acknowledged s \<le> mb_last_peeked s" "mb_last_peeked s < mb_next_sequence s"
    "distinct (map fst (mb_events s))" "\<And>x. x \<in> set (mb_events s) \<Longrightarrow> be_sequence_number (snd x) = fst x"
    "\<And>e. e \<in> set (mem_contents s) \<Longrightarrow> kept s e"
    "\<And>m. mb_marker s = Some m \<Longrightarrow> be_sequence_number m \<notin> fst ` set (mb_events s)"
    "distinct (map fst (mb_coalesce s))" "distinct (map snd (mb_coalesce s))"
    "snd ` set (mb_coalesce s) \<subseteq> fst ` set (mb_events s)" "\<And>p. 0 \<le> mb_dropped s p"
    "0 \<le> mb_coalesced_progress s"
  using assms unfolding mem_buffer_ok_def by blast+

lemma kept_event: "mem_buffer_ok s \<Longrightarrow> x \<in> set (mb_events s) \<Longrightarrow> kept s (snd x)"
  by (simp add: mem_buffer_okD(8) in_mem_contents)

lemma kept_marker: "mem_buffer_ok s \<Longrightarrow> mb_marker s = Some m \<Longrightarrow> kept s m"
  by (simp add: mem_buffer_okD(8) in_mem_contents)

lemma kept_cong:
  assumes "mb_last_acknowledged s' = mb_last_acknowledged s" and "mb_next_sequence s \<le> mb_next_sequence s'"
    and "mb_agent_id s' = mb_agent_id s" and "map_of (mb_known s') (be_id e) = map_of (mb_known s) (be_id e)"
    and "kept s e"
  shows "kept s' e"
  using assms by (simp add: kept_def)

lemma ok_discarded:
  assumes ok: "mem_buffer_ok s"
  shows "mem_buffer_ok (discarded n s)"
proof -
  let ?s = "discarded n s"
  have sub: "set (mem_contents ?s) \<subseteq> set (mem_contents s)"
    by (auto simp: in_mem_contents discarded_def drop_event_def)
  have kept: "kept ?s e" if "e \<in> set (mem_contents ?s)" for e
    using that sub mem_buffer_okD(8)[OF ok, of e]
    by (intro kept_cong[of ?s s]) (auto simp: discarded_def drop_event_def)
  have len: "length (filter (\<lambda>(k, _). k \<noteq> n) (mb_events s)) \<le> length (mb_events s)" by simp
  have refs: "snd ` set (drop_references n (mb_coalesce s)) \<subseteq> fst ` set (filter (\<lambda>(k, _). k \<noteq> n) (mb_events s))"
    using mem_buffer_okD(12)[OF ok] by (force simp: drop_references_def)
  have same: "mb_events ?s = filter (\<lambda>(k, _). k \<noteq> n) (mb_events s)" "mb_marker ?s = mb_marker s"
    "mb_coalesce ?s = drop_references n (mb_coalesce s)" "mb_capacity ?s = mb_capacity s"
    "mb_last_acknowledged ?s = mb_last_acknowledged s" "mb_last_peeked ?s = mb_last_peeked s"
    "mb_next_sequence ?s = mb_next_sequence s" "mb_dropped ?s = mb_dropped s"
    "mb_coalesced_progress ?s = mb_coalesced_progress s"
    by (simp_all add: discarded_def drop_event_def)
  have fit: "int (length (mb_events ?s)) \<le> mb_capacity s"
    using len mem_buffer_okD(2)[OF ok] unfolding same by linarith
  have fresh: "be_sequence_number m \<notin> fst ` set (mb_events ?s)" if "mb_marker s = Some m" for m
    using mem_buffer_okD(9)[OF ok that] by (auto simp: same)
  have seq: "be_sequence_number (snd x) = fst x" if "x \<in> set (mb_events ?s)" for x
    using that mem_buffer_okD(7)[OF ok] by (auto simp: same)
  have keys: "distinct (map fst (mb_events ?s))" "distinct (map fst (mb_coalesce ?s))" "distinct (map snd (mb_coalesce ?s))"
    using mem_buffer_okD(6,10,11)[OF ok] by (simp_all add: same drop_references_def distinct_map_filter)
  show ?thesis
    unfolding mem_buffer_ok_def
    using kept fit refs fresh seq keys mem_buffer_okD(1,3,4,5,13,14)[OF ok] by (simp add: same)
qed

lemma in_known: "kept s e \<Longrightarrow> be_id e \<in> fst ` set (mb_known s)"
  by (force simp: kept_def dest: map_of_SomeD)

lemma marker_id_drawn [simp]: "be_id (overflow_marker dr a n d) = dr_marker_id dr"
  by (simp add: overflow_marker_def)

lemma ok_overflowed:
  assumes ok: "mem_buffer_ok s" and fresh: "dr_marker_id dr \<notin> fst ` set (mb_known s)"
  shows "mem_buffer_ok (overflowed p dr s)"
proof -
  let ?s = "overflowed p dr s"
  have same: "mb_events ?s = mb_events s" "mb_capacity ?s = mb_capacity s"
    "mb_last_acknowledged ?s = mb_last_acknowledged s" "mb_last_peeked ?s = mb_last_peeked s"
    "mb_coalesce ?s = mb_coalesce s" "mb_coalesced_progress ?s = mb_coalesced_progress s"
    "mb_agent_id ?s = mb_agent_id s" "mb_next_sequence s \<le> mb_next_sequence ?s"
    "mb_dropped ?s = (mb_dropped s)(p := mb_dropped s p + 1)"
    by (simp_all add: overflowed_def Let_def split: option.splits)
  obtain m where m: "mb_marker ?s = Some m" "kept ?s m" "be_sequence_number m \<notin> fst ` set (mb_events s)"
    "\<And>i. i \<noteq> be_id m \<Longrightarrow> map_of (mb_known ?s) i = map_of (mb_known s) i"
    "\<And>x. x \<in> set (mb_events s) \<Longrightarrow> be_id (snd x) \<noteq> be_id m"
  proof (cases "mb_marker s")
    case None
    let ?m = "overflow_marker dr (mb_agent_id s) (mb_next_sequence s) ((mb_dropped s)(p := mb_dropped s p + 1))"
    have "be_sequence_number ?m \<notin> fst ` set (mb_events s)"
      using kept_event[OF ok] mem_buffer_okD(7)[OF ok] by (fastforce simp: kept_def overflow_marker_def)
    moreover have "kept ?s ?m"
      using None mem_buffer_okD(3,4,5)[OF ok]
      by (simp add: kept_def overflowed_def Let_def dict_set_map_of overflow_marker_def)
    moreover have "be_id (snd x) \<noteq> be_id ?m" if "x \<in> set (mb_events s)" for x
      using in_known[OF kept_event[OF ok that]] fresh by (metis marker_id_drawn)
    ultimately show ?thesis using None
      by (intro that[of ?m]) (simp_all add: overflowed_def Let_def dict_set_map_of)
  next
    case (Some old)
    let ?m = "old\<lparr>be_payload := overflow_payload ((mb_dropped s)(p := mb_dropped s p + 1))\<rparr>"
    have "kept ?s ?m"
      using Some kept_marker[OF ok Some] by (simp add: kept_def overflowed_def Let_def dict_set_map_of)
    then show ?thesis
      using Some mem_buffer_okD(9)[OF ok Some] marker_id_unused[OF ok Some]
      by (intro that[of ?m]) (simp_all add: overflowed_def Let_def dict_set_map_of)
  qed
  have kept: "kept ?s e" if "e \<in> set (mem_contents ?s)" for e
  proof (cases "e = m")
    case False
    with that m(1) obtain x where x: "x \<in> set (mb_events s)" "e = snd x" by (auto simp: in_mem_contents same)
    show ?thesis
      by (rule kept_cong[of ?s s]) (use x m(4)[OF m(5)[OF x(1)]] kept_event[OF ok x(1)] same in simp_all)
  qed (use m in simp)
  show ?thesis
    using kept m(1,3) same mem_buffer_okD[OF ok] unfolding mem_buffer_ok_def by auto
qed

lemma ok_known_none:
  assumes ok: "mem_buffer_ok s" and new: "i \<notin> fst ` set (mb_known s)"
  shows "mem_buffer_ok (refused i s)" (is "mem_buffer_ok ?s")
proof -
  have "mem_contents ?s = mem_contents s" by (rule mem_contents_cong) (simp_all add: refused_def)
  moreover have "kept ?s e" if "kept s e" for e
  proof -
    have "be_id e \<noteq> i" using in_known[OF that] new by metis
    then show ?thesis by (intro kept_cong[OF _ _ _ _ that]) (simp_all add: refused_def dict_set_map_of)
  qed
  ultimately show ?thesis using mem_buffer_okD[OF ok] unfolding mem_buffer_ok_def by (simp add: refused_def)
qed

text \<open>Storing a new event whose number has been issued.\<close>

definition storable_event :: "mem_buffer \<Rightarrow> buffered_event \<Rightarrow> bool" where
  "storable_event s e \<longleftrightarrow> be_id e \<notin> fst ` set (mb_known s) \<and> be_agent_id e = mb_agent_id s \<and>
     mb_last_acknowledged s < be_sequence_number e \<and> be_sequence_number e < mb_next_sequence s \<and>
     (\<forall>x \<in> set (mem_contents s). be_sequence_number x \<noteq> be_sequence_number e)"

lemma storable_new_number: "storable_event s e \<Longrightarrow> mem_buffer_ok s \<Longrightarrow> be_sequence_number e \<notin> fst ` set (mb_events s)"
  by (force simp: storable_event_def in_mem_contents dest: mem_buffer_okD(7))

lemma ok_stored:
  assumes ok: "mem_buffer_ok s" and e: "storable_event s e" and room: "int (length (mb_events s)) < mb_capacity s"
  shows "mem_buffer_ok (stored key e s)"
proof -
  let ?s = "stored key e s"
  note new = storable_new_number[OF e ok]
  have ev: "mb_events ?s = mb_events s @ [(be_sequence_number e, e)]"
    using new by (simp add: stored_def dict_set_fresh)
  have kept: "kept ?s x" if "x \<in> set (mem_contents ?s)" for x
  proof (cases "x = e")
    case True
    then show ?thesis using e by (simp add: kept_def stored_def storable_event_def dict_set_map_of)
  next
    case False
    moreover have "mb_marker ?s = mb_marker s" by (simp add: stored_def)
    ultimately have "x \<in> set (mem_contents s)" using that by (auto simp: in_mem_contents ev)
    then have x: "kept s x" using mem_buffer_okD(8)[OF ok] by blast
    have "be_id x \<noteq> be_id e" using in_known[OF x] e by (metis storable_event_def)
    then show ?thesis
      by (intro kept_cong[OF _ _ _ _ x]) (simp_all add: stored_def dict_set_map_of)
  qed
  have old: "be_sequence_number e \<notin> snd ` set (mb_coalesce s)"
    using mem_buffer_okD(12)[OF ok] new by blast
  have refs: "distinct (map fst (mb_coalesce ?s))" "distinct (map snd (mb_coalesce ?s))"
    "snd ` set (mb_coalesce ?s) \<subseteq> insert (be_sequence_number e) (fst ` set (mb_events s))"
    using mem_buffer_okD(10,11)[OF ok] old
      order_trans[OF values_dict_set insert_mono[OF mem_buffer_okD(12)[OF ok]], of _ "be_sequence_number e"]
      mem_buffer_okD(12)[OF ok]
    by (cases key; simp add: stored_def distinct_dict_set distinct_values_dict_set subset_insertI2)+
  have fresh: "be_sequence_number m \<notin> fst ` set (mb_events ?s)" if "mb_marker s = Some m" for m
    using mem_buffer_okD(9)[OF ok that] e that by (auto simp: ev storable_event_def in_mem_contents)
  have same: "mb_marker ?s = mb_marker s" "mb_capacity ?s = mb_capacity s"
    "mb_last_acknowledged ?s = mb_last_acknowledged s" "mb_last_peeked ?s = mb_last_peeked s"
    "mb_next_sequence ?s = mb_next_sequence s" "mb_dropped ?s = mb_dropped s"
    "mb_coalesced_progress ?s = mb_coalesced_progress s"
    by (simp_all add: stored_def)
  have seq: "be_sequence_number (snd x) = fst x" if "x \<in> set (mb_events ?s)" for x
    using that mem_buffer_okD(7)[OF ok] by (auto simp: ev)
  have keys: "distinct (map fst (mb_events ?s))" using mem_buffer_okD(6)[OF ok] new by (simp add: ev)
  have fit: "int (length (mb_events ?s)) \<le> mb_capacity s" using room by (simp add: ev)
  show ?thesis
    unfolding mem_buffer_ok_def
    using kept fit refs fresh seq keys mem_buffer_okD(1,3,4,5,13,14)[OF ok] by (simp add: same ev)
qed

lemma ok_coalesce:
  assumes "mem_buffer_ok s" and "distinct (map fst d)" and "distinct (map snd d)"
    and "snd ` set d \<subseteq> fst ` set (mb_events s)"
  shows "mem_buffer_ok (s\<lparr>mb_coalesce := d\<rparr>)"
proof -
  have "mem_contents (s\<lparr>mb_coalesce := d\<rparr>) = mem_contents s" by (rule mem_contents_cong) simp_all
  moreover have "kept (s\<lparr>mb_coalesce := d\<rparr>) e = kept s e" for e by (simp add: kept_def)
  ultimately show ?thesis using assms unfolding mem_buffer_ok_def by simp
qed

section \<open>The effect of an append\<close>

text \<open>The event that is stored when the request is new and valid.\<close>

definition admitted :: "append_request \<Rightarrow> draws \<Rightarrow> mem_buffer \<Rightarrow> buffered_event \<Rightarrow> bool" where
  "admitted q dr s e \<longleftrightarrow> map_of (mb_known s) (request_identifier q dr) = None \<and>
     make_buffered_event (requested_event q dr (mb_agent_id s) (mb_next_sequence s)) = Inr e"

lemma admitted_fields:
  assumes "admitted q dr s e"
  shows "be_id e = request_identifier q dr" "be_agent_id e = mb_agent_id s"
    "be_sequence_number e = mb_next_sequence s" "be_priority e = ar_priority q"
    "be_payload e = ar_payload q" "be_event_type e = trim (ar_event_type q)"
    "be_id e \<notin> fst ` set (mb_known s)"
proof -
  have e: "e = (requested_event q dr (mb_agent_id s) (mb_next_sequence s))\<lparr>be_event_type := trim (ar_event_type q)\<rparr>"
    using assms by (auto simp: admitted_def make_buffered_event_def Let_def requested_event_def split: if_splits)
  have "map_of (mb_known s) (request_identifier q dr) = None" using assms by (simp add: admitted_def)
  with e show "be_id e \<notin> fst ` set (mb_known s)" by (simp add: map_of_eq_None_iff requested_event_def)
qed (use assms in \<open>auto simp: admitted_def make_buffered_event_def requested_event_def Let_def split: if_splits\<close>)

text \<open>The reference that a request for a buffered progress event with the same key replaces.\<close>

definition replaces :: "append_request \<Rightarrow> mem_buffer \<Rightarrow> string \<Rightarrow> int \<Rightarrow> bool" where
  "replaces q s k n \<longleftrightarrow> progress_key q = Some k \<and> map_of (mb_coalesce s) k = Some n"

lemma bumped_simps [simp]:
  "mb_events (bumped s) = mb_events s" "mb_coalesce (bumped s) = mb_coalesce s" "mb_marker (bumped s) = mb_marker s"
  "mb_known (bumped s) = mb_known s" "mb_capacity (bumped s) = mb_capacity s" "mb_agent_id (bumped s) = mb_agent_id s"
  "mb_last_acknowledged (bumped s) = mb_last_acknowledged s" "mb_last_peeked (bumped s) = mb_last_peeked s"
  "mb_dropped (bumped s) = mb_dropped s" "mb_next_sequence (bumped s) = mb_next_sequence s + 1"
  "mb_coalesced_progress (bumped s) = mb_coalesced_progress s"
  by (simp_all add: bumped_def)

lemma run_mem_append:
  assumes ok: "mem_buffer_ok s"
  obtains
    (known) r where "map_of (mb_known s) (request_identifier q dr) = Some r" "mem_append q dr s = (Inr r, s)"
  | (invalid) "map_of (mb_known s) (request_identifier q dr) = None"
      "make_buffered_event (requested_event q dr (mb_agent_id s) (mb_next_sequence s)) = Inl ValueError"
      "mem_append q dr s = (Inl ValueError, s)"
  | (replaced) e k n where "admitted q dr s e" "replaces q s k n"
      "mem_append q dr s = (Inr (Some e), stored (Some k) e ((drop_event n (bumped s))
         \<lparr>mb_coalesced_progress := mb_coalesced_progress s + 1\<rparr>))"
  | (free) e where "admitted q dr s e" "\<nexists>k n. replaces q s k n" "int (length (mb_events s)) < mb_capacity s"
      "mem_append q dr s = (Inr (Some e), stored (progress_key q) e (bumped s))"
  | (evicted) e c where "admitted q dr s e" "\<nexists>k n. replaces q s k n" "int (length (mb_events s)) = mb_capacity s"
      "first_row (order_by eviction_key (map snd (mb_events s))) = Some c" "be_priority c < ar_priority q"
      "mem_append q dr s = (Inr (Some e),
         stored (progress_key q) e (overflowed (be_priority c) dr (discarded (be_sequence_number c) (bumped s))))"
  | (refused) e c where "admitted q dr s e" "\<nexists>k n. replaces q s k n" "int (length (mb_events s)) = mb_capacity s"
      "first_row (order_by eviction_key (map snd (mb_events s))) = Some c" "\<not> be_priority c < ar_priority q"
      "mem_append q dr s = (Inr None,
         overflowed (ar_priority q) dr (refused (request_identifier q dr) (bumped s)))"
proof (cases "map_of (mb_known s) (request_identifier q dr)")
  case (Some r)
  then show ?thesis by (intro known) (simp_all add: mem_append_def runM)
next
  case None
  let ?r = "requested_event q dr (mb_agent_id s) (mb_next_sequence s)"
  show ?thesis
  proof (cases "make_buffered_event ?r")
    case (Inl x)
    then have "x = ValueError" by (simp add: make_buffered_event_def Let_def split: if_splits)
    with Inl None show ?thesis by (intro invalid) (simp_all add: mem_append_def mem_new_event_def runM)
  next
    case (Inr e)
    have adm: "admitted q dr s e" using None Inr by (simp add: admitted_def)
    have run: "mem_append q dr s = bindM (modifyM (coalesced (progress_key q))) (\<lambda>_.
         bindM (mem_make_room (request_identifier q dr) (ar_priority q) dr) (\<lambda>room.
         if room then bindM (modifyM (stored (progress_key q) e)) (\<lambda>_. returnM (Some e))
         else returnM None)) (bumped s)"
      using None Inr by (simp add: mem_append_def mem_new_event_def runM)
    show ?thesis
    proof (cases "\<exists>k n. replaces q s k n")
      case True
      then obtain k n where kn: "replaces q s k n" by blast
      then have n: "n \<in> fst ` set (mb_events s)"
        using mem_buffer_okD(12)[OF ok] by (force simp: replaces_def dest: map_of_SomeD)
      then obtain v where v: "map_of (mb_events s) n = Some v" by (metis map_of_eq_None_iff not_None_eq)
      have "length (filter (\<lambda>(k, _). k \<noteq> n) (mb_events s)) < length (mb_events s)"
        using n by (auto intro!: length_filter_less)
      then have "int (length (mb_events (drop_event n (bumped s)))) < mb_capacity s"
        using mem_buffer_okD(2)[OF ok] by (simp add: drop_event_def)
      then show ?thesis
        using kn v adm run
        by (intro replaced[of e k n]) (simp_all add: replaces_def coalesced_def mem_make_room_def runM drop_event_def)
    next
      case no: False
      then have co: "coalesced (progress_key q) (bumped s) = bumped s"
        by (auto simp: coalesced_def replaces_def split: option.splits)
      show ?thesis
      proof (cases "int (length (mb_events s)) < mb_capacity s")
        case True
        then show ?thesis using run adm no by (intro free) (simp_all add: co mem_make_room_def runM)
      next
        case False
        then have full: "int (length (mb_events s)) = mb_capacity s" using mem_buffer_okD(2)[OF ok] by simp
        then have "mb_events s \<noteq> []" using mem_buffer_okD(1)[OF ok] by auto
        then obtain c where c: "first_row (order_by eviction_key (map snd (mb_events s))) = Some c"
          by (metis first_row_None map_is_Nil_conv not_None_eq order_by_Nil)
        show ?thesis
        proof (cases "be_priority c < ar_priority q")
          case True
          then show ?thesis using run adm no full c
            by (intro evicted[of e c]) (simp_all add: co mem_make_room_def runM)
        next
          case False
          then show ?thesis using run adm no full c
            by (intro refused[of e c]) (simp_all add: co mem_make_room_def runM)
        qed
      qed
    qed
  qed
qed

section \<open>Every operation keeps the invariant\<close>

text \<open>The factory of identifiers does not return one that is in use.\<close>

definition marker_fresh :: "append_request \<Rightarrow> draws \<Rightarrow> mem_buffer \<Rightarrow> bool" where
  "marker_fresh q dr s \<longleftrightarrow> dr_marker_id dr \<noteq> request_identifier q dr \<and> dr_marker_id dr \<notin> fst ` set (mb_known s)"

lemma storable_bumped:
  assumes ok: "mem_buffer_ok s" and e: "admitted q dr s e"
  shows "storable_event (bumped s) e"
proof -
  have "be_sequence_number x \<noteq> mb_next_sequence s" if "x \<in> set (mem_contents s)" for x
    using mem_buffer_okD(8)[OF ok that] by (simp add: kept_def)
  moreover have "mem_contents (bumped s) = mem_contents s" by (rule mem_contents_cong) simp_all
  ultimately show ?thesis
    using admitted_fields[OF e] mem_buffer_okD(4,5)[OF ok] by (simp add: storable_event_def)
qed

lemma discarded_simps [simp]:
  "mb_marker (discarded n s) = mb_marker s" "mb_known (discarded n s) = mb_known s"
  "mb_capacity (discarded n s) = mb_capacity s" "mb_agent_id (discarded n s) = mb_agent_id s"
  "mb_last_acknowledged (discarded n s) = mb_last_acknowledged s" "mb_last_peeked (discarded n s) = mb_last_peeked s"
  "mb_dropped (discarded n s) = mb_dropped s" "mb_next_sequence (discarded n s) = mb_next_sequence s"
  "mb_coalesced_progress (discarded n s) = mb_coalesced_progress s"
  "mb_events (discarded n s) = filter (\<lambda>(k, _). k \<noteq> n) (mb_events s)"
  "mb_coalesce (discarded n s) = drop_references n (mb_coalesce s)"
  by (simp_all add: discarded_def drop_event_def)

lemma mem_contents_discarded: "set (mem_contents (discarded n s)) \<subseteq> set (mem_contents s)"
  by (auto simp: in_mem_contents)

lemma storable_discarded: "storable_event s e \<Longrightarrow> storable_event (discarded n s) e"
  using mem_contents_discarded[of n s] by (auto simp: storable_event_def)

lemma overflowed_simps [simp]:
  "mb_events (overflowed p dr s) = mb_events s" "mb_capacity (overflowed p dr s) = mb_capacity s"
  "mb_last_acknowledged (overflowed p dr s) = mb_last_acknowledged s"
  "mb_last_peeked (overflowed p dr s) = mb_last_peeked s"
  "mb_coalesce (overflowed p dr s) = mb_coalesce s"
  "mb_coalesced_progress (overflowed p dr s) = mb_coalesced_progress s"
  "mb_agent_id (overflowed p dr s) = mb_agent_id s"
  "mb_dropped (overflowed p dr s) = (mb_dropped s)(p := mb_dropped s p + 1)"
  by (simp_all add: overflowed_def Let_def split: option.splits)

lemma overflowed_marker:
  obtains m where "mb_marker (overflowed p dr s) = Some m"
    "mb_known (overflowed p dr s) = dict_set (be_id m) (Some m) (mb_known s)"
    "be_payload m = overflow_payload ((mb_dropped s)(p := mb_dropped s p + 1))"
    "mb_marker s = None \<and> be_id m = dr_marker_id dr \<and> be_sequence_number m = mb_next_sequence s \<and>
       mb_next_sequence (overflowed p dr s) = mb_next_sequence s + 1 \<or>
     (\<exists>old. mb_marker s = Some old \<and> be_id m = be_id old \<and> be_sequence_number m = be_sequence_number old \<and>
       mb_next_sequence (overflowed p dr s) = mb_next_sequence s)"
  by (cases "mb_marker s") (simp_all add: overflowed_def Let_def overflow_marker_def)

lemma storable_overflowed:
  assumes ok: "mem_buffer_ok s" and e: "storable_event s e" and id: "be_id e \<noteq> dr_marker_id dr"
  shows "storable_event (overflowed p dr s) e"
proof -
  obtain m where m: "mb_marker (overflowed p dr s) = Some m"
    "mb_known (overflowed p dr s) = dict_set (be_id m) (Some m) (mb_known s)"
    "mb_marker s = None \<and> be_id m = dr_marker_id dr \<and> be_sequence_number m = mb_next_sequence s \<and>
       mb_next_sequence (overflowed p dr s) = mb_next_sequence s + 1 \<or>
     (\<exists>old. mb_marker s = Some old \<and> be_id m = be_id old \<and> be_sequence_number m = be_sequence_number old \<and>
       mb_next_sequence (overflowed p dr s) = mb_next_sequence s)"
    by (rule overflowed_marker)
  from m(3) have "be_id e \<noteq> be_id m \<and> be_sequence_number m \<noteq> be_sequence_number e \<and>
      be_sequence_number e < mb_next_sequence (overflowed p dr s)"
  proof (elim disjE exE conjE)
    fix old
    assume old: "mb_marker s = Some old" "be_id m = be_id old" "be_sequence_number m = be_sequence_number old"
      "mb_next_sequence (overflowed p dr s) = mb_next_sequence s"
    have "be_id e \<noteq> be_id old" using in_known[OF kept_marker[OF ok old(1)]] e by (metis storable_event_def)
    then show ?thesis using old e by (auto simp: storable_event_def in_mem_contents)
  qed (use id e in \<open>auto simp: storable_event_def\<close>)
  with m(1,2) e show ?thesis
    by (auto simp: storable_event_def in_mem_contents keys_dict_set)
qed

lemma eviction_candidate:
  assumes ok: "mem_buffer_ok s" and c: "first_row (order_by eviction_key (map snd (mb_events s))) = Some c"
  shows "c \<in> snd ` set (mb_events s)" and "be_sequence_number c \<in> fst ` set (mb_events s)"
    and "length (filter (\<lambda>(k, _). k \<noteq> be_sequence_number c) (mb_events s)) < length (mb_events s)"
    and "x \<in> set (mb_events s) \<Longrightarrow> eviction_key c \<le> eviction_key (snd x)"
proof -
  show mem: "c \<in> snd ` set (mb_events s)" using first_row_Some[OF c] by simp
  then show seq: "be_sequence_number c \<in> fst ` set (mb_events s)" using mem_buffer_okD(7)[OF ok] by force
  then show "length (filter (\<lambda>(k, _). k \<noteq> be_sequence_number c) (mb_events s)) < length (mb_events s)"
    by (auto intro!: length_filter_less)
  show "x \<in> set (mb_events s) \<Longrightarrow> eviction_key c \<le> eviction_key (snd x)"
    using first_order_by_le[OF c, of "snd x"] by simp
qed

lemma ok_replaced:
  assumes ok: "mem_buffer_ok s" and e: "admitted q dr s e" and kn: "replaces q s k n"
  shows "mem_buffer_ok (stored (Some k) e ((drop_event n (bumped s))\<lparr>mb_coalesced_progress := mb_coalesced_progress s + 1\<rparr>))"
    (is "mem_buffer_ok ?s")
proof -
  let ?d = "discarded n (bumped s)"
  have n: "n \<in> fst ` set (mb_events s)" and kn': "(k, n) \<in> set (mb_coalesce s)"
    using kn mem_buffer_okD(12)[OF ok] by (force simp: replaces_def dest: map_of_SomeD)+
  note storable = storable_discarded[OF storable_bumped[OF ok e], of n]
  note okd = ok_discarded[OF ok_bump[OF ok], of n]
  have "length (filter (\<lambda>(k, _). k \<noteq> n) (mb_events s)) < length (mb_events s)"
    using n by (auto intro!: length_filter_less)
  then have "int (length (mb_events ?d)) < mb_capacity ?d" using mem_buffer_okD(2)[OF ok] by simp
  from ok_stored[OF okd storable this] have okst: "mem_buffer_ok (stored None e ?d)" .
  have ev: "mb_events (stored None e ?d) = filter (\<lambda>(k, _). k \<noteq> n) (mb_events s) @ [(be_sequence_number e, e)]"
    using storable_new_number[OF storable okd] by (simp add: stored_def dict_set_fresh)
  have new: "be_sequence_number e \<notin> snd ` set (mb_coalesce s)"
    using storable_new_number[OF storable_bumped[OF ok e] ok_bump[OF ok]] mem_buffer_okD(12)[OF ok] by auto
  let ?c = "dict_set k (be_sequence_number e) (mb_coalesce s)"
  have "snd ` set ?c \<subseteq> fst ` set (mb_events (stored None e ?d))"
  proof
    fix v assume "v \<in> snd ` set ?c"
    then obtain k' where "(k', v) \<in> set ?c" by force
    then consider "v = be_sequence_number e" | "(k', v) \<in> set (mb_coalesce s)" "k' \<noteq> k"
      using set_dict_set[of k "be_sequence_number e" "mb_coalesce s"] by auto
    then show "v \<in> fst ` set (mb_events (stored None e ?d))"
    proof cases
      case 2
      then have "v \<noteq> n" using kn' mem_buffer_okD(11)[OF ok] by (metis Pair_inject distinct_map_eq snd_conv)
      moreover have "v \<in> fst ` set (mb_events s)" using 2 mem_buffer_okD(12)[OF ok] by force
      ultimately show ?thesis unfolding ev by force
    qed (simp add: ev)
  qed
  then have fin: "mem_buffer_ok ((stored None e ?d)\<lparr>mb_coalesce := ?c\<rparr>)"
    using okst new mem_buffer_okD(10,11)[OF ok]
    by (intro ok_coalesce) (simp_all add: distinct_dict_set distinct_values_dict_set)
  have upd: "mem_buffer_ok (t\<lparr>mb_coalesced_progress := mb_coalesced_progress t + 1\<rparr>)" if "mem_buffer_ok t" for t
  proof -
    have "mem_contents (t\<lparr>mb_coalesced_progress := mb_coalesced_progress t + 1\<rparr>) = mem_contents t"
      by (rule mem_contents_cong) simp_all
    moreover have "kept (t\<lparr>mb_coalesced_progress := mb_coalesced_progress t + 1\<rparr>) x = kept t x" for x
      by (simp add: kept_def)
    ultimately show ?thesis using that unfolding mem_buffer_ok_def by simp
  qed
  have "?s = (let t = (stored None e ?d)\<lparr>mb_coalesce := ?c\<rparr> in t\<lparr>mb_coalesced_progress := mb_coalesced_progress t + 1\<rparr>)"
    by (rule mem_buffer.equality) (simp_all add: stored_def drop_event_def)
  then show ?thesis using upd[OF fin] by (simp add: Let_def)
qed

lemma ok_mem_append:
  assumes ok: "mem_buffer_ok s" and fresh: "marker_fresh q dr s"
  shows "mem_buffer_ok (snd (mem_append q dr s))"
proof (cases rule: run_mem_append[OF ok, of q dr])
  case (1 r)
  then show ?thesis using ok by simp
next
  case 2
  then show ?thesis using ok by simp
next
  case (3 e k n)
  then show ?thesis using ok_replaced[OF ok] by simp
next
  case (4 e)
  then show ?thesis using ok_stored[OF ok_bump[OF ok] storable_bumped[OF ok 4(1)]] by simp
next
  case (5 e c)
  let ?d = "discarded (be_sequence_number c) (bumped s)"
  have okd: "mem_buffer_ok ?d" by (rule ok_discarded[OF ok_bump[OF ok]])
  have fr: "dr_marker_id dr \<notin> fst ` set (mb_known ?d)" using fresh by (simp add: marker_fresh_def)
  have id: "be_id e \<noteq> dr_marker_id dr" using fresh admitted_fields(1)[OF 5(1)] by (metis marker_fresh_def)
  have st: "storable_event (overflowed (be_priority c) dr ?d) e"
    by (rule storable_overflowed[OF okd storable_discarded[OF storable_bumped[OF ok 5(1)]] id])
  show ?thesis
    using ok_stored[OF ok_overflowed[OF okd fr] st] eviction_candidate(3)[OF ok 5(4)] 5(3,6) by simp
next
  case (6 e c)
  have new: "request_identifier q dr \<notin> fst ` set (mb_known (bumped s))"
    using admitted_fields(1,7)[OF 6(1)] by simp
  have "dr_marker_id dr \<notin> fst ` set (mb_known (refused (request_identifier q dr) (bumped s)))"
    using fresh by (simp add: refused_def keys_dict_set marker_fresh_def)
  then show ?thesis
    using ok_overflowed[OF ok_known_none[OF ok_bump[OF ok] new]] 6(6) by simp
qed

definition peeked :: "int \<Rightarrow> mem_buffer \<Rightarrow> buffered_event list" where
  "peeked limit s = take (nat limit) (order_by be_sequence_number (mem_contents s))"

definition after_peek :: "buffered_event list \<Rightarrow> mem_buffer \<Rightarrow> mem_buffer" where
  "after_peek events s = (if events = [] then s
     else s\<lparr>mb_last_peeked := max (mb_last_peeked s) (be_sequence_number (last events))\<rparr>)"

lemma run_mem_peek:
  "mem_peek limit s = (if limit < 1 then (Inl ValueError, s)
     else (Inr (peeked limit s), after_peek (peeked limit s) s))"
  by (simp add: mem_peek_def runM peeked_def mem_contents_def after_peek_def)

lemma set_peeked: "set (peeked limit s) \<subseteq> set (mem_contents s)"
  by (auto simp: peeked_def dest: in_set_takeD)

lemma after_peek_simps [simp]:
  "mb_events (after_peek es s) = mb_events s" "mb_marker (after_peek es s) = mb_marker s"
  "mb_known (after_peek es s) = mb_known s" "mb_capacity (after_peek es s) = mb_capacity s"
  "mb_agent_id (after_peek es s) = mb_agent_id s" "mb_coalesce (after_peek es s) = mb_coalesce s"
  "mb_last_acknowledged (after_peek es s) = mb_last_acknowledged s"
  "mb_next_sequence (after_peek es s) = mb_next_sequence s" "mb_dropped (after_peek es s) = mb_dropped s"
  "mb_coalesced_progress (after_peek es s) = mb_coalesced_progress s"
  "mb_last_peeked s \<le> mb_last_peeked (after_peek es s)"
  by (simp_all add: after_peek_def)

lemma ok_mem_peek:
  assumes ok: "mem_buffer_ok s"
  shows "mem_buffer_ok (snd (mem_peek limit s))"
proof -
  let ?s = "after_peek (peeked limit s) s"
  have "mem_contents ?s = mem_contents s" by (rule mem_contents_cong) simp_all
  moreover have "kept ?s e = kept s e" for e by (simp add: kept_def)
  moreover have "be_sequence_number (last (peeked limit s)) < mb_next_sequence s" if "peeked limit s \<noteq> []"
    using set_peeked[of limit s] last_in_set[OF that] mem_buffer_okD(8)[OF ok] by (auto simp: kept_def)
  then have "mb_last_peeked ?s < mb_next_sequence s"
    using mem_buffer_okD(5)[OF ok] by (simp add: after_peek_def)
  moreover have "mb_last_acknowledged s \<le> mb_last_peeked ?s"
    using mem_buffer_okD(4)[OF ok] after_peek_simps(11)[of s "peeked limit s"] by linarith
  ultimately have "mem_buffer_ok ?s"
    using mem_buffer_okD[OF ok] unfolding mem_buffer_ok_def by simp
  then show ?thesis using ok by (simp add: run_mem_peek)
qed

lemma fold_drop_references: "fold drop_references ns d = filter (\<lambda>(_, k). k \<notin> set ns) d"
  by (induction ns arbitrary: d) (auto simp: drop_references_def intro!: filter_cong)

text \<open>The buffer once everything up to \<open>n\<close> is acknowledged.\<close>

definition acknowledged :: "int \<Rightarrow> mem_buffer \<Rightarrow> mem_buffer" where
  "acknowledged n s = s\<lparr>
     mb_events := filter (\<lambda>(k, _). \<not> k \<le> n) (mb_events s),
     mb_coalesce := filter (\<lambda>(_, k). \<not> k \<le> n) (mb_coalesce s),
     mb_marker := (case mb_marker s of Some m \<Rightarrow> if be_sequence_number m \<le> n then None else Some m | None \<Rightarrow> None),
     mb_last_acknowledged := n\<rparr>"

lemma contents_acknowledged:
  assumes "mem_buffer_ok s"
  shows "mem_contents (acknowledged n s) = filter (\<lambda>e. \<not> be_sequence_number e \<le> n) (mem_contents s)"
proof -
  have "map snd (filter (\<lambda>(k, _). \<not> k \<le> n) xs) = filter (\<lambda>e. \<not> be_sequence_number e \<le> n) (map snd xs)"
    if "\<And>x. x \<in> set xs \<Longrightarrow> be_sequence_number (snd x) = fst x" for xs
    using that by (induction xs) auto
  from this[OF mem_buffer_okD(7)[OF assms]] show ?thesis
    by (simp add: mem_contents_def acknowledged_def split: option.splits)
qed

lemma count_acknowledged:
  assumes "mem_buffer_ok s"
  shows "int (length (filter (\<lambda>k. k \<le> n) (map fst (mb_events s)))) +
      (if (case mb_marker s of None \<Rightarrow> False | Some m \<Rightarrow> be_sequence_number m \<le> n) then 1 else 0) =
    int (length (filter (\<lambda>e. be_sequence_number e \<le> n) (mem_contents s)))"
proof -
  have "length (filter (\<lambda>k. k \<le> n) (map fst xs)) = length (filter (\<lambda>e. be_sequence_number e \<le> n) (map snd xs))"
    if "\<And>x. x \<in> set xs \<Longrightarrow> be_sequence_number (snd x) = fst x" for xs :: "(int \<times> buffered_event) list"
    using that by (induction xs) auto
  from this[OF mem_buffer_okD(7)[OF assms]] show ?thesis
    by (simp add: mem_contents_def split: option.splits)
qed

lemma run_mem_acknowledge:
  assumes ok: "mem_buffer_ok s"
  shows "mem_acknowledge n s =
    (if n < 0 then (Inl ValueError, s)
     else if n \<le> mb_last_acknowledged s then (Inr 0, s)
     else if mb_last_peeked s < n then (Inl ValueError, s)
     else (Inr (int (length (filter (\<lambda>e. be_sequence_number e \<le> n) (mem_contents s)))), acknowledged n s))"
proof -
  have "filter (\<lambda>(_, k). k \<notin> set (sort (filter (\<lambda>k. k \<le> n) (map fst (mb_events s))))) (mb_coalesce s) =
      filter (\<lambda>(_, k). \<not> k \<le> n) (mb_coalesce s)"
    using mem_buffer_okD(12)[OF ok] by (intro filter_cong) force+
  then show ?thesis
    using count_acknowledged[OF ok, of n]
    by (auto simp: mem_acknowledge_def runM Let_def fold_drop_references acknowledged_def split: option.splits)
qed

lemma ok_acknowledged:
  assumes ok: "mem_buffer_ok s" and n: "mb_last_acknowledged s < n" "n \<le> mb_last_peeked s"
  shows "mem_buffer_ok (acknowledged n s)"
proof -
  let ?s = "acknowledged n s"
  have kept: "kept ?s e" if "e \<in> set (mem_contents ?s)" for e
    using that mem_buffer_okD(8)[OF ok, of e] unfolding contents_acknowledged[OF ok]
    by (simp add: kept_def acknowledged_def)
  have same: "mb_events ?s = filter (\<lambda>(k, _). \<not> k \<le> n) (mb_events s)"
    "mb_coalesce ?s = filter (\<lambda>(_, k). \<not> k \<le> n) (mb_coalesce s)" "mb_capacity ?s = mb_capacity s"
    "mb_last_acknowledged ?s = n" "mb_last_peeked ?s = mb_last_peeked s"
    "mb_next_sequence ?s = mb_next_sequence s" "mb_dropped ?s = mb_dropped s"
    "mb_coalesced_progress ?s = mb_coalesced_progress s"
    by (simp_all add: acknowledged_def)
  have "length (mb_events ?s) \<le> length (mb_events s)" by (simp add: same)
  then have fit: "int (length (mb_events ?s)) \<le> mb_capacity s" using mem_buffer_okD(2)[OF ok] by linarith
  have fresh: "be_sequence_number m \<notin> fst ` set (mb_events ?s)" if "mb_marker ?s = Some m" for m
  proof -
    have "mb_marker s = Some m" using that by (auto simp: acknowledged_def split: option.splits if_splits)
    from mem_buffer_okD(9)[OF ok this] show ?thesis by (auto simp: same)
  qed
  have seq: "be_sequence_number (snd x) = fst x" if "x \<in> set (mb_events ?s)" for x
    using that mem_buffer_okD(7)[OF ok] by (auto simp: same)
  have keys: "distinct (map fst (mb_events ?s))" "distinct (map fst (mb_coalesce ?s))" "distinct (map snd (mb_coalesce ?s))"
    using mem_buffer_okD(6,10,11)[OF ok] by (simp_all add: same distinct_map_filter)
  have refs: "snd ` set (mb_coalesce ?s) \<subseteq> fst ` set (mb_events ?s)"
    using mem_buffer_okD(12)[OF ok] by (force simp: same)
  show ?thesis
    unfolding mem_buffer_ok_def
    using kept fit fresh seq keys refs n mem_buffer_okD(1,3,4,5,13,14)[OF ok] by (simp add: same)
qed

lemma ok_mem_acknowledge: "mem_buffer_ok s \<Longrightarrow> mem_buffer_ok (snd (mem_acknowledge n s))"
  by (simp add: run_mem_acknowledge ok_acknowledged)

lemma mem_buffer_init_ok: "mem_buffer_init a c = Inr s \<Longrightarrow> mem_buffer_ok s"
  by (auto simp: mem_buffer_init_def mem_buffer_ok_def mem_contents_def split: if_splits)

end
