(* ===== verification/DurableEvents.thy ===== *)
theory DurableEvents
  imports EventBuffer
begin

text \<open>
  The event buffer that survives a restart of the agent (\<open>SQLiteAgentEventBuffer\<close> in
  \<open>agent_runtime/sqlite_state.py\<close>), that it refines the reference buffer of \<open>EventBuffer\<close>, and what
  both promise.
\<close>

section \<open>The durable buffer\<close>

text \<open>
  Rows of \<open>agent_event_buffer\<close> are events, in the order they were inserted; reading a row back gives
  the event that was written, since its constructor validated it. The control state of an agent is
  one JSON object in \<open>agent_runtime_metadata\<close>; \<open>sb_state\<close> is the value of the agent's key. The
  order of the keys of an object, which \<open>_dump_json\<close> sorts, is not kept.
\<close>

record event_state =
  es_version :: int
  es_agent_id :: uuid
  es_capacity :: int
  es_next_sequence :: int
  es_last_acknowledged :: int
  es_last_peeked :: int
  es_dropped :: "event_priority \<Rightarrow> int"
  es_coalesced_progress :: int
  es_coalesce :: "(string \<times> int) list"
  es_marker_id :: "uuid option"
  es_known :: "(uuid \<times> buffered_event option) list"

record sql_buffer =
  sb_agent_id :: uuid
  sb_capacity :: int
  sb_rows :: "buffered_event list"
  sb_state :: "event_state option"

definition EVENT_STATE_VERSION :: int where
  "EVENT_STATE_VERSION = 1"

definition initial_event_state :: "uuid \<Rightarrow> int \<Rightarrow> event_state" where
  "initial_event_state agent_id capacity =
     \<lparr>es_version = EVENT_STATE_VERSION, es_agent_id = agent_id, es_capacity = capacity,
      es_next_sequence = 1, es_last_acknowledged = 0, es_last_peeked = 0, es_dropped = (\<lambda>_. 0),
      es_coalesced_progress = 0, es_coalesce = [], es_marker_id = None, es_known = []\<rparr>"

text \<open>The checks of \<open>_parse_event_state\<close>.\<close>

definition event_state_valid :: "uuid \<Rightarrow> event_state \<Rightarrow> bool" where
  "event_state_valid agent_id st \<longleftrightarrow>
     es_version st = EVENT_STATE_VERSION \<and> es_agent_id st = agent_id \<and>
     1 \<le> es_capacity st \<and> 1 \<le> es_next_sequence st \<and> 0 \<le> es_last_acknowledged st \<and>
     0 \<le> es_last_peeked st \<and> 0 \<le> es_coalesced_progress st \<and>
     es_last_acknowledged st \<le> es_last_peeked st \<and>
     list_all (\<lambda>p. 0 \<le> es_dropped st p) [PrProgress, PrState, PrFailure, PrTerminal] \<and>
     list_all (\<lambda>(_, n). 1 \<le> n) (es_coalesce st)"

definition parse_event_state :: "event_state \<Rightarrow> (sql_buffer, event_state) io" where
  "parse_event_state st =
     bindM (getsM sb_agent_id) (\<lambda>agent_id.
     if event_state_valid agent_id st then returnM st else raiseM ValueError)"

definition save_state :: "event_state \<Rightarrow> (sql_buffer, unit) io" where
  "save_state st = modifyM (\<lambda>s. s\<lparr>sb_state := Some st\<rparr>)"

definition load_state :: "(sql_buffer, event_state) io" where
  "load_state =
     bindM (getsM sb_state) (\<lambda>row.
     case row of
       None \<Rightarrow> raiseM RuntimeError
     | Some raw \<Rightarrow>
         bindM (parse_event_state raw) (\<lambda>st.
         bindM (getsM sb_capacity) (\<lambda>capacity.
         if es_capacity st \<noteq> capacity then raiseM ValueError else returnM st)))"

definition own_rows :: "sql_buffer \<Rightarrow> buffered_event list" where
  "own_rows s = filter (\<lambda>e. be_agent_id e = sb_agent_id s) (sb_rows s)"

text \<open>\<open>_restore_dropped_from_marker\<close>.\<close>

definition restored_counter :: "payload \<Rightarrow> string \<Rightarrow> error + int" where
  "restored_counter payload field =
     (case map_of payload field of
        None \<Rightarrow> Inr 0
      | Some (JInt i) \<Rightarrow> if i < 0 then Inl ValueError else Inr i
      | Some _ \<Rightarrow> Inl ValueError)"

definition restore_dropped :: "buffered_event \<Rightarrow> event_state \<Rightarrow> (sql_buffer, event_state) io" where
  "restore_dropped marker st =
     bindM (liftE (restored_counter (be_payload marker) ''dropped_progress'')) (\<lambda>progress.
     bindM (liftE (restored_counter (be_payload marker) ''dropped_state'')) (\<lambda>state.
     bindM (liftE (restored_counter (be_payload marker) ''dropped_failure'')) (\<lambda>failure.
     bindM (liftE (restored_counter (be_payload marker) ''dropped_terminal'')) (\<lambda>terminal.
     returnM (st\<lparr>es_dropped := (\<lambda>p. case p of PrProgress \<Rightarrow> progress | PrState \<Rightarrow> state
        | PrFailure \<Rightarrow> failure | PrTerminal \<Rightarrow> terminal)\<rparr>)))))"

definition restore_event :: "buffered_event \<Rightarrow> event_state \<Rightarrow> (sql_buffer, event_state) io" where
  "restore_event e st =
     (let known = st\<lparr>es_known := dict_set (be_id e) (Some e) (es_known st)\<rparr>
      in if be_event_type e = EVENT_BUFFER_OVERFLOW
         then restore_dropped e (known\<lparr>es_marker_id := Some (be_id e)\<rparr>)
         else if be_priority e = PrProgress
         then returnM (known\<lparr>es_coalesce := dict_set
                (default_progress_key (be_event_type e) (be_payload e)) (be_sequence_number e) (es_coalesce known)\<rparr>)
         else returnM known)"

definition load_or_initialize_state :: "(sql_buffer, event_state) io" where
  "load_or_initialize_state =
     bindM (getsM sb_state) (\<lambda>row.
     case row of
       Some raw \<Rightarrow> parse_event_state raw
     | None \<Rightarrow>
         bindM (getsM (\<lambda>s. initial_event_state (sb_agent_id s) (sb_capacity s))) (\<lambda>fresh.
         bindM (getsM (\<lambda>s. order_by be_sequence_number (own_rows s))) (\<lambda>events.
         bindM (if events = [] then returnM fresh
                else foldM restore_event events
                  (fresh\<lparr>es_next_sequence := be_sequence_number (last events) + 1\<rparr>)) (\<lambda>st.
         bindM (save_state st) (\<lambda>_. returnM st)))))"

text \<open>The constructor.\<close>

definition sql_open :: "(sql_buffer, unit) io" where
  "sql_open =
     bindM (getsM sb_capacity) (\<lambda>capacity.
     if capacity < 1 then raiseM ValueError
     else transactionM
       (bindM load_or_initialize_state (\<lambda>st.
        if es_capacity st \<noteq> capacity then raiseM ValueError else returnM ())))"

text \<open>\<open>PRIMARY KEY (id)\<close>, \<open>UNIQUE (agent_id, sequence_number)\<close>, \<open>CHECK (sequence_number > 0)\<close>.\<close>

definition event_row_rejected :: "buffered_event \<Rightarrow> buffered_event list \<Rightarrow> bool" where
  "event_row_rejected e rows \<longleftrightarrow> be_sequence_number e \<le> 0 \<or>
     list_ex (\<lambda>x. be_id x = be_id e \<or>
       be_agent_id x = be_agent_id e \<and> be_sequence_number x = be_sequence_number e) rows"

definition insert_event_row :: "buffered_event \<Rightarrow> (sql_buffer, unit) io" where
  "insert_event_row e = (\<lambda>s. if event_row_rejected e (sb_rows s) then (Inl IntegrityError, s)
     else (Inr (), s\<lparr>sb_rows := sb_rows s @ [e]\<rparr>))"

definition delete_event_rows :: "(buffered_event \<Rightarrow> bool) \<Rightarrow> (sql_buffer, int) io" where
  "delete_event_rows P = (\<lambda>s. (Inr (int (length (filter P (sb_rows s)))),
     s\<lparr>sb_rows := filter (\<lambda>e. \<not> P e) (sb_rows s)\<rparr>))"

text \<open>The rows that are not the marker.\<close>

definition ordinary_rows :: "event_state \<Rightarrow> sql_buffer \<Rightarrow> buffered_event list" where
  "ordinary_rows st s = filter (\<lambda>e. Some (be_id e) \<noteq> es_marker_id st) (own_rows s)"

definition ordinary_event_count :: "event_state \<Rightarrow> (sql_buffer, int) io" where
  "ordinary_event_count st = getsM (\<lambda>s. int (length (ordinary_rows st s)))"

definition lowest_priority_event :: "event_state \<Rightarrow> (sql_buffer, buffered_event option) io" where
  "lowest_priority_event st = getsM (\<lambda>s. first_row (order_by eviction_key (ordinary_rows st s)))"

definition overflow_sequence :: "event_state \<Rightarrow> (sql_buffer, int option) io" where
  "overflow_sequence st = getsM (\<lambda>s.
     case es_marker_id st of None \<Rightarrow> None
     | Some i \<Rightarrow> map_option be_sequence_number (first_row (filter (\<lambda>e. be_id e = i) (own_rows s))))"

definition sql_record_overflow :: "event_priority \<Rightarrow> draws \<Rightarrow> event_state \<Rightarrow> (sql_buffer, event_state) io" where
  "sql_record_overflow p dr st0 =
     (let dropped = (es_dropped st0)(p := es_dropped st0 p + 1);
          st = st0\<lparr>es_dropped := dropped\<rparr>
      in bindM (getsM id) (\<lambda>s.
      case es_marker_id st of
        None \<Rightarrow>
          let marker = overflow_marker dr (sb_agent_id s) (es_next_sequence st) dropped
          in bindM (insert_event_row marker) (\<lambda>_.
             returnM (st\<lparr>es_next_sequence := es_next_sequence st + 1, es_marker_id := Some (be_id marker),
               es_known := dict_set (be_id marker) (Some marker) (es_known st)\<rparr>))
      | Some i \<Rightarrow>
          (case first_row (filter (\<lambda>e. be_id e = i) (own_rows s)) of
             None \<Rightarrow> raiseM RuntimeError
           | Some row \<Rightarrow>
               let marker = row\<lparr>be_payload := overflow_payload dropped\<rparr>
               in bindM (modifyM (\<lambda>s. s\<lparr>sb_rows := update_where (\<lambda>e. be_id e = be_id marker)
                    (\<lambda>e. e\<lparr>be_payload := overflow_payload dropped\<rparr>) (sb_rows s)\<rparr>)) (\<lambda>_.
                  returnM (st\<lparr>es_known := dict_set (be_id marker) (Some marker) (es_known st)\<rparr>)))))"

definition sql_coalesce :: "string option \<Rightarrow> event_state \<Rightarrow> (sql_buffer, event_state) io" where
  "sql_coalesce key st =
     (case key of None \<Rightarrow> returnM st
      | Some k \<Rightarrow>
          (case map_of (es_coalesce st) k of
             None \<Rightarrow> returnM st
           | Some n \<Rightarrow>
               bindM (getsM sb_agent_id) (\<lambda>agent_id.
               bindM (delete_event_rows (\<lambda>e. be_agent_id e = agent_id \<and> be_sequence_number e = n)) (\<lambda>deleted.
               returnM (st\<lparr>
                 es_coalesced_progress := es_coalesced_progress st + (if deleted = 1 then 1 else 0),
                 es_coalesce := filter (\<lambda>(k', _). k' \<noteq> k) (es_coalesce st)\<rparr>)))))"

text \<open>\<open>None\<close> when the event itself is dropped.\<close>

definition sql_make_room :: "uuid \<Rightarrow> event_priority \<Rightarrow> draws \<Rightarrow> event_state \<Rightarrow> (sql_buffer, bool \<times> event_state) io" where
  "sql_make_room identifier p dr st =
     bindM (ordinary_event_count st) (\<lambda>count.
     bindM (getsM sb_capacity) (\<lambda>capacity.
     if count < capacity then returnM (True, st)
     else
       bindM (lowest_priority_event st) (\<lambda>candidate.
       case candidate of
         None \<Rightarrow> raiseM RuntimeError
       | Some e \<Rightarrow>
           if be_priority e < p then
             bindM (delete_event_rows (\<lambda>x. be_id x = be_id e)) (\<lambda>_.
             bindM (sql_record_overflow (be_priority e) dr
                (st\<lparr>es_coalesce := drop_references (be_sequence_number e) (es_coalesce st)\<rparr>)) (\<lambda>st'.
             returnM (True, st')))
           else
             bindM (sql_record_overflow p dr (st\<lparr>es_known := dict_set identifier None (es_known st)\<rparr>)) (\<lambda>st'.
             bindM (save_state st') (\<lambda>_. returnM (False, st'))))))"

definition sql_store_event :: "string option \<Rightarrow> buffered_event \<Rightarrow> event_state \<Rightarrow> (sql_buffer, unit) io" where
  "sql_store_event key event st =
     bindM (catchM (insert_event_row event)
        (\<lambda>exc. if exc = IntegrityError then raiseM ValueError else raiseM exc)) (\<lambda>_.
     save_state (st\<lparr>es_known := dict_set (be_id event) (Some event) (es_known st),
       es_coalesce := (case key of None \<Rightarrow> es_coalesce st
                       | Some k \<Rightarrow> dict_set k (be_sequence_number event) (es_coalesce st))\<rparr>))"

definition sql_append :: "append_request \<Rightarrow> draws \<Rightarrow> (sql_buffer, buffered_event option) io" where
  "sql_append q dr =
     transactionM
       (bindM load_state (\<lambda>st.
        case map_of (es_known st) (request_identifier q dr) of
          Some outcome \<Rightarrow> returnM outcome
        | None \<Rightarrow>
            bindM (getsM sb_agent_id) (\<lambda>agent_id.
            bindM (liftE (make_buffered_event (requested_event q dr agent_id (es_next_sequence st)))) (\<lambda>event.
            bindM (sql_coalesce (progress_key q) (st\<lparr>es_next_sequence := es_next_sequence st + 1\<rparr>)) (\<lambda>st1.
            bindM (sql_make_room (request_identifier q dr) (ar_priority q) dr st1) (\<lambda>(room, st2).
            if room then bindM (sql_store_event (progress_key q) event st2) (\<lambda>_. returnM (Some event))
            else returnM None))))))"

definition sql_peek :: "int \<Rightarrow> (sql_buffer, buffered_event list) io" where
  "sql_peek limit =
     (if limit < 1 then raiseM ValueError
      else transactionM
        (bindM load_state (\<lambda>st.
         bindM (getsM (\<lambda>s. limit_rows limit (order_by be_sequence_number (own_rows s)))) (\<lambda>events.
         bindM (if events = [] then returnM ()
                else save_state (st\<lparr>es_last_peeked :=
                  max (es_last_peeked st) (be_sequence_number (last events))\<rparr>)) (\<lambda>_.
         returnM events)))))"

definition sql_acknowledge :: "int \<Rightarrow> (sql_buffer, int) io" where
  "sql_acknowledge n =
     (if n < 0 then raiseM ValueError
      else transactionM
        (bindM load_state (\<lambda>st.
         if n \<le> es_last_acknowledged st then returnM 0
         else if es_last_peeked st < n then raiseM ValueError
         else
           bindM (overflow_sequence st) (\<lambda>marker_sequence.
           bindM (getsM sb_agent_id) (\<lambda>agent_id.
           bindM (delete_event_rows (\<lambda>e. be_agent_id e = agent_id \<and> be_sequence_number e \<le> n)) (\<lambda>count.
           bindM (save_state (st\<lparr>
              es_coalesce := filter (\<lambda>(_, k). \<not> k \<le> n) (es_coalesce st),
              es_marker_id := (case marker_sequence of
                 Some m \<Rightarrow> if m \<le> n then None else es_marker_id st | None \<Rightarrow> es_marker_id st),
              es_last_acknowledged := n\<rparr>)) (\<lambda>_.
           returnM count)))))))"

definition sql_stats :: "(sql_buffer, buffer_stats) io" where
  "sql_stats =
     transactionM
       (bindM load_state (\<lambda>st.
        bindM (getsM (\<lambda>s. int (length (own_rows s)))) (\<lambda>buffered.
        bindM (ordinary_event_count st) (\<lambda>ordinary.
        returnM \<lparr>bs_buffered_events = buffered, bs_buffered_data_events = ordinary,
          bs_last_issued_sequence = es_next_sequence st - 1,
          bs_last_acknowledged_sequence = es_last_acknowledged st,
          bs_dropped = es_dropped st, bs_coalesced_progress = es_coalesced_progress st\<rparr>))))"

section \<open>The durable buffer refines the reference buffer\<close>

text \<open>The control state and the rows that represent a buffer.\<close>

definition state_agrees :: "mem_buffer \<Rightarrow> event_state \<Rightarrow> bool" where
  "state_agrees m st \<longleftrightarrow> es_version st = EVENT_STATE_VERSION \<and> es_agent_id st = mb_agent_id m \<and>
     es_capacity st = mb_capacity m \<and> es_next_sequence st = mb_next_sequence m \<and>
     es_last_acknowledged st = mb_last_acknowledged m \<and> es_last_peeked st = mb_last_peeked m \<and>
     es_dropped st = mb_dropped m \<and> es_coalesced_progress st = mb_coalesced_progress m \<and>
     map_of (es_known st) = map_of (mb_known m) \<and> distinct (map fst (es_coalesce st)) \<and>
     map_of (es_coalesce st) = map_of (mb_coalesce m) \<and> es_marker_id st = map_option be_id (mb_marker m)"

definition rows_agree :: "mem_buffer \<Rightarrow> buffered_event list \<Rightarrow> bool" where
  "rows_agree m rows \<longleftrightarrow> (\<forall>e \<in> set rows. be_agent_id e = mb_agent_id m) \<and>
     filter (\<lambda>e. Some (be_id e) \<noteq> map_option be_id (mb_marker m)) rows = map snd (mb_events m) \<and>
     (\<forall>k. mb_marker m = Some k \<longrightarrow> filter (\<lambda>e. be_id e = be_id k) rows = [k])"

definition in_step :: "mem_buffer \<Rightarrow> sql_buffer \<Rightarrow> event_state \<Rightarrow> bool" where
  "in_step m s st \<longleftrightarrow> sb_agent_id s = mb_agent_id m \<and> sb_capacity s = mb_capacity m \<and>
     rows_agree m (sb_rows s) \<and> state_agrees m st"

definition same_buffer :: "mem_buffer \<Rightarrow> sql_buffer \<Rightarrow> bool" where
  "same_buffer m s \<longleftrightarrow> mem_buffer_ok m \<and> (\<exists>st. sb_state s = Some st \<and> in_step m s st)"

definition buffers_agree :: "(error + 'a) \<times> mem_buffer \<Rightarrow> (error + 'a) \<times> sql_buffer \<Rightarrow> bool" where
  "buffers_agree x y \<longleftrightarrow> fst x = fst y \<and> same_buffer (snd x) (snd y)"

lemma rows_agreeI:
  assumes "\<forall>e \<in> set rows. be_agent_id e = mb_agent_id m"
    and "filter (\<lambda>e. Some (be_id e) \<noteq> map_option be_id (mb_marker m)) rows = map snd (mb_events m)"
    and "\<And>k. mb_marker m = Some k \<Longrightarrow> filter (\<lambda>e. be_id e = be_id k) rows = [k]"
  shows "rows_agree m rows"
  using assms by (simp add: rows_agree_def)

lemma in_stepD:
  assumes "in_step m s st"
  shows "sb_agent_id s = mb_agent_id m" "sb_capacity s = mb_capacity m"
    "\<And>e. e \<in> set (sb_rows s) \<Longrightarrow> be_agent_id e = mb_agent_id m"
    "filter (\<lambda>e. Some (be_id e) \<noteq> map_option be_id (mb_marker m)) (sb_rows s) = map snd (mb_events m)"
    "\<And>k. mb_marker m = Some k \<Longrightarrow> filter (\<lambda>e. be_id e = be_id k) (sb_rows s) = [k]"
    "state_agrees m st"
  using assms by (simp_all add: in_step_def rows_agree_def)

lemma state_agreesD:
  assumes "state_agrees m st"
  shows "es_capacity st = mb_capacity m" "es_next_sequence st = mb_next_sequence m"
    "es_last_acknowledged st = mb_last_acknowledged m" "es_last_peeked st = mb_last_peeked m"
    "es_dropped st = mb_dropped m" "es_coalesced_progress st = mb_coalesced_progress m"
    "map_of (es_known st) = map_of (mb_known m)" "map_of (es_coalesce st) = map_of (mb_coalesce m)"
    "es_marker_id st = map_option be_id (mb_marker m)" "distinct (map fst (es_coalesce st))"
  using assms by (simp_all add: state_agrees_def)

lemma step_own_rows: "in_step m s st \<Longrightarrow> own_rows s = sb_rows s"
  by (auto simp: own_rows_def in_step_def rows_agree_def)

lemma step_ordinary: "in_step m s st \<Longrightarrow> ordinary_rows st s = map snd (mb_events m)"
  using in_stepD(4)[of m s st] by (simp add: ordinary_rows_def step_own_rows state_agreesD(9)[OF in_stepD(6)])

lemma mset_filter_split: "mset (filter P xs) + mset (filter (\<lambda>x. \<not> P x) xs) = mset xs"
  by (induction xs) simp_all

lemma step_mset:
  assumes "in_step m s st"
  shows "mset (sb_rows s) = mset (mem_contents m)"
proof -
  let ?P = "\<lambda>e. Some (be_id e) \<noteq> map_option be_id (mb_marker m)"
  have "filter (\<lambda>e. \<not> ?P e) (sb_rows s) = (case mb_marker m of None \<Rightarrow> [] | Some k \<Rightarrow> [k])"
    using in_stepD(5)[OF assms] by (auto split: option.splits)
  then have "mset (filter ?P (sb_rows s)) + mset (filter (\<lambda>e. \<not> ?P e) (sb_rows s)) = mset (mem_contents m)"
    using in_stepD(4)[OF assms] by (simp add: mem_contents_def)
  moreover have "mset (filter ?P (sb_rows s)) + mset (filter (\<lambda>e. \<not> ?P e) (sb_rows s)) = mset (sb_rows s)"
    by (rule mset_filter_split)
  ultimately show ?thesis by simp
qed

lemma step_set: "in_step m s st \<Longrightarrow> set (sb_rows s) = set (mem_contents m)"
  by (metis mset_eq_setD step_mset)

lemma step_count: "in_step m s st \<Longrightarrow> length (filter P (sb_rows s)) = length (filter P (mem_contents m))"
  by (metis mset_filter size_mset step_mset)

lemma distinct_contents:
  assumes ok: "mem_buffer_ok m"
  shows "distinct (map be_sequence_number (mem_contents m))"
proof -
  have "map be_sequence_number (map snd (mb_events m)) = map fst (mb_events m)"
    using mem_buffer_okD(7)[OF ok] by simp
  then have "map be_sequence_number (mem_contents m) =
      map fst (mb_events m) @ (case mb_marker m of None \<Rightarrow> [] | Some k \<Rightarrow> [be_sequence_number k])"
    by (simp add: mem_contents_def split: option.splits)
  then show ?thesis
    using mem_buffer_okD(6,9)[OF ok] by (simp split: option.splits)
qed

lemma step_order:
  assumes ok: "mem_buffer_ok m" and "in_step m s st"
  shows "order_by be_sequence_number (sb_rows s) = order_by be_sequence_number (mem_contents m)"
proof -
  have "inj_on be_sequence_number (set (sb_rows s))"
    using distinct_contents[OF ok] step_set[OF assms(2)] by (simp add: distinct_map)
  then show ?thesis
    unfolding order_by_def by (intro sort_key_inj_key_eq) (use step_mset[OF assms(2)] in simp_all)
qed

text \<open>The control state that represents a buffer passes the checks of a load.\<close>

lemma state_agrees_valid:
  assumes ok: "mem_buffer_ok m" and st: "state_agrees m st"
  shows "event_state_valid (mb_agent_id m) st"
proof -
  have "1 \<le> v" if "(k, v) \<in> set (es_coalesce st)" for k v
  proof -
    have "map_of (mb_coalesce m) k = Some v"
      using that state_agreesD(8,10)[OF st] by (metis map_of_is_SomeI)
    then have "v \<in> fst ` set (mb_events m)" using mem_buffer_okD(12)[OF ok] by (force dest: map_of_SomeD)
    then obtain x where "x \<in> set (mb_events m)" "v = fst x" by blast
    then show ?thesis
      using kept_event[OF ok] mem_buffer_okD(3,7)[OF ok] by (fastforce simp: kept_def)
  qed
  then have "list_all (\<lambda>(_, n). 1 \<le> n) (es_coalesce st)" by (auto simp: list_all_iff)
  then show ?thesis
    using st mem_buffer_okD[OF ok] by (simp add: event_state_valid_def state_agrees_def)
qed

lemma run_load_state:
  assumes "mem_buffer_ok m" and "sb_state s = Some st" and "in_step m s st"
  shows "load_state s = (Inr st, s)"
  using assms state_agrees_valid[OF assms(1) in_stepD(6)[OF assms(3)]]
  by (simp add: load_state_def parse_event_state_def runM in_step_def state_agrees_def)

text \<open>One lemma for each change that an operation is made of.\<close>

lemma step_bumped: "in_step m s st \<Longrightarrow> in_step (bumped m) s (st\<lparr>es_next_sequence := es_next_sequence st + 1\<rparr>)"
  by (simp add: in_step_def state_agrees_def rows_agree_def)

lemma step_refused:
  "in_step m s st \<Longrightarrow> in_step (refused i m) s (st\<lparr>es_known := dict_set i None (es_known st)\<rparr>)"
  by (simp add: in_step_def state_agrees_def rows_agree_def refused_def dict_set_map_of)

lemma map_of_drop_references:
  "distinct (map fst d) \<Longrightarrow>
   map_of (drop_references n d) k = (case map_of d k of Some v \<Rightarrow> if v \<noteq> n then Some v else None | None \<Rightarrow> None)"
  by (simp add: drop_references_def map_of_filter_value)

lemma step_discarded:
  assumes ok: "mem_buffer_ok m" and st: "in_step m s st" and n: "n \<in> fst ` set (mb_events m)"
  shows "in_step (discarded n m) (s\<lparr>sb_rows := filter (\<lambda>e. be_sequence_number e \<noteq> n) (sb_rows s)\<rparr>)
      (st\<lparr>es_coalesce := drop_references n (es_coalesce st)\<rparr>)"
proof -
  have ev: "filter (\<lambda>e. be_sequence_number e \<noteq> n) (map snd xs) = map snd (filter (\<lambda>(k, _). k \<noteq> n) xs)"
    if "\<And>x. x \<in> set xs \<Longrightarrow> be_sequence_number (snd x) = fst x" for xs
    using that by (induction xs) auto
  let ?rows = "filter (\<lambda>e. be_sequence_number e \<noteq> n) (sb_rows s)"
  have swap: "filter P ?rows = filter (\<lambda>e. be_sequence_number e \<noteq> n) (filter P (sb_rows s))" for P
    by (simp add: conj_commute)
  have ordinary: "filter (\<lambda>e. Some (be_id e) \<noteq> map_option be_id (mb_marker m)) ?rows = map snd (mb_events (discarded n m))"
    unfolding swap in_stepD(4)[OF st] using ev[OF mem_buffer_okD(7)[OF ok]] by simp
  have marker: "filter (\<lambda>e. be_id e = be_id k) ?rows = [k]" if "mb_marker m = Some k" for k
  proof -
    have "be_sequence_number k \<noteq> n" using mem_buffer_okD(9)[OF ok that] n by auto
    then show ?thesis unfolding swap in_stepD(5)[OF st that] by simp
  qed
  have rows: "rows_agree (discarded n m) ?rows"
    using in_stepD(3)[OF st] ordinary marker unfolding rows_agree_def discarded_simps(1,4) by simp
  have refs: "map_of (drop_references n (es_coalesce st)) = map_of (drop_references n (mb_coalesce m))"
    using state_agreesD(8,10)[OF in_stepD(6)[OF st]] mem_buffer_okD(10)[OF ok]
    by (simp add: fun_eq_iff map_of_drop_references)
  have "distinct (map fst (drop_references n (es_coalesce st)))"
    using state_agreesD(10)[OF in_stepD(6)[OF st]] by (simp add: drop_references_def distinct_map_filter)
  then show ?thesis
    using st rows refs by (simp add: in_step_def state_agrees_def)
qed

lemma step_overflowed:
  assumes ok: "mem_buffer_ok m" and fresh: "dr_marker_id dr \<notin> fst ` set (mb_known m)" and st: "in_step m s st"
  obtains s' st' where "sql_record_overflow p dr st s = (Inr st', s')" "in_step (overflowed p dr m) s' st'"
proof (cases "mb_marker m")
  case None
  let ?k = "overflow_marker dr (mb_agent_id m) (mb_next_sequence m) ((mb_dropped m)(p := mb_dropped m p + 1))"
  have other: "be_id e \<noteq> be_id ?k \<and> be_sequence_number e < mb_next_sequence m" if "e \<in> set (sb_rows s)" for e
  proof -
    have "kept m e" using that step_set[OF st] mem_buffer_okD(8)[OF ok] by simp
    moreover have "be_id e \<noteq> dr_marker_id dr" using in_known[OF calculation] fresh by metis
    ultimately show ?thesis by (simp add: kept_def)
  qed
  then have acc: "\<not> event_row_rejected ?k (sb_rows s)"
    using mem_buffer_okD(3,4,5)[OF ok] by (fastforce simp: event_row_rejected_def list_ex_iff overflow_marker_def)
  have "filter (\<lambda>e. be_id e \<noteq> be_id ?k) (sb_rows s) = map snd (mb_events m)"
    using in_stepD(4)[OF st] None other by simp
  moreover have "filter (\<lambda>e. be_id e = be_id ?k) (sb_rows s) = []" using other by simp
  ultimately have "rows_agree (overflowed p dr m) (sb_rows s @ [?k])"
    using in_stepD(3)[OF st] None
    by (simp add: rows_agree_def overflowed_def Let_def overflow_marker_def)
  then show ?thesis
    using None st acc state_agreesD[OF in_stepD(6)[OF st]] in_stepD(1)[OF st]
    by (intro that) (auto simp: sql_record_overflow_def runM Let_def insert_event_row_def in_step_def state_agrees_def
        overflowed_def dict_set_map_of)
next
  case (Some old)
  let ?p = "overflow_payload ((mb_dropped m)(p := mb_dropped m p + 1))"
  let ?f = "\<lambda>e. if be_id e = be_id old then e\<lparr>be_payload := ?p\<rparr> else e"
  have own: "first_row (filter (\<lambda>e. be_id e = be_id old) (own_rows s)) = Some old"
    using in_stepD(5)[OF st Some] by (simp add: step_own_rows[OF st])
  have keep: "filter (\<lambda>e. Q (be_id e)) (map ?f xs) = map ?f (filter (\<lambda>e. Q (be_id e)) xs)" for Q xs
    by (induction xs) auto
  have same: "map ?f (filter (\<lambda>e. be_id e \<noteq> be_id old) xs) = filter (\<lambda>e. be_id e \<noteq> be_id old) xs" for xs
    by (induction xs) auto
  have agents: "be_agent_id e = mb_agent_id m" if "e \<in> set (map ?f (sb_rows s))" for e
    using that in_stepD(3)[OF st] by auto
  have "filter (\<lambda>e. be_id e \<noteq> be_id old) (map ?f (sb_rows s)) = map ?f (filter (\<lambda>e. be_id e \<noteq> be_id old) (sb_rows s))"
    by (rule keep)
  also have "\<dots> = filter (\<lambda>e. be_id e \<noteq> be_id old) (sb_rows s)" by (rule same)
  also have "\<dots> = map snd (mb_events m)" using in_stepD(4)[OF st] Some by simp
  finally have ordinary: "filter (\<lambda>e. be_id e \<noteq> be_id old) (map ?f (sb_rows s)) = map snd (mb_events m)" .
  have "filter (\<lambda>e. be_id e = be_id old) (map ?f (sb_rows s)) = map ?f (filter (\<lambda>e. be_id e = be_id old) (sb_rows s))"
    by (rule keep)
  also have "\<dots> = [old\<lparr>be_payload := ?p\<rparr>]" using in_stepD(5)[OF st Some] by simp
  finally have marker: "filter (\<lambda>e. be_id e = be_id old) (map ?f (sb_rows s)) = [old\<lparr>be_payload := ?p\<rparr>]" .
  have "mb_marker (overflowed p dr m) = Some (old\<lparr>be_payload := ?p\<rparr>)"
    using Some by (simp add: overflowed_def Let_def)
  then have "rows_agree (overflowed p dr m) (map ?f (sb_rows s))"
    using agents ordinary marker unfolding rows_agree_def overflowed_simps by (simp del: filter_map set_map)
  then show ?thesis
    using Some st own state_agreesD[OF in_stepD(6)[OF st]] in_stepD(1)[OF st]
    by (intro that) (auto simp: sql_record_overflow_def runM Let_def in_step_def state_agrees_def
        overflowed_def dict_set_map_of update_where_def)
qed

lemma step_stored:
  assumes kept: "\<And>x. x \<in> set (mem_contents m) \<Longrightarrow> kept m x" and pos: "0 \<le> mb_last_acknowledged m"
    and e: "storable_event m e" and new: "be_sequence_number e \<notin> fst ` set (mb_events m)" and st: "in_step m s st"
  obtains s' st' where "sql_store_event key e st s = (Inr (), s')" "sb_state s' = Some st'" "in_step (stored key e m) s' st'"
proof -
  have other: "be_id x \<noteq> be_id e \<and> be_sequence_number x \<noteq> be_sequence_number e" if "x \<in> set (sb_rows s)" for x
  proof -
    have x: "x \<in> set (mem_contents m)" using that step_set[OF st] by simp
    have "be_id x \<noteq> be_id e" using in_known[OF kept[OF x]] e by (metis storable_event_def)
    then show ?thesis using e x by (auto simp: storable_event_def)
  qed
  then have acc: "\<not> event_row_rejected e (sb_rows s)"
    using e pos by (auto simp: event_row_rejected_def list_ex_iff storable_event_def)
  have marker: "be_id k \<noteq> be_id e" if "mb_marker m = Some k" for k
    using that other step_set[OF st] by (auto simp: in_mem_contents)
  have agent: "be_agent_id e = mb_agent_id m" using e by (simp add: storable_event_def)
  have "rows_agree (stored key e m) (sb_rows s @ [e])"
    using in_stepD(3,4,5)[OF st] agent marker new
    by (cases "mb_marker m") (simp_all add: rows_agree_def stored_def dict_set_fresh)
  moreover have "map_of (case key of None \<Rightarrow> es_coalesce st | Some k \<Rightarrow> dict_set k (be_sequence_number e) (es_coalesce st)) =
      map_of (mb_coalesce (stored key e m))"
    using state_agreesD(8)[OF in_stepD(6)[OF st]] by (simp add: stored_def dict_set_map_of split: option.splits)
  moreover have "distinct (map fst (case key of None \<Rightarrow> es_coalesce st | Some k \<Rightarrow> dict_set k (be_sequence_number e) (es_coalesce st)))"
    using state_agreesD(10)[OF in_stepD(6)[OF st]] by (simp add: distinct_dict_set split: option.splits)
  ultimately show ?thesis
    using st acc
    by (intro that) (auto simp: sql_store_event_def save_state_def runM insert_event_row_def in_step_def state_agrees_def
        stored_def dict_set_map_of)
qed

lemma same_bufferE:
  assumes "same_buffer m s"
  obtains st where "mem_buffer_ok m" "sb_state s = Some st" "in_step m s st" "load_state s = (Inr st, s)"
    "state_agrees m st"
  using assms run_load_state by (auto simp: same_buffer_def in_step_def)

lemma step_coalesce_cong:
  assumes "in_step m s st" and "map_of (mb_coalesce m') = map_of (mb_coalesce m)"
    and "m' = m\<lparr>mb_coalesce := mb_coalesce m'\<rparr>"
  shows "in_step m' s st"
proof -
  obtain d where d: "m' = m\<lparr>mb_coalesce := d\<rparr>" "map_of d = map_of (mb_coalesce m)" using assms by metis
  show ?thesis using assms(1) by (simp add: d in_step_def state_agrees_def rows_agree_def)
qed

lemma map_of_drop_key: "map_of (filter (\<lambda>(k', _). k' \<noteq> k) d) = (map_of d)(k := None)"
  by (induction d) auto

lemma replaced_reference:
  assumes ok: "mem_buffer_ok m" and "map_of (mb_coalesce m) k = Some n"
  shows "drop_references n (mb_coalesce m) = filter (\<lambda>(k', _). k' \<noteq> k) (mb_coalesce m)"
proof -
  have kn: "(k, n) \<in> set (mb_coalesce m)" using assms(2) by (rule map_of_SomeD)
  have "(v \<noteq> n) = (k' \<noteq> k)" if "(k', v) \<in> set (mb_coalesce m)" for k' v
    using kn that mem_buffer_okD(10,11)[OF ok] by (metis Pair_inject distinct_map_eq fst_conv snd_conv)
  then show ?thesis unfolding drop_references_def by (intro filter_cong) auto
qed

text \<open>Coalescing removes the one row of the number and its reference.\<close>

lemma step_replaced:
  assumes ok: "mem_buffer_ok m" and st: "in_step m s st" and k: "map_of (mb_coalesce m) k = Some n"
  obtains s' st' where "sql_coalesce (Some k) st s = (Inr st', s')"
    "in_step ((discarded n m)\<lparr>mb_coalesced_progress := mb_coalesced_progress m + 1\<rparr>) s' st'"
proof -
  have n: "n \<in> fst ` set (mb_events m)" using k mem_buffer_okD(12)[OF ok] by (force dest: map_of_SomeD)
  then obtain x where x: "x \<in> set (mem_contents m)" "be_sequence_number x = n"
    using mem_buffer_okD(7)[OF ok] by (force simp: in_mem_contents)
  have "length (filter (\<lambda>e. be_sequence_number e = n) es) = 1"
    if "distinct (map be_sequence_number es)" "x \<in> set es" for es
    using that x(2) by (induction es) (auto simp: filter_empty_conv, metis image_eqI)
  from this[OF distinct_contents[OF ok] x(1)]
  have one: "length (filter (\<lambda>e. be_sequence_number e = n) (sb_rows s)) = 1" by (simp add: step_count[OF st])
  have agent: "filter (\<lambda>e. be_agent_id e = sb_agent_id s \<and> P e) (sb_rows s) = filter P (sb_rows s)"
    "filter (\<lambda>e. be_agent_id e = sb_agent_id s \<longrightarrow> P e) (sb_rows s) = filter P (sb_rows s)" for P
    using in_stepD(1,3)[OF st] by (auto intro: filter_cong)
  let ?s' = "s\<lparr>sb_rows := filter (\<lambda>e. be_sequence_number e \<noteq> n) (sb_rows s)\<rparr>"
  let ?st' = "st\<lparr>es_coalesced_progress := es_coalesced_progress st + 1,
    es_coalesce := filter (\<lambda>(k', _). k' \<noteq> k) (es_coalesce st)\<rparr>"
  have es: "map_of (es_coalesce st) k = Some n" using k state_agreesD(8)[OF in_stepD(6)[OF st]] by simp
  then have run: "sql_coalesce (Some k) st s = (Inr ?st', ?s')"
    using one by (simp add: sql_coalesce_def runM delete_event_rows_def agent)
  have refs: "map_of (filter (\<lambda>(k', _). k' \<noteq> k) (es_coalesce st)) = map_of (drop_references n (mb_coalesce m))"
    unfolding replaced_reference[OF ok k] using state_agreesD(8)[OF in_stepD(6)[OF st]]
    by (simp add: map_of_drop_key)
  have "distinct (map fst (filter (\<lambda>(k', _). k' \<noteq> k) (es_coalesce st)))"
    using state_agreesD(10)[OF in_stepD(6)[OF st]] by (simp add: distinct_map_filter)
  then have "in_step ((discarded n m)\<lparr>mb_coalesced_progress := mb_coalesced_progress m + 1\<rparr>) ?s' ?st'"
    using step_discarded[OF ok st n] refs by (simp add: in_step_def state_agrees_def rows_agree_def)
  with run show thesis by (rule that)
qed

lemma sql_append_new:
  assumes "load_state s = (Inr st, s)" and "map_of (es_known st) (request_identifier q dr) = None"
    and "make_buffered_event (requested_event q dr (sb_agent_id s) (es_next_sequence st)) = Inr e"
  shows "sql_append q dr s = transactionM
    (bindM (sql_coalesce (progress_key q) (st\<lparr>es_next_sequence := es_next_sequence st + 1\<rparr>)) (\<lambda>st1.
     bindM (sql_make_room (request_identifier q dr) (ar_priority q) dr st1) (\<lambda>(room, st2).
     if room then bindM (sql_store_event (progress_key q) e st2) (\<lambda>_. returnM (Some e))
     else returnM None))) s"
  using assms by (simp add: sql_append_def runM)

lemma no_replacement:
  assumes "\<nexists>k n. replaces q m k n" and "in_step m s st"
  shows "sql_coalesce (progress_key q) (st\<lparr>es_next_sequence := x\<rparr>) s = (Inr (st\<lparr>es_next_sequence := x\<rparr>), s)"
  using assms state_agreesD(8)[OF in_stepD(6)[OF assms(2)]]
  by (auto simp: sql_coalesce_def replaces_def runM split: option.splits)

lemma append_refines:
  assumes same: "same_buffer m s" and fresh: "marker_fresh q dr m"
  shows "buffers_agree (mem_append q dr m) (sql_append q dr s)"
proof -
  obtain st where ok: "mem_buffer_ok m" and st: "sb_state s = Some st" "in_step m s st"
    "load_state s = (Inr st, s)" "state_agrees m st"
    by (rule same_bufferE[OF same])
  have known: "map_of (es_known st) = map_of (mb_known m)" by (rule state_agreesD(7)[OF st(4)])
  have req: "requested_event q dr (sb_agent_id s) (es_next_sequence st) =
      requested_event q dr (mb_agent_id m) (mb_next_sequence m)"
    using in_stepD(1)[OF st(2)] state_agreesD(2)[OF st(4)] by simp
  have new: "map_of (es_known st) (request_identifier q dr) = None"
    "make_buffered_event (requested_event q dr (sb_agent_id s) (es_next_sequence st)) = Inr e"
    if "admitted q dr m e" for e
    using that by (simp_all add: admitted_def known req)
  let ?st0 = "st\<lparr>es_next_sequence := es_next_sequence st + 1\<rparr>"
  note st0 = step_bumped[OF st(2)]
  note okb = ok_bump[OF ok]
  have okA: "mem_buffer_ok (snd (mem_append q dr m))" by (rule ok_mem_append[OF ok fresh])
  have len: "ordinary_event_count ?st0 s = (Inr (int (length (mb_events m))), s)"
    using step_ordinary[OF st0] by (simp add: ordinary_event_count_def runM)
  have cap: "sb_capacity s = mb_capacity m" by (rule in_stepD(2)[OF st(2)])
  show ?thesis
  proof (cases rule: run_mem_append[OF ok, of q dr])
    case (1 r)
    then have "sql_append q dr s = (Inr r, s)" using st(3) known by (simp add: sql_append_def runM)
    then show ?thesis using 1 same by (simp add: buffers_agree_def)
  next
    case 2
    then have "sql_append q dr s = (Inl ValueError, s)" using st(3) known req by (simp add: sql_append_def runM)
    then show ?thesis using 2 same by (simp add: buffers_agree_def)
  next
    case (3 e k n)
    then have key: "progress_key q = Some k" "map_of (mb_coalesce (bumped m)) k = Some n"
      by (simp_all add: replaces_def)
    obtain s1 st1 where c: "sql_coalesce (Some k) ?st0 s = (Inr st1, s1)"
      "in_step ((discarded n (bumped m))\<lparr>mb_coalesced_progress := mb_coalesced_progress (bumped m) + 1\<rparr>) s1 st1"
      by (rule step_replaced[OF okb st0 key(2)])
    let ?m1 = "(discarded n (bumped m))\<lparr>mb_coalesced_progress := mb_coalesced_progress (bumped m) + 1\<rparr>"
    have "n \<in> fst ` set (mb_events m)" using key(2) mem_buffer_okD(12)[OF ok] by (force dest: map_of_SomeD)
    then have "length (mb_events ?m1) < length (mb_events m)" by (auto intro!: length_filter_less)
    then have room: "sql_make_room (request_identifier q dr) (ar_priority q) dr st1 s1 = (Inr (True, st1), s1)"
      using step_ordinary[OF c(2)] in_stepD(2)[OF c(2)] mem_buffer_okD(2)[OF ok]
      by (simp add: sql_make_room_def ordinary_event_count_def runM)
    have kept: "kept ?m1 x" if "x \<in> set (mem_contents ?m1)" for x
    proof -
      have "mem_contents ?m1 = mem_contents (discarded n (bumped m))" by (rule mem_contents_cong) simp_all
      then have "kept (discarded n (bumped m)) x" using that mem_buffer_okD(8)[OF ok_discarded[OF okb]] by simp
      then show ?thesis by (simp add: kept_def)
    qed
    have e: "storable_event (discarded n (bumped m)) e" by (rule storable_discarded[OF storable_bumped[OF ok 3(1)]])
    have "storable_event ?m1 e"
    proof -
      have "mem_contents ?m1 = mem_contents (discarded n (bumped m))" by (rule mem_contents_cong) simp_all
      then show ?thesis using e by (simp add: storable_event_def)
    qed
    moreover have "be_sequence_number e \<notin> fst ` set (mb_events ?m1)"
      using storable_new_number[OF e ok_discarded[OF okb]] by simp
    moreover have "0 \<le> mb_last_acknowledged ?m1" using mem_buffer_okD(3)[OF ok] by simp
    ultimately obtain s2 st2 where f: "sql_store_event (Some k) e st1 s1 = (Inr (), s2)" "sb_state s2 = Some st2"
      "in_step (stored (Some k) e ?m1) s2 st2"
      using step_stored[OF kept _ _ _ c(2)] by metis
    have run: "sql_append q dr s = (Inr (Some e), s2)"
      using sql_append_new[OF st(3) new[OF 3(1)]] c(1) room f(1) key(1) by (simp add: runM)
    have "in_step (snd (mem_append q dr m)) s2 st2"
    proof (rule step_coalesce_cong[OF f(3)])
      have kn: "map_of (mb_coalesce m) k = Some n" using key(2) by simp
      show "map_of (mb_coalesce (snd (mem_append q dr m))) = map_of (mb_coalesce (stored (Some k) e ?m1))"
        using 3(3) by (simp add: stored_def dict_set_map_of drop_event_def replaced_reference[OF ok kn] map_of_drop_key)
      show "snd (mem_append q dr m) = (stored (Some k) e ?m1)\<lparr>mb_coalesce := mb_coalesce (snd (mem_append q dr m))\<rparr>"
        using 3(3) by (intro mem_buffer.equality) (simp_all add: stored_def drop_event_def)
    qed
    then show ?thesis using run 3(3) f(2) okA by (simp add: buffers_agree_def same_buffer_def)
  next
    case (4 e)
    have room: "sql_make_room (request_identifier q dr) (ar_priority q) dr ?st0 s = (Inr (True, ?st0), s)"
      using 4(3) len cap by (simp add: sql_make_room_def runM)
    note sb = storable_bumped[OF ok 4(1)]
    obtain s2 st2 where f: "sql_store_event (progress_key q) e ?st0 s = (Inr (), s2)" "sb_state s2 = Some st2"
      "in_step (stored (progress_key q) e (bumped m)) s2 st2"
      using step_stored[OF mem_buffer_okD(8,3)[OF okb] sb storable_new_number[OF sb okb] st0] by metis
    have run: "sql_append q dr s = (Inr (Some e), s2)"
      using sql_append_new[OF st(3) new[OF 4(1)]] no_replacement[OF 4(2) st(2)] room f(1) by (simp add: runM)
    then show ?thesis using 4(4) f okA by (simp add: buffers_agree_def same_buffer_def)
  next
    case (5 e c)
    let ?n = "be_sequence_number c"
    let ?d = "discarded ?n (bumped m)"
    let ?s1 = "s\<lparr>sb_rows := filter (\<lambda>x. be_sequence_number x \<noteq> ?n) (sb_rows s)\<rparr>"
    let ?st1 = "?st0\<lparr>es_coalesce := drop_references ?n (es_coalesce ?st0)\<rparr>"
    note cand = eviction_candidate[OF ok 5(4)]
    have st1: "in_step ?d ?s1 ?st1" by (rule step_discarded[OF okb st0]) (use cand(2) in simp)
    have okd: "mem_buffer_ok ?d" by (rule ok_discarded[OF okb])
    have fr: "dr_marker_id dr \<notin> fst ` set (mb_known ?d)" using fresh by (simp add: marker_fresh_def)
    obtain s2 st2 where o2: "sql_record_overflow (be_priority c) dr ?st1 ?s1 = (Inr st2, s2)"
      "in_step (overflowed (be_priority c) dr ?d) s2 st2"
      by (rule step_overflowed[OF okd fr st1])
    have ids: "(be_id x = be_id c) = (be_sequence_number x = ?n)" if "x \<in> set (sb_rows s)" for x
    proof -
      have x: "x \<in> set (mem_contents m)" "c \<in> set (mem_contents m)"
        using that step_set[OF st(2)] cand(1) by (auto simp: in_mem_contents)
      then show ?thesis
        using kept_unique[OF mem_buffer_okD(8)[OF ok x(1)] mem_buffer_okD(8)[OF ok x(2)]]
          distinct_map_eq[OF distinct_contents[OF ok] x] by auto
    qed
    have del: "delete_event_rows (\<lambda>x. be_id x = be_id c) s = (Inr (int (length (filter (\<lambda>x. be_id x = be_id c) (sb_rows s)))), ?s1)"
      using ids by (auto simp: delete_event_rows_def intro!: arg_cong[of _ _ "\<lambda>r. s\<lparr>sb_rows := r\<rparr>"] filter_cong)
    have low: "lowest_priority_event ?st0 s = (Inr (Some c), s)"
      using 5(4) step_ordinary[OF st0] by (simp add: lowest_priority_event_def runM)
    have room: "sql_make_room (request_identifier q dr) (ar_priority q) dr ?st0 s = (Inr (True, st2), s2)"
      using 5(3,5) len cap low del o2(1) by (simp add: sql_make_room_def runM)
    have id: "be_id e \<noteq> dr_marker_id dr" using fresh admitted_fields(1)[OF 5(1)] by (metis marker_fresh_def)
    note so = storable_overflowed[OF okd storable_discarded[OF storable_bumped[OF ok 5(1)]] id, of "be_priority c"]
    note oko = ok_overflowed[OF okd fr, of "be_priority c"]
    obtain s3 st3 where f: "sql_store_event (progress_key q) e st2 s2 = (Inr (), s3)" "sb_state s3 = Some st3"
      "in_step (stored (progress_key q) e (overflowed (be_priority c) dr ?d)) s3 st3"
      using step_stored[OF mem_buffer_okD(8,3)[OF oko] so storable_new_number[OF so oko] o2(2)] by metis
    have run: "sql_append q dr s = (Inr (Some e), s3)"
      using sql_append_new[OF st(3) new[OF 5(1)]] no_replacement[OF 5(2) st(2)] room f(1) by (simp add: runM)
    then show ?thesis using 5(6) f okA by (simp add: buffers_agree_def same_buffer_def)
  next
    case (6 e c)
    let ?i = "request_identifier q dr"
    have fr: "dr_marker_id dr \<notin> fst ` set (mb_known (refused ?i (bumped m)))"
      using fresh by (simp add: refused_def keys_dict_set marker_fresh_def)
    have okr: "mem_buffer_ok (refused ?i (bumped m))"
      by (rule ok_known_none[OF okb]) (use admitted_fields(1,7)[OF 6(1)] in simp)
    obtain s2 st2 where o2: "sql_record_overflow (ar_priority q) dr (?st0\<lparr>es_known := dict_set ?i None (es_known ?st0)\<rparr>) s =
        (Inr st2, s2)" "in_step (overflowed (ar_priority q) dr (refused ?i (bumped m))) s2 st2"
      by (rule step_overflowed[OF okr fr step_refused[OF st0]])
    have low: "lowest_priority_event ?st0 s = (Inr (Some c), s)"
      using 6(4) step_ordinary[OF st0] by (simp add: lowest_priority_event_def runM)
    have room: "sql_make_room ?i (ar_priority q) dr ?st0 s = (Inr (False, st2), s2\<lparr>sb_state := Some st2\<rparr>)"
      using 6(3,5) len cap low o2(1) by (simp add: sql_make_room_def save_state_def runM)
    have run: "sql_append q dr s = (Inr None, s2\<lparr>sb_state := Some st2\<rparr>)"
      using sql_append_new[OF st(3) new[OF 6(1)]] no_replacement[OF 6(2) st(2)] room by (simp add: runM)
    then show ?thesis using 6(6) o2(2) okA by (simp add: buffers_agree_def same_buffer_def in_step_def)
  qed
qed

lemma peek_refines:
  assumes same: "same_buffer m s"
  shows "buffers_agree (mem_peek limit m) (sql_peek limit s)"
proof -
  obtain st where ok: "mem_buffer_ok m" and st: "sb_state s = Some st" "in_step m s st"
    "load_state s = (Inr st, s)" "state_agrees m st"
    by (rule same_bufferE[OF same])
  have rows: "limit_rows limit (order_by be_sequence_number (own_rows s)) = peeked limit m" if "\<not> limit < 1"
    using that by (simp add: peeked_def limit_rows_def step_own_rows[OF st(2)] step_order[OF ok st(2)])
  show ?thesis
  proof (cases "limit < 1")
    case True
    then show ?thesis using same by (simp add: run_mem_peek sql_peek_def buffers_agree_def runM)
  next
    case False
    have "mem_buffer_ok (snd (mem_peek limit m))" by (rule ok_mem_peek[OF ok])
    then have okp: "mem_buffer_ok (after_peek (peeked limit m) m)" using False by (simp add: run_mem_peek)
    show ?thesis
    proof (cases "peeked limit m = []")
      case True
      then have "sql_peek limit s = (Inr [], s)"
        using False st(3) rows by (simp add: sql_peek_def runM)
      then show ?thesis using True False same by (simp add: run_mem_peek buffers_agree_def after_peek_def)
    next
      case some: False
      then have "sql_peek limit s = (Inr (peeked limit m), s\<lparr>sb_state := Some (st\<lparr>es_last_peeked :=
          max (es_last_peeked st) (be_sequence_number (last (peeked limit m)))\<rparr>)\<rparr>)"
        using False st(3) rows by (simp add: sql_peek_def runM save_state_def)
      moreover have "in_step (after_peek (peeked limit m) m) (s\<lparr>sb_state := v\<rparr>)
          (st\<lparr>es_last_peeked := max (es_last_peeked st) (be_sequence_number (last (peeked limit m)))\<rparr>)" for v
        using st(2) some by (simp add: in_step_def state_agrees_def rows_agree_def after_peek_def)
      ultimately show ?thesis using False okp by (simp add: run_mem_peek buffers_agree_def same_buffer_def)
    qed
  qed
qed

lemma step_acknowledged:
  assumes ok: "mem_buffer_ok m" and st: "in_step m s st"
  shows "in_step (acknowledged n m) (s\<lparr>sb_rows := filter (\<lambda>e. \<not> be_sequence_number e \<le> n) (sb_rows s), sb_state := v\<rparr>)
    (st\<lparr>es_coalesce := filter (\<lambda>(_, k). \<not> k \<le> n) (es_coalesce st),
        es_marker_id := map_option be_id (mb_marker (acknowledged n m)), es_last_acknowledged := n\<rparr>)"
proof -
  let ?rows = "filter (\<lambda>e. \<not> be_sequence_number e \<le> n) (sb_rows s)"
  have swap: "filter P ?rows = filter (\<lambda>e. \<not> be_sequence_number e \<le> n) (filter P (sb_rows s))" for P
    by (simp add: conj_commute)
  have ev: "filter (\<lambda>e. \<not> be_sequence_number e \<le> n) (map snd xs) = map snd (filter (\<lambda>(k, _). \<not> k \<le> n) xs)"
    if "\<And>x. x \<in> set xs \<Longrightarrow> be_sequence_number (snd x) = fst x" for xs
    using that by (induction xs) auto
  have ord: "filter (\<lambda>e. Some (be_id e) \<noteq> map_option be_id (mb_marker m)) ?rows = map snd (mb_events (acknowledged n m))"
    unfolding swap in_stepD(4)[OF st] using ev[OF mem_buffer_okD(7)[OF ok]] by (simp add: acknowledged_def)
  have agents: "\<forall>e \<in> set ?rows. be_agent_id e = mb_agent_id (acknowledged n m)"
    using in_stepD(3)[OF st] by (simp add: acknowledged_def)
  have rows: "rows_agree (acknowledged n m) ?rows"
  proof (cases "mb_marker m")
    case None
    then have "mb_marker (acknowledged n m) = None" by (simp add: acknowledged_def)
    then show ?thesis by (intro rows_agreeI agents) (use ord None in simp_all)
  next
    case (Some k)
    have one: "filter (\<lambda>e. be_id e = be_id k) ?rows = (if be_sequence_number k \<le> n then [] else [k])"
      unfolding swap in_stepD(5)[OF st Some] by simp
    show ?thesis
    proof (cases "be_sequence_number k \<le> n")
      case True
      then have "be_id e \<noteq> be_id k" if "e \<in> set ?rows" for e using one that by (auto simp: filter_empty_conv)
      then have "filter (\<lambda>e. be_id e \<noteq> be_id k) ?rows = ?rows" by (intro filter_True) blast
      then have "?rows = map snd (mb_events (acknowledged n m))" using ord Some by simp
      moreover have "mb_marker (acknowledged n m) = None" using Some True by (simp add: acknowledged_def)
      ultimately show ?thesis by (intro rows_agreeI agents) simp_all
    next
      case False
      then have "mb_marker (acknowledged n m) = Some k" using Some by (simp add: acknowledged_def)
      then show ?thesis by (intro rows_agreeI agents) (use ord one False Some in simp_all)
    qed
  qed
  have refs: "map_of (filter (\<lambda>(_, k). \<not> k \<le> n) (es_coalesce st)) = map_of (filter (\<lambda>(_, k). \<not> k \<le> n) (mb_coalesce m))"
    using state_agreesD(8,10)[OF in_stepD(6)[OF st]] mem_buffer_okD(10)[OF ok]
    by (simp add: fun_eq_iff map_of_filter_value)
  have "distinct (map fst (filter (\<lambda>(_, k). \<not> k \<le> n) (es_coalesce st)))"
    using state_agreesD(10)[OF in_stepD(6)[OF st]] by (simp add: distinct_map_filter)
  then show ?thesis
    using st rows refs by (simp add: in_step_def state_agrees_def acknowledged_def)
qed

lemma acknowledge_refines:
  assumes same: "same_buffer m s"
  shows "buffers_agree (mem_acknowledge n m) (sql_acknowledge n s)"
proof -
  obtain st where ok: "mem_buffer_ok m" and st: "sb_state s = Some st" "in_step m s st"
    "load_state s = (Inr st, s)" "state_agrees m st"
    by (rule same_bufferE[OF same])
  note f = state_agreesD[OF st(4)]
  consider "n < 0" | "\<not> n < 0" "n \<le> mb_last_acknowledged m"
    | "\<not> n < 0" "\<not> n \<le> mb_last_acknowledged m" "mb_last_peeked m < n"
    | "\<not> n < 0" "\<not> n \<le> mb_last_acknowledged m" "\<not> mb_last_peeked m < n" by blast
  then show ?thesis
  proof cases
    case 4
    have agent: "filter (\<lambda>e. be_agent_id e = sb_agent_id s \<and> P e) (sb_rows s) = filter P (sb_rows s)"
      "filter (\<lambda>e. be_agent_id e = sb_agent_id s \<longrightarrow> P e) (sb_rows s) = filter P (sb_rows s)" for P
      using in_stepD(1,3)[OF st(2)] by (auto intro: filter_cong)
    have seq: "overflow_sequence st s = (Inr (map_option be_sequence_number (mb_marker m)), s)"
      using in_stepD(5)[OF st(2)] f(9)
      by (cases "mb_marker m") (simp_all add: overflow_sequence_def runM step_own_rows[OF st(2)])
    have marker: "(case map_option be_sequence_number (mb_marker m) of None \<Rightarrow> es_marker_id st
        | Some k \<Rightarrow> if k \<le> n then None else es_marker_id st) = map_option be_id (mb_marker (acknowledged n m))"
      using f(9) by (cases "mb_marker m") (simp_all add: acknowledged_def)
    have "sql_acknowledge n s = (Inr (int (length (filter (\<lambda>e. be_sequence_number e \<le> n) (mem_contents m)))),
        s\<lparr>sb_rows := filter (\<lambda>e. \<not> be_sequence_number e \<le> n) (sb_rows s),
          sb_state := Some (st\<lparr>es_coalesce := filter (\<lambda>(_, k). \<not> k \<le> n) (es_coalesce st),
            es_marker_id := map_option be_id (mb_marker (acknowledged n m)), es_last_acknowledged := n\<rparr>)\<rparr>)"
      using 4 st(3) f(3,4) seq marker
      by (simp add: sql_acknowledge_def runM delete_event_rows_def save_state_def agent step_count[OF st(2)])
    then show ?thesis
      using 4 step_acknowledged[OF ok st(2)] ok_acknowledged[OF ok]
      by (simp add: run_mem_acknowledge[OF ok] buffers_agree_def same_buffer_def)
  qed (use st(3) f(3,4) same in \<open>simp_all add: run_mem_acknowledge[OF ok] sql_acknowledge_def buffers_agree_def runM\<close>)
qed

lemma stats_refines:
  assumes same: "same_buffer m s"
  shows "buffers_agree (mem_stats m) (sql_stats s)"
proof -
  obtain st where ok: "mem_buffer_ok m" and st: "sb_state s = Some st" "in_step m s st"
    "load_state s = (Inr st, s)" "state_agrees m st"
    by (rule same_bufferE[OF same])
  have "length (sb_rows s) = length (mem_contents m)" by (metis size_mset step_mset[OF st(2)])
  then have "sql_stats s = (fst (mem_stats m), s)"
    using st(3) state_agreesD[OF st(4)]
    by (simp add: sql_stats_def mem_stats_def runM ordinary_event_count_def step_own_rows[OF st(2)]
        step_ordinary[OF st(2)] mem_contents_def split: option.splits)
  then show ?thesis using same by (simp add: buffers_agree_def mem_stats_def runM)
qed

text \<open>A new database starts as the empty buffer, and opening again later changes nothing.\<close>

definition new_sql_buffer :: "uuid \<Rightarrow> int \<Rightarrow> sql_buffer" where
  "new_sql_buffer agent_id capacity =
     \<lparr>sb_agent_id = agent_id, sb_capacity = capacity, sb_rows = [], sb_state = None\<rparr>"

lemma open_new:
  assumes "mem_buffer_init agent_id capacity = Inr m"
  shows "\<exists>s. sql_open (new_sql_buffer agent_id capacity) = (Inr (), s) \<and> same_buffer m s"
proof -
  have "1 \<le> capacity" using assms by (simp add: mem_buffer_init_def split: if_splits)
  then show ?thesis
    using assms mem_buffer_init_ok[OF assms]
    by (auto simp: mem_buffer_init_def sql_open_def load_or_initialize_state_def new_sql_buffer_def own_rows_def runM
        save_state_def same_buffer_def in_step_def state_agrees_def rows_agree_def initial_event_state_def split: if_splits)
qed

lemma open_again:
  assumes same: "same_buffer m s"
  shows "sql_open s = (Inr (), s)"
proof -
  obtain st where ok: "mem_buffer_ok m" and st: "sb_state s = Some st" "in_step m s st"
    "load_state s = (Inr st, s)" "state_agrees m st"
    by (rule same_bufferE[OF same])
  show ?thesis
    using st mem_buffer_okD(1)[OF ok] state_agrees_valid[OF ok st(4)] state_agreesD(1)[OF st(4)] in_stepD(1,2)[OF st(2)]
    by (simp add: sql_open_def load_or_initialize_state_def parse_event_state_def runM)
qed

end
