(* ===== verification/EventProperties.thy ===== *)
theory EventProperties
  imports DurableEvents
begin

text \<open>
  What both event buffers promise over any history of appends, peeks and acknowledgements: the
  contract of an event store as a locale, its interpretation by the reference buffer and by the
  durable one, and the properties of the agent's event delivery.
\<close>

section \<open>The contract of an event store\<close>

text \<open>
  \<open>outcome\<close> is what an append with an identifier was answered, \<open>marker_of\<close> the identifier of the
  overflow marker, \<open>ordinary\<close> the buffered events except the marker.
\<close>

locale event_store =
  fixes outcome :: "'s \<Rightarrow> uuid \<Rightarrow> buffered_event option option"
    and marker_of :: "'s \<Rightarrow> uuid option"
    and ordinary :: "'s \<Rightarrow> buffered_event list"
    and next_number :: "'s \<Rightarrow> int"
    and perform :: "'op \<Rightarrow> 's \<Rightarrow> 's"
    and invar :: "'s \<Rightarrow> bool"
  assumes perform_invar: "invar s \<Longrightarrow> invar (perform op s)"
    and perform_outcome: "invar s \<Longrightarrow> outcome s i = Some r \<Longrightarrow> marker_of s \<noteq> Some i \<Longrightarrow>
      outcome (perform op s) i = Some r \<and> marker_of (perform op s) \<noteq> Some i"
    and perform_next: "invar s \<Longrightarrow> next_number s \<le> next_number (perform op s)"
    and perform_ordinary: "invar s \<Longrightarrow> e \<in> set (ordinary (perform op s)) \<Longrightarrow>
      e \<in> set (ordinary s) \<or> next_number s \<le> be_sequence_number e"
begin

lemma history_invar: "invar s \<Longrightarrow> invar (fold perform ops s)"
  by (induction ops arbitrary: s) (simp_all add: perform_invar)

lemma history_outcome:
  "invar s \<Longrightarrow> outcome s i = Some r \<Longrightarrow> marker_of s \<noteq> Some i \<Longrightarrow> outcome (fold perform ops s) i = Some r"
  by (induction ops arbitrary: s) (simp_all add: perform_invar perform_outcome)

lemma history_next: "invar s \<Longrightarrow> next_number s \<le> next_number (fold perform ops s)"
proof (induction ops arbitrary: s)
  case (Cons op ops)
  from Cons.IH[OF perform_invar[OF Cons.prems], of op] perform_next[OF Cons.prems, of op] show ?case by simp
qed simp

text \<open>What is buffered now was buffered before, unless its number has been issued since.\<close>

lemma history_ordinary:
  "invar s \<Longrightarrow> e \<in> set (ordinary (fold perform ops s)) \<Longrightarrow> be_sequence_number e < next_number s \<Longrightarrow>
   e \<in> set (ordinary s)"
proof (induction ops arbitrary: s)
  case (Cons op ops)
  from Cons.IH[OF perform_invar[OF Cons.prems(1)], of op] Cons.prems perform_next[OF Cons.prems(1), of op]
  have "e \<in> set (ordinary (perform op s))" by simp
  then show ?case using perform_ordinary[OF Cons.prems(1)] Cons.prems(3) by fastforce
qed simp

end

section \<open>Operations on a buffer\<close>

datatype event_op =
    EventAppend append_request draws
  | EventPeek int
  | EventAcknowledge int

fun mem_event_perform :: "event_op \<Rightarrow> mem_buffer \<Rightarrow> mem_buffer" where
  "mem_event_perform (EventAppend q dr) m = (if marker_fresh q dr m then snd (mem_append q dr m) else m)"
| "mem_event_perform (EventPeek limit) m = snd (mem_peek limit m)"
| "mem_event_perform (EventAcknowledge n) m = snd (mem_acknowledge n m)"

text \<open>The answers that the durable buffer keeps.\<close>

definition sql_outcome :: "sql_buffer \<Rightarrow> uuid \<Rightarrow> buffered_event option option" where
  "sql_outcome s i = (case sb_state s of None \<Rightarrow> None | Some st \<Rightarrow> map_of (es_known st) i)"

definition sql_marker_id :: "sql_buffer \<Rightarrow> uuid option" where
  "sql_marker_id s = (case sb_state s of None \<Rightarrow> None | Some st \<Rightarrow> es_marker_id st)"

definition sql_ordinary :: "sql_buffer \<Rightarrow> buffered_event list" where
  "sql_ordinary s = (case sb_state s of None \<Rightarrow> [] | Some st \<Rightarrow> ordinary_rows st s)"

definition sql_next_number :: "sql_buffer \<Rightarrow> int" where
  "sql_next_number s = (case sb_state s of None \<Rightarrow> 0 | Some st \<Rightarrow> es_next_sequence st)"

definition sql_marker_fresh :: "append_request \<Rightarrow> draws \<Rightarrow> sql_buffer \<Rightarrow> bool" where
  "sql_marker_fresh q dr s \<longleftrightarrow> dr_marker_id dr \<noteq> request_identifier q dr \<and> sql_outcome s (dr_marker_id dr) = None"

fun sql_event_perform :: "event_op \<Rightarrow> sql_buffer \<Rightarrow> sql_buffer" where
  "sql_event_perform (EventAppend q dr) s = (if sql_marker_fresh q dr s then snd (sql_append q dr s) else s)"
| "sql_event_perform (EventPeek limit) s = snd (sql_peek limit s)"
| "sql_event_perform (EventAcknowledge n) s = snd (sql_acknowledge n s)"

lemma mem_event_perform_ok: "mem_buffer_ok m \<Longrightarrow> mem_buffer_ok (mem_event_perform op m)"
  by (cases op) (simp_all add: ok_mem_append ok_mem_peek ok_mem_acknowledge)

lemma same_views:
  assumes "same_buffer m s"
  shows "sql_outcome s = map_of (mb_known m)" "sql_marker_id s = map_option be_id (mb_marker m)"
    "sql_ordinary s = map snd (mb_events m)" "sql_next_number s = mb_next_sequence m"
    "sql_marker_fresh q dr s = marker_fresh q dr m"
proof -
  obtain st where st: "sb_state s = Some st" "in_step m s st" "state_agrees m st" by (rule same_bufferE[OF assms])
  show out: "sql_outcome s = map_of (mb_known m)"
    using st(1) state_agreesD(7)[OF st(3)] by (simp add: sql_outcome_def fun_eq_iff)
  show "sql_marker_id s = map_option be_id (mb_marker m)" "sql_ordinary s = map snd (mb_events m)"
    "sql_next_number s = mb_next_sequence m"
    using st(1) state_agreesD(2,9)[OF st(3)] step_ordinary[OF st(2)]
    by (simp_all add: sql_marker_id_def sql_ordinary_def sql_next_number_def)
  show "sql_marker_fresh q dr s = marker_fresh q dr m"
    by (simp add: sql_marker_fresh_def marker_fresh_def out map_of_eq_None_iff)
qed

lemma perform_refines:
  assumes same: "same_buffer m s"
  shows "same_buffer (mem_event_perform op m) (sql_event_perform op s)"
proof (cases op)
  case (EventAppend q dr)
  then show ?thesis using append_refines[OF same, of q dr] same same_views(5)[OF same, of q dr]
    by (simp add: buffers_agree_def)
next
  case (EventPeek limit)
  then show ?thesis using peek_refines[OF same, of limit] by (simp add: buffers_agree_def)
next
  case (EventAcknowledge n)
  then show ?thesis using acknowledge_refines[OF same, of n] by (simp add: buffers_agree_def)
qed

lemma overflowed_outcome:
  assumes fresh: "dr_marker_id dr \<notin> fst ` set (mb_known m)"
    and r: "map_of (mb_known m) i = Some r" and other: "map_option be_id (mb_marker m) \<noteq> Some i"
  shows "map_of (mb_known (overflowed p dr m)) i = Some r \<and> map_option be_id (mb_marker (overflowed p dr m)) \<noteq> Some i"
proof -
  have "i \<noteq> dr_marker_id dr" using fresh r by (metis map_of_eq_None_iff option.distinct(1))
  then show ?thesis using r other
    by (cases "mb_marker m") (simp_all add: overflowed_def Let_def dict_set_map_of)
qed

lemma mem_append_outcome:
  assumes ok: "mem_buffer_ok m" and fresh: "marker_fresh q dr m"
    and r: "map_of (mb_known m) i = Some r" and other: "map_option be_id (mb_marker m) \<noteq> Some i"
  defines "m' \<equiv> snd (mem_append q dr m)"
  shows "map_of (mb_known m') i = Some r \<and> map_option be_id (mb_marker m') \<noteq> Some i"
proof -
  have new: "i \<noteq> be_id e" if "admitted q dr m e" for e
    using admitted_fields(7)[OF that] r by (metis map_of_eq_None_iff option.distinct(1))
  have fr: "dr_marker_id dr \<notin> fst ` set (mb_known m)" "dr_marker_id dr \<noteq> request_identifier q dr"
    using fresh by (simp_all add: marker_fresh_def)
  show ?thesis
  proof (cases rule: run_mem_append[OF ok, of q dr])
    case (5 e c)
    let ?d = "discarded (be_sequence_number c) (bumped m)"
    have "map_of (mb_known (overflowed (be_priority c) dr ?d)) i = Some r \<and>
        map_option be_id (mb_marker (overflowed (be_priority c) dr ?d)) \<noteq> Some i"
      by (rule overflowed_outcome) (use fr r other in simp_all)
    then show ?thesis using 5(6) new[OF 5(1)] by (simp add: m'_def stored_def dict_set_map_of)
  next
    case (6 e c)
    let ?d = "refused (request_identifier q dr) (bumped m)"
    have "map_of (mb_known (overflowed (ar_priority q) dr ?d)) i = Some r \<and>
        map_option be_id (mb_marker (overflowed (ar_priority q) dr ?d)) \<noteq> Some i"
    proof (rule overflowed_outcome)
      show "dr_marker_id dr \<notin> fst ` set (mb_known ?d)" using fr by (simp add: refused_def keys_dict_set)
      show "map_of (mb_known ?d) i = Some r"
        using new[OF 6(1)] admitted_fields(1)[OF 6(1)] r by (simp add: refused_def dict_set_map_of)
      show "map_option be_id (mb_marker ?d) \<noteq> Some i" using other by (simp add: refused_def)
    qed
    then show ?thesis using 6(6) by (simp add: m'_def)
  qed (use r other new in \<open>simp_all add: m'_def stored_def drop_event_def dict_set_map_of\<close>)
qed

lemma mem_append_next:
  assumes ok: "mem_buffer_ok m"
  shows "mb_next_sequence m \<le> mb_next_sequence (snd (mem_append q dr m))"
  by (cases rule: run_mem_append[OF ok, of q dr])
    (simp_all add: stored_def drop_event_def overflowed_def refused_def Let_def split: option.splits)

lemma mem_append_ordinary:
  assumes ok: "mem_buffer_ok m" and e: "e \<in> snd ` set (mb_events (snd (mem_append q dr m)))"
  shows "e \<in> snd ` set (mb_events m) \<or> mb_next_sequence m \<le> be_sequence_number e"
proof -
  have stored: "x \<in> snd ` set (mb_events t) \<or> x = a" if "x \<in> snd ` set (mb_events (stored key a t))" for x key a t
    using that set_dict_set[of "be_sequence_number a" a "mb_events t"] by (auto simp: stored_def)
  show ?thesis
    using e admitted_fields(3)
    by (cases rule: run_mem_append[OF ok, of q dr]) (auto dest!: stored simp: drop_event_def refused_def)
qed

interpretation mem_events: event_store "\<lambda>m. map_of (mb_known m)" "\<lambda>m. map_option be_id (mb_marker m)"
  "\<lambda>m. map snd (mb_events m)" mb_next_sequence mem_event_perform mem_buffer_ok
proof
  fix m :: mem_buffer and op i r e
  assume ok: "mem_buffer_ok m"
  show "mem_buffer_ok (mem_event_perform op m)" by (rule mem_event_perform_ok[OF ok])
  show "mb_next_sequence m \<le> mb_next_sequence (mem_event_perform op m)"
    by (cases op) (simp_all add: mem_append_next[OF ok] run_mem_peek run_mem_acknowledge[OF ok] acknowledged_def)
  show "map_of (mb_known (mem_event_perform op m)) i = Some r \<and>
      map_option be_id (mb_marker (mem_event_perform op m)) \<noteq> Some i"
    if that: "map_of (mb_known m) i = Some r" "map_option be_id (mb_marker m) \<noteq> Some i"
  proof (cases op)
    case (EventAppend q dr)
    then show ?thesis using mem_append_outcome[OF ok, of q dr, OF _ that] that by simp
  next
    case (EventPeek limit)
    then show ?thesis using that by (simp add: run_mem_peek)
  next
    case (EventAcknowledge n)
    then show ?thesis using that
      by (cases "mb_marker m") (simp_all add: run_mem_acknowledge[OF ok] acknowledged_def)
  qed
  show "e \<in> set (map snd (mb_events m)) \<or> mb_next_sequence m \<le> be_sequence_number e"
    if that: "e \<in> set (map snd (mb_events (mem_event_perform op m)))"
  proof (cases op)
    case (EventAppend q dr)
    then show ?thesis using mem_append_ordinary[OF ok, of e q dr] that by (simp split: if_splits)
  next
    case (EventPeek limit)
    then show ?thesis using that by (simp add: run_mem_peek split: if_splits)
  next
    case (EventAcknowledge n)
    then have "e \<in> snd ` set (mb_events m)"
      using that by (auto simp: run_mem_acknowledge[OF ok] acknowledged_def split: if_splits)
    then show ?thesis by simp
  qed
qed

definition sql_buffer_ok :: "sql_buffer \<Rightarrow> bool" where
  "sql_buffer_ok s \<longleftrightarrow> (\<exists>m. same_buffer m s)"

interpretation sql_events: event_store sql_outcome sql_marker_id sql_ordinary sql_next_number
  sql_event_perform sql_buffer_ok
proof
  fix s op i r e
  assume "sql_buffer_ok s"
  then obtain m where same: "same_buffer m s" by (auto simp: sql_buffer_ok_def)
  then have ok: "mem_buffer_ok m" by (simp add: same_buffer_def)
  note after = perform_refines[OF same, of op]
  show "sql_buffer_ok (sql_event_perform op s)" using after by (auto simp: sql_buffer_ok_def)
  show "sql_next_number s \<le> sql_next_number (sql_event_perform op s)"
    using mem_events.perform_next[OF ok, of op] same_views(4)[OF same] same_views(4)[OF after] by simp
  show "sql_outcome s i = Some r \<Longrightarrow> sql_marker_id s \<noteq> Some i \<Longrightarrow>
      sql_outcome (sql_event_perform op s) i = Some r \<and> sql_marker_id (sql_event_perform op s) \<noteq> Some i"
    using mem_events.perform_outcome[OF ok, of i r op] same_views(1,2)[OF same] same_views(1,2)[OF after] by simp
  show "e \<in> set (sql_ordinary (sql_event_perform op s)) \<Longrightarrow>
      e \<in> set (sql_ordinary s) \<or> sql_next_number s \<le> be_sequence_number e"
    using mem_events.perform_ordinary[OF ok, of e op] same_views(3,4)[OF same] same_views(3,4)[OF after] by simp
qed

section \<open>Properties\<close>

lemma mem_append_answer:
  assumes ok: "mem_buffer_ok m" and fresh: "marker_fresh q dr m"
    and run: "mem_append q dr m = (Inr r, m')" and other: "map_option be_id (mb_marker m) \<noteq> Some (request_identifier q dr)"
  shows "map_of (mb_known m') (request_identifier q dr) = Some r"
    and "map_option be_id (mb_marker m') \<noteq> Some (request_identifier q dr)"
proof -
  let ?i = "request_identifier q dr"
  have fr: "dr_marker_id dr \<notin> fst ` set (mb_known m)" "dr_marker_id dr \<noteq> ?i"
    using fresh by (simp_all add: marker_fresh_def)
  have "map_of (mb_known m') ?i = Some r \<and> map_option be_id (mb_marker m') \<noteq> Some ?i"
  proof (cases rule: run_mem_append[OF ok, of q dr])
    case (5 e c)
    have "map_option be_id (mb_marker m') \<noteq> Some ?i"
      using 5(6) run other fr
      by (cases "mb_marker m") (auto simp: stored_def overflowed_def Let_def)
    then show ?thesis using 5(6) run admitted_fields(1)[OF 5(1)] by (auto simp: stored_def dict_set_map_of)
  next
    case (6 e c)
    let ?d = "refused ?i (bumped m)"
    have "map_of (mb_known (overflowed (ar_priority q) dr ?d)) ?i = Some None \<and>
        map_option be_id (mb_marker (overflowed (ar_priority q) dr ?d)) \<noteq> Some ?i"
      by (rule overflowed_outcome) (use fr other in \<open>simp_all add: refused_def keys_dict_set dict_set_map_of\<close>)
    then show ?thesis using 6(6) run by simp
  qed (use run other admitted_fields(1) in \<open>auto simp: stored_def drop_event_def dict_set_map_of\<close>)
  then show "map_of (mb_known m') ?i = Some r" "map_option be_id (mb_marker m') \<noteq> Some ?i" by simp_all
qed

lemma sql_append_known:
  assumes "sql_buffer_ok s" and "sql_outcome s (request_identifier q dr) = Some r"
  shows "sql_append q dr s = (Inr r, s)"
proof -
  obtain m where same: "same_buffer m s" using assms(1) by (auto simp: sql_buffer_ok_def)
  obtain st where "sb_state s = Some st" "load_state s = (Inr st, s)" by (rule same_bufferE[OF same])
  then show ?thesis using assms(2) by (simp add: sql_append_def sql_outcome_def runM)
qed

lemma ordered_numbers_distinct:
  assumes "mem_buffer_ok m"
  shows "distinct (map be_sequence_number (order_by be_sequence_number (mem_contents m)))"
proof -
  have "mset (map be_sequence_number (order_by be_sequence_number (mem_contents m))) =
      mset (map be_sequence_number (mem_contents m))"
    by (simp add: order_by_def)
  then show ?thesis using distinct_contents[OF assms] mset_eq_imp_distinct_iff by metis
qed

lemma sorted_last_max: "sorted (map f xs) \<Longrightarrow> x \<in> set xs \<Longrightarrow> f x \<le> (f (last xs) :: 'b :: linorder)"
  by (induction xs) auto

lemma sorted_prefix_closed:
  assumes "sorted (map f xs)" and "distinct (map f xs)" and "take n xs \<noteq> []" and "x \<in> set xs"
    and "f x \<le> f (last (take n xs))"
  shows "x \<in> set (take n xs)"
proof (rule ccontr)
  assume no: "x \<notin> set (take n xs)"
  then have x: "x \<in> set (drop n xs)" using assms(4) by (metis Un_iff append_take_drop_id set_append)
  let ?l = "last (take n xs)"
  have l: "?l \<in> set (take n xs)" by (rule last_in_set[OF assms(3)])
  have "sorted (map f (take n xs) @ map f (drop n xs))" using assms(1) by (metis append_take_drop_id map_append)
  then have "f ?l \<le> f x" using l x by (auto simp: sorted_append)
  then have "f x = f ?l" using assms(5) by simp
  moreover have "?l \<in> set xs" using l by (rule in_set_takeD)
  ultimately show False using distinct_map_eq[OF assms(2,4)] no l by metis
qed

text \<open>
  C29: the durable event buffer refines the reference buffer: from states that represent the same
  buffer, appending, peeking, acknowledging and counting give the same answers and lead to states
  that represent the same buffer again, as long as the identifier drawn for a marker is unused.
\<close>

theorem durable_events_refine_the_reference:
  assumes "same_buffer m s" and "marker_fresh q dr m"
  shows "buffers_agree (mem_append q dr m) (sql_append q dr s) \<and>
    buffers_agree (mem_peek limit m) (sql_peek limit s) \<and>
    buffers_agree (mem_acknowledge n m) (sql_acknowledge n s) \<and>
    buffers_agree (mem_stats m) (sql_stats s)"
  using append_refines[OF assms] peek_refines[OF assms(1)] acknowledge_refines[OF assms(1)]
    stats_refines[OF assms(1)] by simp

text \<open>
  Appending is idempotent for good: once an append with an identifier was answered, with the
  stored event or with nothing because it was dropped, every later append with that identifier gets
  the same answer and changes nothing, whatever happened to the buffer in between.
\<close>

theorem event_outcome_is_stable:
  assumes ok: "sql_buffer_ok s" and fresh: "sql_marker_fresh q dr s" and run: "sql_append q dr s = (Inr r, s1)"
    and other: "sql_marker_id s \<noteq> Some (request_identifier q dr)"
    and again: "request_identifier q' dr' = request_identifier q dr"
  shows "sql_append q' dr' (fold sql_event_perform ops s1) = (Inr r, fold sql_event_perform ops s1)"
proof -
  obtain m where same: "same_buffer m s" using ok by (auto simp: sql_buffer_ok_def)
  then have okm: "mem_buffer_ok m" by (simp add: same_buffer_def)
  have fr: "marker_fresh q dr m" using fresh same_views(5)[OF same] by simp
  obtain r' m1 where m1: "mem_append q dr m = (r', m1)" by fastforce
  have agree: "r' = Inr r" "same_buffer m1 s1"
    using append_refines[OF same fr] run m1 by (simp_all add: buffers_agree_def)
  have "map_option be_id (mb_marker m) \<noteq> Some (request_identifier q dr)"
    using other same_views(2)[OF same] by simp
  note answer = mem_append_answer[OF okm fr m1[unfolded agree(1)] this]
  have "sql_outcome s1 (request_identifier q dr) = Some r" "sql_marker_id s1 \<noteq> Some (request_identifier q dr)"
    using answer by (simp_all add: same_views(1,2)[OF agree(2)])
  moreover have ok1: "sql_buffer_ok s1" using agree(2) by (auto simp: sql_buffer_ok_def)
  ultimately have "sql_outcome (fold sql_event_perform ops s1) (request_identifier q' dr') = Some r"
    using sql_events.history_outcome again by simp
  then show ?thesis by (rule sql_append_known[OF sql_events.history_invar[OF ok1]])
qed

text \<open>
  C30: the buffer stays bounded: over any history from a new database it holds at most \<open>capacity\<close>
  ordinary events and one marker, whose numbers are all different, were all issued and are not yet
  acknowledged.
\<close>

theorem buffer_stays_bounded:
  assumes "sql_open (new_sql_buffer agent_id capacity) = (Inr (), s0)"
  shows "\<exists>st. sb_state (fold sql_event_perform ops s0) = Some st \<and>
    int (length (ordinary_rows st (fold sql_event_perform ops s0))) \<le> capacity \<and>
    int (length (sb_rows (fold sql_event_perform ops s0))) \<le> capacity + 1 \<and>
    distinct (map be_sequence_number (sb_rows (fold sql_event_perform ops s0))) \<and>
    (\<forall>e \<in> set (sb_rows (fold sql_event_perform ops s0)).
       es_last_acknowledged st < be_sequence_number e \<and> be_sequence_number e < es_next_sequence st)"
proof -
  let ?s = "fold sql_event_perform ops s0"
  have "1 \<le> capacity" using assms by (simp add: sql_open_def new_sql_buffer_def runM split: if_splits)
  then obtain m0 where m0: "mem_buffer_init agent_id capacity = Inr m0" by (simp add: mem_buffer_init_def)
  have same0: "same_buffer m0 s0" using open_new[OF m0] assms by auto
  have "same_buffer (fold mem_event_perform ops m0) ?s" using same0
    by (induction ops arbitrary: m0 s0) (simp_all add: perform_refines)
  moreover have "mb_capacity (fold mem_event_perform ops m0) = mb_capacity m0"
  proof -
    have step: "mb_capacity (mem_event_perform op m) = mb_capacity m" if "mem_buffer_ok m" for op m
    proof (cases op)
      case (EventAppend q dr)
      then show ?thesis
        by (cases rule: run_mem_append[OF that, of q dr]) (simp_all add: stored_def drop_event_def refused_def)
    qed (simp_all add: run_mem_peek run_mem_acknowledge[OF that] acknowledged_def)
    show ?thesis using mem_buffer_init_ok[OF m0]
      by (induction ops arbitrary: m0) (simp_all add: step mem_event_perform_ok)
  qed
  moreover have "mb_capacity m0 = capacity" using m0 by (auto simp: mem_buffer_init_def split: if_splits)
  ultimately obtain m where m: "same_buffer m ?s" "mb_capacity m = capacity" by auto
  obtain st where ok: "mem_buffer_ok m" and st: "sb_state ?s = Some st" "in_step m ?s st" "state_agrees m st"
    by (rule same_bufferE[OF m(1)])
  note ms = step_mset[OF st(2)]
  have len: "length (sb_rows ?s) = length (mem_contents m)" by (metis ms size_mset)
  have "mset (map be_sequence_number (sb_rows ?s)) = mset (map be_sequence_number (mem_contents m))" by (simp add: ms)
  then have "distinct (map be_sequence_number (sb_rows ?s))"
    using distinct_contents[OF ok] mset_eq_imp_distinct_iff by metis
  then show ?thesis
    using st(1) len mem_buffer_okD(2)[OF ok] m(2) step_ordinary[OF st(2)] mem_buffer_okD(8)[OF ok]
      step_set[OF st(2)] state_agreesD(2,3)[OF st(3)]
    by (auto simp: kept_def mem_contents_def split: option.splits)
qed

text \<open>
  C31: an append drops nothing that matters more than what it brings. An ordinary event leaves the
  buffer only when a progress event with the same key replaces it, or when the buffer is full, its
  priority is strictly lower than that of the new event, and it is the oldest of the lowest priority;
  and a new event is dropped itself only when the buffer is full of events of at least its priority.
\<close>

theorem only_lower_priorities_are_dropped:
  assumes ok: "sql_buffer_ok s" and fresh: "sql_marker_fresh q dr s" and run: "sql_append q dr s = (Inr r, s')"
  shows "(\<forall>e \<in> set (sql_ordinary s) - set (sql_ordinary s').
      (\<exists>k st. progress_key q = Some k \<and> sb_state s = Some st \<and> map_of (es_coalesce st) k = Some (be_sequence_number e)) \<or>
      int (length (sql_ordinary s)) = sb_capacity s \<and> be_priority e < ar_priority q \<and>
        (\<forall>x \<in> set (sql_ordinary s). eviction_key e \<le> eviction_key x)) \<and>
    (r = None \<longrightarrow> sql_outcome s (request_identifier q dr) = None \<longrightarrow>
      int (length (sql_ordinary s)) = sb_capacity s \<and> (\<forall>x \<in> set (sql_ordinary s). ar_priority q \<le> be_priority x))"
proof -
  obtain m where same: "same_buffer m s" using ok by (auto simp: sql_buffer_ok_def)
  obtain st where okm: "mem_buffer_ok m" and st: "sb_state s = Some st" "in_step m s st" "state_agrees m st"
    by (rule same_bufferE[OF same])
  have fr: "marker_fresh q dr m" using fresh same_views(5)[OF same] by simp
  obtain r' m' where m': "mem_append q dr m = (r', m')" by fastforce
  have agree: "r' = Inr r" "same_buffer m' s'"
    using append_refines[OF same fr] run m' by (simp_all add: buffers_agree_def)
  note views = same_views(1,3)[OF same] same_views(3)[OF agree(2)] in_stepD(2)[OF st(2)]
  have kept: "x \<in> snd ` set (mb_events (stored key a t))"
    if "x \<in> snd ` set (mb_events t)" "be_sequence_number a \<notin> fst ` set (mb_events t)" for x key a t
    using that by (auto simp: stored_def dict_set_fresh)
  have new: "be_sequence_number e \<notin> fst ` set (mb_events m)" if "admitted q dr m e" for e
    using storable_new_number[OF storable_bumped[OF okm that] ok_bump[OF okm]] by simp
  have number: "be_sequence_number x = k" if "(k, x) \<in> set (mb_events m)" for k x
    using mem_buffer_okD(7)[OF okm that] by simp
  show ?thesis
  proof (cases rule: run_mem_append[OF okm, of q dr])
    case (1 v)
    then show ?thesis using m' agree(1) by (simp add: views)
  next
    case 2
    then show ?thesis using m' agree(1) by simp
  next
    case (3 e k n)
    have gone: "be_sequence_number x = n" if "x \<in> snd ` set (mb_events m)" "x \<notin> snd ` set (mb_events m')" for x
    proof (rule ccontr)
      assume "be_sequence_number x \<noteq> n"
      then have "x \<in> snd ` set (filter (\<lambda>(k, _). k \<noteq> n) (mb_events m))" using that(1) number by force
      moreover have "be_sequence_number e \<notin> fst ` set (filter (\<lambda>(k, _). k \<noteq> n) (mb_events m))" using new[OF 3(1)] by auto
      ultimately have "x \<in> snd ` set (mb_events m')"
        using 3(3) m' by (auto simp: stored_def drop_event_def dict_set_fresh)
      then show False using that(2) by simp
    qed
    have "progress_key q = Some k" "map_of (es_coalesce st) k = Some n"
      using 3(2) state_agreesD(8)[OF st(3)] by (simp_all add: replaces_def)
    moreover have "r = Some e" using 3(3) m' agree(1) by simp
    moreover have "be_sequence_number x = n" if "x \<in> set (sql_ordinary s) - set (sql_ordinary s')" for x
      using gone[of x] that by (simp add: views)
    ultimately show ?thesis using st(1) by auto
  next
    case (4 e)
    have "x \<in> snd ` set (mb_events m')" if "x \<in> snd ` set (mb_events m)" for x
      using kept[of x "bumped m" e "progress_key q"] that new[OF 4(1)] 4(4) m' by simp
    then show ?thesis using 4 m' agree(1) by (auto simp: views)
  next
    case (5 e c)
    have "x = c" if "x \<in> snd ` set (mb_events m)" "x \<notin> snd ` set (mb_events m')" for x
    proof (rule ccontr)
      assume ne: "x \<noteq> c"
      let ?n = "be_sequence_number c"
      have "be_sequence_number x \<noteq> ?n"
        using that(1) eviction_candidate(1)[OF okm 5(4)] distinct_map_eq[OF distinct_contents[OF okm], of x c] ne
        by (auto simp: in_mem_contents)
      then have "x \<in> snd ` set (filter (\<lambda>(k, _). k \<noteq> ?n) (mb_events m))" using that(1) number by force
      moreover have "be_sequence_number e \<notin> fst ` set (filter (\<lambda>(k, _). k \<noteq> ?n) (mb_events m))" using new[OF 5(1)] by auto
      ultimately have "x \<in> snd ` set (mb_events m')"
        using 5(6) m' by (auto simp: stored_def dict_set_fresh)
      then show False using that(2) by simp
    qed
    then show ?thesis
      using 5(3,5,6) m' agree(1) eviction_candidate(4)[OF okm 5(4)] by (auto simp: views)
  next
    case (6 e c)
    have "ar_priority q \<le> be_priority (snd x)" if "x \<in> set (mb_events m)" for x
      using eviction_candidate(4)[OF okm 6(4) that] 6(5) by (auto simp: eviction_key_def)
    then show ?thesis using 6(3,6) m' agree(1) by (auto simp: views refused_def)
  qed
qed

text \<open>
  C32: an event is delivered before it is forgotten: an acknowledgement up to the last event of a
  peek removes, of the ordinary events, only some that this peek returned, even when other
  operations came in between.
\<close>

theorem only_peeked_events_are_acknowledged:
  assumes ok: "sql_buffer_ok s" and peek: "sql_peek limit s = (Inr es, s1)" and some: "es \<noteq> []"
    and n: "n \<le> be_sequence_number (last es)"
    and e: "e \<in> set (sql_ordinary (fold sql_event_perform ops s1))"
  shows "e \<in> set (sql_ordinary (snd (sql_acknowledge n (fold sql_event_perform ops s1)))) \<or>
    e \<in> set es \<and> be_sequence_number e \<le> n"
proof -
  obtain m where same: "same_buffer m s" using ok by (auto simp: sql_buffer_ok_def)
  then have okm: "mem_buffer_ok m" by (simp add: same_buffer_def)
  let ?xs = "order_by be_sequence_number (mem_contents m)"
  obtain r' m1 where m1: "mem_peek limit m = (r', m1)" by fastforce
  have agree: "r' = Inr es" "same_buffer m1 s1"
    using peek_refines[OF same, of limit] peek m1 by (simp_all add: buffers_agree_def)
  have es: "es = take (nat limit) ?xs" "mb_events m1 = mb_events m" "mb_next_sequence m1 = mb_next_sequence m"
    using m1 agree(1) by (auto simp: run_mem_peek peeked_def split: if_splits)
  have ok1: "sql_buffer_ok s1" using agree(2) by (auto simp: sql_buffer_ok_def)
  let ?s = "fold sql_event_perform ops s1"
  show ?thesis
  proof (cases "be_sequence_number e \<le> n")
    case True
    have "be_sequence_number (last es) < mb_next_sequence m"
      using last_in_set[OF some] mem_buffer_okD(8)[OF okm] unfolding es(1) by (auto simp: kept_def dest: in_set_takeD)
    then have "be_sequence_number e < sql_next_number s1" using True n same_views(4)[OF agree(2)] es(3) by simp
    from sql_events.history_ordinary[OF ok1 e this]
    have "e \<in> snd ` set (mb_events m)" using same_views(3)[OF agree(2)] es(2) by simp
    then have mem: "e \<in> set ?xs" by (simp add: in_mem_contents)
    from sorted_prefix_closed[OF sorted_order_by ordered_numbers_distinct[OF okm] some[unfolded es(1)] mem] n True
    have "e \<in> set es" by (simp add: es(1))
    with True show ?thesis by simp
  next
    case False
    obtain m2 where m2: "same_buffer m2 ?s"
      using sql_events.history_invar[OF ok1] by (auto simp: sql_buffer_ok_def)
    then have okm2: "mem_buffer_ok m2" by (simp add: same_buffer_def)
    have after: "same_buffer (snd (mem_acknowledge n m2)) (snd (sql_acknowledge n ?s))"
      using acknowledge_refines[OF m2, of n] by (simp add: buffers_agree_def)
    have "e \<in> snd ` set (mb_events m2)" using e same_views(3)[OF m2] by simp
    then have "e \<in> snd ` set (mb_events (snd (mem_acknowledge n m2)))"
      using False mem_buffer_okD(7)[OF okm2]
      by (force simp: run_mem_acknowledge[OF okm2] acknowledged_def)
    then show ?thesis using same_views(3)[OF after] by simp
  qed
qed

text \<open>
  What is lost: an event that is dropped after the marker was peeked and before it is acknowledged
  changes the payload of the marker in place; the acknowledgement then removes the marker, and
  nothing in the buffer tells of the drop.
\<close>

lemma late_overflow_is_not_reported:
  assumes ok: "mem_buffer_ok m" and k: "mb_marker m = Some k" and seen: "be_sequence_number k \<le> mb_last_peeked m"
    and run: "mem_append q dr m = (Inr None, m1)" and new: "map_of (mb_known m) (request_identifier q dr) = None"
  shows "mb_marker (snd (mem_acknowledge (be_sequence_number k) m1)) = None \<and>
    dropped_total (mb_dropped (snd (mem_acknowledge (be_sequence_number k) m1))) = dropped_total (mb_dropped m) + 1"
proof -
  have "kept m k" by (rule kept_marker[OF ok k])
  then have pos: "mb_last_acknowledged m < be_sequence_number k" "0 \<le> be_sequence_number k"
    using mem_buffer_okD(3)[OF ok] by (simp_all add: kept_def)
  show ?thesis
  proof (cases rule: run_mem_append[OF ok, of q dr])
    case (6 e c)
    let ?m = "overflowed (ar_priority q) dr (refused (request_identifier q dr) (bumped m))"
    have m1: "m1 = ?m" using 6(6) run by simp
    have "mb_marker ?m = Some (k\<lparr>be_payload := overflow_payload ((mb_dropped m)(ar_priority q := mb_dropped m (ar_priority q) + 1))\<rparr>)"
      "mb_last_acknowledged ?m = mb_last_acknowledged m" "mb_last_peeked ?m = mb_last_peeked m"
      "mb_dropped ?m = (mb_dropped m)(ar_priority q := mb_dropped m (ar_priority q) + 1)"
      using k by (simp_all add: overflowed_def refused_def Let_def)
    then show ?thesis
      unfolding m1 using pos seen
      by (cases "ar_priority q") (simp_all add: mem_acknowledge_def runM Let_def dropped_total_def)
  qed (use run new in auto)
qed

section \<open>Witnesses\<close>

definition progress_request :: "uuid \<Rightarrow> append_request" where
  "progress_request i = \<lparr>ar_event_type = ''STEP'', ar_payload = [], ar_priority = PrProgress,
     ar_event_id = Some i, ar_created_at = Some 1, ar_coalesce_key = Some i\<rparr>"

definition sample_draws :: draws where
  "sample_draws = \<lparr>dr_event_id = ''x'', dr_created_at = 5, dr_marker_id = ''m'', dr_marker_at = 6\<rparr>"

definition opened_buffer :: sql_buffer where
  "opened_buffer = snd (sql_open (new_sql_buffer ''agent'' 1))"

definition opened_reference :: mem_buffer where
  "opened_reference = \<lparr>mb_agent_id = ''agent'', mb_capacity = 1, mb_events = [], mb_coalesce = [],
     mb_marker = None, mb_known = [], mb_next_sequence = 1, mb_last_acknowledged = 0,
     mb_last_peeked = 0, mb_dropped = (\<lambda>_. 0), mb_coalesced_progress = 0\<rparr>"

lemma opened_same: "sql_open (new_sql_buffer ''agent'' 1) = (Inr (), opened_buffer)" "same_buffer opened_reference opened_buffer"
proof -
  have "mem_buffer_init ''agent'' 1 = Inr opened_reference" by (simp add: mem_buffer_init_def opened_reference_def)
  from open_new[OF this] show "sql_open (new_sql_buffer ''agent'' 1) = (Inr (), opened_buffer)"
    "same_buffer opened_reference opened_buffer" by (auto simp: opened_buffer_def)
qed

lemma opened_fresh: "marker_fresh (progress_request i) sample_draws opened_reference \<longleftrightarrow> i \<noteq> ''m''"
  by (auto simp: marker_fresh_def opened_reference_def sample_draws_def progress_request_def request_identifier_def)

theorem durable_events_refine_the_reference_witness:
  "fst (mem_append (progress_request ''a'') sample_draws opened_reference) =
   fst (sql_append (progress_request ''a'') sample_draws opened_buffer)"
  using durable_events_refine_the_reference[OF opened_same(2), of "progress_request ''a''" sample_draws]
  by (simp add: opened_fresh buffers_agree_def)

definition progress_event :: buffered_event where
  "progress_event = \<lparr>be_id = ''a'', be_agent_id = ''agent'', be_sequence_number = 1, be_event_type = ''STEP'',
     be_payload = [], be_priority = PrProgress, be_created_at = 1\<rparr>"

lemma opened_append:
  "mem_append (progress_request ''a'') sample_draws opened_reference =
    (Inr (Some progress_event), stored (Some ''a'') progress_event (bumped opened_reference))"
proof -
  have "trim ''STEP'' = ''STEP''" by (rule trim_id) (simp_all add: unicode_space_def Let_def)
  then have "make_buffered_event (requested_event (progress_request ''a'') sample_draws ''agent'' 1) = Inr progress_event"
    by (simp add: make_buffered_event_def requested_event_def progress_request_def request_identifier_def
        progress_event_def Let_def buffered_event_valid_def sized_def)
  moreover have "progress_key (progress_request ''a'') = Some ''a''"
    by (simp add: progress_key_def progress_request_def truthy_def)
  ultimately show ?thesis
    by (simp add: mem_append_def mem_new_event_def runM opened_reference_def request_identifier_def progress_request_def
        bumped_def coalesced_def mem_make_room_def)
qed

definition buffer_with_progress :: sql_buffer where
  "buffer_with_progress = snd (sql_append (progress_request ''a'') sample_draws opened_buffer)"

lemma progress_same:
  "sql_append (progress_request ''a'') sample_draws opened_buffer = (Inr (Some progress_event), buffer_with_progress)"
  "same_buffer (stored (Some ''a'') progress_event (bumped opened_reference)) buffer_with_progress"
  using append_refines[OF opened_same(2), of "progress_request ''a''" sample_draws]
  by (simp_all add: opened_fresh buffers_agree_def opened_append buffer_with_progress_def prod_eq_iff)

lemma opened_ok: "sql_buffer_ok opened_buffer" "sql_buffer_ok buffer_with_progress"
  using opened_same(2) progress_same(2) by (auto simp: sql_buffer_ok_def)

lemma opened_views:
  "sql_marker_fresh (progress_request i) sample_draws opened_buffer \<longleftrightarrow> i \<noteq> ''m''"
  "sql_marker_id opened_buffer = None"
  by (simp only: same_views(5)[OF opened_same(2)] opened_fresh)
    (simp add: same_views(2)[OF opened_same(2)], simp add: opened_reference_def)

lemma progress_ordinary: "sql_ordinary buffer_with_progress = [progress_event]"
  by (simp add: same_views(3)[OF progress_same(2)] stored_def opened_reference_def dict_set_def)

theorem event_outcome_is_stable_witness:
  "fst (sql_append (progress_request ''a'') sample_draws
     (fold sql_event_perform [EventPeek 1, EventAcknowledge 1] buffer_with_progress)) = Inr (Some progress_event)"
proof -
  have "request_identifier (progress_request ''a'') sample_draws = request_identifier (progress_request ''a'') sample_draws" ..
  from event_outcome_is_stable[OF opened_ok(1) _ progress_same(1) _ this, of "[EventPeek 1, EventAcknowledge 1]"]
  show ?thesis by (simp add: opened_views)
qed

theorem buffer_stays_bounded_witness:
  "int (length (sb_rows (fold sql_event_perform [EventAppend (progress_request ''a'') sample_draws,
     EventAppend (progress_request ''b'') sample_draws, EventPeek 5] opened_buffer))) \<le> 2"
  using buffer_stays_bounded[OF opened_same(1), of "[EventAppend (progress_request ''a'') sample_draws,
     EventAppend (progress_request ''b'') sample_draws, EventPeek 5]"] by auto

text \<open>A step of another command while the buffer of one event is full.\<close>

lemma second_step:
  "sql_marker_fresh (progress_request ''b'') sample_draws buffer_with_progress"
  "sql_append (progress_request ''b'') sample_draws buffer_with_progress =
     (Inr None, snd (sql_append (progress_request ''b'') sample_draws buffer_with_progress))"
proof -
  let ?m = "stored (Some ''a'') progress_event (bumped opened_reference)"
  let ?q = "progress_request ''b''"
  have m: "mb_events ?m = [(1, progress_event)]" "mb_known ?m = [(''a'', Some progress_event)]"
    "mb_coalesce ?m = [(''a'', 1)]" "mb_capacity ?m = 1" "mb_next_sequence ?m = 2" "mb_agent_id ?m = ''agent''"
    by (simp_all add: stored_def opened_reference_def dict_set_def progress_event_def)
  have i: "request_identifier ?q sample_draws = ''b''" by (simp add: request_identifier_def progress_request_def)
  have fr: "marker_fresh ?q sample_draws ?m" by (simp only: marker_fresh_def m i) (simp add: sample_draws_def)
  then show "sql_marker_fresh ?q sample_draws buffer_with_progress" by (simp add: same_views(5)[OF progress_same(2)])
  have "trim ''STEP'' = ''STEP''" by (rule trim_id) (simp_all add: unicode_space_def Let_def)
  then obtain e where e: "make_buffered_event (requested_event ?q sample_draws ''agent'' 2) = Inr e"
    by (simp add: make_buffered_event_def requested_event_def progress_request_def Let_def buffered_event_valid_def sized_def)
  have key: "progress_key ?q = Some ''b''" by (simp add: progress_key_def progress_request_def truthy_def)
  have ok: "mem_buffer_ok ?m" using progress_same(2) by (simp add: same_buffer_def)
  have "fst (mem_append ?q sample_draws ?m) = Inr None"
  proof (cases rule: run_mem_append[OF ok, of ?q sample_draws])
    case (5 x c)
    have "c = progress_event" using 5(4) by (simp add: m(1) order_by_def)
    then show ?thesis using 5(5) by (simp add: progress_event_def progress_request_def)
  qed (use e key in \<open>simp_all only: m i replaces_def\<close>, simp_all)
  then show "sql_append ?q sample_draws buffer_with_progress =
      (Inr None, snd (sql_append ?q sample_draws buffer_with_progress))"
    using append_refines[OF progress_same(2) fr] by (simp add: buffers_agree_def prod_eq_iff)
qed

theorem only_lower_priorities_are_dropped_witness:
  "int (length (sql_ordinary buffer_with_progress)) = sb_capacity buffer_with_progress"
proof -
  have "sql_outcome buffer_with_progress (request_identifier (progress_request ''b'') sample_draws) = None"
    by (simp add: same_views(1)[OF progress_same(2)] stored_def opened_reference_def dict_set_def progress_event_def
        request_identifier_def progress_request_def)
  then show ?thesis
    using only_lower_priorities_are_dropped[OF opened_ok(2) second_step] by simp
qed

theorem only_peeked_events_are_acknowledged_witness:
  "progress_event \<in> set (sql_ordinary (snd (sql_acknowledge 1 (snd (sql_peek 1 buffer_with_progress))))) \<or>
   progress_event \<in> set (case fst (sql_peek 1 buffer_with_progress) of Inr es \<Rightarrow> es | Inl _ \<Rightarrow> [])"
proof -
  let ?m = "stored (Some ''a'') progress_event (bumped opened_reference)"
  have "peeked 1 ?m = [progress_event]"
    by (simp add: peeked_def mem_contents_def stored_def opened_reference_def dict_set_def order_by_def)
  then have p: "sql_peek 1 buffer_with_progress = (Inr [progress_event], snd (sql_peek 1 buffer_with_progress))"
    "same_buffer (after_peek [progress_event] ?m) (snd (sql_peek 1 buffer_with_progress))"
    using peek_refines[OF progress_same(2), of 1] by (simp_all add: run_mem_peek buffers_agree_def prod_eq_iff)
  have "progress_event \<in> set (sql_ordinary (fold sql_event_perform [] (snd (sql_peek 1 buffer_with_progress))))"
    by (simp add: same_views(3)[OF p(2)] stored_def opened_reference_def dict_set_def)
  from only_peeked_events_are_acknowledged[OF opened_ok(2) p(1) _ _ this, of 1]
  have "progress_event \<in> set (sql_ordinary (snd (sql_acknowledge 1 (snd (sql_peek 1 buffer_with_progress))))) \<or>
      progress_event \<in> set [progress_event] \<and> be_sequence_number progress_event \<le> 1"
    unfolding fold.simps id_apply by (simp only: last.simps if_True list.distinct not_False_eq_True) (simp add: progress_event_def)
  moreover have "fst (sql_peek 1 buffer_with_progress) = Inr [progress_event]" using p(1) by (metis fst_conv)
  ultimately show ?thesis by (elim disjE conjE) (simp_all only: sum.case simp_thms)
qed

end
