(* ===== verification/EventDelivery.thy ===== *)
theory EventDelivery
  imports EventProperties
begin

text \<open>
  How the agent delivers its buffered events (\<open>agent_runtime/connection_manager.py\<close>): the choice of
  the longest batch that fits a transport message, the writer's handling of the one batch in flight,
  and the control plane's acknowledgement. The number of bytes of an encoded batch (pydantic's dump
  of the envelope) is a parameter, taken as a function of the message identifier, the sequence number
  and the events. What the socket does and whether the acknowledgement timed out are arguments.
\<close>

section \<open>The longest batch that fits\<close>

text \<open>
  \<open>_event_batch_message\<close>: probe upward by doubling, then search the boundary by bisection. \<open>fit n\<close>
  says that the first \<open>n\<close> events encode without \<open>AgentMessageTooLargeError\<close>. Both loops are partial
  functions, so that returning is a theorem.
\<close>

partial_function (option) probe_upward :: "(nat \<Rightarrow> bool) \<Rightarrow> nat \<Rightarrow> nat \<Rightarrow> (nat \<times> nat) option" where
  "probe_upward fit n fitted =
     (if fitted < n
      then (let candidate = min n (fitted * 2) in
            if fit candidate then probe_upward fit n candidate else Some (fitted, candidate - 1))
      else Some (fitted, n))"

partial_function (option) search_boundary :: "(nat \<Rightarrow> bool) \<Rightarrow> nat \<Rightarrow> nat \<Rightarrow> nat \<Rightarrow> nat option" where
  "search_boundary fit lower upper best =
     (if lower \<le> upper
      then (let candidate = (lower + upper) div 2 in
            if fit candidate then search_boundary fit (candidate + 1) upper candidate
            else search_boundary fit lower (candidate - 1) best)
      else Some best)"

definition event_batch_size :: "(nat \<Rightarrow> bool) \<Rightarrow> nat \<Rightarrow> (error + nat) option" where
  "event_batch_size fit n =
     (if n = 0 then Some (Inl RuntimeError)
      else if \<not> fit 1 then Some (Inl AgentMessageTooLargeError)
      else Option.bind (probe_upward fit n 1) (\<lambda>(fitted, upper).
        if fitted = n then Some (Inr n)
        else map_option Inr (search_boundary fit (fitted + 1) upper fitted)))"

text \<open>A shorter batch is not larger, and \<open>k\<close> is the last of \<open>1..n\<close> that fits.\<close>

definition shrinks :: "(nat \<Rightarrow> bool) \<Rightarrow> bool" where
  "shrinks fit \<longleftrightarrow> (\<forall>i j. i \<le> j \<longrightarrow> fit j \<longrightarrow> fit i)"

definition none_between :: "(nat \<Rightarrow> bool) \<Rightarrow> nat \<Rightarrow> nat \<Rightarrow> bool" where
  "none_between fit k n \<longleftrightarrow> (\<forall>j. k < j \<and> j \<le> n \<longrightarrow> \<not> fit j)"

lemma none_between_self [simp]: "n \<le> k \<Longrightarrow> none_between fit k n"
  by (auto simp: none_between_def)

lemma none_between_extend:
  assumes "shrinks fit" and "none_between fit k u" and "u < n \<longrightarrow> \<not> fit (u + 1)"
  shows "none_between fit k n"
  unfolding none_between_def
proof (intro allI impI)
  fix j assume j: "k < j \<and> j \<le> n"
  show "\<not> fit j"
  proof (cases "j \<le> u")
    case True
    then show ?thesis using assms(2) j by (simp add: none_between_def)
  next
    case False
    then have "u < n" "u + 1 \<le> j" using j by auto
    then show ?thesis using assms(1,3) by (auto simp: shrinks_def)
  qed
qed

lemma probe_upward_returns:
  assumes "1 \<le> k" and "k \<le> n" and "fit k"
  shows "\<exists>f u. probe_upward fit n k = Some (f, u) \<and> 1 \<le> f \<and> f \<le> u \<and> u \<le> n \<and> fit f \<and> (u < n \<longrightarrow> \<not> fit (u + 1))"
  using assms
proof (induction "n - k" arbitrary: k rule: less_induct)
  case less
  show ?case
  proof (cases "k < n")
    case True
    let ?c = "min n (k * 2)"
    have c: "k < ?c" "?c \<le> n" using True less.prems(1) by auto
    show ?thesis
    proof (cases "fit ?c")
      case True
      have "n - ?c < n - k" using c(1) \<open>k < n\<close> by (rule diff_less_mono2)
      from less.hyps[OF this _ c(2) True] show ?thesis
        using c less.prems(1) True \<open>k < n\<close> by (subst probe_upward.simps) (simp add: Let_def)
    next
      case False
      then have "probe_upward fit n k = Some (k, ?c - 1)"
        using \<open>k < n\<close> by (subst probe_upward.simps) (simp add: Let_def)
      moreover have "?c - 1 + 1 = ?c" "k \<le> ?c - 1" "?c - 1 \<le> n" using c by auto
      ultimately show ?thesis
        using less.prems False by (intro exI[of _ k] exI[of _ "?c - 1"]) (simp add: min_def)
    qed
  next
    case False
    then have "k = n" using less.prems(2) by simp
    then show ?thesis using less.prems by (subst probe_upward.simps) simp
  qed
qed

lemma search_boundary_step:
  assumes "lower \<le> upper"
  defines "candidate \<equiv> (lower + upper) div 2"
  shows "fit candidate \<Longrightarrow> search_boundary fit lower upper best = search_boundary fit (candidate + 1) upper candidate"
    and "\<not> fit candidate \<Longrightarrow> search_boundary fit lower upper best = search_boundary fit lower (candidate - 1) best"
  using assms by (simp_all add: search_boundary.simps[of fit lower upper best] Let_def)

lemma search_boundary_returns:
  assumes "fit best" and "best < lower" and "lower \<le> upper + 1"
    and "none_between fit best (lower - 1)"
  shows "\<exists>k. search_boundary fit lower upper best = Some k \<and> best \<le> k \<and> fit k \<and> (k = best \<or> k \<le> upper) \<and>
    (shrinks fit \<longrightarrow> none_between fit k upper)"
  using assms
proof (induction "upper + 1 - lower" arbitrary: lower upper best rule: less_induct)
  case less
  show ?case
  proof (cases "lower \<le> upper")
    case True
    let ?c = "(lower + upper) div 2"
    have c: "lower \<le> ?c" "?c \<le> upper" "1 \<le> ?c" using True less.prems(2) by auto
    show ?thesis
    proof (cases "fit ?c")
      case fit: True
      have dec: "upper + 1 - (?c + 1) < upper + 1 - lower" "?c + 1 \<le> upper + 1" using c True by auto
      have "none_between fit ?c (?c + 1 - 1)" by simp
      from less.hyps[OF dec(1) fit _ dec(2) this] obtain k where
        k: "search_boundary fit (?c + 1) upper ?c = Some k" "?c \<le> k" "fit k" "k = ?c \<or> k \<le> upper"
          "shrinks fit \<longrightarrow> none_between fit k upper" by auto
      then have "best \<le> k" "k = best \<or> k \<le> upper" using c less.prems(2) by auto
      with k show ?thesis unfolding search_boundary_step(1)[of lower upper fit best, OF True fit] by blast
    next
      case no: False
      have dec: "?c - 1 + 1 - lower < upper + 1 - lower" "lower \<le> ?c - 1 + 1" using c True by auto
      from less.hyps[OF dec(1) less.prems(1,2) dec(2) less.prems(4)] obtain k where
        k: "search_boundary fit lower (?c - 1) best = Some k" "best \<le> k" "fit k" "k = best \<or> k \<le> ?c - 1"
          "shrinks fit \<longrightarrow> none_between fit k (?c - 1)" by auto
      have next_one: "?c - 1 + 1 = ?c" using c(3) by linarith
      have "?c - 1 < upper \<longrightarrow> \<not> fit (?c - 1 + 1)" unfolding next_one using no by blast
      then have "none_between fit k upper" if "shrinks fit"
        using none_between_extend[OF that, of k "?c - 1" upper] k(5) that by blast
      moreover have "k = best \<or> k \<le> upper" using k(4) c(2) by linarith
      ultimately show ?thesis using k unfolding search_boundary_step(2)[of lower upper fit best, OF True no] by blast
    qed
  next
    case False
    then have "search_boundary fit lower upper best = Some best" "upper \<le> lower - 1"
      by (simp_all add: search_boundary.simps[of fit lower upper best])
    then show ?thesis using less.prems(1,4) by (auto simp: none_between_def)
  qed
qed

lemma event_batch_size_returns:
  assumes "1 \<le> n" and "fit 1"
  shows "\<exists>k. event_batch_size fit n = Some (Inr k) \<and> 1 \<le> k \<and> k \<le> n \<and> fit k \<and>
    (shrinks fit \<longrightarrow> none_between fit k n)"
proof -
  obtain f u where p: "probe_upward fit n 1 = Some (f, u)" "1 \<le> f" "f \<le> u" "u \<le> n" "fit f" "u < n \<longrightarrow> \<not> fit (u + 1)"
    using probe_upward_returns[of 1 n fit] assms by blast
  show ?thesis
  proof (cases "f = n")
    case True
    then show ?thesis using assms p(1,5) by (simp add: event_batch_size_def)
  next
    case False
    obtain k where k: "search_boundary fit (f + 1) u f = Some k" "f \<le> k" "fit k" "k = f \<or> k \<le> u"
      "shrinks fit \<longrightarrow> none_between fit k u"
    proof -
      have "none_between fit f (f + 1 - 1)" "f < f + 1" "f + 1 \<le> u + 1" using p(3) by simp_all
      from search_boundary_returns[OF p(5) this(2,3,1)] that show thesis by blast
    qed
    have "shrinks fit \<longrightarrow> none_between fit k n"
      using none_between_extend[of fit k u n] k(5) p(6) by blast
    moreover have "event_batch_size fit n = Some (Inr k)"
      using assms p(1) k(1) False by (simp add: event_batch_size_def)
    moreover have "1 \<le> k" "k \<le> n" using p k by linarith+
    ultimately show ?thesis using k(3) by blast
  qed
qed

section \<open>The batch in flight\<close>

type_synonym event_batch = "uuid \<times> buffered_event list"

record delivery =
  dv_buffer :: sql_buffer
  dv_in_flight :: "event_batch option"
  dv_last_ack :: "(uuid \<times> int) option"
  dv_sent :: "uuid option"
  dv_next_sequence :: int

record transport =
  tr_batch_size :: int
  tr_maximum_message_size :: nat
  tr_encoded_size :: "uuid \<Rightarrow> int \<Rightarrow> buffered_event list \<Rightarrow> nat"

text \<open>\<open>_InFlightEventBatch.acknowledged_event_sequence\<close>.\<close>

definition batch_watermark :: "buffered_event list \<Rightarrow> int" where
  "batch_watermark events = be_sequence_number (last events)"

definition batch_fits :: "transport \<Rightarrow> uuid \<Rightarrow> int \<Rightarrow> buffered_event list \<Rightarrow> nat \<Rightarrow> bool" where
  "batch_fits c message_id n events k \<longleftrightarrow> tr_encoded_size c message_id n (take k events) \<le> tr_maximum_message_size c"









section \<open>What a batch covers\<close>

definition last_peeked :: "sql_buffer \<Rightarrow> int" where
  "last_peeked s = (case sb_state s of None \<Rightarrow> 0 | Some st \<Rightarrow> es_last_peeked st)"

text \<open>
  The batch in flight was peeked, and every ordinary event that an acknowledgement of it removes is
  in it.
\<close>

definition covers :: "buffered_event list \<Rightarrow> sql_buffer \<Rightarrow> bool" where
  "covers es s \<longleftrightarrow>
     es \<noteq> [] \<and> 0 \<le> batch_watermark es \<and> batch_watermark es < sql_next_number s \<and>
     batch_watermark es \<le> last_peeked s \<and> (\<forall>e \<in> set es. be_sequence_number e \<le> batch_watermark es) \<and>
     (\<forall>e \<in> set (sql_ordinary s). be_sequence_number e \<le> batch_watermark es \<longrightarrow> e \<in> set es)"






definition delivery_ok :: "delivery \<Rightarrow> bool" where
  "delivery_ok d \<longleftrightarrow> sql_buffer_ok (dv_buffer d) \<and>
     (case dv_in_flight d of None \<Rightarrow> True | Some (_, es) \<Rightarrow> covers es (dv_buffer d))"






lemma delivery_ok_update [simp]:
  "delivery_ok (d\<lparr>dv_sent := x\<rparr>) = delivery_ok d" "delivery_ok (d\<lparr>dv_next_sequence := n\<rparr>) = delivery_ok d"
  "delivery_ok (d\<lparr>dv_last_ack := y\<rparr>) = delivery_ok d"
  by (simp_all add: delivery_ok_def split: option.splits)





section \<open>Properties\<close>

text \<open>
  C37: the search for the batch to send always returns. It refuses exactly when not even one event
  fits, and otherwise takes a non-empty prefix of the events that fits; if dropping events never
  makes a message larger, no longer prefix fits.
\<close>

theorem batch_choice_returns:
  assumes "events \<noteq> []"
  shows "\<exists>r. event_batch_size (batch_fits c i n events) (length events) = Some r \<and>
    (case r of
       Inl x \<Rightarrow> x = AgentMessageTooLargeError \<and> \<not> batch_fits c i n events 1
     | Inr k \<Rightarrow> 1 \<le> k \<and> k \<le> length events \<and> batch_fits c i n events k \<and>
         (shrinks (batch_fits c i n events) \<longrightarrow> none_between (batch_fits c i n events) k (length events)))"
proof (cases "batch_fits c i n events 1")
  case True
  then show ?thesis
    using event_batch_size_returns[of "length events" "batch_fits c i n events"] assms
    by (force simp: Suc_le_eq)
next
  case False
  then show ?thesis using assms by (simp add: event_batch_size_def)
qed

definition event_sized_transport :: "nat \<Rightarrow> transport" where
  "event_sized_transport m = \<lparr>tr_batch_size = 1, tr_maximum_message_size = m, tr_encoded_size = (\<lambda>_ _ es. length es)\<rparr>"

theorem batch_choice_returns_witness:
  "event_batch_size (batch_fits (event_sized_transport 3) ''m'' 2 (replicate 5 progress_event)) 5 = Some (Inr 3)"
proof -
  let ?fit = "batch_fits (event_sized_transport 3) ''m'' 2 (replicate 5 progress_event)"
  have fit: "?fit k \<longleftrightarrow> min 5 k \<le> 3" for k by (auto simp: batch_fits_def event_sized_transport_def)
  then have "shrinks ?fit" by (auto simp: shrinks_def)
  then obtain r where "event_batch_size ?fit 5 = Some r" "case r of Inl x \<Rightarrow> \<not> ?fit 1
      | Inr k \<Rightarrow> 1 \<le> k \<and> k \<le> 5 \<and> ?fit k \<and> none_between ?fit k 5"
    using batch_choice_returns[of "replicate 5 progress_event" "event_sized_transport 3" "''m''" 2]
    by (fastforce split: sum.splits)
  moreover have "k = 3" if "k \<le> 5" "?fit k" "none_between ?fit k 5" for k
    using that spec[OF that(3)[unfolded none_between_def], of 3] by (simp add: fit)
  ultimately show ?thesis by (cases r) (auto simp: fit)
qed




end
