(* ===== verification/Hardware.thy ===== *)
theory Hardware
  imports RemoteCommands
begin

text \<open>
  Physical resources and the benches composed of them: the models of \<open>models/hardware.py\<close> with the
  validators their constructors run, and \<open>ResourceCatalog\<close> (\<open>core/resources.py\<close>), the in-memory
  catalogue an agent rebuilds from plugin discovery. The catalogue's invariant is referential: a
  registered bench names resources that are in the catalogue.
\<close>

section \<open>Models\<close>

datatype resource_health = RHealthy | RDegraded | RUnhealthy | ROffline | RUnknown

datatype sharing_mode = Exclusive | Shared | Channel

datatype binding_role =
  RoleTarget | RolePower | RoleSerial | RoleDebug | RoleCan | RoleInstrument | RoleAuxiliary

text \<open>
  \<open>str.casefold\<close> on the Latin-1 characters; MICRO SIGN, whose folding is not a Latin-1 character,
  stays.
\<close>

definition casefold_char :: "char \<Rightarrow> string" where
  "casefold_char c = (let n = (of_char c :: nat) in
     if 65 \<le> n \<and> n \<le> 90 \<or> 192 \<le> n \<and> n \<le> 222 \<and> n \<noteq> 215 then [char_of (n + 32)]
     else if n = 223 then ''ss'' else [c])"

definition py_casefold :: "string \<Rightarrow> string" where
  "py_casefold s = concat (map casefold_char s)"

record hardware_resource =
  hr_id :: string
  hr_agent_id :: uuid
  hr_plugin :: string
  hr_type :: string
  hr_name :: string
  hr_health :: resource_health
  hr_capabilities :: "string set"
  hr_metadata :: payload
  hr_sharing :: sharing_mode
  hr_channels :: "string set"

text \<open>
  \<open>normalize_capabilities\<close> and \<open>normalize_channels\<close> run on the values as given; a member of the
  wrong type, or one that is blank, is an error.
\<close>

fun normalized_capability :: "json \<Rightarrow> string option" where
  "normalized_capability (JStr s) = (if py_strip s = [] then None else Some (py_casefold (py_strip s)))"
| "normalized_capability (JTime t) = Some (py_casefold (iso_time t))"
| "normalized_capability _ = None"

fun normalized_channel :: "json \<Rightarrow> string option" where
  "normalized_channel (JStr s) = (if py_strip s = [] then None else Some (py_strip s))"
| "normalized_channel (JTime t) = Some (iso_time t)"
| "normalized_channel (JInt i) = Some (int_text i)"
| "normalized_channel (JBool b) = Some (if b then ''True'' else ''False'')"
| "normalized_channel _ = None"

definition normalized_members :: "(json \<Rightarrow> string option) \<Rightarrow> json list \<Rightarrow> error + string set" where
  "normalized_members f vs =
     (if list_all (\<lambda>v. f v \<noteq> None) vs then Inr (set (map (the \<circ> f) vs)) else Inl ValueError)"

definition strip_resource :: "hardware_resource \<Rightarrow> hardware_resource" where
  "strip_resource r = r\<lparr>hr_id := trim (hr_id r), hr_plugin := trim (hr_plugin r),
     hr_type := trim (hr_type r), hr_name := trim (hr_name r)\<rparr>"

text \<open>The field bounds and \<open>validate_sharing\<close>.\<close>

definition hardware_resource_valid :: "hardware_resource \<Rightarrow> bool" where
  "hardware_resource_valid r \<longleftrightarrow>
     sized 1 300 (hr_id r) \<and> sized 1 200 (hr_plugin r) \<and> sized 1 200 (hr_type r) \<and> sized 1 300 (hr_name r) \<and>
     \<not> (hr_sharing r = Channel \<and> hr_channels r = {}) \<and> \<not> (hr_sharing r \<noteq> Channel \<and> hr_channels r \<noteq> {})"

definition make_hardware_resource ::
    "json list \<Rightarrow> json list \<Rightarrow> hardware_resource \<Rightarrow> error + hardware_resource" where
  "make_hardware_resource capabilities channels r =
     (case (normalized_members normalized_capability capabilities, normalized_members normalized_channel channels) of
        (Inr caps, Inr chans) \<Rightarrow>
          (let r' = (strip_resource r)\<lparr>hr_capabilities := caps, hr_channels := chans\<rparr>
           in if hardware_resource_valid r' then Inr r' else Inl ValueError)
      | _ \<Rightarrow> Inl ValueError)"

record binding =
  bb_role :: binding_role
  bb_resource_id :: string
  bb_channel :: "string option"
  bb_required :: bool
  bb_capabilities :: "string set"

definition strip_binding :: "binding \<Rightarrow> binding" where
  "strip_binding b = b\<lparr>bb_resource_id := trim (bb_resource_id b), bb_channel := map_option trim (bb_channel b)\<rparr>"

definition binding_valid :: "binding \<Rightarrow> bool" where
  "binding_valid b \<longleftrightarrow> sized 1 300 (bb_resource_id b) \<and>
     (case bb_channel b of None \<Rightarrow> True | Some c \<Rightarrow> sized 1 100 c)"

definition make_binding :: "json list \<Rightarrow> binding \<Rightarrow> error + binding" where
  "make_binding capabilities b =
     (case normalized_members normalized_capability capabilities of
        Inl e \<Rightarrow> Inl e
      | Inr caps \<Rightarrow>
          (let b' = (strip_binding b)\<lparr>bb_capabilities := caps\<rparr>
           in if binding_valid b' then Inr b' else Inl ValueError))"

record composition =
  bc_id :: string
  bc_name :: string
  bc_resources :: "binding list"
  bc_labels :: "(string \<times> string) list"

definition strip_composition :: "composition \<Rightarrow> composition" where
  "strip_composition b = b\<lparr>bc_id := trim (bc_id b), bc_name := trim (bc_name b),
     bc_resources := map strip_binding (bc_resources b)\<rparr>"

text \<open>The field bounds and \<open>unique_bindings\<close>.\<close>

definition composition_valid :: "composition \<Rightarrow> bool" where
  "composition_valid b \<longleftrightarrow>
     sized 1 300 (bc_id b) \<and> sized 1 300 (bc_name b) \<and> bc_resources b \<noteq> [] \<and>
     list_all binding_valid (bc_resources b) \<and>
     distinct (map (\<lambda>x. (bb_resource_id x, bb_channel x)) (bc_resources b)) \<and>
     list_ex (\<lambda>x. bb_role x = RoleTarget) (bc_resources b)"

definition make_composition :: "composition \<Rightarrow> error + composition" where
  "make_composition b =
     (let b' = strip_composition b in if composition_valid b' then Inr b' else Inl ValueError)"

section \<open>The catalogue\<close>

record catalog =
  ct_resources :: "(string \<times> hardware_resource) list"
  ct_benches :: "(string \<times> composition) list"

definition empty_catalog :: catalog where
  "empty_catalog = \<lparr>ct_resources = [], ct_benches = []\<rparr>"

definition upsert_resource :: "hardware_resource \<Rightarrow> (catalog, hardware_resource) io" where
  "upsert_resource r =
     bindM (getsM (\<lambda>c. map_of (ct_resources c) (hr_id r))) (\<lambda>existing.
       if (case existing of None \<Rightarrow> False
           | Some x \<Rightarrow> hr_agent_id x \<noteq> hr_agent_id r \<or> hr_plugin x \<noteq> hr_plugin r)
       then raiseM ResourceConflictError
       else bindM (modifyM (\<lambda>c. c\<lparr>ct_resources := dict_set (hr_id r) r (ct_resources c)\<rparr>)) (\<lambda>_. returnM r))"

definition referenced_by :: "string \<Rightarrow> catalog \<Rightarrow> composition list" where
  "referenced_by i c =
     filter (\<lambda>b. list_ex (\<lambda>x. bb_resource_id x = i) (bc_resources b)) (map snd (ct_benches c))"

definition remove_resource :: "string \<Rightarrow> (catalog, hardware_resource option) io" where
  "remove_resource i =
     bindM (getsM (referenced_by i)) (\<lambda>bs.
       if bs \<noteq> [] then raiseM ResourceConflictError
       else bindM (getsM (\<lambda>c. map_of (ct_resources c) i)) (\<lambda>old.
         bindM (modifyM (\<lambda>c. c\<lparr>ct_resources := dict_pop i (ct_resources c)\<rparr>)) (\<lambda>_. returnM old)))"

definition get_resource :: "catalog \<Rightarrow> string \<Rightarrow> error + hardware_resource" where
  "get_resource c i =
     (case map_of (ct_resources c) i of None \<Rightarrow> Inl HardwareResourceNotFoundError | Some r \<Rightarrow> Inr r)"

definition list_resources ::
    "uuid option \<Rightarrow> string option \<Rightarrow> string option \<Rightarrow> string option \<Rightarrow> catalog \<Rightarrow> hardware_resource list" where
  "list_resources agent_id plugin resource_type capability c =
     (let wanted = (if truthy capability then Some (py_casefold (py_strip (the capability))) else None)
      in filter (\<lambda>r. (case agent_id of None \<Rightarrow> True | Some a \<Rightarrow> hr_agent_id r = a) \<and>
                     (case plugin of None \<Rightarrow> True | Some p \<Rightarrow> hr_plugin r = p) \<and>
                     (case resource_type of None \<Rightarrow> True | Some t \<Rightarrow> hr_type r = t) \<and>
                     (case wanted of None \<Rightarrow> True | Some w \<Rightarrow> w \<in> hr_capabilities r))
           (sort_key hr_id (map snd (ct_resources c))))"

text \<open>\<open>_validate_binding\<close>.\<close>

definition validate_binding :: "catalog \<Rightarrow> binding \<Rightarrow> error + unit" where
  "validate_binding c b =
     (case get_resource c (bb_resource_id b) of
        Inl e \<Rightarrow> Inl e
      | Inr r \<Rightarrow>
          if hr_sharing r = Channel \<and> bb_channel b = None then Inl ResourceConflictError
          else if hr_sharing r = Channel \<and> the (bb_channel b) \<notin> hr_channels r then Inl ResourceConflictError
          else if hr_sharing r \<noteq> Channel \<and> bb_channel b \<noteq> None then Inl ResourceConflictError
          else if \<not> bb_capabilities b \<subseteq> hr_capabilities r then Inl ResourceConflictError
          else Inr ())"

definition register_bench :: "composition \<Rightarrow> (catalog, composition) io" where
  "register_bench b =
     bindM (foldM (\<lambda>x _. bindM (getsM (\<lambda>c. validate_binding c x)) liftE) (bc_resources b) ()) (\<lambda>_.
       bindM (modifyM (\<lambda>c. c\<lparr>ct_benches := dict_set (bc_id b) b (ct_benches c)\<rparr>)) (\<lambda>_. returnM b))"

definition remove_bench :: "string \<Rightarrow> (catalog, composition option) io" where
  "remove_bench i =
     bindM (getsM (\<lambda>c. map_of (ct_benches c) i)) (\<lambda>old.
       bindM (modifyM (\<lambda>c. c\<lparr>ct_benches := dict_pop i (ct_benches c)\<rparr>)) (\<lambda>_. returnM old))"

definition get_bench :: "catalog \<Rightarrow> string \<Rightarrow> error + composition" where
  "get_bench c i =
     (case map_of (ct_benches c) i of None \<Rightarrow> Inl BenchCompositionNotFoundError | Some b \<Rightarrow> Inr b)"

definition list_benches :: "catalog \<Rightarrow> composition list" where
  "list_benches c = map (\<lambda>k. the (map_of (ct_benches c) k)) (sort (map fst (ct_benches c)))"

text \<open>A comprehension whose element may raise: the first exception ends it.\<close>

primrec mapE :: "('a \<Rightarrow> error + 'b) \<Rightarrow> 'a list \<Rightarrow> error + 'b list" where
  "mapE f [] = Inr []"
| "mapE f (x # xs) =
     (case f x of Inl e \<Rightarrow> Inl e
      | Inr y \<Rightarrow> (case mapE f xs of Inl e \<Rightarrow> Inl e | Inr ys \<Rightarrow> Inr (y # ys)))"

definition resources_for_bench :: "catalog \<Rightarrow> string \<Rightarrow> error + hardware_resource list" where
  "resources_for_bench c i =
     (case get_bench c i of Inl e \<Rightarrow> Inl e
      | Inr b \<Rightarrow> mapE (\<lambda>x. get_resource c (bb_resource_id x)) (bc_resources b))"

definition binding_capabilities :: "binding \<Rightarrow> hardware_resource \<Rightarrow> string set" where
  "binding_capabilities x r = (if bb_capabilities x \<noteq> {} then bb_capabilities x else hr_capabilities r)"

definition capabilities_for_bench :: "catalog \<Rightarrow> string \<Rightarrow> error + string set" where
  "capabilities_for_bench c i =
     (case get_bench c i of Inl e \<Rightarrow> Inl e
      | Inr b \<Rightarrow>
          (case mapE (\<lambda>x. map_sum id (binding_capabilities x) (get_resource c (bb_resource_id x))) (bc_resources b) of
             Inl e \<Rightarrow> Inl e
           | Inr sets \<Rightarrow> Inr (\<Union> (set sets))))"

definition unavailable_resources :: "catalog \<Rightarrow> string \<Rightarrow> error + hardware_resource list" where
  "unavailable_resources c i =
     (case get_bench c i of Inl e \<Rightarrow> Inl e
      | Inr b \<Rightarrow>
          map_sum id (filter (\<lambda>r. hr_health r \<in> {RUnhealthy, ROffline}))
            (mapE (\<lambda>x. get_resource c (bb_resource_id x)) (filter bb_required (bc_resources b))))"

definition require_available :: "catalog \<Rightarrow> string \<Rightarrow> error + unit" where
  "require_available c i =
     (case unavailable_resources c i of Inl e \<Rightarrow> Inl e
      | Inr rs \<Rightarrow> if rs \<noteq> [] then Inl ResourceUnavailableError else Inr ())"

section \<open>The invariant of the catalogue\<close>

definition resource_object :: "hardware_resource \<Rightarrow> bool" where
  "resource_object r \<longleftrightarrow> strip_resource r = r \<and> hardware_resource_valid r"

definition composition_object :: "composition \<Rightarrow> bool" where
  "composition_object b \<longleftrightarrow> strip_composition b = b \<and> composition_valid b"

definition refers_to :: "string set \<Rightarrow> composition \<Rightarrow> bool" where
  "refers_to ids b \<longleftrightarrow> bb_resource_id ` set (bc_resources b) \<subseteq> ids"

definition catalog_ok :: "catalog \<Rightarrow> bool" where
  "catalog_ok c \<longleftrightarrow>
     distinct (map fst (ct_resources c)) \<and> distinct (map fst (ct_benches c)) \<and>
     (\<forall>x \<in> set (ct_resources c). hr_id (snd x) = fst x \<and> resource_object (snd x)) \<and>
     (\<forall>x \<in> set (ct_benches c). bc_id (snd x) = fst x \<and> composition_object (snd x) \<and>
        refers_to (fst ` set (ct_resources c)) (snd x))"

lemma make_hardware_resource_object:
  "make_hardware_resource capabilities channels r = Inr r' \<Longrightarrow> resource_object r'"
  by (auto simp: make_hardware_resource_def resource_object_def strip_resource_def Let_def
      split: sum.splits if_splits)

lemma make_composition_object: "make_composition b = Inr b' \<Longrightarrow> composition_object b'"
  by (auto simp: make_composition_def composition_object_def strip_composition_def strip_binding_def
      option.map_comp o_def Let_def split: if_splits)

lemma catalog_ok_empty [simp]: "catalog_ok empty_catalog"
  by (simp add: catalog_ok_def empty_catalog_def)

lemma catalog_okD:
  assumes "catalog_ok c"
  shows "distinct (map fst (ct_resources c))" "distinct (map fst (ct_benches c))"
    and "map_of (ct_resources c) i = Some r \<Longrightarrow> hr_id r = i \<and> resource_object r"
    and "map_of (ct_benches c) i = Some b \<Longrightarrow>
           bc_id b = i \<and> composition_object b \<and> refers_to (fst ` set (ct_resources c)) b"
  using assms by (auto simp: catalog_ok_def dest!: map_of_SomeD)

lemma refers_to_mono: "refers_to ids b \<Longrightarrow> ids \<subseteq> ids' \<Longrightarrow> refers_to ids' b"
  by (auto simp: refers_to_def)

lemma get_resource_Inr: "get_resource c i = Inr r \<longleftrightarrow> map_of (ct_resources c) i = Some r"
  by (simp add: get_resource_def split: option.splits)

lemma get_bench_Inr: "get_bench c i = Inr b \<longleftrightarrow> map_of (ct_benches c) i = Some b"
  by (simp add: get_bench_def split: option.splits)

lemma known_resource: "i \<in> fst ` set (ct_resources c) \<Longrightarrow> \<exists>r. get_resource c i = Inr r"
  by (metis get_resource_Inr map_of_eq_None_iff not_None_eq)

lemma mapE_InrD: "mapE f xs = Inr ys \<Longrightarrow> map f xs = map Inr ys"
  by (induction xs arbitrary: ys) (auto split: sum.splits)

lemma mapE_InrI: "map f xs = map Inr ys \<Longrightarrow> mapE f xs = Inr ys"
  by (induction xs arbitrary: ys) (auto split: sum.splits)

lemma mapE_Inr: "mapE f xs = Inr ys \<longleftrightarrow> map f xs = map Inr ys"
  by (metis mapE_InrD mapE_InrI)

lemma mapE_total: "(\<And>x. x \<in> set xs \<Longrightarrow> \<exists>y. f x = Inr y) \<Longrightarrow> mapE f xs = Inr (map (projr \<circ> f) xs)"
  by (induction xs) (force split: sum.splits)+

lemma mapE_cong: "(\<And>x. x \<in> set xs \<Longrightarrow> f x = g x) \<Longrightarrow> mapE f xs = mapE g xs"
  by (induction xs) (simp_all split: sum.splits)

text \<open>A loop that only checks: it raises what the first failing check raises.\<close>

lemma fold_checks:
  "foldM (\<lambda>x _. bindM (getsM (\<lambda>w. f w x)) liftE) xs () w =
     (map_sum id (\<lambda>_. ()) (mapE (f w) xs), w)"
  by (induction xs) (auto simp: runM split: sum.splits)

lemma upsert_keeps:
  assumes "resource_object r"
  shows "keeps catalog_ok (upsert_resource r)"
proof (rule keepsI)
  fix c assume ok: "catalog_ok c"
  let ?c = "c\<lparr>ct_resources := dict_set (hr_id r) r (ct_resources c)\<rparr>"
  have "catalog_ok ?c"
    using ok assms set_dict_set[of "hr_id r" r "ct_resources c"]
    by (auto simp: catalog_ok_def distinct_dict_set keys_dict_set elim!: refers_to_mono)
  then show "catalog_ok (snd (upsert_resource r c))"
    using ok by (simp add: upsert_resource_def runM)
qed

lemma remove_resource_run:
  "remove_resource i c =
     (if referenced_by i c \<noteq> [] then (Inl ResourceConflictError, c)
      else (Inr (map_of (ct_resources c) i), c\<lparr>ct_resources := dict_pop i (ct_resources c)\<rparr>))"
  by (simp add: remove_resource_def runM)

lemma referenced_by_empty:
  "referenced_by i c = [] \<longleftrightarrow> (\<forall>x \<in> set (ct_benches c). i \<notin> bb_resource_id ` set (bc_resources (snd x)))"
  by (auto simp: referenced_by_def filter_empty_conv list_ex_iff)

lemma in_dict_pop: "x \<in> set (dict_pop k d) \<longleftrightarrow> x \<in> set d \<and> fst x \<noteq> k"
  by (auto simp: dict_pop_def)

lemma remove_resource_keeps: "keeps catalog_ok (remove_resource i)"
proof (rule keepsI)
  fix c assume ok: "catalog_ok c"
  show "catalog_ok (snd (remove_resource i c))"
  proof (cases "referenced_by i c = []")
    case True
    then have "refers_to (fst ` set (dict_pop i (ct_resources c))) (snd x)" if "x \<in> set (ct_benches c)" for x
      using ok that by (force simp: referenced_by_empty catalog_ok_def refers_to_def keys_dict_pop)
    then have "catalog_ok (c\<lparr>ct_resources := dict_pop i (ct_resources c)\<rparr>)"
      using ok by (simp add: catalog_ok_def distinct_dict_pop in_dict_pop)
    with True show ?thesis by (simp add: remove_resource_run)
  qed (use ok in \<open>simp add: remove_resource_run\<close>)
qed

lemma register_bench_run:
  "register_bench b c =
     (case mapE (validate_binding c) (bc_resources b) of
        Inl e \<Rightarrow> (Inl e, c)
      | Inr _ \<Rightarrow> (Inr b, c\<lparr>ct_benches := dict_set (bc_id b) b (ct_benches c)\<rparr>))"
  by (simp add: register_bench_def fold_checks runM split: sum.splits)

lemma validated_binding_known:
  "validate_binding c x = Inr u \<Longrightarrow> bb_resource_id x \<in> fst ` set (ct_resources c)"
  by (auto simp: validate_binding_def get_resource_def dest!: map_of_SomeD split: sum.splits option.splits)
    (force simp: image_iff)+

lemma register_bench_keeps:
  assumes "composition_object b"
  shows "keeps catalog_ok (register_bench b)"
proof (rule keepsI)
  fix c assume ok: "catalog_ok c"
  show "catalog_ok (snd (register_bench b c))"
  proof (cases "mapE (validate_binding c) (bc_resources b)")
    case (Inr us)
    then have "refers_to (fst ` set (ct_resources c)) b"
      unfolding refers_to_def mapE_Inr
      by (metis (no_types, lifting) image_subsetI validated_binding_known in_set_conv_nth length_map nth_map)
    then have "catalog_ok (c\<lparr>ct_benches := dict_set (bc_id b) b (ct_benches c)\<rparr>)"
      using ok assms set_dict_set[of "bc_id b" b "ct_benches c"]
      by (auto simp: catalog_ok_def distinct_dict_set)
    with Inr show ?thesis by (simp add: register_bench_run)
  qed (use ok in \<open>simp add: register_bench_run\<close>)
qed

lemma remove_bench_keeps: "keeps catalog_ok (remove_bench i)"
  by (rule keepsI) (simp add: remove_bench_def runM catalog_ok_def distinct_dict_pop in_dict_pop)

text \<open>What a registered bench names can be read.\<close>

lemma bench_resource_known:
  assumes "catalog_ok c" and "get_bench c i = Inr b" and "x \<in> set (bc_resources b)"
  shows "\<exists>r. get_resource c (bb_resource_id x) = Inr r"
  using catalog_okD(4)[OF assms(1), of i b] assms(2,3)
  by (intro known_resource) (auto simp: get_bench_Inr refers_to_def)

lemma resources_for_bench_total:
  assumes "catalog_ok c" and "get_bench c i = Inr b"
  obtains rs where "resources_for_bench c i = Inr rs" "map hr_id rs = map bb_resource_id (bc_resources b)"
proof -
  let ?f = "\<lambda>x. get_resource c (bb_resource_id x)"
  have known: "\<exists>r. ?f x = Inr r \<and> hr_id r = bb_resource_id x" if "x \<in> set (bc_resources b)" for x
    using bench_resource_known[OF assms that] catalog_okD(3)[OF assms(1)] by (metis get_resource_Inr)
  then have "mapE ?f (bc_resources b) = Inr (map (projr \<circ> ?f) (bc_resources b))"
    by (intro mapE_total) blast
  moreover have "map hr_id (map (projr \<circ> ?f) (bc_resources b)) = map bb_resource_id (bc_resources b)"
    using known by (force intro: map_cong)
  ultimately show ?thesis
    using assms(2) by (intro that[of "map (projr \<circ> ?f) (bc_resources b)"]) (simp_all add: resources_for_bench_def)
qed

end
