(* ===== verification/ResourceLocks.thy ===== *)
theory ResourceLocks
  imports Hardware
begin

text \<open>
  \<open>ResourceLockManager\<close> and \<open>ResourceReservationCoordinator\<close> (\<open>core/resources.py\<close>): leases on
  physical resources, one per resource or per channel of a resource, each with a fencing token that
  is larger than every token granted before for the same key. The critical sections contain no
  \<open>await\<close>, so a call is one step. The clock reading of a call is an argument.
\<close>

section \<open>Locks\<close>

datatype lock_owner_type = ByReservation | ByOperation | ByWorkflow | ByMaintenance

type_synonym lock_key = "string \<times> string option"

record resource_lock =
  rl_resource_id :: string
  rl_owner_type :: lock_owner_type
  rl_owner_id :: uuid
  rl_acquired_at :: time
  rl_expires_at :: "time option"
  rl_channel :: "string option"
  rl_fencing_token :: int

definition strip_lock :: "resource_lock \<Rightarrow> resource_lock" where
  "strip_lock l = l\<lparr>rl_resource_id := trim (rl_resource_id l), rl_channel := map_option trim (rl_channel l)\<rparr>"

definition resource_lock_valid :: "resource_lock \<Rightarrow> bool" where
  "resource_lock_valid l \<longleftrightarrow>
     sized 1 300 (rl_resource_id l) \<and> (case rl_channel l of None \<Rightarrow> True | Some c \<Rightarrow> sized 1 100 c) \<and>
     1 \<le> rl_fencing_token l \<and>
     (case rl_expires_at l of None \<Rightarrow> True | Some e \<Rightarrow> \<not> e \<le> rl_acquired_at l)"

definition make_resource_lock :: "resource_lock \<Rightarrow> error + resource_lock" where
  "make_resource_lock l =
     (let l' = strip_lock l in if resource_lock_valid l' then Inr l' else Inl ValueError)"

record lock_table =
  lt_locks :: "(lock_key \<times> resource_lock) list"
  lt_tokens :: "(lock_key \<times> int) list"

definition empty_lock_table :: lock_table where
  "empty_lock_table = \<lparr>lt_locks = [], lt_tokens = []\<rparr>"

definition lock_key_of :: "resource_lock \<Rightarrow> lock_key" where
  "lock_key_of l = (rl_resource_id l, rl_channel l)"

text \<open>\<open>item.channel or ""\<close>.\<close>

definition channel_text :: "string option \<Rightarrow> string" where
  "channel_text ch = (case ch of None \<Rightarrow> [] | Some c \<Rightarrow> c)"

definition key_order :: "lock_key \<Rightarrow> string \<times> string" where
  "key_order k = (fst k, channel_text (snd k))"

definition sorted_locks :: "resource_lock list \<Rightarrow> resource_lock list" where
  "sorted_locks ls = sort_key (key_order \<circ> lock_key_of) ls"

definition lock_expired :: "time \<Rightarrow> resource_lock \<Rightarrow> bool" where
  "lock_expired now l = (case rl_expires_at l of None \<Rightarrow> False | Some e \<Rightarrow> e \<le> now)"

definition owned_by :: "lock_owner_type \<Rightarrow> uuid \<Rightarrow> resource_lock \<Rightarrow> bool" where
  "owned_by ot oid l \<longleftrightarrow> rl_owner_type l = ot \<and> rl_owner_id l = oid"

definition pop_lock :: "resource_lock \<Rightarrow> lock_table \<Rightarrow> lock_table" where
  "pop_lock l t = t\<lparr>lt_locks := dict_pop (lock_key_of l) (lt_locks t)\<rparr>"

section \<open>Operations\<close>

text \<open>\<open>_expire_locked\<close>.\<close>

definition expire_locked :: "time \<Rightarrow> (lock_table, resource_lock list) io" where
  "expire_locked now =
     bindM (getsM (\<lambda>t. filter (lock_expired now) (map snd (lt_locks t)))) (\<lambda>expired.
       bindM (modifyM (fold pop_lock expired)) (\<lambda>_. returnM (sorted_locks expired)))"

text \<open>\<open>_lock_keys\<close>: none for a shared resource, one per channel, otherwise one per resource.\<close>

definition binding_key :: "hardware_resource \<Rightarrow> binding \<Rightarrow> lock_key option" where
  "binding_key r x =
     (if hr_sharing r = Shared then None
      else Some (hr_id r, if hr_sharing r = Channel then bb_channel x else None))"

definition lock_keys :: "catalog \<Rightarrow> binding list \<Rightarrow> error + lock_key list" where
  "lock_keys c xs =
     map_sum id (\<lambda>ks. sort_key key_order (remdups (List.map_filter id ks)))
       (mapE (\<lambda>x. map_sum id (\<lambda>r. binding_key r x) (get_resource c (bb_resource_id x))) xs)"

definition next_token :: "lock_key \<Rightarrow> lock_table \<Rightarrow> int" where
  "next_token k t = (case map_of (lt_tokens t) k of None \<Rightarrow> 0 | Some n \<Rightarrow> n) + 1"

definition fresh_lock ::
    "lock_key \<Rightarrow> lock_owner_type \<Rightarrow> uuid \<Rightarrow> time option \<Rightarrow> time \<Rightarrow> int \<Rightarrow> resource_lock" where
  "fresh_lock k ot oid expires now token =
     \<lparr>rl_resource_id = fst k, rl_owner_type = ot, rl_owner_id = oid, rl_acquired_at = now,
      rl_expires_at = expires, rl_channel = snd k, rl_fencing_token = token\<rparr>"

text \<open>The body of the acquisition loop: extend the owner's lock, or grant a new one.\<close>

definition acquire_key ::
    "lock_owner_type \<Rightarrow> uuid \<Rightarrow> time option \<Rightarrow> time \<Rightarrow> lock_key \<Rightarrow> resource_lock list \<Rightarrow>
     (lock_table, resource_lock list) io" where
  "acquire_key ot oid expires now k acquired =
     bindM (getsM (\<lambda>t. map_of (lt_locks t) k)) (\<lambda>held.
       case held of
         Some current \<Rightarrow>
           if rl_expires_at current \<noteq> expires
           then (let current' = current\<lparr>rl_expires_at := expires\<rparr>
                 in bindM (modifyM (\<lambda>t. t\<lparr>lt_locks := dict_set k current' (lt_locks t)\<rparr>))
                      (\<lambda>_. returnM (acquired @ [current'])))
           else returnM (acquired @ [current])
       | None \<Rightarrow>
           bindM (getsM (next_token k)) (\<lambda>token.
             bindM (modifyM (\<lambda>t. t\<lparr>lt_tokens := dict_set k token (lt_tokens t)\<rparr>)) (\<lambda>_.
               bindM (liftE (make_resource_lock (fresh_lock k ot oid expires now token))) (\<lambda>lock.
                 bindM (modifyM (\<lambda>t. t\<lparr>lt_locks := dict_set k lock (lt_locks t)\<rparr>))
                   (\<lambda>_. returnM (acquired @ [lock]))))))"

definition conflicts :: "lock_owner_type \<Rightarrow> uuid \<Rightarrow> lock_key list \<Rightarrow> lock_table \<Rightarrow> resource_lock list" where
  "conflicts ot oid ks t =
     filter (\<lambda>l. \<not> owned_by ot oid l) (List.map_filter (map_of (lt_locks t)) ks)"

definition expiry_past :: "time option \<Rightarrow> time \<Rightarrow> bool" where
  "expiry_past expires now = (case expires of None \<Rightarrow> False | Some e \<Rightarrow> e \<le> now)"

text \<open>The critical section of \<open>acquire_for_bench\<close>.\<close>

definition acquire_keys ::
    "lock_owner_type \<Rightarrow> uuid \<Rightarrow> time option \<Rightarrow> time \<Rightarrow> lock_key list \<Rightarrow> (lock_table, resource_lock list) io" where
  "acquire_keys ot oid expires now requested =
     bindM (expire_locked now) (\<lambda>_.
       bindM (getsM (conflicts ot oid requested)) (\<lambda>cs.
         if cs \<noteq> [] then raiseM ResourceConflictError
         else foldM (acquire_key ot oid expires now) requested []))"

definition acquire_for_bench ::
    "catalog \<Rightarrow> string \<Rightarrow> lock_owner_type \<Rightarrow> uuid \<Rightarrow> time option \<Rightarrow> time \<Rightarrow>
     (lock_table, resource_lock list) io" where
  "acquire_for_bench c bench_id ot oid expires now =
     bindM (liftE (require_available c bench_id)) (\<lambda>_.
       bindM (liftE (get_bench c bench_id)) (\<lambda>bench.
         bindM (liftE (lock_keys c (bc_resources bench))) (\<lambda>requested.
           if expiry_past expires now then raiseM ValueError
           else acquire_keys ot oid expires now requested)))"

text \<open>The body of the renewal loop over a snapshot of the items.\<close>

definition renew_lock ::
    "lock_owner_type \<Rightarrow> uuid \<Rightarrow> time \<Rightarrow> lock_key \<times> resource_lock \<Rightarrow> resource_lock list \<Rightarrow>
     (lock_table, resource_lock list) io" where
  "renew_lock ot oid expires kl renewed =
     (if owned_by ot oid (snd kl)
      then (let updated = (snd kl)\<lparr>rl_expires_at := Some expires\<rparr>
            in bindM (modifyM (\<lambda>t. t\<lparr>lt_locks := dict_set (fst kl) updated (lt_locks t)\<rparr>))
                 (\<lambda>_. returnM (renewed @ [updated])))
      else returnM renewed)"

definition renew_owner ::
    "lock_owner_type \<Rightarrow> uuid \<Rightarrow> time \<Rightarrow> time \<Rightarrow> (lock_table, resource_lock list) io" where
  "renew_owner ot oid expires now =
     (if expires \<le> now then raiseM ValueError
      else bindM (expire_locked now) (\<lambda>_.
        bindM (getsM lt_locks) (\<lambda>items.
          bindM (foldM (renew_lock ot oid expires) items []) (\<lambda>renewed. returnM (sorted_locks renewed)))))"

definition release_owner :: "lock_owner_type \<Rightarrow> uuid \<Rightarrow> (lock_table, resource_lock list) io" where
  "release_owner ot oid =
     bindM (getsM (\<lambda>t. filter (owned_by ot oid) (map snd (lt_locks t)))) (\<lambda>released.
       bindM (modifyM (fold pop_lock released)) (\<lambda>_. returnM (sorted_locks released)))"

definition active_locks :: "time \<Rightarrow> (lock_table, resource_lock list) io" where
  "active_locks now =
     bindM (expire_locked now) (\<lambda>_. getsM (\<lambda>t. sorted_locks (map snd (lt_locks t))))"

definition recover_expired :: "time \<Rightarrow> (lock_table, resource_lock list) io" where
  "recover_expired now = expire_locked now"

text \<open>\<open>ResourceReservationCoordinator\<close>.\<close>

definition coordinator_acquire ::
    "catalog \<Rightarrow> string \<Rightarrow> uuid \<Rightarrow> time option \<Rightarrow> time \<Rightarrow> (lock_table, resource_lock list) io" where
  "coordinator_acquire c bench_id reservation_id expires now =
     acquire_for_bench c bench_id ByReservation reservation_id expires now"

definition coordinator_renew :: "uuid \<Rightarrow> time \<Rightarrow> time \<Rightarrow> (lock_table, resource_lock list) io" where
  "coordinator_renew reservation_id expires now = renew_owner ByReservation reservation_id expires now"

definition coordinator_release :: "uuid \<Rightarrow> (lock_table, resource_lock list) io" where
  "coordinator_release reservation_id = release_owner ByReservation reservation_id"

section \<open>The table as a map\<close>

definition held :: "lock_table \<Rightarrow> lock_key \<Rightarrow> resource_lock option" where
  "held t = map_of (lt_locks t)"

definition counter :: "lock_table \<Rightarrow> lock_key \<Rightarrow> int" where
  "counter t k = (case map_of (lt_tokens t) k of None \<Rightarrow> 0 | Some n \<Rightarrow> n)"

definition lock_table_ok :: "lock_table \<Rightarrow> bool" where
  "lock_table_ok t \<longleftrightarrow>
     distinct (map fst (lt_locks t)) \<and> (\<forall>n \<in> snd ` set (lt_tokens t). 1 \<le> n) \<and>
     (\<forall>x \<in> set (lt_locks t). lock_key_of (snd x) = fst x \<and> 1 \<le> rl_fencing_token (snd x) \<and>
        rl_fencing_token (snd x) \<le> counter t (fst x))"

lemma lock_table_ok_empty [simp]: "lock_table_ok empty_lock_table"
  by (simp add: lock_table_ok_def empty_lock_table_def)

lemma lock_table_okD:
  assumes "lock_table_ok t"
  shows "distinct (map fst (lt_locks t))"
    and "held t k = Some l \<Longrightarrow> lock_key_of l = k \<and> 1 \<le> rl_fencing_token l \<and> rl_fencing_token l \<le> counter t k"
  using assms by (auto simp: lock_table_ok_def held_def dest!: map_of_SomeD)

lemma counter_nonneg: "lock_table_ok t \<Longrightarrow> 0 \<le> counter t k"
  by (force simp: lock_table_ok_def counter_def dest!: map_of_SomeD split: option.splits)

lemma next_token_counter: "next_token k t = counter t k + 1"
  by (simp add: next_token_def counter_def)

lemma fold_pop:
  "fold pop_lock ls t = t\<lparr>lt_locks := filter (\<lambda>(k, _). k \<notin> lock_key_of ` set ls) (lt_locks t)\<rparr>"
  by (induction ls arbitrary: t)
    (simp_all add: pop_lock_def dict_pop_def split_def conj_commute)

text \<open>Removing the locks a predicate selects, through their own keys, removes exactly those.\<close>

lemma pop_selected:
  assumes "lock_table_ok t"
  shows "fold pop_lock (filter P (map snd (lt_locks t))) t = t\<lparr>lt_locks := filter (\<lambda>(_, l). \<not> P l) (lt_locks t)\<rparr>"
proof -
  have hit: "k \<notin> lock_key_of ` set (filter P (map snd (lt_locks t))) \<longleftrightarrow> \<not> P l" if "(k, l) \<in> set (lt_locks t)" for k l
  proof -
    have "x = (k, l)" if "x \<in> set (lt_locks t)" "lock_key_of (snd x) = k" for x
      using that \<open>(k, l) \<in> _\<close> assms by (metis (no_types, lifting) lock_table_ok_def fst_conv distinct_map_eq)
    moreover have "lock_key_of l = k" using that assms by (force simp: lock_table_ok_def)
    ultimately show ?thesis using that by force
  qed
  have "filter (\<lambda>(k, _). k \<notin> lock_key_of ` set (filter P (map snd (lt_locks t)))) (lt_locks t) =
      filter (\<lambda>(_, l). \<not> P l) (lt_locks t)"
  proof (rule filter_cong[OF refl], goal_cases)
    case (1 x)
    then show ?case using hit[of "fst x" "snd x"] by (simp only: split_def prod.collapse)
  qed
  then show ?thesis by (simp only: fold_pop)
qed

definition restricted :: "(resource_lock \<Rightarrow> bool) \<Rightarrow> (lock_key \<Rightarrow> resource_lock option) \<Rightarrow> lock_key \<Rightarrow> resource_lock option" where
  "restricted P h k = (case h k of None \<Rightarrow> None | Some l \<Rightarrow> if P l then Some l else None)"

lemma restricted_Some [simp]: "restricted P h k = Some l \<longleftrightarrow> h k = Some l \<and> P l"
  by (auto simp: restricted_def split: option.splits)

lemma filtered_table:
  fixes P :: "resource_lock \<Rightarrow> bool"
  assumes "lock_table_ok t"
  defines "t' \<equiv> t\<lparr>lt_locks := filter (\<lambda>(_, l). P l) (lt_locks t)\<rparr>"
  shows "held t' = restricted P (held t)" and "counter t' = counter t" and "lock_table_ok t'"
proof -
  show "held t' = restricted P (held t)"
    using lock_table_okD(1)[OF assms(1)]
    by (auto simp: t'_def held_def restricted_def fun_eq_iff map_of_filter_value split: option.splits)
  show c: "counter t' = counter t"
    by (simp add: t'_def counter_def fun_eq_iff)
  show "lock_table_ok t'"
    using assms(1) unfolding lock_table_ok_def c by (auto simp: t'_def distinct_map_filter)
qed

lemma expire_locked_run:
  "lock_table_ok t \<Longrightarrow> expire_locked now t =
     (Inr (sorted_locks (filter (lock_expired now) (map snd (lt_locks t)))),
      t\<lparr>lt_locks := filter (\<lambda>(_, l). \<not> lock_expired now l) (lt_locks t)\<rparr>)"
  by (simp add: expire_locked_def runM pop_selected)

lemma release_owner_run:
  "lock_table_ok t \<Longrightarrow> release_owner ot oid t =
     (Inr (sorted_locks (filter (owned_by ot oid) (map snd (lt_locks t)))),
      t\<lparr>lt_locks := filter (\<lambda>(_, l). \<not> owned_by ot oid l) (lt_locks t)\<rparr>)"
  by (simp add: release_owner_def runM pop_selected)

section \<open>Granting a set of keys\<close>

definition key_storable :: "lock_key \<Rightarrow> bool" where
  "key_storable k \<longleftrightarrow> trim (fst k) = fst k \<and> sized 1 300 (fst k) \<and>
     (case snd k of None \<Rightarrow> True | Some c \<Rightarrow> trim c = c \<and> sized 1 100 c)"

definition granted ::
    "lock_owner_type \<Rightarrow> uuid \<Rightarrow> time option \<Rightarrow> time \<Rightarrow> lock_key set \<Rightarrow> (lock_key \<Rightarrow> int) \<Rightarrow>
     (lock_key \<Rightarrow> resource_lock option) \<Rightarrow> lock_key \<Rightarrow> resource_lock option" where
  "granted ot oid expires now ks c h k =
     (if k \<notin> ks then h k
      else Some (case h k of Some l \<Rightarrow> l\<lparr>rl_expires_at := expires\<rparr>
                 | None \<Rightarrow> fresh_lock k ot oid expires now (c k + 1)))"

definition counted :: "lock_key set \<Rightarrow> (lock_key \<Rightarrow> resource_lock option) \<Rightarrow> (lock_key \<Rightarrow> int) \<Rightarrow> lock_key \<Rightarrow> int" where
  "counted ks h c k = (if k \<in> ks \<and> h k = None then c k + 1 else c k)"

lemma granted_insert:
  "k \<notin> ks \<Longrightarrow> granted ot oid e now ks (counted {k} h c) (granted ot oid e now {k} c h) =
     granted ot oid e now (insert k ks) c h"
  by (auto simp: granted_def counted_def fun_eq_iff split: option.splits)

lemma counted_insert:
  "k \<notin> ks \<Longrightarrow> counted ks (granted ot oid e now {k} c h) (counted {k} h c) = counted (insert k ks) h c"
  by (auto simp: granted_def counted_def fun_eq_iff)

lemma fresh_lock_made:
  assumes "key_storable k" and "\<not> expiry_past e now" and "1 \<le> n"
  shows "make_resource_lock (fresh_lock k ot oid e now n) = Inr (fresh_lock k ot oid e now n)"
  using assms by (auto simp: make_resource_lock_def strip_lock_def resource_lock_valid_def fresh_lock_def
      key_storable_def expiry_past_def Let_def map_option_case split: option.splits)

lemma table_after_set:
  assumes "lock_table_ok t" and "lock_key_of l = k" and "1 \<le> rl_fencing_token l" and "rl_fencing_token l \<le> c k"
    and "\<And>x. counter t x \<le> c x" and "counter t' = c" and "lt_locks t' = dict_set k l (lt_locks t)"
    and "\<forall>n \<in> snd ` set (lt_tokens t'). 1 \<le> n"
  shows "held t' = (held t)(k \<mapsto> l) \<and> lock_table_ok t'"
proof -
  have "held t' = (held t)(k \<mapsto> l)"
    by (simp add: held_def assms(7) dict_set_map_of)
  moreover have "distinct (map fst (lt_locks t'))"
    using lock_table_okD(1)[OF assms(1)] by (simp add: assms(7) distinct_dict_set)
  moreover have "lock_key_of (snd x) = fst x \<and> 1 \<le> rl_fencing_token (snd x) \<and> rl_fencing_token (snd x) \<le> counter t' (fst x)"
    if "x \<in> set (lt_locks t')" for x
  proof (cases "x = (k, l)")
    case False
    then have "x \<in> set (lt_locks t)" using that set_dict_set[of k l "lt_locks t"] by (auto simp: assms(7))
    then have "lock_key_of (snd x) = fst x" "1 \<le> rl_fencing_token (snd x)"
      "rl_fencing_token (snd x) \<le> counter t (fst x)"
      using assms(1) by (simp_all add: lock_table_ok_def)
    moreover have "counter t (fst x) \<le> counter t' (fst x)" by (simp only: assms(5,6))
    ultimately show ?thesis by simp
  qed (use assms(2-4,6) in simp)
  ultimately show ?thesis using assms(8) by (simp add: lock_table_ok_def)
qed

lemma acquire_key_wp:
  assumes ok: "lock_table_ok t" and k: "key_storable k" and e: "\<not> expiry_past e now"
  shows "wp (acquire_key ot oid e now k acc)
    (\<lambda>r t'. held t' = granted ot oid e now {k} (counter t) (held t) \<and> counter t' = counted {k} (held t) (counter t) \<and>
       lock_table_ok t' \<and> r = acc @ [the (held t' k)])
    (\<lambda>_ _. False) t"
proof (cases "held t k")
  case None
  let ?n = "counter t k + 1" let ?l = "fresh_lock k ot oid e now (counter t k + 1)"
  let ?t = "t\<lparr>lt_tokens := dict_set k ?n (lt_tokens t), lt_locks := dict_set k ?l (lt_locks t)\<rparr>"
  have c: "counter ?t = counted {k} (held t) (counter t)"
    using None by (auto simp: counter_def counted_def fun_eq_iff dict_set_map_of)
  have pos: "1 \<le> ?n" using counter_nonneg[OF ok] by simp
  have tokens: "\<forall>n \<in> snd ` set (lt_tokens ?t). 1 \<le> n"
  proof
    fix n assume "n \<in> snd ` set (lt_tokens ?t)"
    then have "n \<in> insert ?n (snd ` set (lt_tokens t))" using values_dict_set[of k ?n "lt_tokens t"] by auto
    then show "1 \<le> n" using ok pos unfolding lock_table_ok_def by blast
  qed
  have "held ?t = (held t)(k \<mapsto> ?l) \<and> lock_table_ok ?t"
    using None pos tokens
    by (intro table_after_set[OF ok _ _ _ _ c]) (simp_all add: lock_key_of_def fresh_lock_def counted_def)
  moreover have "granted ot oid e now {k} (counter t) (held t) = (held t)(k \<mapsto> ?l)"
    using None by (auto simp: granted_def fun_eq_iff)
  ultimately show ?thesis
    using None c fresh_lock_made[OF k e pos]
    by (simp add: acquire_key_def wpM next_token_counter held_def[symmetric])
next
  case (Some l)
  let ?l = "l\<lparr>rl_expires_at := e\<rparr>" let ?t = "t\<lparr>lt_locks := dict_set k ?l (lt_locks t)\<rparr>"
  have g: "granted ot oid e now {k} (counter t) (held t) = (held t)(k \<mapsto> ?l)"
    using Some by (auto simp: granted_def fun_eq_iff)
  have c: "counted {k} (held t) (counter t) = counter t"
    using Some by (auto simp: counted_def fun_eq_iff)
  have set: "held ?t = (held t)(k \<mapsto> ?l)" "lock_table_ok ?t"
    using table_after_set[OF ok, of ?l k "counter t" ?t] lock_table_okD(2)[OF ok Some] ok
    by (simp_all add: lock_key_of_def counter_def fun_eq_iff lock_table_ok_def)
  have count: "counter ?t = counter t" by (simp add: counter_def fun_eq_iff)
  show ?thesis
  proof (cases "rl_expires_at l = e")
    case True
    then have "?l = l" by simp
    with Some have "(held t)(k \<mapsto> ?l) = held t" by (simp add: fun_upd_idem)
    then have "held t = granted ot oid e now {k} (counter t) (held t)" by (simp only: g)
    with Some True ok show ?thesis by (simp add: acquire_key_def wpM held_def[symmetric] c)
  next
    case False
    have "wp (acquire_key ot oid e now k acc) (\<lambda>r t'. t' = ?t \<and> r = acc @ [?l]) (\<lambda>_ _. False) t"
      using Some False by (simp add: acquire_key_def wpM held_def[symmetric] Let_def)
    then show ?thesis
      by (rule wp_mono) (simp_all add: set count g c)
  qed
qed

lemma acquire_loop_wp:
  assumes "lock_table_ok t" and "distinct ks" and "list_all key_storable ks" and e: "\<not> expiry_past e now"
  shows "wp (foldM (acquire_key ot oid e now) ks acc)
    (\<lambda>r t'. held t' = granted ot oid e now (set ks) (counter t) (held t) \<and>
       counter t' = counted (set ks) (held t) (counter t) \<and> lock_table_ok t' \<and> r = acc @ map (the \<circ> held t') ks)
    (\<lambda>_ _. False) t"
  using assms(1-3)
proof (induction ks arbitrary: t acc)
  case Nil
  then show ?case by (simp add: wpM granted_def[abs_def] counted_def[abs_def])
next
  case (Cons k ks)
  show ?case
    unfolding foldM.simps wp_bind
  proof (rule wp_mono[OF acquire_key_wp[OF Cons.prems(1) _ e]], goal_cases)
    case (2 r t')
    let ?h = "granted ot oid e now {k} (counter t) (held t)" let ?c = "counted {k} (held t) (counter t)"
    have t': "held t' = ?h" "counter t' = ?c" "lock_table_ok t'" "r = acc @ [the (held t' k)]" using 2 by simp_all
    have keep: "granted ot oid e now (set ks) ?c ?h k = ?h k"
      using Cons.prems(2) by (simp add: granted_def)
    show ?case
    proof (rule wp_mono[OF Cons.IH[OF t'(3)]], goal_cases)
      case (3 r' t'')
      have "held t'' = granted ot oid e now (set ks) ?c ?h" using 3 t'(1,2) by simp
      moreover from this have "the (held t' k) = the (held t'' k)" using keep t'(1) by simp
      ultimately show ?case
        using 3 t' Cons.prems(2) by (simp add: granted_insert counted_insert)
    qed (use Cons.prems(2,3) in simp_all)
  qed (use Cons.prems(3) in simp_all)
qed

section \<open>The specification of the operations\<close>

text \<open>
  The abstract table: who holds each key, and the last token granted for it. Acquisition decides
  over all keys of a bench at once.
\<close>

type_synonym abstract_table = "(lock_key \<Rightarrow> resource_lock option) \<times> (lock_key \<Rightarrow> int)"

definition table_abs :: "lock_table \<Rightarrow> abstract_table" where
  "table_abs t = (held t, counter t)"

abbreviation live_at :: "time \<Rightarrow> (lock_key \<Rightarrow> resource_lock option) \<Rightarrow> lock_key \<Rightarrow> resource_lock option" where
  "live_at now h \<equiv> restricted (\<lambda>l. \<not> lock_expired now l) h"

definition contested :: "lock_owner_type \<Rightarrow> uuid \<Rightarrow> (lock_key \<Rightarrow> resource_lock option) \<Rightarrow> lock_key \<Rightarrow> bool" where
  "contested ot oid h k = (case h k of None \<Rightarrow> False | Some l \<Rightarrow> \<not> owned_by ot oid l)"

fun spec_acquire ::
    "lock_owner_type \<Rightarrow> uuid \<Rightarrow> time option \<Rightarrow> time \<Rightarrow> lock_key list \<Rightarrow> abstract_table \<Rightarrow>
     (error + resource_lock list) \<times> abstract_table" where
  "spec_acquire ot oid expires now ks (h, c) =
     (if list_ex (contested ot oid (live_at now h)) ks
      then (Inl ResourceConflictError, live_at now h, c)
      else (Inr (map (the \<circ> granted ot oid expires now (set ks) c (live_at now h)) ks),
            granted ot oid expires now (set ks) c (live_at now h), counted (set ks) (live_at now h) c))"

definition renewed :: "lock_owner_type \<Rightarrow> uuid \<Rightarrow> time \<Rightarrow> resource_lock \<Rightarrow> resource_lock" where
  "renewed ot oid expires l = (if owned_by ot oid l then l\<lparr>rl_expires_at := Some expires\<rparr> else l)"

definition bench_keys :: "catalog \<Rightarrow> composition \<Rightarrow> lock_key list" where
  "bench_keys c b = sort_key key_order (remdups (List.map_filter
     (\<lambda>x. Option.bind (map_of (ct_resources c) (bb_resource_id x)) (\<lambda>r. binding_key r x)) (bc_resources b)))"

lemma map_filter_comp: "List.map_filter id (map f xs) = List.map_filter f xs"
  by (induction xs) (simp_all add: List.map_filter_def)

lemma lock_keys_total:
  assumes "catalog_ok c" and "get_bench c i = Inr b"
  shows "lock_keys c (bc_resources b) = Inr (bench_keys c b)"
proof -
  let ?f = "\<lambda>x. map_sum id (\<lambda>r. binding_key r x) (get_resource c (bb_resource_id x))"
  let ?g = "\<lambda>x. Option.bind (map_of (ct_resources c) (bb_resource_id x)) (\<lambda>r. binding_key r x)"
  have "?f x = Inr (?g x)" if "x \<in> set (bc_resources b)" for x
    using bench_resource_known[OF assms that] by (auto simp: get_resource_def split: option.splits)
  then have "mapE ?f (bc_resources b) = Inr (map ?g (bc_resources b))"
    by (simp add: mapE_Inr)
  then show ?thesis by (simp add: lock_keys_def bench_keys_def map_filter_comp)
qed

lemma in_bench_keys:
  "k \<in> set (bench_keys c b) \<longleftrightarrow>
     (\<exists>x \<in> set (bc_resources b). \<exists>r. map_of (ct_resources c) (bb_resource_id x) = Some r \<and> binding_key r x = Some k)"
  by (force simp: bench_keys_def List.map_filter_def image_iff bind_eq_Some_conv)

lemma distinct_bench_keys: "distinct (bench_keys c b)"
  by (simp add: bench_keys_def)

lemma bench_keys_storable:
  assumes "catalog_ok c" and "get_bench c i = Inr b"
  shows "list_all key_storable (bench_keys c b)"
proof -
  have "key_storable k" if k: "k \<in> set (bench_keys c b)" for k
  proof -
    obtain x r where x: "x \<in> set (bc_resources b)" and r: "map_of (ct_resources c) (bb_resource_id x) = Some r"
      and key: "binding_key r x = Some k" using k by (auto simp: in_bench_keys)
    have "resource_object r" using catalog_okD(3)[OF assms(1) r] by simp
    moreover have b: "composition_object b" using catalog_okD(4)[OF assms(1)] assms(2) by (simp add: get_bench_Inr)
    moreover have "binding_valid x \<and> strip_binding x = x"
    proof -
      have "map strip_binding (bc_resources b) = bc_resources b"
        using b by (metis composition_object_def strip_composition_def composition.select_convs(3)
            composition.update_convs(3) composition.surjective)
      then have "strip_binding x = x" using x by (metis map_eq_conv list.map_id id_apply)
      with b x show ?thesis by (auto simp: composition_object_def composition_valid_def list_all_iff)
    qed
    ultimately show ?thesis using key
      by (cases "bb_channel x")
        (auto simp: binding_key_def key_storable_def resource_object_def strip_resource_def strip_binding_def
          hardware_resource_valid_def binding_valid_def split: if_splits
          dest: arg_cong[where f = hr_id] arg_cong[where f = bb_channel])
  qed
  then show ?thesis by (simp add: list_all_iff)
qed

lemma conflicts_empty:
  "conflicts ot oid ks t = [] \<longleftrightarrow> \<not> list_ex (contested ot oid (held t)) ks"
  by (induction ks)
    (auto simp: conflicts_def List.map_filter_def contested_def held_def split: option.splits)

text \<open>The critical section implements the specification.\<close>

lemma acquire_keys_refines:
  assumes ok: "lock_table_ok t" and ks: "distinct ks" "list_all key_storable ks" and e: "\<not> expiry_past e now"
  shows "wp (acquire_keys ot oid e now ks)
    (\<lambda>r t'. lock_table_ok t' \<and> spec_acquire ot oid e now ks (table_abs t) = (Inr r, table_abs t'))
    (\<lambda>x t'. lock_table_ok t' \<and> spec_acquire ot oid e now ks (table_abs t) = (Inl x, table_abs t')) t"
proof -
  let ?t = "t\<lparr>lt_locks := filter (\<lambda>(_, l). \<not> lock_expired now l) (lt_locks t)\<rparr>"
  note live = filtered_table[OF ok, of "\<lambda>l. \<not> lock_expired now l"]
  have expire: "wp (expire_locked now) (\<lambda>_ t'. t' = ?t) (\<lambda>_ _. False) t"
    by (simp add: wp_def expire_locked_run[OF ok])
  show ?thesis
    unfolding acquire_keys_def wp_bind
  proof (rule wp_mono[OF expire], goal_cases)
    case (1 _ t')
    then have t': "t' = ?t" by simp
    show ?case
    proof (cases "conflicts ot oid ks ?t = []")
      case False
      then show ?thesis
        using live by (simp add: t' wpM conflicts_empty table_abs_def)
    next
      case True
      then have free: "\<not> list_ex (contested ot oid (live_at now (held t))) ks"
        by (simp add: conflicts_empty live(1))
      have "wp (foldM (acquire_key ot oid e now) ks [])
        (\<lambda>r t'. lock_table_ok t' \<and> spec_acquire ot oid e now ks (table_abs t) = (Inr r, table_abs t')) (\<lambda>_ _. False) ?t"
        by (rule wp_mono[OF acquire_loop_wp[OF live(3) ks e]])
          (simp_all add: free live(1,2) table_abs_def)
      then have "wp (foldM (acquire_key ot oid e now) ks [])
        (\<lambda>r t'. lock_table_ok t' \<and> spec_acquire ot oid e now ks (table_abs t) = (Inr r, table_abs t'))
        (\<lambda>x t'. lock_table_ok t' \<and> spec_acquire ot oid e now ks (table_abs t) = (Inl x, table_abs t')) ?t"
        by (rule wp_mono) simp_all
      then show ?thesis by (simp add: t' wp_gets True)
    qed
  qed simp
qed

section \<open>Renewal\<close>

lemma renew_lock_wp:
  assumes ok: "lock_table_ok t" and kl: "held t (fst kl) = Some (snd kl)"
  shows "wp (renew_lock ot oid expires kl acc)
    (\<lambda>_ t'. held t' = (held t)(fst kl \<mapsto> renewed ot oid expires (snd kl)) \<and> counter t' = counter t \<and> lock_table_ok t')
    (\<lambda>_ _. False) t"
proof (cases "owned_by ot oid (snd kl)")
  case True
  let ?l = "(snd kl)\<lparr>rl_expires_at := Some expires\<rparr>"
  let ?t = "t\<lparr>lt_locks := dict_set (fst kl) ?l (lt_locks t)\<rparr>"
  have "held ?t = (held t)(fst kl \<mapsto> ?l)" "lock_table_ok ?t"
    using table_after_set[OF ok, of ?l "fst kl" "counter t" ?t] lock_table_okD(2)[OF ok kl] ok
    by (simp_all add: lock_key_of_def counter_def fun_eq_iff lock_table_ok_def)
  moreover have "counter ?t = counter t" by (simp add: counter_def fun_eq_iff)
  ultimately show ?thesis
    using True by (simp add: renew_lock_def wpM renewed_def Let_def)
next
  case False
  then show ?thesis
    using ok kl by (simp add: renew_lock_def wpM renewed_def fun_upd_idem)
qed

lemma renew_loop_wp:
  assumes "lock_table_ok t" and "distinct (map fst items)" and "\<forall>kl \<in> set items. held t (fst kl) = Some (snd kl)"
  shows "wp (foldM (renew_lock ot oid expires) items acc)
    (\<lambda>_ t'. held t' = (\<lambda>k. if k \<in> fst ` set items then map_option (renewed ot oid expires) (held t k) else held t k) \<and>
       counter t' = counter t \<and> lock_table_ok t')
    (\<lambda>_ _. False) t"
  using assms
proof (induction items arbitrary: t acc)
  case (Cons kl items)
  have kl: "held t (fst kl) = Some (snd kl)" using Cons.prems(3) by simp
  show ?case
    unfolding foldM.simps wp_bind
  proof (rule wp_mono[OF renew_lock_wp[OF Cons.prems(1) kl]], goal_cases)
    case (1 r t')
    then have t': "held t' = (held t)(fst kl \<mapsto> renewed ot oid expires (snd kl))" "counter t' = counter t" "lock_table_ok t'"
      by simp_all
    have rest: "\<forall>x \<in> set items. held t' (fst x) = Some (snd x)"
      using Cons.prems(2,3) by (auto simp: t'(1) image_iff)
    show ?case
      by (rule wp_mono[OF Cons.IH[OF t'(3) _ rest]])
        (use Cons.prems(2) kl in \<open>auto simp: t'(1,2) fun_eq_iff\<close>)
  qed simp
qed (simp add: wpM)

lemma renew_owner_wp:
  assumes ok: "lock_table_ok t" and e: "\<not> expires \<le> now"
  shows "wp (renew_owner ot oid expires now)
    (\<lambda>_ t'. held t' = (\<lambda>k. map_option (renewed ot oid expires) (live_at now (held t) k)) \<and> counter t' = counter t \<and> lock_table_ok t')
    (\<lambda>_ _. False) t"
proof -
  let ?t = "t\<lparr>lt_locks := filter (\<lambda>(_, l). \<not> lock_expired now l) (lt_locks t)\<rparr>"
  note live = filtered_table[OF ok, of "\<lambda>l. \<not> lock_expired now l"]
  have items: "\<forall>kl \<in> set (lt_locks ?t). held ?t (fst kl) = Some (snd kl)"
    using lock_table_okD(1)[OF live(3)] by (auto simp: held_def)
  have outside: "held ?t k = None" if "k \<notin> fst ` set (lt_locks ?t)" for k
    using that by (simp add: held_def map_of_eq_None_iff)
  have "wp (foldM (renew_lock ot oid expires) (lt_locks ?t) [])
    (\<lambda>_ t'. held t' = (\<lambda>k. map_option (renewed ot oid expires) (live_at now (held t) k)) \<and> counter t' = counter t \<and> lock_table_ok t')
    (\<lambda>_ _. False) ?t"
  proof (rule wp_mono[OF renew_loop_wp[OF live(3) lock_table_okD(1)[OF live(3)] items]], goal_cases)
    case (1 r t')
    have "held t' k = map_option (renewed ot oid expires) (held ?t k)" for k
      using 1 outside[of k] by (cases "k \<in> fst ` set (lt_locks ?t)") simp_all
    with 1 live show ?case by (simp add: fun_eq_iff)
  qed simp
  moreover have "expire_locked now t = (Inr (sorted_locks (filter (lock_expired now) (map snd (lt_locks t)))), ?t)"
    by (rule expire_locked_run[OF ok])
  ultimately show ?thesis
    using e by (simp add: renew_owner_def wp_def runM split: prod.splits sum.splits)
qed

section \<open>Any sequence of operations\<close>

record resource_system =
  rs_catalog :: catalog
  rs_locks :: lock_table

definition initial_system :: resource_system where
  "initial_system = \<lparr>rs_catalog = empty_catalog, rs_locks = empty_lock_table\<rparr>"

datatype resource_op =
    UpsertResource hardware_resource
  | RemoveResource string
  | RegisterBench composition
  | RemoveBench string
  | AcquireForBench string lock_owner_type uuid "time option" time
  | RenewOwner lock_owner_type uuid time time
  | ReleaseOwner lock_owner_type uuid
  | ActiveLocks time
  | RecoverExpired time

definition on_catalog :: "(catalog, 'a) io \<Rightarrow> resource_system \<Rightarrow> resource_system" where
  "on_catalog m s = s\<lparr>rs_catalog := snd (m (rs_catalog s))\<rparr>"

definition on_locks :: "(lock_table, 'a) io \<Rightarrow> resource_system \<Rightarrow> resource_system" where
  "on_locks m s = s\<lparr>rs_locks := snd (m (rs_locks s))\<rparr>"

fun perform :: "resource_op \<Rightarrow> resource_system \<Rightarrow> resource_system" where
  "perform (UpsertResource r) s = on_catalog (upsert_resource r) s"
| "perform (RemoveResource i) s = on_catalog (remove_resource i) s"
| "perform (RegisterBench b) s = on_catalog (register_bench b) s"
| "perform (RemoveBench i) s = on_catalog (remove_bench i) s"
| "perform (AcquireForBench i ot oid e now) s = on_locks (acquire_for_bench (rs_catalog s) i ot oid e now) s"
| "perform (RenewOwner ot oid e now) s = on_locks (renew_owner ot oid e now) s"
| "perform (ReleaseOwner ot oid) s = on_locks (release_owner ot oid) s"
| "perform (ActiveLocks now) s = on_locks (active_locks now) s"
| "perform (RecoverExpired now) s = on_locks (recover_expired now) s"

text \<open>The models in a call were built by their constructors.\<close>

fun op_built :: "resource_op \<Rightarrow> bool" where
  "op_built (UpsertResource r) = resource_object r"
| "op_built (RegisterBench b) = composition_object b"
| "op_built _ = True"

definition system_ok :: "resource_system \<Rightarrow> bool" where
  "system_ok s \<longleftrightarrow> catalog_ok (rs_catalog s) \<and> lock_table_ok (rs_locks s)"

lemma system_ok_initial [simp]: "system_ok initial_system"
  by (simp add: system_ok_def initial_system_def)

text \<open>
  How the table may change: tokens never decrease, and a lock that is held afterwards is a lock that
  was held before, its expiry apart, or carries a token that was never granted before.
\<close>

definition same_grant :: "resource_lock \<Rightarrow> resource_lock \<Rightarrow> bool" where
  "same_grant l l' \<longleftrightarrow> l' = l\<lparr>rl_expires_at := rl_expires_at l'\<rparr>"

definition advances :: "lock_table \<Rightarrow> lock_table \<Rightarrow> bool" where
  "advances t t' \<longleftrightarrow>
     (\<forall>k. counter t k \<le> counter t' k) \<and>
     (\<forall>k l'. held t' k = Some l' \<longrightarrow>
        (\<exists>l. held t k = Some l \<and> same_grant l l') \<or> counter t k < rl_fencing_token l')"

lemma same_grant_refl [simp]: "same_grant l l"
  by (simp add: same_grant_def)

lemma same_grant_trans: "same_grant l l' \<Longrightarrow> same_grant l' l'' \<Longrightarrow> same_grant l l''"
  by (metis same_grant_def resource_lock.update_convs(5) resource_lock.surjective)

lemma same_grant_token: "same_grant l l' \<Longrightarrow> rl_fencing_token l' = rl_fencing_token l"
  by (metis same_grant_def resource_lock.select_convs(7) resource_lock.update_convs(5) resource_lock.surjective)

lemma advances_refl: "advances t t"
  by (auto simp: advances_def)

lemma advances_trans:
  assumes "advances t t'" and "advances t' t''"
  shows "advances t t''"
  unfolding advances_def
proof (intro conjI allI impI)
  fix k l'' assume "held t'' k = Some l''"
  then consider l' where "held t' k = Some l'" "same_grant l' l''" | "counter t' k < rl_fencing_token l''"
    using assms(2) unfolding advances_def by blast
  then show "(\<exists>l. held t k = Some l \<and> same_grant l l'') \<or> counter t k < rl_fencing_token l''"
  proof cases
    case (1 l')
    then have "(\<exists>l. held t k = Some l \<and> same_grant l l') \<or> counter t k < rl_fencing_token l'"
      using assms(1) unfolding advances_def by blast
    then show ?thesis
      using same_grant_trans[OF _ 1(2)] same_grant_token[OF 1(2)] by (elim disjE exE conjE) auto
  next
    case 2
    moreover have "counter t k \<le> counter t' k" using assms(1) unfolding advances_def by blast
    ultimately show ?thesis by simp
  qed
next
  fix k
  have "counter t k \<le> counter t' k" "counter t' k \<le> counter t'' k"
    using assms unfolding advances_def by blast+
  then show "counter t k \<le> counter t'' k" by simp
qed

lemma advances_weaker:
  assumes "counter t' = counter t"
    and "\<And>k l'. held t' k = Some l' \<Longrightarrow> \<exists>l. held t k = Some l \<and> same_grant l l'"
  shows "advances t t'"
  using assms by (simp add: advances_def)

lemma advances_live:
  "held t' = live_at now (held t) \<Longrightarrow> counter t' = counter t \<Longrightarrow> advances t t'"
  by (rule advances_weaker) (auto intro: same_grant_refl)

lemma granted_advances:
  assumes "held t' = granted ot oid e now ks (counter t) (live_at now (held t))"
    and "counter t' = counted ks (live_at now (held t)) (counter t)"
  shows "advances t t'"
  unfolding advances_def
proof (intro conjI allI impI)
  fix k l' assume l': "held t' k = Some l'"
  show "(\<exists>l. held t k = Some l \<and> same_grant l l') \<or> counter t k < rl_fencing_token l'"
  proof (cases "live_at now (held t) k")
    case None
    then show ?thesis using l' by (auto simp: assms(1) granted_def fresh_lock_def split: if_splits)
  next
    case (Some l)
    then have "held t k = Some l" by simp
    moreover have "l' = (if k \<in> ks then l\<lparr>rl_expires_at := e\<rparr> else l)"
      using l' unfolding assms(1) granted_def Some by (simp split: if_splits)
    then have "same_grant l l'" by (simp add: same_grant_def)
    ultimately show ?thesis by blast
  qed
qed (simp add: assms(2) counted_def)

definition stepped :: "lock_table \<Rightarrow> lock_table \<Rightarrow> bool" where
  "stepped t t' \<longleftrightarrow> lock_table_ok t' \<and> advances t t'"

lemma stepped_self: "lock_table_ok t \<Longrightarrow> stepped t t"
  by (simp add: stepped_def advances_refl)

lemma wp_stepped: "wp m (\<lambda>_. stepped t) (\<lambda>_. stepped t) t \<Longrightarrow> stepped t (snd (m t))"
  by (auto simp: wp_def split: prod.splits sum.splits)

lemma spec_acquire_stepped:
  assumes "lock_table_ok t'" and "spec_acquire ot oid e now ks (table_abs t) = (r, table_abs t')"
  shows "stepped t t'"
proof (cases "list_ex (contested ot oid (live_at now (held t))) ks")
  case True
  then have "held t' = live_at now (held t)" "counter t' = counter t"
    using assms(2) by (simp_all add: table_abs_def)
  then show ?thesis using assms(1) by (simp add: stepped_def advances_live)
next
  case False
  have "advances t t'"
    using assms(2) False
    by (intro granted_advances[of t' ot oid e now "set ks" t]) (simp_all add: table_abs_def)
  with assms(1) show ?thesis by (simp add: stepped_def)
qed

lemma expire_stepped: "lock_table_ok t \<Longrightarrow> stepped t (snd (expire_locked now t))"
  using filtered_table[of t "\<lambda>l. \<not> lock_expired now l"]
  by (simp add: expire_locked_run stepped_def advances_live)

lemma acquire_for_bench_enter:
  assumes "catalog_ok c" and "get_bench c i = Inr b" and "require_available c i = Inr ()" and "\<not> expiry_past e now"
  shows "acquire_for_bench c i ot oid e now = acquire_keys ot oid e now (bench_keys c b)"
  using assms by (simp add: acquire_for_bench_def fun_eq_iff runM lock_keys_total)

lemma acquire_stepped:
  assumes c: "catalog_ok c" and t: "lock_table_ok t"
  shows "stepped t (snd (acquire_for_bench c i ot oid e now t))"
proof (cases "require_available c i = Inr () \<and> (\<exists>b. get_bench c i = Inr b) \<and> \<not> expiry_past e now")
  case True
  then obtain b where b: "get_bench c i = Inr b" by blast
  have "wp (acquire_keys ot oid e now (bench_keys c b)) (\<lambda>_. stepped t) (\<lambda>_. stepped t) t"
    using True by (intro wp_mono[OF acquire_keys_refines[OF t distinct_bench_keys bench_keys_storable[OF c b]]])
      (blast intro: spec_acquire_stepped)+
  then show ?thesis
    using True by (simp add: acquire_for_bench_enter[OF c b] wp_stepped)
next
  case False
  then have "snd (acquire_for_bench c i ot oid e now t) = t"
    by (cases "require_available c i"; cases "get_bench c i") (auto simp: acquire_for_bench_def runM lock_keys_total[OF c])
  then show ?thesis using stepped_self[OF t] by simp
qed

lemma renew_stepped:
  assumes "lock_table_ok t"
  shows "stepped t (snd (renew_owner ot oid e now t))"
proof (cases "e \<le> now")
  case False
  have "wp (renew_owner ot oid e now) (\<lambda>_. stepped t) (\<lambda>_. stepped t) t"
    by (rule wp_mono[OF renew_owner_wp[OF assms False]])
      (auto simp: stepped_def renewed_def same_grant_def intro!: advances_weaker split: if_splits)
  then show ?thesis by (rule wp_stepped)
qed (simp add: renew_owner_def runM stepped_self assms)

lemma release_stepped: "lock_table_ok t \<Longrightarrow> stepped t (snd (release_owner ot oid t))"
  using filtered_table[of t "\<lambda>l. \<not> owned_by ot oid l"]
  by (auto simp: release_owner_run stepped_def intro!: advances_weaker)

lemma active_stepped: "lock_table_ok t \<Longrightarrow> stepped t (snd (active_locks now t))"
  using expire_stepped[of t now] by (simp add: active_locks_def runM expire_locked_run)

lemma perform_step:
  assumes "system_ok s" and "op_built q"
  shows "system_ok (perform q s)" and "stepped (rs_locks s) (rs_locks (perform q s))"
proof -
  have c: "catalog_ok (rs_catalog s)" and t: "lock_table_ok (rs_locks s)" using assms(1) by (simp_all add: system_ok_def)
  show step: "stepped (rs_locks s) (rs_locks (perform q s))"
    using c t by (cases q) (simp_all add: on_catalog_def on_locks_def stepped_self acquire_stepped renew_stepped
        release_stepped active_stepped expire_stepped recover_expired_def)
  have "catalog_ok (rs_catalog (perform q s))"
    using c assms(2)
    by (cases q) (simp_all add: on_catalog_def on_locks_def keepsD upsert_keeps remove_resource_keeps
        register_bench_keeps remove_bench_keeps)
  with step show "system_ok (perform q s)" by (simp add: system_ok_def stepped_def)
qed

lemma run_steps:
  assumes "system_ok s" and "list_all op_built ops"
  shows "system_ok (fold perform ops s) \<and> advances (rs_locks s) (rs_locks (fold perform ops s))"
  using assms
proof (induction ops arbitrary: s)
  case (Cons q ops)
  then have "system_ok (perform q s)" "advances (rs_locks s) (rs_locks (perform q s))"
    using perform_step[of s q] by (simp_all add: stepped_def)
  with Cons show ?case by (auto intro: advances_trans)
qed (simp add: advances_refl)

end
