(* ===== verification/ResourceProperties.thy ===== *)
theory ResourceProperties
  imports ResourceLocks
begin

text \<open>
  The properties of the hardware catalogue and of the resource locks: acquisition over all the
  resources of a bench is all or nothing, a fencing token names one grant for ever, and while a
  resource keeps its sharing mode an exclusive resource has one holder and a channel one holder.
\<close>

section \<open>Sharing\<close>

text \<open>\<open>declares \<sigma> q\<close>: plugin discovery reports for each resource the sharing mode that \<open>\<sigma>\<close> gives it.\<close>

fun declares :: "(string \<Rightarrow> sharing_mode) \<Rightarrow> resource_op \<Rightarrow> bool" where
  "declares sharing (UpsertResource r) = (hr_sharing r = sharing (hr_id r))"
| "declares sharing _ = True"

definition key_fits :: "(string \<Rightarrow> sharing_mode) \<Rightarrow> lock_key \<Rightarrow> bool" where
  "key_fits sharing k \<longleftrightarrow> sharing (fst k) \<noteq> Shared \<and> (sharing (fst k) = Exclusive \<longrightarrow> snd k = None)"

definition sharing_kept :: "(string \<Rightarrow> sharing_mode) \<Rightarrow> resource_system \<Rightarrow> bool" where
  "sharing_kept sharing s \<longleftrightarrow>
     (\<forall>r \<in> snd ` set (ct_resources (rs_catalog s)). hr_sharing r = sharing (hr_id r)) \<and>
     (\<forall>k l. held (rs_locks s) k = Some l \<longrightarrow> key_fits sharing k)"

lemma catalog_resources_step:
  "snd ` set (ct_resources (snd (upsert_resource r c))) \<subseteq> insert r (snd ` set (ct_resources c))"
  "snd ` set (ct_resources (snd (remove_resource i c))) \<subseteq> snd ` set (ct_resources c)"
  "ct_resources (snd (register_bench b c)) = ct_resources c"
  "ct_resources (snd (remove_bench i c)) = ct_resources c"
  using values_dict_set[of "hr_id r" r "ct_resources c"] values_dict_pop[of i "ct_resources c"]
  by (auto simp: upsert_resource_def remove_resource_run register_bench_run remove_bench_def runM split: sum.splits)

lemma bench_keys_fit:
  assumes "catalog_ok c" and "\<forall>r \<in> snd ` set (ct_resources c). hr_sharing r = sharing (hr_id r)"
    and "k \<in> set (bench_keys c b)"
  shows "key_fits sharing k"
  using assms by (fastforce simp: in_bench_keys key_fits_def binding_key_def dest!: map_of_SomeD split: if_splits)

text \<open>An operation locks no key but those it was asked for.\<close>

lemma acquire_holds:
  assumes c: "catalog_ok c" and t: "lock_table_ok t"
    and l: "held (snd (acquire_for_bench c i ot oid e now t)) k = Some l"
  shows "held t k \<noteq> None \<or> (\<exists>b. get_bench c i = Inr b \<and> k \<in> set (bench_keys c b))"
proof (cases "require_available c i = Inr () \<and> (\<exists>b. get_bench c i = Inr b) \<and> \<not> expiry_past e now")
  case True
  then obtain b where b: "get_bench c i = Inr b" by blast
  let ?P = "\<lambda>t'. held t' k = Some l \<longrightarrow> held t k \<noteq> None \<or> k \<in> set (bench_keys c b)"
  have "wp (acquire_keys ot oid e now (bench_keys c b)) (\<lambda>_. ?P) (\<lambda>_. ?P) t"
    using True by (intro wp_mono[OF acquire_keys_refines[OF t distinct_bench_keys bench_keys_storable[OF c b]]])
      (auto simp: table_abs_def granted_def dest!: sym[of _ "held _"] split: if_splits)
  then have "?P (snd (acquire_keys ot oid e now (bench_keys c b) t))"
    by (auto simp: wp_def split: prod.splits sum.splits)
  then show ?thesis using l b True by (simp add: acquire_for_bench_enter[OF c b])
next
  case False
  then have "snd (acquire_for_bench c i ot oid e now t) = t"
    by (cases "require_available c i"; cases "get_bench c i") (auto simp: acquire_for_bench_def runM lock_keys_total[OF c])
  then show ?thesis using l by simp
qed

lemma renew_holds:
  assumes "lock_table_ok t" and "held (snd (renew_owner ot oid e now t)) k = Some l"
  shows "held t k \<noteq> None"
proof (cases "e \<le> now")
  case True
  then show ?thesis using assms(2) by (simp add: renew_owner_def runM)
next
  case False
  have "wp (renew_owner ot oid e now) (\<lambda>_ t'. held t' k = Some l \<longrightarrow> held t k \<noteq> None)
      (\<lambda>_ t'. held t' k = Some l \<longrightarrow> held t k \<noteq> None) t"
    by (rule wp_mono[OF renew_owner_wp[OF assms(1) False]]) auto
  then show ?thesis using assms(2) by (auto simp: wp_def split: prod.splits sum.splits)
qed

lemma filtered_holds:
  assumes "lock_table_ok t"
  shows "held (snd (release_owner ot oid t)) k = Some l \<Longrightarrow> held t k \<noteq> None"
    and "held (snd (expire_locked now t)) k = Some l \<Longrightarrow> held t k \<noteq> None"
    and "held (snd (active_locks now t)) k = Some l \<Longrightarrow> held t k \<noteq> None"
  using filtered_table(1)[OF assms]
  by (simp_all add: release_owner_run[OF assms] expire_locked_run[OF assms] active_locks_def runM)

lemma sharing_kept_step:
  assumes ok: "system_ok s" and kept: "sharing_kept sharing s" and q: "op_built q" "declares sharing q"
  shows "sharing_kept sharing (perform q s)"
proof -
  have c: "catalog_ok (rs_catalog s)" and t: "lock_table_ok (rs_locks s)" using ok by (simp_all add: system_ok_def)
  have fits: "key_fits sharing k" if "held (rs_locks s) k \<noteq> None" for k
    using kept that unfolding sharing_kept_def by blast
  have res: "\<forall>r \<in> snd ` set (ct_resources (rs_catalog s)). hr_sharing r = sharing (hr_id r)"
    using kept by (simp add: sharing_kept_def)
  let ?old = "snd ` set (ct_resources (rs_catalog s))"
  have sub: "snd ` set (ct_resources (rs_catalog (perform q s))) \<subseteq>
      (case q of UpsertResource r \<Rightarrow> insert r ?old | _ \<Rightarrow> ?old)"
    using catalog_resources_step(1,2)[of _ "rs_catalog s"]
    by (cases q) (simp_all add: on_catalog_def on_locks_def catalog_resources_step(3,4))
  have "hr_sharing r = sharing (hr_id r)"
    if "r \<in> snd ` set (ct_resources (rs_catalog (perform q s)))" for r
  proof -
    have "r \<in> (case q of UpsertResource x \<Rightarrow> insert x ?old | _ \<Rightarrow> ?old)" using sub that by blast
    then have "r \<in> ?old \<or> q = UpsertResource r" by (auto split: resource_op.splits)
    then show ?thesis
    proof
      assume "r \<in> ?old"
      with res show ?thesis by blast
    qed (use q(2) in simp)
  qed
  moreover have "key_fits sharing k" if l: "held (rs_locks (perform q s)) k = Some l" for k l
  proof -
    have "held (rs_locks s) k \<noteq> None \<or>
        (\<exists>b. k \<in> set (bench_keys (rs_catalog s) b))"
    proof (cases q)
      case (AcquireForBench i ot oid e now)
      then show ?thesis using acquire_holds[OF c t, of i ot oid e now k l] l by (auto simp: on_locks_def)
    next
      case (RenewOwner ot oid e now)
      then show ?thesis using renew_holds[OF t, of ot oid e now k l] l by (simp add: on_locks_def)
    qed (use l filtered_holds[OF t] in \<open>simp_all add: on_catalog_def on_locks_def recover_expired_def\<close>)
    then show ?thesis using fits bench_keys_fit[OF c res] by blast
  qed
  ultimately show ?thesis unfolding sharing_kept_def by blast
qed

lemma sharing_kept_run:
  assumes "list_all op_built ops" and "list_all (declares sharing) ops"
  shows "sharing_kept sharing (fold perform ops initial_system)"
proof -
  have "sharing_kept sharing (fold perform ops s)"
    if "system_ok s" "sharing_kept sharing s" for s
    using that assms
  proof (induction ops arbitrary: s)
    case (Cons q ops)
    then show ?case using perform_step(1)[of s q] sharing_kept_step[of s sharing q] by simp
  qed simp
  moreover have "sharing_kept sharing initial_system"
    by (simp add: sharing_kept_def initial_system_def empty_catalog_def empty_lock_table_def held_def)
  ultimately show ?thesis by simp
qed

section \<open>Properties\<close>

text \<open>
  C33: acquiring a bench whose required resources are available either takes every lock of the
  bench, the owner's own locks extended and each new one under the next token of its key, or, when
  another owner holds an unexpired lock on any of them, raises a conflict and takes none; expired
  locks are gone in both cases and no other lock changes. The result and the table it leaves are
  those of the specification over the whole set of keys.
\<close>

theorem acquire_is_all_or_nothing:
  assumes "catalog_ok c" and "lock_table_ok t" and "get_bench c i = Inr b"
    and "require_available c i = Inr ()" and "\<not> expiry_past e now"
  shows "map_prod id table_abs (acquire_for_bench c i ot oid e now t) =
    spec_acquire ot oid e now (bench_keys c b) (table_abs t)"
proof -
  have "wp (acquire_for_bench c i ot oid e now)
    (\<lambda>r t'. (Inr r, table_abs t') = spec_acquire ot oid e now (bench_keys c b) (table_abs t))
    (\<lambda>x t'. (Inl x, table_abs t') = spec_acquire ot oid e now (bench_keys c b) (table_abs t)) t"
    unfolding acquire_for_bench_enter[OF assms(1,3,4,5)]
    by (rule wp_mono[OF acquire_keys_refines[OF assms(2) distinct_bench_keys bench_keys_storable[OF assms(1,3)] assms(5)]])
      simp_all
  then show ?thesis by (auto simp: wp_def map_prod_def split: prod.splits sum.splits)
qed

definition sample_board :: hardware_resource where
  "sample_board = \<lparr>hr_id = ''board'', hr_agent_id = ''a'', hr_plugin = ''p'', hr_type = ''t'', hr_name = ''n'',
     hr_health = RHealthy, hr_capabilities = {''flash''}, hr_metadata = [], hr_sharing = Exclusive, hr_channels = {}\<rparr>"

definition sample_supply :: hardware_resource where
  "sample_supply = sample_board\<lparr>hr_id := ''psu'', hr_sharing := Channel, hr_channels := {''1'', ''2''}\<rparr>"

definition sample_binding :: "string \<Rightarrow> string option \<Rightarrow> binding" where
  "sample_binding i ch = \<lparr>bb_role = RoleTarget, bb_resource_id = i, bb_channel = ch, bb_required = True, bb_capabilities = {}\<rparr>"

definition sample_bench :: "string \<Rightarrow> binding list \<Rightarrow> composition" where
  "sample_bench i xs = \<lparr>bc_id = i, bc_name = i, bc_resources = xs, bc_labels = []\<rparr>"

definition sample_ops :: "resource_op list" where
  "sample_ops =
     [UpsertResource sample_board, UpsertResource sample_supply,
      RegisterBench (sample_bench ''b1'' [sample_binding ''board'' None, sample_binding ''psu'' (Some ''1'')]),
      AcquireForBench ''b1'' ByReservation ''r1'' (Some 10) 0]"

lemma trim_samples [simp]:
  "trim ''board'' = ''board''" "trim ''psu'' = ''psu''" "trim ''p'' = ''p''" "trim ''t'' = ''t''" "trim ''n'' = ''n''"
  "trim ''1'' = ''1''" "trim ''b1'' = ''b1''"
  by (simp_all add: trim_def strip_with_def unicode_space_def)

lemma sample_ops_built: "list_all op_built sample_ops"
  by (simp add: sample_ops_def sample_supply_def sample_board_def sample_bench_def sample_binding_def resource_object_def
      strip_resource_def hardware_resource_valid_def composition_object_def strip_composition_def strip_binding_def
      composition_valid_def binding_valid_def sized_def)

definition sample_system :: resource_system where
  "sample_system =
     \<lparr>rs_catalog = \<lparr>ct_resources = [(''board'', sample_board), (''psu'', sample_supply)],
        ct_benches = [(''b1'', sample_bench ''b1'' [sample_binding ''board'' None, sample_binding ''psu'' (Some ''1'')])]\<rparr>,
      rs_locks = \<lparr>lt_locks = [((''board'', None), fresh_lock (''board'', None) ByReservation ''r1'' (Some 10) 0 1),
          ((''psu'', Some ''1''), fresh_lock (''psu'', Some ''1'') ByReservation ''r1'' (Some 10) 0 1)],
        lt_tokens = [((''board'', None), 1), ((''psu'', Some ''1''), 1)]\<rparr>\<rparr>"

lemma sample_run: "fold perform sample_ops initial_system = sample_system"
  by code_simp

theorem acquire_is_all_or_nothing_witness:
  "map_prod id table_abs (acquire_for_bench (rs_catalog sample_system) ''b1'' ByReservation ''r2'' (Some 20) 5 (rs_locks sample_system)) =
     spec_acquire ByReservation ''r2'' (Some 20) 5 [(''board'', None), (''psu'', Some ''1'')] (table_abs (rs_locks sample_system)) \<and>
   fst (spec_acquire ByReservation ''r2'' (Some 20) 5 [(''board'', None), (''psu'', Some ''1'')] (table_abs (rs_locks sample_system))) =
     Inl ResourceConflictError \<and>
   fst (spec_acquire ByReservation ''r2'' (Some 20) 10 [(''board'', None), (''psu'', Some ''1'')] (table_abs (rs_locks sample_system))) =
     Inr [fresh_lock (''board'', None) ByReservation ''r2'' (Some 20) 10 2,
          fresh_lock (''psu'', Some ''1'') ByReservation ''r2'' (Some 20) 10 2]"
proof -
  have ok: "system_ok sample_system"
    using run_steps[OF system_ok_initial sample_ops_built] by (simp add: sample_run)
  let ?b = "sample_bench ''b1'' [sample_binding ''board'' None, sample_binding ''psu'' (Some ''1'')]"
  have keys: "bench_keys (rs_catalog sample_system) ?b = [(''board'', None), (''psu'', Some ''1'')]" by code_simp
  have here: "get_bench (rs_catalog sample_system) ''b1'' = Inr ?b"
    "require_available (rs_catalog sample_system) ''b1'' = Inr ()" by code_simp+
  have "map_prod id table_abs (acquire_for_bench (rs_catalog sample_system) ''b1'' ByReservation ''r2'' (Some 20) 5 (rs_locks sample_system)) =
     spec_acquire ByReservation ''r2'' (Some 20) 5 [(''board'', None), (''psu'', Some ''1'')] (table_abs (rs_locks sample_system))"
    using acquire_is_all_or_nothing[OF _ _ here, of "rs_locks sample_system" "Some 20" 5 ByReservation "''r2''"] ok
    by (simp add: keys system_ok_def expiry_past_def)
  moreover have "fst (spec_acquire ByReservation ''r2'' (Some 20) 5 [(''board'', None), (''psu'', Some ''1'')] (table_abs (rs_locks sample_system))) =
     Inl ResourceConflictError"
    by (simp add: sample_system_def table_abs_def contested_def restricted_def held_def lock_expired_def owned_by_def fresh_lock_def)
  moreover have "fst (spec_acquire ByReservation ''r2'' (Some 20) 10 [(''board'', None), (''psu'', Some ''1'')] (table_abs (rs_locks sample_system))) =
     Inr [fresh_lock (''board'', None) ByReservation ''r2'' (Some 20) 10 2,
          fresh_lock (''psu'', Some ''1'') ByReservation ''r2'' (Some 20) 10 2]"
    by (simp add: sample_system_def table_abs_def contested_def restricted_def held_def lock_expired_def granted_def
        counter_def fresh_lock_def)
  ultimately show ?thesis by simp
qed

text \<open>
  C34: a fencing token names one grant for ever. Whatever calls happen between two moments, a lock
  held on a key at the later moment is the lock held on it at the earlier one, its expiry apart, or
  has a larger token; so a device that refuses tokens below the largest it has seen obeys no
  former holder.
\<close>

theorem fencing_token_names_one_grant:
  assumes "list_all op_built (before @ between)"
    and "held (rs_locks (fold perform before initial_system)) k = Some l"
    and "held (rs_locks (fold perform (before @ between) initial_system)) k = Some l'"
  shows "same_grant l l' \<or> rl_fencing_token l < rl_fencing_token l'"
proof -
  let ?s = "fold perform before initial_system" let ?s' = "fold perform between ?s"
  have ok: "system_ok ?s" and step: "advances (rs_locks ?s) (rs_locks ?s')"
    using assms(1) run_steps[of initial_system before] run_steps[of ?s between] by simp_all
  have "rl_fencing_token l \<le> counter (rs_locks ?s) k"
    using ok lock_table_okD(2)[OF _ assms(2)] by (simp add: system_ok_def)
  moreover have "(\<exists>l0. held (rs_locks ?s) k = Some l0 \<and> same_grant l0 l') \<or> counter (rs_locks ?s) k < rl_fencing_token l'"
  proof -
    have "held (rs_locks ?s') k = Some l'" using assms(3) by simp
    with step show ?thesis unfolding advances_def by blast
  qed
  ultimately show ?thesis using assms(2) by auto
qed

text \<open>The board is taken over after its lock expired, under the next token.\<close>

definition sample_takeover :: resource_op where
  "sample_takeover = AcquireForBench ''b1'' ByReservation ''r2'' (Some 20) 10"

lemma sample_after_takeover:
  "held (rs_locks (perform sample_takeover sample_system)) (''board'', None) =
     Some (fresh_lock (''board'', None) ByReservation ''r2'' (Some 20) 10 2)"
  by code_simp

theorem fencing_token_names_one_grant_witness:
  "same_grant (fresh_lock (''board'', None) ByReservation ''r1'' (Some 10) 0 1)
     (fresh_lock (''board'', None) ByReservation ''r2'' (Some 20) 10 2) \<or>
   rl_fencing_token (fresh_lock (''board'', None) ByReservation ''r1'' (Some 10) 0 1) <
     rl_fencing_token (fresh_lock (''board'', None) ByReservation ''r2'' (Some 20) 10 2)"
proof (rule fencing_token_names_one_grant[of sample_ops "[sample_takeover]" "(''board'', None)"])
  show "list_all op_built (sample_ops @ [sample_takeover])"
    using sample_ops_built by (simp add: sample_takeover_def)
  show "held (rs_locks (fold perform sample_ops initial_system)) (''board'', None) =
      Some (fresh_lock (''board'', None) ByReservation ''r1'' (Some 10) 0 1)"
    unfolding sample_run by (simp add: sample_system_def held_def)
qed (simp add: sample_run sample_after_takeover)

text \<open>
  C35: while discovery reports one sharing mode for each resource, two locks held on the same
  exclusive resource are the same lock, two on the same channel of a resource are the same lock,
  and a shared resource is never locked, after any sequence of calls.
\<close>

theorem resource_has_one_holder:
  assumes "list_all op_built ops" and "list_all (declares sharing) ops"
    and "held (rs_locks (fold perform ops initial_system)) k = Some l"
    and "held (rs_locks (fold perform ops initial_system)) k' = Some l'"
    and "fst k = fst k'" and "sharing (fst k) = Exclusive \<or> snd k = snd k'"
  shows "l = l' \<and> sharing (fst k) \<noteq> Shared \<and> lock_key_of l = k"
proof -
  have fits: "key_fits sharing k" "key_fits sharing k'"
    using sharing_kept_run[OF assms(1,2)] assms(3,4) unfolding sharing_kept_def by blast+
  then have "k = k'" using assms(5,6) by (auto simp: key_fits_def prod_eq_iff)
  moreover have "lock_key_of l = k"
    using run_steps[OF system_ok_initial assms(1)] lock_table_okD(2)[OF _ assms(3)] by (simp add: system_ok_def)
  ultimately show ?thesis using assms(3,4) fits by (simp add: key_fits_def)
qed

theorem resource_has_one_holder_witness:
  "fresh_lock (''board'', None) ByReservation ''r1'' (Some 10) 0 1 = fresh_lock (''board'', None) ByReservation ''r1'' (Some 10) 0 1 \<and>
   (if ''board'' = ''psu'' then Channel else Exclusive) \<noteq> Shared \<and>
   lock_key_of (fresh_lock (''board'', None) ByReservation ''r1'' (Some 10) 0 1) = (''board'', None)"
  using resource_has_one_holder[OF sample_ops_built, of "\<lambda>i. if i = ''psu'' then Channel else Exclusive"
      "(''board'', None)" "fresh_lock (''board'', None) ByReservation ''r1'' (Some 10) 0 1" "(''board'', None)"
      "fresh_lock (''board'', None) ByReservation ''r1'' (Some 10) 0 1"]
  unfolding sample_run
  by (simp add: sample_system_def held_def sample_ops_def sample_supply_def sample_board_def)

text \<open>
  The hypothesis on sharing is needed: the catalogue replaces a resource without looking at its
  locks or at the benches bound to it. Here a board that is held exclusively is reported again as a
  resource with channels, and a second owner locks one of them while the first still holds it all.
\<close>

definition sharing_change :: "resource_op list" where
  "sharing_change = sample_ops @
     [UpsertResource (sample_board\<lparr>hr_sharing := Channel, hr_channels := {''1''}\<rparr>),
      RegisterBench (sample_bench ''b2'' [sample_binding ''board'' (Some ''1'')]),
      AcquireForBench ''b2'' ByReservation ''r2'' (Some 10) 0]"

lemma sharing_change_gives_two_holders:
  "let s = fold perform sharing_change initial_system in
     map_option rl_owner_id (held (rs_locks s) (''board'', None)) = Some ''r1'' \<and>
     map_option rl_owner_id (held (rs_locks s) (''board'', Some ''1'')) = Some ''r2''"
  by code_simp

end
