(* ===== verification/MessageSequence.thy ===== *)
theory MessageSequence
  imports Prelude
begin

text \<open>
  \<open>IncomingSequenceTracker\<close> (\<open>agent_protocol/sequence.py\<close>): the check of the ordered stream of one
  connection, with a bounded memory of the message identifiers seen last. The fingerprint of a
  message, the SHA-256 of its pydantic dump, is a parameter.
\<close>

section \<open>The tracker\<close>




record tracker =
  tk_expected_sequence :: int
  tk_max_recent :: int
  tk_recent :: "uuid list"
  tk_seen :: "(uuid \<times> int \<times> string) list"


definition last_accepted_sequence :: "tracker \<Rightarrow> int" where
  "last_accepted_sequence t = tk_expected_sequence t - 1"

text \<open>The new identifier is remembered, and the oldest forgotten when there are too many.\<close>

definition remember :: "uuid \<Rightarrow> int \<Rightarrow> string \<Rightarrow> tracker \<Rightarrow> tracker" where
  "remember i n f t =
     (let t1 = t\<lparr>tk_recent := tk_recent t @ [i], tk_seen := dict_set i (n, f) (tk_seen t),
                 tk_expected_sequence := tk_expected_sequence t + 1\<rparr>
      in if tk_max_recent t1 < int (length (tk_recent t1))
         then t1\<lparr>tk_recent := tl (tk_recent t1), tk_seen := dict_pop (hd (tk_recent t1)) (tk_seen t1)\<rparr>
         else t1)"


section \<open>The invariant\<close>








lemma remember_expected [simp]: "tk_expected_sequence (remember i n f t) = tk_expected_sequence t + 1"
  by (simp add: remember_def Let_def)



section \<open>A whole connection\<close>





section \<open>Properties\<close>




end
