(* ===== verification/AgentModels.thy ===== *)
theory AgentModels
  imports Hardware RemoteCommands Store
begin

text \<open>
  The agents of a control plane: \<open>models/agents.py\<close> and \<open>AgentConnectionRecord\<close> of
  \<open>models/distributed.py\<close> with the validators their constructors run, and the tables of
  \<open>persistence/migrations.py\<close> that hold them, with the constraints each statement is checked against.
\<close>

section \<open>Agents\<close>

datatype agent_status =
  AgPending | AgOnline | AgDegraded | AgOffline | AgDraining | AgDrained | AgRevoked | AgIncompatible

datatype enrollment_status = EnrPending | EnrEnrolled | EnrRevoked

record agent_record =
  ar_id :: uuid
  ar_organisation_id :: uuid
  ar_slug :: string
  ar_name :: string
  ar_status :: agent_status
  ar_version :: string
  ar_protocol_version :: string
  ar_location :: "string option"
  ar_labels :: "(string \<times> string) list"
  ar_registered_at :: time
  ar_last_connected_at :: "time option"
  ar_last_seen_at :: "time option"
  ar_disconnected_at :: "time option"
  ar_certificate_fingerprint :: "string option"
  ar_enrollment_status :: enrollment_status
  ar_revoked_at :: "time option"

text \<open>\<open>str.lower\<close> on the Latin-1 characters.\<close>

definition py_lower :: "string \<Rightarrow> string" where
  "py_lower s = map (\<lambda>c. let n = (of_char c :: nat) in
     if 65 \<le> n \<and> n \<le> 90 \<or> 192 \<le> n \<and> n \<le> 222 \<and> n \<noteq> 215 then char_of (n + 32) else c) s"

text \<open>\<open>COLLATE NOCASE\<close> and \<open>LOWER\<close> in SQLite fold the ASCII letters.\<close>

definition nocase :: "string \<Rightarrow> string" where
  "nocase s = map (\<lambda>c. let n = (of_char c :: nat) in if 65 \<le> n \<and> n \<le> 90 then char_of (n + 32) else c) s"

definition slug_letter :: "char \<Rightarrow> bool" where
  "slug_letter c = (let n = (of_char c :: nat) in 48 \<le> n \<and> n \<le> 57 \<or> 97 \<le> n \<and> n \<le> 122)"

text \<open>\<open>_AGENT_SLUG_PATTERN.fullmatch\<close>.\<close>

definition slug_matches :: "string \<Rightarrow> bool" where
  "slug_matches s \<longleftrightarrow> s \<noteq> [] \<and> length s \<le> 100 \<and> slug_letter (hd s) \<and> slug_letter (last s) \<and>
     list_all (\<lambda>c. slug_letter c \<or> c = CHR ''-'') s"

definition normalize_slug :: "string \<Rightarrow> error + string" where
  "normalize_slug v = (let s = py_lower (py_strip v) in if slug_matches s then Inr s else Inl ValueError)"

text \<open>\<open>_normalized_labels\<close>: the loop over the items, with the dictionary built so far.\<close>

fun normalized_items :: "(string \<times> string) list \<Rightarrow> (string \<times> string) list \<Rightarrow> error + (string \<times> string) list" where
  "normalized_items acc [] = Inr acc"
| "normalized_items acc ((raw_key, raw_value) # items) =
     (let key = py_strip raw_key; label_value = py_strip raw_value
      in if key = [] \<or> label_value = [] \<or> 200 < length key \<or> 500 < length label_value \<or> key \<in> fst ` set acc
         then Inl ValueError else normalized_items (acc @ [(key, label_value)]) items)"

definition normalized_labels :: "(string \<times> string) list \<Rightarrow> error + (string \<times> string) list" where
  "normalized_labels items = (if 128 < length items then Inl ValueError else normalized_items [] items)"

definition optional_within :: "nat \<Rightarrow> string option \<Rightarrow> bool" where
  "optional_within hi v = (case v of None \<Rightarrow> True | Some s \<Rightarrow> sized 1 hi s)"

definition strip_agent :: "agent_record \<Rightarrow> agent_record" where
  "strip_agent a = a\<lparr>ar_name := trim (ar_name a), ar_version := trim (ar_version a),
     ar_protocol_version := trim (ar_protocol_version a), ar_location := map_option trim (ar_location a),
     ar_certificate_fingerprint := map_option trim (ar_certificate_fingerprint a)\<rparr>"

definition agent_fields_valid :: "agent_record \<Rightarrow> bool" where
  "agent_fields_valid a \<longleftrightarrow> sized 1 200 (ar_name a) \<and> sized 1 100 (ar_version a) \<and>
     sized 1 100 (ar_protocol_version a) \<and> optional_within 200 (ar_location a) \<and>
     optional_within 256 (ar_certificate_fingerprint a)"

text \<open>
  \<open>validate_state_and_timestamps\<close>; the table \<open>agents\<close> checks the same. An optional value that is
  compared is compared only when it is present.
\<close>

definition given_after :: "time option \<Rightarrow> time option \<Rightarrow> bool" where
  "given_after v t = (case v of None \<Rightarrow> True | Some u \<Rightarrow> (case t of None \<Rightarrow> False | Some t' \<Rightarrow> t' \<le> u))"

definition agent_timeline_valid :: "agent_record \<Rightarrow> bool" where
  "agent_timeline_valid a \<longleftrightarrow>
     list_all (not_before (ar_registered_at a))
       [ar_last_connected_at a, ar_last_seen_at a, ar_disconnected_at a, ar_revoked_at a] \<and>
     given_after (ar_last_seen_at a) (ar_last_connected_at a) \<and>
     given_after (ar_disconnected_at a) (ar_last_connected_at a) \<and>
     (case ar_last_seen_at a of None \<Rightarrow> True | Some t \<Rightarrow> not_before t (ar_disconnected_at a))"

definition agent_revocation_valid :: "agent_record \<Rightarrow> bool" where
  "agent_revocation_valid a \<longleftrightarrow>
     (ar_status a = AgRevoked) = (ar_enrollment_status a = EnrRevoked) \<and>
     (ar_status a = AgRevoked) = (ar_revoked_at a \<noteq> None)"

definition agent_state_valid :: "agent_record \<Rightarrow> bool" where
  "agent_state_valid a \<longleftrightarrow> agent_timeline_valid a \<and> agent_revocation_valid a"

definition make_agent_record :: "agent_record \<Rightarrow> error + agent_record" where
  "make_agent_record a =
     (case normalize_slug (ar_slug a) of Inl e \<Rightarrow> Inl e | Inr slug \<Rightarrow>
        (case normalized_labels (ar_labels a) of Inl e \<Rightarrow> Inl e | Inr labels \<Rightarrow>
           (let a' = (strip_agent a)\<lparr>ar_slug := slug, ar_labels := labels\<rparr>
            in if agent_fields_valid a' \<and> agent_state_valid a' then Inr a' else Inl ValueError)))"

section \<open>Enrollment tokens and credentials\<close>

record enrollment_token =
  et_id :: uuid
  et_organisation_id :: uuid
  et_name :: string
  et_token_hash :: string
  et_created_at :: time
  et_expires_at :: time
  et_used_at :: "time option"
  et_revoked_at :: "time option"
  et_allowed_labels :: "(string \<times> string) list"
  et_used_by_agent_id :: "uuid option"
  et_enrollment_request_id :: "uuid option"

definition hash_digit :: "char \<Rightarrow> bool" where
  "hash_digit c = (let n = (of_char c :: nat) in 48 \<le> n \<and> n \<le> 57 \<or> 97 \<le> n \<and> n \<le> 102)"

text \<open>\<open>_normalized_sha256\<close>, and the \<open>CHECK\<close> of the hash columns.\<close>

definition sha256_text :: "string \<Rightarrow> bool" where
  "sha256_text s \<longleftrightarrow> length s = 64 \<and> list_all hash_digit s"

definition normalized_sha256 :: "string \<Rightarrow> error + string" where
  "normalized_sha256 v = (let s = py_lower (py_strip v) in if sha256_text s then Inr s else Inl ValueError)"

text \<open>\<open>validate_timestamps_and_usage\<close>; the table \<open>agent_enrollment_tokens\<close> checks the same.\<close>

definition token_valid :: "enrollment_token \<Rightarrow> bool" where
  "token_valid t \<longleftrightarrow> et_created_at t < et_expires_at t \<and>
     (case et_used_at t of None \<Rightarrow> True | Some u \<Rightarrow> et_created_at t \<le> u \<and> u < et_expires_at t) \<and>
     not_before (et_created_at t) (et_revoked_at t) \<and>
     (case et_used_at t of None \<Rightarrow> True | Some u \<Rightarrow> not_before u (et_revoked_at t)) \<and>
     (et_used_at t \<noteq> None) = (et_used_by_agent_id t \<noteq> None) \<and>
     (et_used_at t \<noteq> None) = (et_enrollment_request_id t \<noteq> None)"

definition make_enrollment_token :: "enrollment_token \<Rightarrow> error + enrollment_token" where
  "make_enrollment_token t =
     (case normalized_sha256 (et_token_hash t) of Inl e \<Rightarrow> Inl e | Inr h \<Rightarrow>
        (case normalized_labels (et_allowed_labels t) of Inl e \<Rightarrow> Inl e | Inr labels \<Rightarrow>
           (let t' = t\<lparr>et_name := trim (et_name t), et_token_hash := h, et_allowed_labels := labels\<rparr>
            in if sized 1 200 (et_name t') \<and> token_valid t' then Inr t' else Inl ValueError)))"

record agent_credential =
  cr_id :: uuid
  cr_organisation_id :: uuid
  cr_agent_id :: uuid
  cr_credential_hash :: string
  cr_version :: int
  cr_created_at :: time
  cr_expires_at :: "time option"
  cr_revoked_at :: "time option"
  cr_last_used_at :: "time option"

text \<open>\<open>AgentCredential.validate_timestamps\<close>; the table \<open>agent_credentials\<close> checks the same.\<close>

definition credential_valid :: "agent_credential \<Rightarrow> bool" where
  "credential_valid c \<longleftrightarrow>
     (case cr_expires_at c of None \<Rightarrow> True | Some e \<Rightarrow> cr_created_at c < e) \<and>
     not_before (cr_created_at c) (cr_revoked_at c) \<and>
     (case cr_last_used_at c of None \<Rightarrow> True | Some u \<Rightarrow>
        cr_created_at c \<le> u \<and> (case cr_expires_at c of None \<Rightarrow> True | Some e \<Rightarrow> u < e) \<and>
        not_before u (cr_revoked_at c))"

definition make_agent_credential :: "agent_credential \<Rightarrow> error + agent_credential" where
  "make_agent_credential c =
     (case normalized_sha256 (cr_credential_hash c) of Inl e \<Rightarrow> Inl e | Inr h \<Rightarrow>
        (let c' = c\<lparr>cr_credential_hash := h\<rparr>
         in if 1 \<le> cr_version c' \<and> credential_valid c' then Inr c' else Inl ValueError))"

section \<open>Connections\<close>

record agent_connection =
  cn_id :: uuid
  cn_agent_id :: uuid
  cn_boot_id :: uuid
  cn_protocol_version :: string
  cn_connected_at :: time
  cn_last_heartbeat_at :: time
  cn_disconnected_at :: "time option"
  cn_last_sequence_number :: int
  cn_observed_clock_offset :: duration

definition offset_valid :: "duration \<Rightarrow> bool" where
  "offset_valid d \<longleftrightarrow> - seconds 86400 \<le> d \<and> d \<le> seconds 86400"

text \<open>The bounds and \<open>validate_timeline\<close>; the table \<open>agent_connections\<close> checks the same.\<close>

definition connection_valid :: "agent_connection \<Rightarrow> bool" where
  "connection_valid c \<longleftrightarrow> 0 \<le> cn_last_sequence_number c \<and> offset_valid (cn_observed_clock_offset c) \<and>
     cn_connected_at c \<le> cn_last_heartbeat_at c \<and> not_before (cn_last_heartbeat_at c) (cn_disconnected_at c)"

definition make_agent_connection :: "agent_connection \<Rightarrow> error + agent_connection" where
  "make_agent_connection c =
     (let c' = c\<lparr>cn_protocol_version := trim (cn_protocol_version c)\<rparr>
      in if sized 1 100 (cn_protocol_version c') \<and> connection_valid c' then Inr c' else Inl ValueError)"

section \<open>Benches of the whole platform\<close>

datatype bench_health = BenchHealthy | BenchWarning | BenchUnhealthy

datatype global_bench_kind = BenchSimulated | BenchPhysical

datatype global_bench_status = GbOnline | GbOffline | GbDegraded

record global_bench =
  gb_id :: string
  gb_organisation_id :: uuid
  gb_agent_id :: uuid
  gb_agent_slug :: string
  gb_local_bench_id :: string
  gb_name :: string
  gb_backend_id :: string
  gb_kind :: global_bench_kind
  gb_target_type :: "string option"
  gb_status :: global_bench_status
  gb_health :: bench_health
  gb_capabilities :: "string set"
  gb_labels :: "(string \<times> string) list"
  gb_firmware_version :: "string option"
  gb_last_seen_at :: "time option"
  gb_created_at :: time
  gb_updated_at :: time

definition local_letter :: "char \<Rightarrow> bool" where
  "local_letter c = (let n = (of_char c :: nat) in
     48 \<le> n \<and> n \<le> 57 \<or> 65 \<le> n \<and> n \<le> 90 \<or> 97 \<le> n \<and> n \<le> 122)"

definition local_id_matches :: "string \<Rightarrow> bool" where
  "local_id_matches s \<longleftrightarrow> s \<noteq> [] \<and> length s \<le> 500 \<and> local_letter (hd s) \<and>
     list_all (\<lambda>c. local_letter c \<or> c \<in> set ''._-'') s"

text \<open>\<open>_GLOBAL_BENCH_ID_PATTERN.fullmatch\<close>: neither side of the slash can contain one.\<close>

definition global_id_matches :: "string \<Rightarrow> bool" where
  "global_id_matches s \<longleftrightarrow>
     (let slug = takeWhile (\<lambda>c. c \<noteq> CHR ''/'') s; rest = dropWhile (\<lambda>c. c \<noteq> CHR ''/'') s
      in slug_matches slug \<and> rest \<noteq> [] \<and> local_id_matches (tl rest))"

definition strip_global_bench :: "global_bench \<Rightarrow> global_bench" where
  "strip_global_bench b = b\<lparr>gb_id := trim (gb_id b), gb_agent_slug := trim (gb_agent_slug b),
     gb_local_bench_id := trim (gb_local_bench_id b), gb_name := trim (gb_name b),
     gb_backend_id := trim (gb_backend_id b), gb_target_type := map_option trim (gb_target_type b),
     gb_capabilities := trim ` gb_capabilities b, gb_labels := trim_items (gb_labels b),
     gb_firmware_version := map_option trim (gb_firmware_version b)\<rparr>"

definition global_bench_valid :: "global_bench \<Rightarrow> bool" where
  "global_bench_valid b \<longleftrightarrow>
     sized 3 600 (gb_id b) \<and> sized 1 100 (gb_agent_slug b) \<and> sized 1 500 (gb_local_bench_id b) \<and>
     sized 1 500 (gb_name b) \<and> sized 1 200 (gb_backend_id b) \<and> optional_sized 200 (gb_target_type b) \<and>
     card (gb_capabilities b) \<le> 256 \<and> length (gb_labels b) \<le> 128 \<and> optional_sized 200 (gb_firmware_version b) \<and>
     global_id_matches (gb_id b) \<and> gb_id b = gb_agent_slug b @ ''/'' @ gb_local_bench_id b \<and>
     gb_created_at b \<le> gb_updated_at b \<and>
     (case gb_last_seen_at b of None \<Rightarrow> True | Some t \<Rightarrow> t \<le> gb_updated_at b)"

definition make_global_bench :: "global_bench \<Rightarrow> error + global_bench" where
  "make_global_bench b =
     (let b' = strip_global_bench b in if global_bench_valid b' then Inr b' else Inl ValueError)"

definition gb_online :: "global_bench \<Rightarrow> bool" where
  "gb_online b \<longleftrightarrow> gb_status b \<in> {GbOnline, GbDegraded}"

end
