(* ===== verification/FleetStore.thy ===== *)
theory FleetStore
  imports AgentModels
begin

text \<open>
  The database of the control plane: the tables \<open>agents\<close>, \<open>agent_enrollment_tokens\<close>,
  \<open>agent_credentials\<close>, \<open>agent_connections\<close>, \<open>global_benches\<close>, \<open>remote_commands\<close>,
  \<open>distributed_operations\<close> and \<open>ci_sessions\<close> of \<open>persistence/migrations.py\<close> next to the tables of the
  reservation core. Each statement is checked against the constraints of its table; a violation
  raises \<open>IntegrityError\<close> and writes nothing. \<open>fleet_ok\<close> collects what the constraints guarantee.
\<close>

section \<open>The database\<close>

text \<open>Of a CI session only the columns that the modelled statements use.\<close>

record ci_row =
  ci_id :: uuid
  ci_bench_id :: "string option"
  ci_status :: string

record fleet_db =
  fd_base :: db
  fd_agents :: "agent_record list"
  fd_tokens :: "enrollment_token list"
  fd_credentials :: "agent_credential list"
  fd_connections :: "agent_connection list"
  fd_benches :: "global_bench list"
  fd_commands :: "remote_command list"
  fd_operations :: "distributed_operation list"
  fd_ci :: "ci_row list"

definition empty_fleet :: fleet_db where
  "empty_fleet = \<lparr>fd_base = empty_db, fd_agents = [], fd_tokens = [], fd_credentials = [],
     fd_connections = [], fd_benches = [], fd_commands = [], fd_operations = [], fd_ci = []\<rparr>"

section \<open>Constraints\<close>

text \<open>A unique column that may be \<open>NULL\<close>.\<close>

definition unique_given :: "('a \<Rightarrow> 'b option) \<Rightarrow> 'a list \<Rightarrow> bool" where
  "unique_given f rows \<longleftrightarrow> distinct (List.map_filter f rows)"

definition agents_ok :: "agent_record list \<Rightarrow> bool" where
  "agents_ok rows \<longleftrightarrow> distinct (map ar_id rows) \<and> distinct (map ar_slug rows) \<and>
     unique_given ar_certificate_fingerprint rows \<and> list_all agent_state_valid rows"

definition tokens_ok :: "uuid set \<Rightarrow> enrollment_token list \<Rightarrow> bool" where
  "tokens_ok agents rows \<longleftrightarrow> distinct (map et_id rows) \<and> distinct (map et_token_hash rows) \<and>
     unique_given et_used_by_agent_id rows \<and> unique_given et_enrollment_request_id rows \<and>
     list_all (\<lambda>t. sha256_text (et_token_hash t) \<and> token_valid t \<and>
       (case et_used_by_agent_id t of None \<Rightarrow> True | Some i \<Rightarrow> i \<in> agents)) rows"

definition active_credential :: "agent_credential \<Rightarrow> bool" where
  "active_credential c \<longleftrightarrow> cr_revoked_at c = None"

definition credentials_ok :: "uuid set \<Rightarrow> agent_credential list \<Rightarrow> bool" where
  "credentials_ok agents rows \<longleftrightarrow> distinct (map cr_id rows) \<and> distinct (map cr_credential_hash rows) \<and>
     distinct (map (\<lambda>c. (cr_agent_id c, cr_version c)) rows) \<and>
     distinct (map cr_agent_id (filter active_credential rows)) \<and>
     list_all (\<lambda>c. sha256_text (cr_credential_hash c) \<and> 0 < cr_version c \<and> credential_valid c \<and>
       cr_agent_id c \<in> agents) rows"

definition live_row :: "agent_connection \<Rightarrow> bool" where
  "live_row c \<longleftrightarrow> cn_disconnected_at c = None"

definition connections_ok :: "uuid set \<Rightarrow> agent_connection list \<Rightarrow> bool" where
  "connections_ok agents rows \<longleftrightarrow> distinct (map cn_id rows) \<and>
     distinct (map cn_agent_id (filter live_row rows)) \<and>
     list_all (\<lambda>c. connection_valid c \<and> cn_agent_id c \<in> agents) rows"

definition agent_ids :: "fleet_db \<Rightarrow> uuid set" where
  "agent_ids d = ar_id ` set (fd_agents d)"

definition fleet_ok :: "fleet_db \<Rightarrow> bool" where
  "fleet_ok d \<longleftrightarrow> db_ok (fd_base d) \<and> agents_ok (fd_agents d) \<and> tokens_ok (agent_ids d) (fd_tokens d) \<and>
     credentials_ok (agent_ids d) (fd_credentials d) \<and> connections_ok (agent_ids d) (fd_connections d)"

section \<open>Statements\<close>

text \<open>
  A statement that writes a table: the new rows are kept when the table's constraints hold of them,
  and otherwise the statement fails. An \<open>UPDATE\<close> answers with the number of rows it matched.
\<close>

definition write_table ::
    "('t list \<Rightarrow> 'd \<Rightarrow> bool) \<Rightarrow> ('t list \<Rightarrow> 'd \<Rightarrow> 'd) \<Rightarrow> 't list \<Rightarrow> 'a \<Rightarrow> ('d, 'a) io" where
  "write_table allowed put rows result =
     bindM (getsM (allowed rows)) (\<lambda>ok.
       if ok then bindM (modifyM (put rows)) (\<lambda>_. returnM result) else raiseM IntegrityError)"

definition rows_changed :: "('t \<Rightarrow> bool) \<Rightarrow> 't list \<Rightarrow> int" where
  "rows_changed P rows = int (length (filter P rows))"

definition update_agents :: "(agent_record \<Rightarrow> bool) \<Rightarrow> (agent_record \<Rightarrow> agent_record) \<Rightarrow> (fleet_db, int) io" where
  "update_agents P f = bindM (getsM fd_agents) (\<lambda>rows.
     write_table (\<lambda>new _. agents_ok new) (\<lambda>new d. d\<lparr>fd_agents := new\<rparr>)
       (update_where P f rows) (rows_changed P rows))"

definition insert_agent :: "agent_record \<Rightarrow> (fleet_db, unit) io" where
  "insert_agent a = bindM (getsM fd_agents) (\<lambda>rows.
     write_table (\<lambda>new _. agents_ok new) (\<lambda>new d. d\<lparr>fd_agents := new\<rparr>) (rows @ [a]) ())"

definition update_tokens ::
    "(enrollment_token \<Rightarrow> bool) \<Rightarrow> (enrollment_token \<Rightarrow> enrollment_token) \<Rightarrow> (fleet_db, int) io" where
  "update_tokens P f = bindM (getsM fd_tokens) (\<lambda>rows.
     write_table (\<lambda>new d. tokens_ok (agent_ids d) new) (\<lambda>new d. d\<lparr>fd_tokens := new\<rparr>)
       (update_where P f rows) (rows_changed P rows))"

definition insert_token :: "enrollment_token \<Rightarrow> (fleet_db, unit) io" where
  "insert_token t = bindM (getsM fd_tokens) (\<lambda>rows.
     write_table (\<lambda>new d. tokens_ok (agent_ids d) new) (\<lambda>new d. d\<lparr>fd_tokens := new\<rparr>) (rows @ [t]) ())"

definition update_credentials ::
    "(agent_credential \<Rightarrow> bool) \<Rightarrow> (agent_credential \<Rightarrow> agent_credential) \<Rightarrow> (fleet_db, int) io" where
  "update_credentials P f = bindM (getsM fd_credentials) (\<lambda>rows.
     write_table (\<lambda>new d. credentials_ok (agent_ids d) new) (\<lambda>new d. d\<lparr>fd_credentials := new\<rparr>)
       (update_where P f rows) (rows_changed P rows))"

definition insert_credential :: "agent_credential \<Rightarrow> (fleet_db, unit) io" where
  "insert_credential c = bindM (getsM fd_credentials) (\<lambda>rows.
     write_table (\<lambda>new d. credentials_ok (agent_ids d) new) (\<lambda>new d. d\<lparr>fd_credentials := new\<rparr>) (rows @ [c]) ())"

definition update_connections ::
    "(agent_connection \<Rightarrow> bool) \<Rightarrow> (agent_connection \<Rightarrow> agent_connection) \<Rightarrow> (fleet_db, int) io" where
  "update_connections P f = bindM (getsM fd_connections) (\<lambda>rows.
     write_table (\<lambda>new d. connections_ok (agent_ids d) new) (\<lambda>new d. d\<lparr>fd_connections := new\<rparr>)
       (update_where P f rows) (rows_changed P rows))"

definition insert_connection :: "agent_connection \<Rightarrow> (fleet_db, unit) io" where
  "insert_connection c = bindM (getsM fd_connections) (\<lambda>rows.
     write_table (\<lambda>new d. connections_ok (agent_ids d) new) (\<lambda>new d. d\<lparr>fd_connections := new\<rparr>) (rows @ [c]) ())"

definition base_event :: "event_record \<Rightarrow> (fleet_db, unit) io" where
  "base_event e = zoomM fd_base (\<lambda>b d. d\<lparr>fd_base := b\<rparr>) (insert_event e)"

section \<open>Lemmas\<close>

lemma wp_write_table [wpM]:
  "wp (write_table allowed put rows x) Q E d = (if allowed rows d then Q x (put rows d) else E IntegrityError d)"
  by (simp add: write_table_def wpM)

named_theorems keeps_fleet \<open>statements that keep the constraints of the database\<close>

lemma agent_ids_simps [simp]:
  "agent_ids (d\<lparr>fd_tokens := ts\<rparr>) = agent_ids d" "agent_ids (d\<lparr>fd_credentials := cs\<rparr>) = agent_ids d"
  "agent_ids (d\<lparr>fd_connections := ns\<rparr>) = agent_ids d" "agent_ids (d\<lparr>fd_base := b\<rparr>) = agent_ids d"
  "agent_ids (d\<lparr>fd_agents := rows\<rparr>) = ar_id ` set rows" "agent_ids (d\<lparr>fd_commands := ms\<rparr>) = agent_ids d"
  "agent_ids (d\<lparr>fd_ci := js\<rparr>) = agent_ids d"
  by (simp_all add: agent_ids_def)

text \<open>References to agents stay valid when agents are added.\<close>

lemma tokens_ok_mono: "tokens_ok A rows \<Longrightarrow> A \<subseteq> B \<Longrightarrow> tokens_ok B rows"
  by (auto simp: tokens_ok_def list_all_iff split: option.splits)

lemma credentials_ok_mono: "credentials_ok A rows \<Longrightarrow> A \<subseteq> B \<Longrightarrow> credentials_ok B rows"
  by (auto simp: credentials_ok_def list_all_iff)

lemma connections_ok_mono: "connections_ok A rows \<Longrightarrow> A \<subseteq> B \<Longrightarrow> connections_ok B rows"
  by (auto simp: connections_ok_def list_all_iff)

lemma fleet_ok_agents:
  assumes "fleet_ok d" and "agents_ok rows" and "agent_ids d \<subseteq> ar_id ` set rows"
  shows "fleet_ok (d\<lparr>fd_agents := rows\<rparr>)"
  using assms by (auto simp: fleet_ok_def intro: tokens_ok_mono credentials_ok_mono connections_ok_mono)

lemma keeps_insert_agent [keeps_fleet]: "keeps fleet_ok (insert_agent a)"
  by (auto simp: keeps_wp insert_agent_def wpM agent_ids_def intro!: fleet_ok_agents)

lemma keeps_update_agents [keeps_fleet]:
  assumes "\<And>a. ar_id (f a) = ar_id a"
  shows "keeps fleet_ok (update_agents P f)"
proof -
  have "ar_id ` set (update_where P f rows) = ar_id ` set rows" for rows
    using update_where_map[of P ar_id f rows] assms by (metis list.set_map)
  then show ?thesis
    by (auto simp: keeps_wp update_agents_def wpM agent_ids_def intro!: fleet_ok_agents)
qed

lemma keeps_other_tables [keeps_fleet]:
  "keeps fleet_ok (insert_token t)" "keeps fleet_ok (update_tokens P f)"
  "keeps fleet_ok (insert_credential c)" "keeps fleet_ok (update_credentials P' f')"
  "keeps fleet_ok (insert_connection n)" "keeps fleet_ok (update_connections P'' f'')"
  by (simp_all add: keeps_wp insert_token_def update_tokens_def insert_credential_def update_credentials_def
      insert_connection_def update_connections_def wpM fleet_ok_def)

lemma keeps_base_event [keeps_fleet]: "keeps fleet_ok (base_event e)"
  by (auto simp: keeps_def base_event_def runM fleet_ok_def split: prod.splits intro: keeps_run[OF keeps_insert_event])

end
