(* ===== verification/AgentPresence.thy ===== *)
theory AgentPresence
  imports FleetStore
begin

text \<open>
  Which agents are connected: \<open>control_plane_core/presence.py\<close> with its in-memory repository, and the
  SQLite repository \<open>SQLiteAgentPresenceAdapter\<close> of \<open>persistence/distributed_adapters.py\<close>. The
  service is written against the protocol \<open>AgentPresenceRepository\<close>, so it is a function of a record
  of operations here, and runs over either repository.

  A repository call completes without giving up the event loop, so a call is one step; marking the
  benches of an agent offline (\<open>AgentOfflineInventory\<close>) may suspend, and is an arbitrary computation
  on the store: what other tasks do in the meantime is part of it. Clock readings of the monotonic
  clock and clock offsets are whole microseconds, or \<open>NotFinite\<close> for what \<open>math.isfinite\<close> rejects.
\<close>

section \<open>Values\<close>

datatype reading = Finite int | NotFinite

record active_connection =
  ac_connection :: agent_connection
  ac_last_activity :: int

record connection_registration =
  reg_agent :: agent_record
  reg_connection :: agent_connection
  reg_superseded :: "uuid option"

record presence_transition =
  pt_agent :: agent_record
  pt_connection :: agent_connection
  pt_previous_status :: agent_status

record 's presence_repository =
  pr_get_agent :: "uuid \<Rightarrow> uuid option \<Rightarrow> ('s, agent_record option) io"
  pr_list_agents :: "uuid option \<Rightarrow> ('s, agent_record list) io"
  pr_get_connection :: "uuid \<Rightarrow> ('s, active_connection option) io"
  pr_get_active_connection :: "uuid \<Rightarrow> ('s, active_connection option) io"
  pr_list_active_connections :: "('s, active_connection list) io"
  pr_activate :: "agent_record \<Rightarrow> active_connection \<Rightarrow> ('s, active_connection option) io"
  pr_update_if_current :: "agent_record \<Rightarrow> active_connection \<Rightarrow> ('s, bool) io"
  pr_disconnect_if_current :: "agent_record \<Rightarrow> active_connection \<Rightarrow> ('s, bool) io"

abbreviation ac_id :: "active_connection \<Rightarrow> uuid" where
  "ac_id c \<equiv> cn_id (ac_connection c)"

definition close_at :: "time \<Rightarrow> active_connection \<Rightarrow> active_connection" where
  "close_at t c = c\<lparr>ac_connection := (ac_connection c)\<lparr>cn_disconnected_at := Some t\<rparr>\<rparr>"

definition same_identity :: "agent_record \<Rightarrow> agent_record \<Rightarrow> bool" where
  "same_identity expected received \<longleftrightarrow> ar_id expected = ar_id received \<and> ar_slug expected = ar_slug received"

definition require_same_agent_identity :: "agent_record \<Rightarrow> agent_record \<Rightarrow> ('s, unit) io" where
  "require_same_agent_identity expected received =
     (if \<not> same_identity expected received then raiseM AgentIdentityConflictError else returnM ())"

definition require_connection_owner :: "active_connection \<Rightarrow> uuid \<Rightarrow> ('s, unit) io" where
  "require_connection_owner c agent_id =
     (if cn_agent_id (ac_connection c) \<noteq> agent_id then raiseM AgentConnectionConflictError else returnM ())"

section \<open>The in-memory repository\<close>

record presence_memory =
  pm_agents :: "(uuid \<times> agent_record) list"
  pm_slugs :: "(string \<times> uuid) list"
  pm_connections :: "(uuid \<times> active_connection) list"
  pm_active :: "(uuid \<times> uuid) list"

definition empty_presence :: presence_memory where
  "empty_presence = \<lparr>pm_agents = [], pm_slugs = [], pm_connections = [], pm_active = []\<rparr>"

text \<open>\<open>_insert_agent\<close>.\<close>

definition mem_insert_agent :: "agent_record \<Rightarrow> (presence_memory, unit) io" where
  "mem_insert_agent a =
     bindM (getsM (\<lambda>m. map_of (pm_agents m) (ar_id a))) (\<lambda>existing.
       case existing of
         Some x \<Rightarrow> bindM (require_same_agent_identity x a) (\<lambda>_. raiseM AgentIdentityConflictError)
       | None \<Rightarrow>
           bindM (getsM (\<lambda>m. map_of (pm_slugs m) (ar_slug a))) (\<lambda>slug_owner.
             if slug_owner \<noteq> None \<and> slug_owner \<noteq> Some (ar_id a) then raiseM AgentIdentityConflictError
             else modifyM (\<lambda>m. m\<lparr>pm_agents := dict_set (ar_id a) a (pm_agents m),
                    pm_slugs := dict_set (ar_slug a) (ar_id a) (pm_slugs m)\<rparr>)))"

definition mem_new :: "agent_record list \<Rightarrow> (presence_memory, unit) io" where
  "mem_new agents = foldM (\<lambda>a _. mem_insert_agent a) agents ()"

definition mem_add_agent :: "agent_record \<Rightarrow> (presence_memory, agent_record) io" where
  "mem_add_agent a =
     bindM (getsM (\<lambda>m. map_of (pm_agents m) (ar_id a))) (\<lambda>existing.
       case existing of
         Some x \<Rightarrow> bindM (require_same_agent_identity x a) (\<lambda>_. returnM x)
       | None \<Rightarrow> bindM (mem_insert_agent a) (\<lambda>_. returnM a))"

text \<open>The double takes no \<open>organisation_id\<close>: passing one is a \<open>TypeError\<close>.\<close>

definition mem_get_agent :: "uuid \<Rightarrow> uuid option \<Rightarrow> (presence_memory, agent_record option) io" where
  "mem_get_agent i org =
     (if org \<noteq> None then raiseM TypeError else getsM (\<lambda>m. map_of (pm_agents m) i))"

definition agent_order :: "agent_record \<Rightarrow> string \<times> uuid" where
  "agent_order a = (ar_slug a, ar_id a)"

definition mem_list_agents :: "uuid option \<Rightarrow> (presence_memory, agent_record list) io" where
  "mem_list_agents org =
     (if org \<noteq> None then raiseM TypeError
      else getsM (\<lambda>m. sort_key agent_order (map snd (pm_agents m))))"

definition mem_get_connection :: "uuid \<Rightarrow> (presence_memory, active_connection option) io" where
  "mem_get_connection i = getsM (\<lambda>m. map_of (pm_connections m) i)"

definition mem_active :: "presence_memory \<Rightarrow> uuid \<Rightarrow> active_connection option" where
  "mem_active m agent_id =
     (case map_of (pm_active m) agent_id of None \<Rightarrow> None | Some i \<Rightarrow> map_of (pm_connections m) i)"

definition mem_get_active_connection :: "uuid \<Rightarrow> (presence_memory, active_connection option) io" where
  "mem_get_active_connection agent_id = getsM (\<lambda>m. mem_active m agent_id)"

definition mem_list_active_connections :: "(presence_memory, active_connection list) io" where
  "mem_list_active_connections = (\<lambda>m.
     (mapE (\<lambda>(agent_id, i). case map_of (pm_connections m) i of None \<Rightarrow> Inl KeyError | Some c \<Rightarrow> Inr c)
        (sort_key fst (pm_active m)), m))"

text \<open>\<open>activate\<close>: the check of a known connection, and the replacement of the previous one.\<close>

definition mem_replay :: "agent_record \<Rightarrow> active_connection \<Rightarrow> active_connection \<Rightarrow>
    (presence_memory, active_connection option) io" where
  "mem_replay a c existing =
     (if cn_agent_id (ac_connection existing) \<noteq> ar_id a \<or>
         cn_boot_id (ac_connection existing) \<noteq> cn_boot_id (ac_connection c)
      then raiseM AgentConnectionConflictError
      else bindM (getsM (\<lambda>m. map_of (pm_active m) (ar_id a))) (\<lambda>active_id.
        if active_id = Some (ac_id c) \<and> cn_disconnected_at (ac_connection existing) = None
        then returnM None else raiseM AgentConnectionConflictError))"

definition mem_supersede :: "active_connection \<Rightarrow> active_connection option \<Rightarrow> (presence_memory, unit) io" where
  "mem_supersede c previous =
     (case previous of
        None \<Rightarrow> returnM ()
      | Some p \<Rightarrow>
          (let disconnected_at = max (cn_connected_at (ac_connection c)) (cn_last_heartbeat_at (ac_connection p))
           in modifyM (\<lambda>m. m\<lparr>pm_connections := dict_set (ac_id p) (close_at disconnected_at p) (pm_connections m)\<rparr>)))"

definition mem_activate :: "agent_record \<Rightarrow> active_connection \<Rightarrow> (presence_memory, active_connection option) io" where
  "mem_activate a c =
     bindM (getsM (\<lambda>m. map_of (pm_agents m) (ar_id a))) (\<lambda>canonical.
       case canonical of
         None \<Rightarrow> raiseM AgentNotFoundError
       | Some x \<Rightarrow>
           bindM (require_same_agent_identity x a) (\<lambda>_.
             bindM (require_connection_owner c (ar_id a)) (\<lambda>_.
               bindM (getsM (\<lambda>m. map_of (pm_connections m) (ac_id c))) (\<lambda>existing.
                 case existing of
                   Some e \<Rightarrow> mem_replay a c e
                 | None \<Rightarrow>
                     bindM (mem_get_active_connection (ar_id a)) (\<lambda>previous.
                       bindM (mem_supersede c previous) (\<lambda>_.
                         bindM (modifyM (\<lambda>m. m\<lparr>pm_agents := dict_set (ar_id a) a (pm_agents m),
                             pm_connections := dict_set (ac_id c) c (pm_connections m),
                             pm_active := dict_set (ar_id a) (ac_id c) (pm_active m)\<rparr>)) (\<lambda>_.
                           returnM previous)))))))"

text \<open>\<open>_current\<close>.\<close>

definition mem_current :: "presence_memory \<Rightarrow> active_connection \<Rightarrow> active_connection option" where
  "mem_current m c =
     (if map_of (pm_active m) (cn_agent_id (ac_connection c)) \<noteq> Some (ac_id c) then None
      else case map_of (pm_connections m) (ac_id c) of
             None \<Rightarrow> None
           | Some stored \<Rightarrow>
               if cn_boot_id (ac_connection stored) \<noteq> cn_boot_id (ac_connection c) then None else Some stored)"

text \<open>The common end of an update and a disconnect.\<close>

definition mem_store :: "(presence_memory \<Rightarrow> presence_memory) \<Rightarrow> agent_record \<Rightarrow> active_connection \<Rightarrow>
    (presence_memory, bool) io" where
  "mem_store finish a c =
     bindM (getsM (\<lambda>m. map_of (pm_agents m) (ar_id a))) (\<lambda>canonical.
       case canonical of
         None \<Rightarrow> returnM False
       | Some x \<Rightarrow>
           bindM (require_same_agent_identity x a) (\<lambda>_.
             bindM (require_connection_owner c (ar_id a)) (\<lambda>_.
               bindM (modifyM (\<lambda>m. finish (m\<lparr>pm_agents := dict_set (ar_id a) a (pm_agents m),
                   pm_connections := dict_set (ac_id c) c (pm_connections m)\<rparr>))) (\<lambda>_.
                 returnM True))))"

definition mem_update_if_current :: "agent_record \<Rightarrow> active_connection \<Rightarrow> (presence_memory, bool) io" where
  "mem_update_if_current a c =
     bindM (getsM (\<lambda>m. mem_current m c)) (\<lambda>current.
       case current of
         None \<Rightarrow> returnM False
       | Some stored \<Rightarrow>
           if cn_last_sequence_number (ac_connection c) < cn_last_sequence_number (ac_connection stored) \<or>
              ac_last_activity c < ac_last_activity stored
           then returnM False
           else mem_store id a c)"

definition mem_disconnect_if_current :: "agent_record \<Rightarrow> active_connection \<Rightarrow> (presence_memory, bool) io" where
  "mem_disconnect_if_current a c =
     bindM (getsM (\<lambda>m. mem_current m c)) (\<lambda>current.
       case current of
         None \<Rightarrow> returnM False
       | Some stored \<Rightarrow>
           if ac_last_activity c < ac_last_activity stored then returnM False
           else if cn_disconnected_at (ac_connection c) = None then raiseM ValueError
           else mem_store (\<lambda>m. m\<lparr>pm_active := dict_pop (ar_id a) (pm_active m)\<rparr>) a c)"

definition memory_presence :: "presence_memory presence_repository" where
  "memory_presence = \<lparr>pr_get_agent = mem_get_agent, pr_list_agents = mem_list_agents,
     pr_get_connection = mem_get_connection, pr_get_active_connection = mem_get_active_connection,
     pr_list_active_connections = mem_list_active_connections, pr_activate = mem_activate,
     pr_update_if_current = mem_update_if_current, pr_disconnect_if_current = mem_disconnect_if_current\<rparr>"

section \<open>The SQLite repository\<close>

text \<open>The database, and the activity of the live connections, which the adapter keeps in memory.\<close>

record presence_adapter =
  pa_db :: fleet_db
  pa_monotonic :: "(uuid \<times> int) list"

definition on_fleet :: "(fleet_db, 'a) io \<Rightarrow> (presence_adapter, 'a) io" where
  "on_fleet m = zoomM pa_db (\<lambda>d p. p\<lparr>pa_db := d\<rparr>) (transactionM m)"

definition activity_of :: "presence_adapter \<Rightarrow> uuid \<Rightarrow> int" where
  "activity_of p i = (case map_of (pa_monotonic p) i of None \<Rightarrow> 0 | Some t \<Rightarrow> t)"

definition with_activity :: "presence_adapter \<Rightarrow> agent_connection \<Rightarrow> active_connection" where
  "with_activity p c = \<lparr>ac_connection = c, ac_last_activity = activity_of p (cn_id c)\<rparr>"

definition agent_in_scope :: "uuid option \<Rightarrow> agent_record \<Rightarrow> bool" where
  "agent_in_scope org a = (case org of None \<Rightarrow> True | Some g \<Rightarrow> ar_organisation_id a = g)"

definition find_agent :: "uuid \<Rightarrow> uuid option \<Rightarrow> fleet_db \<Rightarrow> agent_record option" where
  "find_agent i org d = first_row (filter (\<lambda>a. ar_id a = i \<and> agent_in_scope org a) (fd_agents d))"

definition find_connection :: "uuid \<Rightarrow> fleet_db \<Rightarrow> agent_connection option" where
  "find_connection i d = first_row (filter (\<lambda>c. cn_id c = i) (fd_connections d))"

definition find_live :: "uuid \<Rightarrow> fleet_db \<Rightarrow> agent_connection option" where
  "find_live agent_id d = first_row (filter (\<lambda>c. cn_agent_id c = agent_id \<and> live_row c) (fd_connections d))"

text \<open>\<open>SQLiteAgentEnrollmentRepository.get_agent\<close> and \<open>list_agents\<close>.\<close>

definition repo_get_agent :: "uuid \<Rightarrow> uuid option \<Rightarrow> (fleet_db, agent_record option) io" where
  "repo_get_agent i org = getsM (find_agent i org)"

definition registry_order :: "agent_record \<Rightarrow> string \<times> string \<times> uuid" where
  "registry_order a = (nocase (ar_name a), ar_slug a, ar_id a)"

definition repo_list_agents :: "uuid option \<Rightarrow> int \<Rightarrow> (fleet_db, agent_record list) io" where
  "repo_list_agents org limit =
     (if limit \<le> 0 then raiseM ValueError
      else getsM (\<lambda>d. limit_rows limit (order_by registry_order (filter (agent_in_scope org) (fd_agents d)))))"

definition sql_add_agent :: "agent_record \<Rightarrow> (presence_adapter, agent_record) io" where
  "sql_add_agent a =
     bindM (on_fleet (repo_get_agent (ar_id a) None)) (\<lambda>existing.
       case existing of
         None \<Rightarrow> raiseM ValueError
       | Some x \<Rightarrow> if \<not> same_identity x a then raiseM ValueError else returnM x)"

definition sql_get_agent :: "uuid \<Rightarrow> uuid option \<Rightarrow> (presence_adapter, agent_record option) io" where
  "sql_get_agent i org = on_fleet (repo_get_agent i org)"

definition sql_list_agents :: "uuid option \<Rightarrow> (presence_adapter, agent_record list) io" where
  "sql_list_agents org = on_fleet (repo_list_agents org 10000)"

definition sql_get_connection :: "uuid \<Rightarrow> (presence_adapter, active_connection option) io" where
  "sql_get_connection i =
     bindM (on_fleet (getsM (find_connection i))) (\<lambda>row.
       getsM (\<lambda>p. map_option (with_activity p) row))"

definition sql_get_active_connection :: "uuid \<Rightarrow> (presence_adapter, active_connection option) io" where
  "sql_get_active_connection agent_id =
     bindM (on_fleet (getsM (find_live agent_id))) (\<lambda>row.
       getsM (\<lambda>p. map_option (with_activity p) row))"

definition live_order :: "agent_connection \<Rightarrow> uuid \<times> time" where
  "live_order c = (cn_agent_id c, cn_connected_at c)"

definition sql_list_active_connections :: "(presence_adapter, active_connection list) io" where
  "sql_list_active_connections =
     bindM (on_fleet (getsM (\<lambda>d. order_by live_order (filter live_row (fd_connections d))))) (\<lambda>rows.
       getsM (\<lambda>p. map (with_activity p) rows))"

text \<open>\<open>_update_agent\<close>: the identity, the name, the organisation and the registration are not written.\<close>

definition presence_columns :: "agent_record \<Rightarrow> agent_record \<Rightarrow> agent_record" where
  "presence_columns a row = row\<lparr>ar_status := ar_status a, ar_version := ar_version a,
     ar_protocol_version := ar_protocol_version a, ar_location := ar_location a, ar_labels := ar_labels a,
     ar_last_connected_at := ar_last_connected_at a, ar_last_seen_at := ar_last_seen_at a,
     ar_disconnected_at := ar_disconnected_at a, ar_certificate_fingerprint := ar_certificate_fingerprint a,
     ar_enrollment_status := ar_enrollment_status a, ar_revoked_at := ar_revoked_at a\<rparr>"

definition update_agent :: "agent_record \<Rightarrow> (fleet_db, unit) io" where
  "update_agent a =
     bindM (update_agents (\<lambda>row. ar_id row = ar_id a \<and> ar_slug row = ar_slug a) (presence_columns a)) (\<lambda>rowcount.
       if rowcount \<noteq> 1 then raiseM ValueError else returnM ())"

text \<open>
  The transaction of \<open>activate\<close>: \<open>Inl ()\<close> when the connection is known already, and otherwise the
  connection that it replaces.
\<close>

definition activate_rows :: "agent_record \<Rightarrow> agent_connection \<Rightarrow>
    (fleet_db, unit + agent_connection option) io" where
  "activate_rows a c =
     bindM (getsM (find_agent (ar_id a) None)) (\<lambda>agent_row.
       case agent_row of
         None \<Rightarrow> raiseM ValueError
       | Some enrolled \<Rightarrow>
           if ar_slug enrolled \<noteq> ar_slug a then raiseM ValueError
           else bindM (getsM (find_connection (cn_id c))) (\<lambda>same.
             case same of
               Some existing \<Rightarrow> if existing \<noteq> c then raiseM ValueError else returnM (Inl ())
             | None \<Rightarrow>
                 bindM (getsM (find_live (ar_id a))) (\<lambda>prior.
                   bindM (case prior of
                            None \<Rightarrow> returnM 0
                          | Some p \<Rightarrow>
                              update_connections (\<lambda>x. cn_id x = cn_id p \<and> live_row x)
                                (\<lambda>x. x\<lparr>cn_disconnected_at := Some (max (cn_connected_at c) (cn_last_heartbeat_at p))\<rparr>))
                     (\<lambda>_. bindM (update_agent a) (\<lambda>_.
                        bindM (insert_connection c) (\<lambda>_. returnM (Inr prior)))))))"

definition sql_activate :: "agent_record \<Rightarrow> active_connection \<Rightarrow> (presence_adapter, active_connection option) io" where
  "sql_activate a active =
     bindM (on_fleet (activate_rows a (ac_connection active))) (\<lambda>outcome.
       case outcome of
         Inl _ \<Rightarrow> returnM None
       | Inr prior \<Rightarrow>
           bindM (modifyM (\<lambda>p. p\<lparr>pa_monotonic := dict_set (ac_id active) (ac_last_activity active) (pa_monotonic p)\<rparr>)) (\<lambda>_.
             case prior of
               None \<Rightarrow> returnM None
             | Some q \<Rightarrow>
                 bindM (getsM (\<lambda>p. with_activity p q)) (\<lambda>replaced.
                   bindM (modifyM (\<lambda>p. p\<lparr>pa_monotonic := dict_pop (cn_id q) (pa_monotonic p)\<rparr>)) (\<lambda>_.
                     returnM (Some replaced)))))"

definition live_match :: "agent_record \<Rightarrow> agent_connection \<Rightarrow> fleet_db \<Rightarrow> agent_connection option" where
  "live_match a c d = first_row (filter (\<lambda>x. cn_id x = cn_id c \<and> cn_agent_id x = ar_id a \<and>
     cn_boot_id x = cn_boot_id c \<and> live_row x) (fd_connections d))"

text \<open>The row as it is compared and written in the conditional \<open>UPDATE\<close>.\<close>

definition unchanged_row :: "agent_connection \<Rightarrow> int \<Rightarrow> agent_connection \<Rightarrow> bool" where
  "unchanged_row c sequence x \<longleftrightarrow> cn_id x = cn_id c \<and> cn_boot_id x = cn_boot_id c \<and> live_row x \<and>
     cn_last_sequence_number x = sequence"

definition heartbeat_columns :: "agent_connection \<Rightarrow> agent_connection \<Rightarrow> agent_connection" where
  "heartbeat_columns c x = x\<lparr>cn_last_heartbeat_at := cn_last_heartbeat_at c,
     cn_last_sequence_number := cn_last_sequence_number c, cn_observed_clock_offset := cn_observed_clock_offset c\<rparr>"

definition update_rows :: "agent_record \<Rightarrow> active_connection \<Rightarrow> int \<Rightarrow> (fleet_db, bool) io" where
  "update_rows a active previous_monotonic =
     bindM (getsM (live_match a (ac_connection active))) (\<lambda>row.
       case row of
         None \<Rightarrow> returnM False
       | Some current \<Rightarrow>
           (let c = ac_connection active
            in if cn_last_sequence_number c < cn_last_sequence_number current \<or>
                  cn_last_heartbeat_at c < cn_last_heartbeat_at current \<or>
                  ac_last_activity active < previous_monotonic
               then returnM False
               else bindM (update_connections (unchanged_row c (cn_last_sequence_number current)) (heartbeat_columns c))
                 (\<lambda>rowcount. if rowcount \<noteq> 1 then returnM False
                   else bindM (update_agent a) (\<lambda>_. returnM True))))"

definition sql_update_if_current :: "agent_record \<Rightarrow> active_connection \<Rightarrow> (presence_adapter, bool) io" where
  "sql_update_if_current a active =
     bindM (getsM (\<lambda>p. activity_of p (ac_id active))) (\<lambda>previous_monotonic.
       bindM (on_fleet (update_rows a active previous_monotonic)) (\<lambda>changed.
         if \<not> changed then returnM False
         else bindM (modifyM (\<lambda>p. p\<lparr>pa_monotonic := dict_set (ac_id active) (ac_last_activity active) (pa_monotonic p)\<rparr>))
                (\<lambda>_. returnM True)))"

definition disconnect_rows :: "agent_record \<Rightarrow> agent_connection \<Rightarrow> time \<Rightarrow> (fleet_db, bool) io" where
  "disconnect_rows a c disconnected_at =
     bindM (getsM (live_match a c)) (\<lambda>row.
       case row of
         None \<Rightarrow> returnM False
       | Some current \<Rightarrow>
           if cn_last_sequence_number current \<noteq> cn_last_sequence_number c then returnM False
           else bindM (update_connections (unchanged_row c (cn_last_sequence_number c))
                   (\<lambda>x. x\<lparr>cn_disconnected_at := Some disconnected_at\<rparr>))
             (\<lambda>rowcount. if rowcount \<noteq> 1 then returnM False
               else bindM (update_agent a) (\<lambda>_. returnM True)))"

definition sql_disconnect_if_current :: "agent_record \<Rightarrow> active_connection \<Rightarrow> (presence_adapter, bool) io" where
  "sql_disconnect_if_current a active =
     (case cn_disconnected_at (ac_connection active) of
        None \<Rightarrow> raiseM ValueError
      | Some disconnected_at \<Rightarrow>
          bindM (on_fleet (disconnect_rows a (ac_connection active) disconnected_at)) (\<lambda>changed.
            if \<not> changed then returnM False
            else bindM (modifyM (\<lambda>p. p\<lparr>pa_monotonic := dict_pop (ac_id active) (pa_monotonic p)\<rparr>))
                   (\<lambda>_. returnM True)))"

definition sqlite_presence :: "presence_adapter presence_repository" where
  "sqlite_presence = \<lparr>pr_get_agent = sql_get_agent, pr_list_agents = sql_list_agents,
     pr_get_connection = sql_get_connection, pr_get_active_connection = sql_get_active_connection,
     pr_list_active_connections = sql_list_active_connections, pr_activate = sql_activate,
     pr_update_if_current = sql_update_if_current, pr_disconnect_if_current = sql_disconnect_if_current\<rparr>"

section \<open>The service\<close>

definition validate_monotonic :: "reading \<Rightarrow> error + int" where
  "validate_monotonic r =
     (case r of NotFinite \<Rightarrow> Inl ValueError | Finite v \<Rightarrow> if v < 0 then Inl ValueError else Inr v)"

definition validate_sequence :: "int \<Rightarrow> int \<Rightarrow> error + unit" where
  "validate_sequence minimum value = (if value < minimum then Inl ProtocolSequenceError else Inr ())"

definition finite_offset :: "reading \<Rightarrow> error + int" where
  "finite_offset r = (case r of NotFinite \<Rightarrow> Inl ValueError | Finite v \<Rightarrow> Inr v)"

definition require_connectable_agent :: "agent_record \<Rightarrow> error + unit" where
  "require_connectable_agent a =
     (if ar_status a = AgRevoked then Inl AgentRevokedError
      else if ar_status a = AgIncompatible then Inl AgentIncompatibleError
      else if ar_enrollment_status a \<noteq> EnrEnrolled \<or> ar_status a = AgPending
      then Inl AgentAuthenticationFailedError else Inr ())"

definition connected_status :: "agent_status \<Rightarrow> agent_status" where
  "connected_status s = (if s \<in> {AgDraining, AgDrained} then s else AgOnline)"

definition or_else :: "'a option \<Rightarrow> 'a \<Rightarrow> 'a" where
  "or_else v x = (case v of None \<Rightarrow> x | Some y \<Rightarrow> y)"

text \<open>\<open>_non_regressing_agent_time\<close>.\<close>

definition non_regressing_agent_time :: "agent_record \<Rightarrow> time \<Rightarrow> time" where
  "non_regressing_agent_time a observed_at =
     foldl max (max (ar_registered_at a) observed_at)
       (List.map_filter id [ar_last_connected_at a, ar_last_seen_at a, ar_disconnected_at a])"

text \<open>\<open>agent.last_seen_at or agent.registered_at\<close>.\<close>

definition last_known_time :: "agent_record \<Rightarrow> time" where
  "last_known_time a = or_else (ar_last_seen_at a) (ar_registered_at a)"

definition offline_transition :: "agent_record \<Rightarrow> active_connection \<Rightarrow> time \<Rightarrow> presence_transition" where
  "offline_transition a current observed_at =
     (let disconnected_at = max (max observed_at (cn_last_heartbeat_at (ac_connection current))) (last_known_time a);
          disconnected_status = (if ar_status a \<in> {AgDraining, AgDrained} then ar_status a else AgOffline)
      in \<lparr>pt_agent = a\<lparr>ar_status := disconnected_status, ar_disconnected_at := Some disconnected_at\<rparr>,
          pt_connection = (ac_connection current)\<lparr>cn_disconnected_at := Some disconnected_at\<rparr>,
          pt_previous_status = ar_status a\<rparr>)"

type_synonym 's offline_inventory = "(uuid \<Rightarrow> time \<Rightarrow> ('s, unit) io) option"

definition cascade_agent_offline :: "'s offline_inventory \<Rightarrow> uuid \<Rightarrow> time option \<Rightarrow> ('s, unit) io" where
  "cascade_agent_offline inventory agent_id observed_at =
     (case inventory of
        None \<Rightarrow> returnM ()
      | Some mark_agent_offline \<Rightarrow>
          (case observed_at of None \<Rightarrow> raiseM RuntimeError | Some t \<Rightarrow> mark_agent_offline agent_id t))"

definition presence_get_agent :: "'s presence_repository \<Rightarrow> uuid \<Rightarrow> uuid option \<Rightarrow> ('s, agent_record) io" where
  "presence_get_agent repo agent_id org =
     bindM (pr_get_agent repo agent_id org) (\<lambda>a.
       case a of None \<Rightarrow> raiseM AgentNotFoundError | Some x \<Rightarrow> returnM x)"

definition presence_list_agents ::
    "'s presence_repository \<Rightarrow> uuid option \<Rightarrow> agent_status option \<Rightarrow> string option \<Rightarrow>
     (string \<times> string) list option \<Rightarrow> string option \<Rightarrow> ('s, agent_record list) io" where
  "presence_list_agents repo org status location labels version =
     bindM (pr_list_agents repo org) (\<lambda>agents.
       (let by_status = (case status of None \<Rightarrow> agents | Some s \<Rightarrow> filter (\<lambda>a. ar_status a = s) agents);
            by_location = (case location of None \<Rightarrow> by_status | Some l \<Rightarrow>
              filter (\<lambda>a. map_option py_casefold (ar_location a) = Some (py_casefold (py_strip l))) by_status);
            by_labels = foldl (\<lambda>as (k, v). filter (\<lambda>a. map_of (ar_labels a) k = Some v) as) by_location (or_else labels []);
            by_version = (case version of None \<Rightarrow> by_labels | Some v \<Rightarrow> filter (\<lambda>a. ar_version a = v) by_labels)
        in returnM (sort_key agent_order by_version)))"

definition require_current_connection ::
    "'s presence_repository \<Rightarrow> uuid \<Rightarrow> uuid \<Rightarrow> uuid \<Rightarrow> ('s, active_connection) io" where
  "require_current_connection repo agent_id connection_id boot_id =
     bindM (pr_get_active_connection repo agent_id) (\<lambda>current.
       case current of
         None \<Rightarrow> raiseM StaleAgentConnectionError
       | Some c \<Rightarrow>
           if ac_id c \<noteq> connection_id \<or> cn_boot_id (ac_connection c) \<noteq> boot_id \<or>
              cn_disconnected_at (ac_connection c) \<noteq> None
           then raiseM StaleAgentConnectionError else returnM c)"

definition active_connection_of :: "'s presence_repository \<Rightarrow> uuid \<Rightarrow> ('s, active_connection option) io" where
  "active_connection_of repo agent_id = pr_get_active_connection repo agent_id"

text \<open>What an authenticated agent says of itself when it connects.\<close>

record connection_request =
  cq_connection_id :: uuid
  cq_boot_id :: uuid
  cq_protocol_version :: string
  cq_observed_at :: time
  cq_observed_monotonic :: reading
  cq_sequence_number :: int
  cq_agent_version :: "string option"
  cq_clock_offset :: reading

definition connected_agent :: "agent_record \<Rightarrow> connection_request \<Rightarrow> time \<Rightarrow> agent_record" where
  "connected_agent canonical q effective_now = canonical\<lparr>ar_status := connected_status (ar_status canonical),
     ar_version := (if truthy (cq_agent_version q) then the (cq_agent_version q) else ar_version canonical),
     ar_protocol_version := cq_protocol_version q, ar_last_connected_at := Some effective_now,
     ar_last_seen_at := Some effective_now, ar_disconnected_at := None\<rparr>"

definition requested_connection :: "uuid \<Rightarrow> connection_request \<Rightarrow> time \<Rightarrow> int \<Rightarrow> agent_connection" where
  "requested_connection agent_id q effective_now offset =
     \<lparr>cn_id = cq_connection_id q, cn_agent_id = agent_id, cn_boot_id = cq_boot_id q,
      cn_protocol_version = cq_protocol_version q, cn_connected_at = effective_now,
      cn_last_heartbeat_at = effective_now, cn_disconnected_at = None,
      cn_last_sequence_number = cq_sequence_number q, cn_observed_clock_offset = offset\<rparr>"

text \<open>The two ends of a registration: a connection that is known, and one that is new.\<close>

definition registered_again ::
    "'s presence_repository \<Rightarrow> agent_record \<Rightarrow> connection_request \<Rightarrow> active_connection \<Rightarrow>
     ('s, connection_registration) io" where
  "registered_again repo canonical q existing =
     bindM (pr_get_active_connection repo (ar_id canonical)) (\<lambda>active.
       (let c = ac_connection existing
        in if cn_agent_id c = ar_id canonical \<and> cn_boot_id c = cq_boot_id q \<and>
              cn_protocol_version c = cq_protocol_version q \<and> cn_last_sequence_number c = cq_sequence_number q \<and>
              cn_disconnected_at c = None \<and> active = Some existing
           then returnM \<lparr>reg_agent = canonical, reg_connection = c, reg_superseded = None\<rparr>
           else raiseM AgentConnectionConflictError))"

definition registered_anew ::
    "'s presence_repository \<Rightarrow> agent_record \<Rightarrow> connection_request \<Rightarrow> int \<Rightarrow> int \<Rightarrow>
     ('s, connection_registration) io" where
  "registered_anew repo canonical q monotonic offset =
     (let effective_now = non_regressing_agent_time canonical (cq_observed_at q);
          a = connected_agent canonical q effective_now
      in bindM (liftE (make_agent_connection (requested_connection (ar_id canonical) q effective_now offset))) (\<lambda>record.
           bindM (pr_activate repo a \<lparr>ac_connection = record, ac_last_activity = monotonic\<rparr>) (\<lambda>superseded.
             returnM \<lparr>reg_agent = a, reg_connection = record, reg_superseded = map_option ac_id superseded\<rparr>)))"

definition register_authenticated_connection ::
    "'s presence_repository \<Rightarrow> agent_record \<Rightarrow> connection_request \<Rightarrow> ('s, connection_registration) io" where
  "register_authenticated_connection repo agent q =
     bindM (liftE (validate_monotonic (cq_observed_monotonic q))) (\<lambda>monotonic.
       bindM (liftE (validate_sequence 1 (cq_sequence_number q))) (\<lambda>_.
         bindM (liftE (finite_offset (cq_clock_offset q))) (\<lambda>offset.
           bindM (pr_get_agent repo (ar_id agent) None) (\<lambda>found.
             case found of
               None \<Rightarrow> raiseM AgentNotFoundError
             | Some canonical \<Rightarrow>
                 bindM (require_same_agent_identity canonical agent) (\<lambda>_.
                   bindM (liftE (require_connectable_agent canonical)) (\<lambda>_.
                     bindM (pr_get_connection repo (cq_connection_id q)) (\<lambda>existing.
                       case existing of
                         Some e \<Rightarrow> registered_again repo canonical q e
                       | None \<Rightarrow> registered_anew repo canonical q monotonic offset)))))))"

record heartbeat =
  hb_connection_id :: uuid
  hb_boot_id :: uuid
  hb_sequence_number :: int
  hb_observed_at :: time
  hb_observed_monotonic :: reading
  hb_clock_offset :: "reading option"

definition seen_agent :: "agent_record \<Rightarrow> time \<Rightarrow> agent_record" where
  "seen_agent a effective_now = a\<lparr>ar_status := connected_status (ar_status a),
     ar_last_seen_at := Some effective_now, ar_disconnected_at := None\<rparr>"

definition beaten_connection :: "agent_connection \<Rightarrow> heartbeat \<Rightarrow> time \<Rightarrow> int option \<Rightarrow> agent_connection" where
  "beaten_connection c h effective_now offset = c\<lparr>cn_last_heartbeat_at := effective_now,
     cn_last_sequence_number := hb_sequence_number h,
     cn_observed_clock_offset := or_else offset (cn_observed_clock_offset c)\<rparr>"

definition optional_offset :: "reading option \<Rightarrow> error + int option" where
  "optional_offset r = (case r of None \<Rightarrow> Inr None | Some v \<Rightarrow> map_sum id Some (finite_offset v))"

definition record_heartbeat ::
    "'s presence_repository \<Rightarrow> uuid \<Rightarrow> heartbeat \<Rightarrow> ('s, connection_registration) io" where
  "record_heartbeat repo agent_id h =
     bindM (liftE (validate_monotonic (hb_observed_monotonic h))) (\<lambda>monotonic.
       bindM (require_current_connection repo agent_id (hb_connection_id h) (hb_boot_id h)) (\<lambda>current.
         bindM (liftE (validate_sequence (cn_last_sequence_number (ac_connection current) + 1) (hb_sequence_number h))) (\<lambda>_.
           if monotonic < ac_last_activity current then raiseM ProtocolSequenceError
           else bindM (liftE (optional_offset (hb_clock_offset h))) (\<lambda>offset.
             bindM (presence_get_agent repo agent_id None) (\<lambda>a.
               (let effective_now = max (max (hb_observed_at h) (cn_last_heartbeat_at (ac_connection current)))
                      (last_known_time a);
                    updated_agent = seen_agent a effective_now;
                    updated_record = beaten_connection (ac_connection current) h effective_now offset
                in bindM (pr_update_if_current repo updated_agent
                       \<lparr>ac_connection = updated_record, ac_last_activity = monotonic\<rparr>) (\<lambda>changed.
                     if \<not> changed then raiseM StaleAgentConnectionError
                     else returnM \<lparr>reg_agent = updated_agent, reg_connection = updated_record,
                       reg_superseded = None\<rparr>)))))))"

definition mark_degraded :: "'s presence_repository \<Rightarrow> uuid \<Rightarrow> uuid \<Rightarrow> uuid \<Rightarrow> ('s, agent_record) io" where
  "mark_degraded repo agent_id connection_id boot_id =
     bindM (require_current_connection repo agent_id connection_id boot_id) (\<lambda>current.
       bindM (presence_get_agent repo agent_id None) (\<lambda>a.
         if ar_status a \<in> {AgRevoked, AgDraining, AgDrained, AgDegraded} then returnM a
         else bindM (pr_update_if_current repo (a\<lparr>ar_status := AgDegraded\<rparr>) current) (\<lambda>changed.
           if \<not> changed then raiseM StaleAgentConnectionError else returnM (a\<lparr>ar_status := AgDegraded\<rparr>))))"

text \<open>Taking a connection offline, which a disconnect and a timeout share.\<close>

definition take_offline ::
    "'s presence_repository \<Rightarrow> 's offline_inventory \<Rightarrow> agent_record \<Rightarrow> active_connection \<Rightarrow> time \<Rightarrow>
     ('s, bool) io" where
  "take_offline repo inventory a current now =
     (let transition = offline_transition a current now
      in bindM (cascade_agent_offline inventory (ar_id a) (ar_disconnected_at (pt_agent transition))) (\<lambda>_.
           pr_disconnect_if_current repo (pt_agent transition)
             \<lparr>ac_connection = pt_connection transition, ac_last_activity = ac_last_activity current\<rparr>))"

definition presence_disconnect ::
    "'s presence_repository \<Rightarrow> 's offline_inventory \<Rightarrow> uuid \<Rightarrow> uuid \<Rightarrow> uuid \<Rightarrow> time \<Rightarrow> ('s, bool) io" where
  "presence_disconnect repo inventory agent_id connection_id boot_id observed_at =
     bindM (pr_get_active_connection repo agent_id) (\<lambda>current.
       case current of
         None \<Rightarrow> returnM False
       | Some c \<Rightarrow>
           if ac_id c \<noteq> connection_id \<or> cn_boot_id (ac_connection c) \<noteq> boot_id then returnM False
           else bindM (presence_get_agent repo agent_id None) (\<lambda>a.
             take_offline repo inventory a c observed_at))"

record presence_limits =
  pl_heartbeat_timeout :: int
  pl_offline_timeout :: int

text \<open>The body of the loop over the active connections.\<close>

definition check_connection ::
    "'s presence_repository \<Rightarrow> 's offline_inventory \<Rightarrow> presence_limits \<Rightarrow> time \<Rightarrow> int \<Rightarrow> active_connection \<Rightarrow>
     presence_transition list \<Rightarrow> ('s, presence_transition list) io" where
  "check_connection repo inventory limits now monotonic current transitions =
     (if monotonic < ac_last_activity current then raiseM ValueError
      else bindM (presence_get_agent repo (cn_agent_id (ac_connection current)) None) (\<lambda>a.
        (let elapsed = monotonic - ac_last_activity current
         in if pl_offline_timeout limits \<le> elapsed
            then bindM (take_offline repo inventory a current now) (\<lambda>changed.
              returnM (if changed then transitions @ [offline_transition a current now] else transitions))
            else if elapsed < pl_heartbeat_timeout limits \<or> ar_status a = AgDegraded
            then returnM transitions
            else bindM (pr_update_if_current repo (a\<lparr>ar_status := AgDegraded\<rparr>) current) (\<lambda>changed.
              returnM (if changed
                then transitions @ [\<lparr>pt_agent = a\<lparr>ar_status := AgDegraded\<rparr>,
                  pt_connection = ac_connection current, pt_previous_status = ar_status a\<rparr>]
                else transitions)))))"

definition check_timeouts ::
    "'s presence_repository \<Rightarrow> 's offline_inventory \<Rightarrow> presence_limits \<Rightarrow> time \<Rightarrow> reading \<Rightarrow>
     ('s, presence_transition list) io" where
  "check_timeouts repo inventory limits now observed_monotonic =
     bindM (liftE (validate_monotonic observed_monotonic)) (\<lambda>monotonic.
       bindM (pr_list_active_connections repo) (\<lambda>cs.
         foldM (check_connection repo inventory limits now monotonic) cs []))"

text \<open>The constructor of the service.\<close>

definition make_presence_limits :: "reading \<Rightarrow> reading \<Rightarrow> error + presence_limits" where
  "make_presence_limits heartbeat_timeout offline_timeout =
     (case heartbeat_timeout of
        Finite h \<Rightarrow>
          if h \<le> 0 then Inl ValueError
          else (case offline_timeout of
                  Finite f \<Rightarrow> if f \<le> h then Inl ValueError
                              else Inr \<lparr>pl_heartbeat_timeout = h, pl_offline_timeout = f\<rparr>
                | NotFinite \<Rightarrow> Inl ValueError)
      | NotFinite \<Rightarrow> Inl ValueError)"

end
