(* ===== verification/PresenceRepository.thy ===== *)
theory PresenceRepository
  imports AgentPresence
begin

text \<open>
  The contract of \<open>AgentPresenceRepository\<close> as a locale: what a store of agents and connections shows
  is a \<open>presence_view\<close>, and each call either leaves the view or performs the operation of the
  specification on it. The service is verified once against the contract; the in-memory and the
  SQLite repository are shown to satisfy it.
\<close>

section \<open>The view and the operations on it\<close>

record presence_view =
  pv_agent :: "uuid \<Rightarrow> agent_record option"
  pv_connection :: "uuid \<Rightarrow> agent_connection option"
  pv_live :: "uuid \<Rightarrow> active_connection option"

text \<open>A live connection is known, open and of its agent; an open connection is the live one of its agent.\<close>

definition view_ok :: "presence_view \<Rightarrow> bool" where
  "view_ok v \<longleftrightarrow>
     (\<forall>i c. pv_live v i = Some c \<longrightarrow> pv_agent v i \<noteq> None \<and> cn_agent_id (ac_connection c) = i \<and>
        cn_disconnected_at (ac_connection c) = None \<and> pv_connection v (ac_id c) = Some (ac_connection c)) \<and>
     (\<forall>k c. pv_connection v k = Some c \<longrightarrow> cn_id c = k \<and>
        (cn_disconnected_at c = None \<longrightarrow> (\<exists>x. pv_live v (cn_agent_id c) = Some x \<and> ac_id x = k))) \<and>
     (\<forall>i a. pv_agent v i = Some a \<longrightarrow> ar_id a = i)"

definition closed_prior :: "active_connection \<Rightarrow> active_connection option \<Rightarrow>
    (uuid \<Rightarrow> agent_connection option) \<Rightarrow> uuid \<Rightarrow> agent_connection option" where
  "closed_prior c prior known =
     (case prior of
        None \<Rightarrow> known
      | Some p \<Rightarrow> known(ac_id p \<mapsto> ac_connection (close_at
          (max (cn_connected_at (ac_connection c)) (cn_last_heartbeat_at (ac_connection p))) p)))"

definition spec_activate :: "agent_record \<Rightarrow> active_connection \<Rightarrow> presence_view \<Rightarrow> presence_view" where
  "spec_activate a c v = \<lparr>pv_agent = (pv_agent v)(ar_id a \<mapsto> a),
     pv_connection = (closed_prior c (pv_live v (ar_id a)) (pv_connection v))(ac_id c \<mapsto> ac_connection c),
     pv_live = (pv_live v)(ar_id a \<mapsto> c)\<rparr>"

definition spec_update :: "agent_record \<Rightarrow> active_connection \<Rightarrow> presence_view \<Rightarrow> presence_view" where
  "spec_update a c v = \<lparr>pv_agent = (pv_agent v)(ar_id a \<mapsto> a),
     pv_connection = (pv_connection v)(ac_id c \<mapsto> ac_connection c), pv_live = (pv_live v)(ar_id a \<mapsto> c)\<rparr>"

definition spec_disconnect :: "agent_record \<Rightarrow> active_connection \<Rightarrow> presence_view \<Rightarrow> presence_view" where
  "spec_disconnect a c v = \<lparr>pv_agent = (pv_agent v)(ar_id a \<mapsto> a),
     pv_connection = (pv_connection v)(ac_id c \<mapsto> ac_connection c), pv_live = (pv_live v)(ar_id a := None)\<rparr>"

text \<open>The columns of an agent that presence never changes.\<close>

definition same_registration :: "agent_record \<Rightarrow> agent_record \<Rightarrow> bool" where
  "same_registration x a \<longleftrightarrow> ar_id a = ar_id x \<and> ar_organisation_id a = ar_organisation_id x \<and>
     ar_slug a = ar_slug x \<and> ar_name a = ar_name x \<and> ar_registered_at a = ar_registered_at x \<and>
     ar_certificate_fingerprint a = ar_certificate_fingerprint x"

definition revises :: "agent_record \<Rightarrow> presence_view \<Rightarrow> bool" where
  "revises a v \<longleftrightarrow> (\<exists>x. pv_agent v (ar_id a) = Some x \<and> same_registration x a)"

text \<open>\<open>c\<close> is the live connection of the agent with a later heartbeat, or closed.\<close>

definition beats :: "agent_record \<Rightarrow> active_connection \<Rightarrow> presence_view \<Rightarrow> bool" where
  "beats a c v \<longleftrightarrow> (\<exists>d. pv_live v (ar_id a) = Some d \<and>
     ac_connection c = heartbeat_columns (ac_connection c) (ac_connection d))"

definition closes :: "agent_record \<Rightarrow> active_connection \<Rightarrow> presence_view \<Rightarrow> bool" where
  "closes a c v \<longleftrightarrow> (\<exists>d t. pv_live v (ar_id a) = Some d \<and> c = close_at t d)"

text \<open>What an update must not set back.\<close>

definition not_older :: "active_connection \<Rightarrow> active_connection \<Rightarrow> bool" where
  "not_older d c \<longleftrightarrow> cn_last_sequence_number (ac_connection d) \<le> cn_last_sequence_number (ac_connection c) \<and>
     cn_last_heartbeat_at (ac_connection d) \<le> cn_last_heartbeat_at (ac_connection c) \<and>
     ac_last_activity d \<le> ac_last_activity c"

section \<open>The contract\<close>

locale presence_store =
  fixes repo :: "'s presence_repository"
    and invar :: "'s \<Rightarrow> bool"
    and view :: "'s \<Rightarrow> presence_view"
  assumes get_agent: "invar s \<Longrightarrow> pr_get_agent repo i None s = (Inr (pv_agent (view s) i), s)"
    and get_connection: "invar s \<Longrightarrow> \<exists>c. pr_get_connection repo i s = (Inr c, s) \<and>
      map_option ac_connection c = pv_connection (view s) i"
    and get_active: "invar s \<Longrightarrow> pr_get_active_connection repo i s = (Inr (pv_live (view s) i), s)"
    and list_active: "invar s \<Longrightarrow> \<exists>cs. pr_list_active_connections repo s = (Inr cs, s) \<and>
      set cs = ran (pv_live (view s)) \<and> distinct (map (\<lambda>c. cn_agent_id (ac_connection c)) cs)"
    and view_ok: "invar s \<Longrightarrow> view_ok (view s)"
    and activate: "invar s \<Longrightarrow> pr_activate repo a c s = (r, s') \<Longrightarrow> revises a (view s) \<Longrightarrow>
      cn_agent_id (ac_connection c) = ar_id a \<Longrightarrow> cn_disconnected_at (ac_connection c) = None \<Longrightarrow>
      pv_connection (view s) (ac_id c) = None \<Longrightarrow>
      invar s' \<and> (if agent_state_valid a \<and> connection_valid (ac_connection c) \<or> r \<in> range Inr
        then r = Inr (pv_live (view s) (ar_id a)) \<and> view s' = spec_activate a c (view s)
        else view s' = view s)"
    and update: "invar s \<Longrightarrow> pr_update_if_current repo a c s = (b, s') \<Longrightarrow> revises a (view s) \<Longrightarrow>
      pv_live (view s) (ar_id a) = Some d \<Longrightarrow>
      ac_connection c = heartbeat_columns (ac_connection c) (ac_connection d) \<Longrightarrow> not_older d c \<Longrightarrow>
      invar s' \<and> (if agent_state_valid a \<and> connection_valid (ac_connection c) \<or> b \<in> range Inr
        then b = Inr True \<and> view s' = spec_update a c (view s)
        else view s' = view s)"
    and disconnect: "invar s \<Longrightarrow> pr_disconnect_if_current repo a c s = (b, s') \<Longrightarrow> revises a (view s) \<Longrightarrow>
      pv_live (view s) (ar_id a) = Some d \<Longrightarrow> c = close_at t d \<Longrightarrow>
      invar s' \<and> (if agent_state_valid a \<and> connection_valid (ac_connection c) \<or> b \<in> range Inr
        then b = Inr True \<and> view s' = spec_disconnect a c (view s)
        else view s' = view s)"
begin

end

section \<open>The in-memory repository satisfies the contract\<close>

definition mem_view :: "presence_memory \<Rightarrow> presence_view" where
  "mem_view m = \<lparr>pv_agent = map_of (pm_agents m),
     pv_connection = (\<lambda>k. map_option ac_connection (map_of (pm_connections m) k)), pv_live = mem_active m\<rparr>"

definition presence_memory_ok :: "presence_memory \<Rightarrow> bool" where
  "presence_memory_ok m \<longleftrightarrow> view_ok (mem_view m) \<and> distinct (map fst (pm_active m)) \<and>
     (\<forall>(i, k) \<in> set (pm_active m). map_of (pm_connections m) k \<noteq> None)"

lemma view_okD:
  assumes "view_ok v"
  shows "pv_live v i = Some c \<Longrightarrow> cn_agent_id (ac_connection c) = i"
    and "pv_live v i = Some c \<Longrightarrow> cn_disconnected_at (ac_connection c) = None"
    and "pv_live v i = Some c \<Longrightarrow> pv_connection v (ac_id c) = Some (ac_connection c)"
    and "pv_live v i = Some c \<Longrightarrow> \<exists>a. pv_agent v i = Some a"
    and "pv_connection v k = Some n \<Longrightarrow> cn_id n = k"
    and "pv_connection v k = Some n \<Longrightarrow> cn_disconnected_at n = None \<Longrightarrow>
      \<exists>x. pv_live v (cn_agent_id n) = Some x \<and> ac_id x = k"
    and "pv_agent v i = Some a \<Longrightarrow> ar_id a = i"
  using assms unfolding view_ok_def by blast+

lemma mem_activeI:
  assumes "presence_memory_ok m"
  shows "map_of (pm_active m) i = Some k \<longleftrightarrow> (\<exists>c. mem_active m i = Some c \<and> ac_id c = k)"
proof -
  have v: "view_ok (mem_view m)" using assms by (simp add: presence_memory_ok_def)
  have "\<exists>c. map_of (pm_connections m) k = Some c" if "map_of (pm_active m) i = Some k" for k
    using that assms by (auto simp: presence_memory_ok_def dest: map_of_SomeD)
  moreover have "ac_id c = k" if "map_of (pm_connections m) k = Some c" for k c
    using view_okD(5)[OF v, of k "ac_connection c"] that by (simp add: mem_view_def)
  ultimately show ?thesis
    by (auto simp: mem_active_def split: option.splits)
qed

lemma live_agent_unique:
  assumes "view_ok v" and "pv_live v i = Some c" and "pv_live v j = Some c'" and "ac_id c = ac_id c'"
  shows "i = j"
  using view_okD(1,3)[OF assms(1)] assms(2-4) by (metis option.inject)

lemma open_connection_live:
  assumes "view_ok v" and "pv_connection v k = Some n" and "cn_disconnected_at n = None"
    and "pv_live v (cn_agent_id n) = Some d"
  shows "k = ac_id d"
  using view_okD(6)[OF assms(1-3)] assms(4) by simp

lemma view_okI:
  assumes "\<And>i c. pv_live v i = Some c \<Longrightarrow> pv_agent v i \<noteq> None \<and> cn_agent_id (ac_connection c) = i \<and>
        cn_disconnected_at (ac_connection c) = None \<and> pv_connection v (ac_id c) = Some (ac_connection c)"
    and "\<And>k n. pv_connection v k = Some n \<Longrightarrow> cn_id n = k"
    and "\<And>k n. pv_connection v k = Some n \<Longrightarrow> cn_disconnected_at n = None \<Longrightarrow>
        \<exists>x. pv_live v (cn_agent_id n) = Some x \<and> ac_id x = k"
    and "\<And>i a. pv_agent v i = Some a \<Longrightarrow> ar_id a = i"
  shows "view_ok v"
  using assms unfolding view_ok_def by blast

lemma heartbeat_columns_same:
  assumes "c = heartbeat_columns c d"
  shows "cn_id c = cn_id d" "cn_agent_id c = cn_agent_id d" "cn_disconnected_at c = cn_disconnected_at d"
    "cn_boot_id c = cn_boot_id d" "cn_connected_at c = cn_connected_at d" "cn_protocol_version c = cn_protocol_version d"
  by (subst assms, simp add: heartbeat_columns_def)+

lemma close_at_simps [simp]:
  "ac_id (close_at t d) = ac_id d" "cn_agent_id (ac_connection (close_at t d)) = cn_agent_id (ac_connection d)"
  "cn_disconnected_at (ac_connection (close_at t d)) = Some t" "ac_last_activity (close_at t d) = ac_last_activity d"
  "cn_boot_id (ac_connection (close_at t d)) = cn_boot_id (ac_connection d)"
  "cn_last_sequence_number (ac_connection (close_at t d)) = cn_last_sequence_number (ac_connection d)"
  "cn_last_heartbeat_at (ac_connection (close_at t d)) = cn_last_heartbeat_at (ac_connection d)"
  by (simp_all add: close_at_def)

text \<open>The operations of the specification keep the coherence of the view.\<close>

lemma open_connectionE:
  assumes v: "view_ok v" and n: "pv_connection v k = Some n" "cn_disconnected_at n = None"
    and j: "\<And>d. pv_live v j = Some d \<Longrightarrow> ac_id d \<noteq> k"
  obtains x where "pv_live v (cn_agent_id n) = Some x" "ac_id x = k" "cn_agent_id n \<noteq> j"
  using view_okD(6)[OF v n] j by blast

lemma spec_update_ok:
  assumes v: "view_ok v" and d: "pv_live v (ar_id a) = Some d"
    and c: "ac_connection c = heartbeat_columns (ac_connection c) (ac_connection d)"
  shows "view_ok (spec_update a c v)"
proof (rule view_okI, goal_cases)
  note same = heartbeat_columns_same[OF c] view_okD(1,2)[OF v d]
  case (1 i x)
  show ?case
  proof (cases "i = ar_id a")
    case True
    then show ?thesis using 1 same by (simp add: spec_update_def)
  next
    case False
    then have x: "pv_live v i = Some x" using 1 by (simp add: spec_update_def)
    have "ac_id x \<noteq> ac_id c" using live_agent_unique[OF v x d] False same(1) by auto
    then show ?thesis using False view_okD(1-4)[OF v x] by (simp add: spec_update_def)
  qed
next
  case (2 k n)
  then show ?case using view_okD(5)[OF v, of k n] by (auto simp: spec_update_def split: if_splits)
next
  note same = heartbeat_columns_same[OF c] view_okD(1,2)[OF v d]
  case (3 k n)
  show ?case
  proof (cases "k = ac_id c")
    case True
    then show ?thesis using 3 same by (auto simp: spec_update_def)
  next
    case False
    then have n: "pv_connection v k = Some n" using 3 by (simp add: spec_update_def)
    obtain x where "pv_live v (cn_agent_id n) = Some x" "ac_id x = k" "cn_agent_id n \<noteq> ar_id a"
      by (rule open_connectionE[OF v n 3(2), of "ar_id a"]) (use d False same(1) in auto)
    then show ?thesis by (simp add: spec_update_def)
  qed
next
  case (4 i x)
  then show ?case using view_okD(7)[OF v, of i x] by (auto simp: spec_update_def split: if_splits)
qed

lemma spec_disconnect_ok:
  assumes v: "view_ok v" and d: "pv_live v (ar_id a) = Some d"
  shows "view_ok (spec_disconnect a (close_at t d) v)"
proof (rule view_okI, goal_cases)
  case (1 i x)
  then have x: "pv_live v i = Some x" "i \<noteq> ar_id a" by (auto simp: spec_disconnect_def split: if_splits)
  have "ac_id x \<noteq> ac_id d" using live_agent_unique[OF v x(1) d] x(2) by auto
  then show ?case using x(2) view_okD(1-4)[OF v x(1)] by (simp add: spec_disconnect_def)
next
  case (2 k n)
  then show ?case using view_okD(5)[OF v, of k n] view_okD(5)[OF v view_okD(3)[OF v d]]
    by (auto simp: spec_disconnect_def close_at_def split: if_splits)
next
  case (3 k n)
  then have n: "pv_connection v k = Some n" "k \<noteq> ac_id d" by (auto simp: spec_disconnect_def split: if_splits)
  obtain x where "pv_live v (cn_agent_id n) = Some x" "ac_id x = k" "cn_agent_id n \<noteq> ar_id a"
    by (rule open_connectionE[OF v n(1) 3(2), of "ar_id a"]) (use d n(2) in auto)
  then show ?case by (simp add: spec_disconnect_def)
next
  case (4 i x)
  then show ?case using view_okD(7)[OF v, of i x] by (auto simp: spec_disconnect_def split: if_splits)
qed

lemma spec_activate_ok:
  assumes v: "view_ok v" and new: "pv_connection v (ac_id c) = None"
    and c: "cn_agent_id (ac_connection c) = ar_id a" "cn_disconnected_at (ac_connection c) = None"
  shows "view_ok (spec_activate a c v)"
proof (rule view_okI, goal_cases)
  case (1 i x)
  show ?case
  proof (cases "i = ar_id a")
    case True
    then show ?thesis using 1 c by (simp add: spec_activate_def)
  next
    case False
    then have x: "pv_live v i = Some x" using 1 by (simp add: spec_activate_def)
    have "ac_id x \<noteq> ac_id c" using view_okD(3)[OF v x] new by auto
    moreover have "ac_id x \<noteq> ac_id p" if "pv_live v (ar_id a) = Some p" for p
      using live_agent_unique[OF v x that] False by auto
    ultimately show ?thesis using False view_okD(1-4)[OF v x]
      by (auto simp: spec_activate_def closed_prior_def split: option.splits)
  qed
next
  case (2 k n)
  then show ?case
    using view_okD(5)[OF v, of k n]
    by (auto simp: spec_activate_def closed_prior_def close_at_def split: if_splits option.splits)
next
  case (3 k n)
  show ?case
  proof (cases "k = ac_id c")
    case True
    then show ?thesis using 3 c by (auto simp: spec_activate_def)
  next
    case False
    then have n: "pv_connection v k = Some n" "\<And>p. pv_live v (ar_id a) = Some p \<Longrightarrow> ac_id p \<noteq> k"
      using 3 by (auto simp: spec_activate_def closed_prior_def split: option.splits if_splits)
    obtain x where "pv_live v (cn_agent_id n) = Some x" "ac_id x = k" "cn_agent_id n \<noteq> ar_id a"
      by (rule open_connectionE[OF v n(1) 3(2) n(2)])
    then show ?thesis by (simp add: spec_activate_def)
  qed
next
  case (4 i x)
  then show ?case using view_okD(7)[OF v, of i x] by (auto simp: spec_activate_def split: if_splits)
qed

lemma mem_view_simps:
  "pv_agent (mem_view m) i = map_of (pm_agents m) i"
  "pv_connection (mem_view m) k = map_option ac_connection (map_of (pm_connections m) k)"
  "pv_live (mem_view m) i = mem_active m i"
  by (simp_all add: mem_view_def)

lemma mem_okD:
  assumes "presence_memory_ok m"
  shows "view_ok (mem_view m)" and "distinct (map fst (pm_active m))"
    and "(i, k) \<in> set (pm_active m) \<Longrightarrow> \<exists>c. map_of (pm_connections m) k = Some c"
  using assms by (auto simp: presence_memory_ok_def)

lemma mem_activeD:
  assumes "presence_memory_ok m" and "mem_active m i = Some c"
  shows "map_of (pm_active m) i = Some (ac_id c)" and "map_of (pm_connections m) (ac_id c) = Some c"
    and "cn_agent_id (ac_connection c) = i"
proof -
  show "map_of (pm_active m) i = Some (ac_id c)"
    using mem_activeI[OF assms(1), of i "ac_id c"] assms(2) by blast
  then show "map_of (pm_connections m) (ac_id c) = Some c" using assms(2) by (simp add: mem_active_def)
  show "cn_agent_id (ac_connection c) = i"
    using view_okD(1)[OF mem_okD(1)[OF assms(1)], of i c] assms(2) by (simp add: mem_view_def)
qed

lemma mem_list_active:
  assumes ok: "presence_memory_ok m"
  shows "\<exists>cs. mem_list_active_connections m = (Inr cs, m) \<and> set cs = ran (mem_active m) \<and>
    distinct (map (\<lambda>c. cn_agent_id (ac_connection c)) cs)"
proof -
  define xs where "xs = sort_key fst (pm_active m)"
  let ?get = "\<lambda>(agent_id, i). case map_of (pm_connections m) i of None \<Rightarrow> Inl KeyError | Some c \<Rightarrow> Inr c"
  have item: "\<exists>c. ?get x = Inr c \<and> mem_active m (fst x) = Some c \<and> cn_agent_id (ac_connection c) = fst x"
    if "x \<in> set xs" for x
  proof -
    have x: "(fst x, snd x) \<in> set (pm_active m)" using that by (simp add: xs_def)
    then obtain c where c: "map_of (pm_connections m) (snd x) = Some c" using mem_okD(3)[OF ok] by blast
    have "map_of (pm_active m) (fst x) = Some (snd x)" using x mem_okD(2)[OF ok] by simp
    then have "mem_active m (fst x) = Some c" using c by (simp add: mem_active_def)
    then show ?thesis using c mem_activeD(3)[OF ok] by (cases x) simp
  qed
  have "\<exists>cs. mapE ?get ys = Inr cs \<and> map (\<lambda>c. cn_agent_id (ac_connection c)) cs = map fst ys \<and>
      map Some cs = map (mem_active m \<circ> fst) ys" if "set ys \<subseteq> set xs" for ys
    using that
  proof (induction ys)
    case (Cons y ys)
    obtain c where c: "?get y = Inr c" "mem_active m (fst y) = Some c" "cn_agent_id (ac_connection c) = fst y"
      using item[of y] Cons.prems by auto
    obtain cs where "mapE ?get ys = Inr cs" "map (\<lambda>c. cn_agent_id (ac_connection c)) cs = map fst ys"
      "map Some cs = map (mem_active m \<circ> fst) ys" using Cons by auto
    then show ?case using c by (intro exI[of _ "c # cs"]) simp
  qed simp
  then obtain cs where cs: "mapE ?get xs = Inr cs" "map (\<lambda>c. cn_agent_id (ac_connection c)) cs = map fst xs"
    "map Some cs = map (mem_active m \<circ> fst) xs" by blast
  have keys: "set xs = set (pm_active m)" "distinct (map fst xs)"
    using mem_okD(2)[OF ok] by (simp_all add: xs_def distinct_map)
  have "c \<in> set cs \<longleftrightarrow> c \<in> ran (mem_active m)" for c
  proof -
    have "c \<in> set cs \<longleftrightarrow> Some c \<in> set (map Some cs)" by auto
    also have "\<dots> \<longleftrightarrow> (\<exists>i \<in> fst ` set (pm_active m). mem_active m i = Some c)" unfolding cs(3) by (force simp: keys(1))
    also have "\<dots> \<longleftrightarrow> (\<exists>i. mem_active m i = Some c)"
      using mem_activeD(1)[OF ok] by (metis map_of_eq_None_iff option.distinct(1))
    finally show ?thesis by (simp add: ran_def)
  qed
  then show ?thesis
    using cs(1,2) keys(2) by (auto simp: mem_list_active_connections_def xs_def)
qed

lemma mem_activate_spec:
  assumes ok: "presence_memory_ok m" and run: "mem_activate a c m = (r, m')" and a: "revises a (mem_view m)"
    and c: "cn_agent_id (ac_connection c) = ar_id a" "cn_disconnected_at (ac_connection c) = None"
    and new: "pv_connection (mem_view m) (ac_id c) = None"
  shows "presence_memory_ok m' \<and> r = Inr (mem_active m (ar_id a)) \<and> mem_view m' = spec_activate a c (mem_view m)"
proof -
  let ?known = "\<lambda>prior. case prior of None \<Rightarrow> pm_connections m | Some p \<Rightarrow>
    dict_set (ac_id p) (close_at (max (cn_connected_at (ac_connection c)) (cn_last_heartbeat_at (ac_connection p))) p) (pm_connections m)"
  let ?m = "m\<lparr>pm_agents := dict_set (ar_id a) a (pm_agents m),
    pm_connections := dict_set (ac_id c) c (?known (mem_active m (ar_id a))),
    pm_active := dict_set (ar_id a) (ac_id c) (pm_active m)\<rparr>"
  obtain x where x: "map_of (pm_agents m) (ar_id a) = Some x" "same_identity x a"
    using a by (auto simp: revises_def mem_view_simps same_registration_def same_identity_def)
  have eq: "mem_activate a c m = (Inr (mem_active m (ar_id a)), ?m)"
    using x c new
    by (cases "mem_active m (ar_id a)")
      (simp_all add: mem_activate_def runM require_same_agent_identity_def require_connection_owner_def
        mem_get_active_connection_def mem_supersede_def mem_view_simps)
  have known: "map_of (?known (mem_active m (ar_id a))) k =
      (case mem_active m (ar_id a) of None \<Rightarrow> map_of (pm_connections m) k
       | Some p \<Rightarrow> if k = ac_id p then Some (close_at (max (cn_connected_at (ac_connection c))
           (cn_last_heartbeat_at (ac_connection p))) p) else map_of (pm_connections m) k)" for k
    by (simp add: dict_set_map_of split: option.splits)
  have live: "mem_active ?m i = (if i = ar_id a then Some c else mem_active m i)" for i
  proof (cases "i = ar_id a")
    case False
    show ?thesis
    proof (cases "map_of (pm_active m) i")
      case (Some k)
      then obtain x where x: "mem_active m i = Some x" "ac_id x = k" using mem_activeI[OF ok, of i k] by blast
      have "k \<noteq> ac_id c" using mem_activeD(2)[OF ok x(1)] new x(2) by (auto simp: mem_view_simps)
      moreover have "k \<noteq> ac_id p" if "mem_active m (ar_id a) = Some p" for p
        using live_agent_unique[OF mem_okD(1)[OF ok], of i x "ar_id a" p] x that False by (auto simp: mem_view_simps)
      ultimately show ?thesis
        using Some False known[of k] by (auto simp: mem_active_def dict_set_map_of split: option.splits)
    qed (use False in \<open>simp add: mem_active_def dict_set_map_of\<close>)
  qed (simp add: mem_active_def dict_set_map_of)
  have view: "mem_view ?m = spec_activate a c (mem_view m)"
    using live known
    by (auto simp: mem_view_def spec_activate_def closed_prior_def dict_set_map_of fun_eq_iff split: option.splits)
  have "presence_memory_ok ?m"
    unfolding presence_memory_ok_def view
  proof (intro conjI)
    show "view_ok (spec_activate a c (mem_view m))"
      by (rule spec_activate_ok[OF mem_okD(1)[OF ok] new c])
    show "distinct (map fst (pm_active ?m))" using mem_okD(2)[OF ok] by (simp add: distinct_dict_set)
    have "map_of (pm_connections ?m) k \<noteq> None" if "(i, k) \<in> set (pm_active ?m)" for i k
    proof -
      have "(i, k) \<in> insert (ar_id a, ac_id c) (set (pm_active m))"
        using that set_dict_set[of "ar_id a" "ac_id c" "pm_active m"] by auto
      then show ?thesis using mem_okD(3)[OF ok] known[of k] by (auto simp: dict_set_map_of split: option.splits)
    qed
    then show "\<forall>(i, k) \<in> set (pm_active ?m). map_of (pm_connections ?m) k \<noteq> None" by blast
  qed
  then show ?thesis using run eq view by simp
qed

lemma mem_store_run:
  assumes "revises a (mem_view m)" and "cn_agent_id (ac_connection c) = ar_id a"
  shows "mem_store f a c m = (Inr True, f (m\<lparr>pm_agents := dict_set (ar_id a) a (pm_agents m),
    pm_connections := dict_set (ac_id c) c (pm_connections m)\<rparr>))"
  using assms
  by (auto simp: mem_store_def runM revises_def mem_view_simps same_registration_def same_identity_def
      require_same_agent_identity_def require_connection_owner_def)

lemma mem_current_live:
  assumes ok: "presence_memory_ok m" and d: "mem_active m i = Some d"
    and c: "cn_agent_id (ac_connection c) = i" "ac_id c = ac_id d"
      "cn_boot_id (ac_connection c) = cn_boot_id (ac_connection d)"
  shows "mem_current m c = Some d"
  using mem_activeD[OF ok d] c by (simp add: mem_current_def)

text \<open>Writing a connection of the agent does not change what is live for another agent.\<close>

lemma mem_active_write:
  assumes ok: "presence_memory_ok m" and d: "mem_active m i = Some d" and c: "ac_id c = ac_id d" and j: "j \<noteq> i"
  shows "mem_active (m\<lparr>pm_agents := as, pm_connections := dict_set (ac_id c) c (pm_connections m)\<rparr>) j = mem_active m j"
proof (cases "mem_active m j")
  case (Some x)
  have "ac_id x \<noteq> ac_id d"
    using live_agent_unique[OF mem_okD(1)[OF ok], of j x i d] Some d j by (auto simp: mem_view_simps)
  then show ?thesis using mem_activeD(1)[OF ok Some] c by (simp add: mem_active_def dict_set_map_of)
next
  case None
  have "map_of (pm_active m) j = None"
    using mem_activeI[OF ok, of j] None by (cases "map_of (pm_active m) j") auto
  then show ?thesis by (simp add: mem_active_def)
qed

lemma mem_update_spec:
  assumes ok: "presence_memory_ok m" and run: "mem_update_if_current a c m = (r, m')" and a: "revises a (mem_view m)"
    and d: "pv_live (mem_view m) (ar_id a) = Some d"
    and c: "ac_connection c = heartbeat_columns (ac_connection c) (ac_connection d)" and newer: "not_older d c"
  shows "presence_memory_ok m' \<and> r = Inr True \<and> mem_view m' = spec_update a c (mem_view m)"
proof -
  let ?m = "m\<lparr>pm_agents := dict_set (ar_id a) a (pm_agents m), pm_connections := dict_set (ac_id c) c (pm_connections m)\<rparr>"
  have d': "mem_active m (ar_id a) = Some d" using d by (simp add: mem_view_simps)
  note same = heartbeat_columns_same[OF c] mem_activeD[OF ok d']
  have eq: "mem_update_if_current a c m = (Inr True, ?m)"
    using mem_current_live[OF ok d', of c] same newer mem_store_run[OF a, of c id]
    by (simp add: mem_update_if_current_def runM not_older_def)
  have "mem_active ?m i = (if i = ar_id a then Some c else mem_active m i)" for i
  proof (cases "i = ar_id a")
    case True
    then show ?thesis using same by (simp add: mem_active_def dict_set_map_of)
  qed (use mem_active_write[OF ok d', of c i "dict_set (ar_id a) a (pm_agents m)"] same(1) in auto)
  then have view: "mem_view ?m = spec_update a c (mem_view m)"
    by (auto simp: mem_view_def spec_update_def dict_set_map_of fun_eq_iff)
  have "presence_memory_ok ?m"
    using spec_update_ok[OF mem_okD(1)[OF ok] d c] mem_okD(2,3)[OF ok]
    unfolding presence_memory_ok_def view by (auto simp: dict_set_map_of)
  then show ?thesis using run eq view by simp
qed

lemma mem_disconnect_spec:
  assumes ok: "presence_memory_ok m" and run: "mem_disconnect_if_current a (close_at t d) m = (r, m')"
    and a: "revises a (mem_view m)" and d: "pv_live (mem_view m) (ar_id a) = Some d"
  shows "presence_memory_ok m' \<and> r = Inr True \<and> mem_view m' = spec_disconnect a (close_at t d) (mem_view m)"
proof -
  let ?c = "close_at t d"
  let ?n = "m\<lparr>pm_agents := dict_set (ar_id a) a (pm_agents m), pm_connections := dict_set (ac_id ?c) ?c (pm_connections m)\<rparr>"
  let ?m = "?n\<lparr>pm_active := dict_pop (ar_id a) (pm_active m)\<rparr>"
  have d': "mem_active m (ar_id a) = Some d" using d by (simp add: mem_view_simps)
  note same = mem_activeD[OF ok d']
  have eq: "mem_disconnect_if_current a ?c m = (Inr True, ?m)"
    using mem_current_live[OF ok d', of ?c] same mem_store_run[OF a, of ?c]
    by (simp add: mem_disconnect_if_current_def runM)
  have "mem_active ?m i = (if i = ar_id a then None else mem_active m i)" for i
  proof (cases "i = ar_id a")
    case False
    have "mem_active ?m i = mem_active ?n i" using False by (cases "map_of (pm_active m) i") (simp_all add: mem_active_def)
    then show ?thesis using False mem_active_write[OF ok d', of ?c i "dict_set (ar_id a) a (pm_agents m)"] by simp
  qed (simp add: mem_active_def)
  then have view: "mem_view ?m = spec_disconnect a ?c (mem_view m)"
    by (auto simp: mem_view_def spec_disconnect_def dict_set_map_of fun_eq_iff)
  have "presence_memory_ok ?m"
    using spec_disconnect_ok[OF mem_okD(1)[OF ok] d] mem_okD(2,3)[OF ok]
    unfolding presence_memory_ok_def view
    by (auto simp: dict_set_map_of dict_pop_def distinct_map_filter)
  then show ?thesis using run eq view by simp
qed

interpretation memory: presence_store memory_presence presence_memory_ok mem_view
proof
  fix s :: presence_memory and i :: uuid
  assume ok: "presence_memory_ok s"
  show "pr_get_agent memory_presence i None s = (Inr (pv_agent (mem_view s) i), s)"
    "\<exists>c. pr_get_connection memory_presence i s = (Inr c, s) \<and> map_option ac_connection c = pv_connection (mem_view s) i"
    "pr_get_active_connection memory_presence i s = (Inr (pv_live (mem_view s) i), s)"
    by (simp_all add: memory_presence_def mem_get_agent_def mem_get_connection_def mem_get_active_connection_def
        runM mem_view_simps)
  show "\<exists>cs. pr_list_active_connections memory_presence s = (Inr cs, s) \<and> set cs = ran (pv_live (mem_view s)) \<and>
      distinct (map (\<lambda>c. cn_agent_id (ac_connection c)) cs)"
    using mem_list_active[OF ok] by (simp add: memory_presence_def mem_view_def)
  show "view_ok (mem_view s)" by (rule mem_okD(1)[OF ok])
next
  fix s a c r s'
  assume "presence_memory_ok s" and run: "pr_activate memory_presence a c s = (r, s')" and "revises a (mem_view s)"
    and "cn_agent_id (ac_connection c) = ar_id a" "cn_disconnected_at (ac_connection c) = None"
    and "pv_connection (mem_view s) (ac_id c) = None"
  note spec = mem_activate_spec[OF this(1) run[unfolded memory_presence_def, simplified] this(3-6)]
  then show "presence_memory_ok s' \<and> (if agent_state_valid a \<and> connection_valid (ac_connection c) \<or> r \<in> range Inr
      then r = Inr (pv_live (mem_view s) (ar_id a)) \<and> mem_view s' = spec_activate a c (mem_view s)
      else mem_view s' = mem_view s)"
    by (simp add: mem_view_simps)
next
  fix s a c b s' d
  assume "presence_memory_ok s" and run: "pr_update_if_current memory_presence a c s = (b, s')" and "revises a (mem_view s)"
    and "pv_live (mem_view s) (ar_id a) = Some d"
    and "ac_connection c = heartbeat_columns (ac_connection c) (ac_connection d)" "not_older d c"
  note spec = mem_update_spec[OF this(1) run[unfolded memory_presence_def, simplified] this(3-6)]
  then show "presence_memory_ok s' \<and> (if agent_state_valid a \<and> connection_valid (ac_connection c) \<or> b \<in> range Inr
      then b = Inr True \<and> mem_view s' = spec_update a c (mem_view s) else mem_view s' = mem_view s)"
    by simp
next
  fix s a c b s' d t
  assume "presence_memory_ok s" and run: "pr_disconnect_if_current memory_presence a c s = (b, s')"
    and "revises a (mem_view s)" and "pv_live (mem_view s) (ar_id a) = Some d" and c: "c = close_at t d"
  note spec = mem_disconnect_spec[OF this(1) run[unfolded memory_presence_def c, simplified] this(3,4)]
  then show "presence_memory_ok s' \<and> (if agent_state_valid a \<and> connection_valid (ac_connection c) \<or> b \<in> range Inr
      then b = Inr True \<and> mem_view s' = spec_disconnect a c (mem_view s) else mem_view s' = mem_view s)"
    by (simp add: c)
qed

end
