(* ===== verification/PresenceDatabase.thy ===== *)
theory PresenceDatabase
  imports PresenceRepository
begin

text \<open>
  The SQLite repository of agents and connections satisfies the contract of \<open>PresenceRepository\<close>:
  the unique indexes make each statement touch one row, the checks of the tables refuse exactly the
  records that the models refuse, and a refused statement undoes the transaction.
\<close>

section \<open>One row\<close>

definition sole :: "('a \<Rightarrow> bool) \<Rightarrow> 'a \<Rightarrow> 'a list \<Rightarrow> bool" where
  "sole P r rows \<longleftrightarrow> distinct rows \<and> r \<in> set rows \<and> (\<forall>x \<in> set rows. P x \<longleftrightarrow> x = r)"

lemma sole_filter: "sole P r rows \<Longrightarrow> filter P rows = [r]"
proof -
  assume s: "sole P r rows"
  have "filter P rows = filter (\<lambda>x. x = r) rows" by (rule filter_cong) (use s in \<open>auto simp: sole_def\<close>)
  also have "\<dots> = [r]" using s by (induction rows) (auto simp: sole_def filter_empty_conv)
  finally show ?thesis .
qed

lemma sole_changed: "sole P r rows \<Longrightarrow> rows_changed P rows = 1"
  by (simp add: rows_changed_def sole_filter)

lemma sole_first: "sole P r rows \<Longrightarrow> first_row (filter P rows) = Some r"
  by (simp add: sole_filter)

lemma sole_updated: "sole P r rows \<Longrightarrow> set (update_where P f rows) = insert (f r) (set rows - {r})"
  by (auto simp: sole_def update_where_def)

lemma sole_by_key:
  assumes "distinct (map k rows)" and "r \<in> set rows" and "P r" and "\<And>x. x \<in> set rows \<Longrightarrow> P x \<Longrightarrow> k x = k r"
  shows "sole P r rows"
  unfolding sole_def using assms by (metis distinct_map distinct_map_eq)

lemma first_row_by_key:
  assumes "distinct (map k rows)"
  shows "first_row (filter (\<lambda>x. k x = v) rows) = Some r \<longleftrightarrow> r \<in> set rows \<and> k r = v"
proof
  assume "first_row (filter (\<lambda>x. k x = v) rows) = Some r"
  then show "r \<in> set rows \<and> k r = v" by (auto dest!: first_row_Some)
next
  assume r: "r \<in> set rows \<and> k r = v"
  have "sole (\<lambda>x. k x = v) r rows" by (rule sole_by_key[OF assms]) (use r in auto)
  then show "first_row (filter (\<lambda>x. k x = v) rows) = Some r" by (rule sole_first)
qed

section \<open>Reading\<close>

lemma fleet_okD:
  assumes "fleet_ok d"
  shows "agents_ok (fd_agents d)" and "connections_ok (agent_ids d) (fd_connections d)"
    and "credentials_ok (agent_ids d) (fd_credentials d)" and "tokens_ok (agent_ids d) (fd_tokens d)"
    and "db_ok (fd_base d)"
  using assms by (simp_all add: fleet_ok_def)

lemma find_agent_iff:
  "agents_ok (fd_agents d) \<Longrightarrow> find_agent i None d = Some a \<longleftrightarrow> a \<in> set (fd_agents d) \<and> ar_id a = i"
  using first_row_by_key[of ar_id "fd_agents d" i a] by (simp add: find_agent_def agent_in_scope_def agents_ok_def)

lemma find_connection_iff:
  "connections_ok A (fd_connections d) \<Longrightarrow>
   find_connection k d = Some n \<longleftrightarrow> n \<in> set (fd_connections d) \<and> cn_id n = k"
  using first_row_by_key[of cn_id "fd_connections d" k n] by (simp add: find_connection_def connections_ok_def)

lemma find_live_iff:
  assumes "connections_ok A (fd_connections d)"
  shows "find_live i d = Some n \<longleftrightarrow> n \<in> set (fd_connections d) \<and> cn_agent_id n = i \<and> live_row n"
proof -
  have "filter (\<lambda>c. cn_agent_id c = i \<and> live_row c) (fd_connections d) =
      filter (\<lambda>c. cn_agent_id c = i) (filter live_row (fd_connections d))"
    by (simp add: conj_commute)
  then show ?thesis
    using first_row_by_key[of cn_agent_id "filter live_row (fd_connections d)" i n] assms
    by (auto simp: find_live_def connections_ok_def)
qed

definition sql_view :: "presence_adapter \<Rightarrow> presence_view" where
  "sql_view p = \<lparr>pv_agent = (\<lambda>i. find_agent i None (pa_db p)), pv_connection = (\<lambda>k. find_connection k (pa_db p)),
     pv_live = (\<lambda>i. map_option (with_activity p) (find_live i (pa_db p)))\<rparr>"

definition presence_adapter_ok :: "presence_adapter \<Rightarrow> bool" where
  "presence_adapter_ok p \<longleftrightarrow> fleet_ok (pa_db p)"

lemma sql_view_iff:
  assumes "presence_adapter_ok p"
  shows "pv_agent (sql_view p) i = Some a \<longleftrightarrow> a \<in> set (fd_agents (pa_db p)) \<and> ar_id a = i"
    and "pv_connection (sql_view p) k = Some n \<longleftrightarrow> n \<in> set (fd_connections (pa_db p)) \<and> cn_id n = k"
    and "pv_live (sql_view p) i = Some c \<longleftrightarrow> ac_connection c \<in> set (fd_connections (pa_db p)) \<and>
      cn_agent_id (ac_connection c) = i \<and> live_row (ac_connection c) \<and> ac_last_activity c = activity_of p (ac_id c)"
proof -
  note ok = fleet_okD[OF assms[unfolded presence_adapter_ok_def]]
  show "pv_agent (sql_view p) i = Some a \<longleftrightarrow> a \<in> set (fd_agents (pa_db p)) \<and> ar_id a = i"
    by (simp add: sql_view_def find_agent_iff[OF ok(1)])
  show "pv_connection (sql_view p) k = Some n \<longleftrightarrow> n \<in> set (fd_connections (pa_db p)) \<and> cn_id n = k"
    by (simp add: sql_view_def find_connection_iff[OF ok(2)])
  show "pv_live (sql_view p) i = Some c \<longleftrightarrow> ac_connection c \<in> set (fd_connections (pa_db p)) \<and>
      cn_agent_id (ac_connection c) = i \<and> live_row (ac_connection c) \<and> ac_last_activity c = activity_of p (ac_id c)"
    using find_live_iff[OF ok(2), of i] by (cases c) (auto simp: sql_view_def with_activity_def)
qed

lemma sql_view_ok:
  assumes ok: "presence_adapter_ok p"
  shows "view_ok (sql_view p)"
proof (rule view_okI, goal_cases)
  note fleet = fleet_okD[OF ok[unfolded presence_adapter_ok_def]]
  case (1 i c)
  then have c: "ac_connection c \<in> set (fd_connections (pa_db p))" "cn_agent_id (ac_connection c) = i"
    "cn_disconnected_at (ac_connection c) = None" by (simp_all add: sql_view_iff[OF ok] live_row_def)
  then have "i \<in> agent_ids (pa_db p)" using fleet(2) by (auto simp: connections_ok_def list_all_iff)
  then obtain a where "a \<in> set (fd_agents (pa_db p))" "ar_id a = i" by (auto simp: agent_ids_def)
  then have "pv_agent (sql_view p) i = Some a" by (simp add: sql_view_iff[OF ok])
  then show ?case using c by (simp add: sql_view_iff(2)[OF ok])
next
  case (3 k n)
  then have "pv_live (sql_view p) (cn_agent_id n) = Some (with_activity p n)"
    by (simp add: sql_view_iff[OF ok] live_row_def with_activity_def)
  then show ?case using 3 by (simp add: sql_view_iff(2)[OF ok] with_activity_def)
qed (simp_all add: sql_view_iff[OF ok])

lemma on_fleet_reads: "on_fleet (getsM f) p = (Inr (f (pa_db p)), p)"
  by (simp add: on_fleet_def runM)

lemma sql_list_active:
  assumes ok: "presence_adapter_ok p"
  shows "\<exists>cs. sql_list_active_connections p = (Inr cs, p) \<and> set cs = ran (pv_live (sql_view p)) \<and>
    distinct (map (\<lambda>c. cn_agent_id (ac_connection c)) cs)"
proof -
  define rows where "rows = order_by live_order (filter live_row (fd_connections (pa_db p)))"
  have run: "sql_list_active_connections p = (Inr (map (with_activity p) rows), p)"
    by (simp add: sql_list_active_connections_def run_bind run_gets on_fleet_reads rows_def)
  have "c \<in> with_activity p ` set rows \<longleftrightarrow> (\<exists>i. pv_live (sql_view p) i = Some c)" for c
    by (cases c) (auto simp: rows_def sql_view_iff[OF ok] with_activity_def)
  then have "set (map (with_activity p) rows) = ran (pv_live (sql_view p))" by (auto simp: ran_def)
  moreover have "distinct (map cn_agent_id (filter live_row (fd_connections (pa_db p))))"
    using ok by (simp add: presence_adapter_ok_def fleet_ok_def connections_ok_def)
  then have "distinct (map cn_agent_id rows)" by (simp add: rows_def distinct_map)
  then have "distinct (map (\<lambda>c. cn_agent_id (ac_connection c)) (map (with_activity p) rows))"
    by (simp add: with_activity_def comp_def)
  ultimately show ?thesis using run by blast
qed

section \<open>Writing one row\<close>

lemma distinct_subfilter:
  "distinct (map k (filter Q rows)) \<Longrightarrow> (\<And>x. x \<in> set rows \<Longrightarrow> k (f x) = k x) \<Longrightarrow>
   (\<And>x. x \<in> set rows \<Longrightarrow> Q (f x) \<Longrightarrow> Q x) \<Longrightarrow> distinct (map k (filter Q (map f rows)))"
  by (induction rows) (auto simp: image_iff split: if_splits, metis)

text \<open>A statement that edits one connection is refused exactly when the new row breaks its checks.\<close>

lemma connections_ok_edit:
  assumes ok: "connections_ok A rows" and n: "sole P n rows"
    and f: "\<And>x. cn_id (f x) = cn_id x" "\<And>x. cn_agent_id (f x) = cn_agent_id x" "\<And>x. live_row (f x) \<Longrightarrow> live_row x"
  shows "connections_ok A (update_where P f rows) \<longleftrightarrow> connection_valid (f n)"
proof
  have "f n \<in> set (update_where P f rows)" by (simp add: sole_updated[OF n])
  then show "connection_valid (f n)" if "connections_ok A (update_where P f rows)"
    using that by (simp add: connections_ok_def list_all_iff)
next
  assume valid: "connection_valid (f n)"
  have ids: "map cn_id (update_where P f rows) = map cn_id rows" by (rule update_where_map) (rule f)
  have live: "distinct (map cn_agent_id (filter live_row (update_where P f rows)))"
    unfolding update_where_def
    by (rule distinct_subfilter) (use ok f in \<open>auto simp: connections_ok_def split: if_splits\<close>)
  have n_in: "n \<in> set rows" using n by (simp add: sole_def)
  show "connections_ok A (update_where P f rows)"
    using ok ids live valid f(2) n_in
    by (auto simp: connections_ok_def list_all_iff sole_updated[OF n])
qed

lemma map_filter_update:
  "(\<And>x. x \<in> set rows \<Longrightarrow> P x \<Longrightarrow> g (f x) = g x) \<Longrightarrow> List.map_filter g (update_where P f rows) = List.map_filter g rows"
  by (induction rows) (auto simp: update_where_def List.map_filter_simps split: option.splits)

lemma presence_columns_same: "same_registration x a \<Longrightarrow> presence_columns a x = a"
  by (cases a, cases x) (simp add: same_registration_def presence_columns_def)

lemma agents_ok_edit:
  assumes ok: "agents_ok rows" and x: "sole P x rows" and a: "same_registration x a"
  shows "agents_ok (update_where P (presence_columns a) rows) \<longleftrightarrow> agent_state_valid a"
proof
  have "a \<in> set (update_where P (presence_columns a) rows)"
    by (simp add: sole_updated[OF x] presence_columns_same[OF a])
  then show "agent_state_valid a" if "agents_ok (update_where P (presence_columns a) rows)"
    using that by (simp add: agents_ok_def list_all_iff)
next
  assume "agent_state_valid a"
  moreover have "map ar_id (update_where P (presence_columns a) rows) = map ar_id rows"
    "map ar_slug (update_where P (presence_columns a) rows) = map ar_slug rows"
    by (rule update_where_map, simp add: presence_columns_def)+
  moreover have "List.map_filter ar_certificate_fingerprint (update_where P (presence_columns a) rows) =
      List.map_filter ar_certificate_fingerprint rows"
    by (rule map_filter_update) (use x a in \<open>auto simp: sole_def same_registration_def presence_columns_def\<close>)
  ultimately show "agents_ok (update_where P (presence_columns a) rows)"
    using ok by (auto simp: agents_ok_def unique_given_def list_all_iff sole_updated[OF x] presence_columns_same[OF a])
qed

lemma run_write_table:
  "write_table allowed put rows x d = (if allowed rows d then (Inr x, put rows d) else (Inl IntegrityError, d))"
  by (simp add: write_table_def runM)

definition agent_rows :: "agent_record \<Rightarrow> fleet_db \<Rightarrow> agent_record list" where
  "agent_rows a d = update_where (\<lambda>row. ar_id row = ar_id a \<and> ar_slug row = ar_slug a) (presence_columns a) (fd_agents d)"

lemma sole_agent:
  assumes "agents_ok (fd_agents d)" and "x \<in> set (fd_agents d)" and "same_registration x a"
  shows "sole (\<lambda>row. ar_id row = ar_id a \<and> ar_slug row = ar_slug a) x (fd_agents d)"
  by (rule sole_by_key[of ar_id]) (use assms in \<open>auto simp: agents_ok_def same_registration_def\<close>)

lemma update_agent_run:
  assumes ok: "agents_ok (fd_agents d)" and x: "x \<in> set (fd_agents d)" "same_registration x a"
  shows "update_agent a d = (if agent_state_valid a then (Inr (), d\<lparr>fd_agents := agent_rows a d\<rparr>) else (Inl IntegrityError, d))"
    and "set (agent_rows a d) = insert a (set (fd_agents d) - {x})"
proof -
  note s = sole_agent[OF ok x]
  show "update_agent a d = (if agent_state_valid a then (Inr (), d\<lparr>fd_agents := agent_rows a d\<rparr>) else (Inl IntegrityError, d))"
    using sole_changed[OF s] agents_ok_edit[OF ok s x(2)]
    by (simp add: update_agent_def update_agents_def run_bind run_gets run_write_table run_return agent_rows_def)
  show "set (agent_rows a d) = insert a (set (fd_agents d) - {x})"
    by (simp add: agent_rows_def sole_updated[OF s] presence_columns_same[OF x(2)])
qed

text \<open>Editing the connection \<open>n\<close> and then the agent, as an update and a disconnect do.\<close>

lemma edit_run:
  assumes ok: "fleet_ok d" and n: "sole P n (fd_connections d)"
    and f: "\<And>x. cn_id (f x) = cn_id x" "\<And>x. cn_agent_id (f x) = cn_agent_id x" "\<And>x. live_row (f x) \<Longrightarrow> live_row x"
    and x: "x \<in> set (fd_agents d)" "same_registration x a"
  shows "transactionM (bindM (update_connections P f) (\<lambda>rowcount. if rowcount \<noteq> 1 then returnM False
      else bindM (update_agent a) (\<lambda>_. returnM True))) d =
    (if connection_valid (f n) \<and> agent_state_valid a
     then (Inr True, d\<lparr>fd_connections := update_where P f (fd_connections d), fd_agents := agent_rows a d\<rparr>)
     else (Inl IntegrityError, d))"
proof -
  note fleet = fleet_okD[OF ok]
  let ?d = "d\<lparr>fd_connections := update_where P f (fd_connections d)\<rparr>"
  have c: "update_connections P f d =
      (if connection_valid (f n) then (Inr 1, ?d) else (Inl IntegrityError, d))"
    using connections_ok_edit[OF fleet(2) n f] sole_changed[OF n]
    by (simp add: update_connections_def run_bind run_gets run_write_table)
  have "update_agent a ?d = (if agent_state_valid a then (Inr (), ?d\<lparr>fd_agents := agent_rows a d\<rparr>) else (Inl IntegrityError, ?d))"
    using update_agent_run(1)[of ?d x a] fleet(1) x by (simp add: agent_rows_def)
  with c show ?thesis by (simp add: run_transaction run_bind run_return)
qed

lemma option_eqI: "(\<And>x. u = Some x \<longleftrightarrow> v = Some x) \<Longrightarrow> u = v"
  by (metis option.exhaust)

lemma view_eqI:
  assumes "\<And>i a. pv_agent v i = Some a \<longleftrightarrow> pv_agent w i = Some a"
    and "\<And>k n. pv_connection v k = Some n \<longleftrightarrow> pv_connection w k = Some n"
    and "\<And>i c. pv_live v i = Some c \<longleftrightarrow> pv_live w i = Some c"
  shows "v = (w :: presence_view)"
proof -
  have "pv_agent v = pv_agent w" "pv_connection v = pv_connection w" "pv_live v = pv_live w"
    by (intro ext option_eqI assms)+
  then show ?thesis by simp
qed

text \<open>What the view shows after one connection and its agent have been edited.\<close>

definition edited :: "agent_record \<Rightarrow> agent_connection \<Rightarrow> agent_connection \<Rightarrow> fleet_db \<Rightarrow> fleet_db \<Rightarrow> bool" where
  "edited a n n' d d' \<longleftrightarrow> (\<exists>x rows conns. x \<in> set (fd_agents d) \<and> same_registration x a \<and>
     set rows = insert a (set (fd_agents d) - {x}) \<and> n \<in> set (fd_connections d) \<and>
     set conns = insert n' (set (fd_connections d) - {n}) \<and> cn_id n' = cn_id n \<and> cn_agent_id n' = cn_agent_id n \<and>
     d' = d\<lparr>fd_connections := conns, fd_agents := rows\<rparr>)"

lemma edited_view:
  assumes ok: "presence_adapter_ok p" and ok': "presence_adapter_ok p'" and e: "edited a n n' (pa_db p) (pa_db p')"
    and n: "live_row n" and act: "\<And>k. k \<noteq> cn_id n \<Longrightarrow> activity_of p' k = activity_of p k"
  shows "pv_agent (sql_view p') = (pv_agent (sql_view p))(ar_id a \<mapsto> a)"
    and "pv_connection (sql_view p') = (pv_connection (sql_view p))(cn_id n \<mapsto> n')"
    and "pv_live (sql_view p') = (pv_live (sql_view p))(cn_agent_id n := if live_row n' then Some (with_activity p' n') else None)"
proof -
  note v = sql_view_iff[OF ok] and v' = sql_view_iff[OF ok'] and vok = sql_view_ok[OF ok]
  obtain x rows conns where x: "x \<in> set (fd_agents (pa_db p))" "same_registration x a"
      "set rows = insert a (set (fd_agents (pa_db p)) - {x})"
    and c: "n \<in> set (fd_connections (pa_db p))" "set conns = insert n' (set (fd_connections (pa_db p)) - {n})"
      "cn_id n' = cn_id n" "cn_agent_id n' = cn_agent_id n"
    and p': "pa_db p' = (pa_db p)\<lparr>fd_connections := conns, fd_agents := rows\<rparr>"
    using e by (auto simp: edited_def)
  have same_agent: "y = x" if "y \<in> set (fd_agents (pa_db p))" "ar_id y = ar_id a" for y
    using v(1)[of "ar_id a" y] v(1)[of "ar_id a" x] that x by (simp add: same_registration_def)
  have same_conn: "m = n" if "m \<in> set (fd_connections (pa_db p))" "cn_id m = cn_id n" for m
    using v(2)[of "cn_id n" m] v(2)[of "cn_id n" n] that c(1) by simp
  show "pv_agent (sql_view p') = (pv_agent (sql_view p))(ar_id a \<mapsto> a)"
  proof (intro ext option_eqI)
    fix i y
    show "pv_agent (sql_view p') i = Some y \<longleftrightarrow> ((pv_agent (sql_view p))(ar_id a \<mapsto> a)) i = Some y"
      using same_agent[of y] x by (auto simp: v v' p' same_registration_def)
  qed
  show "pv_connection (sql_view p') = (pv_connection (sql_view p))(cn_id n \<mapsto> n')"
  proof (intro ext option_eqI)
    fix k m
    show "pv_connection (sql_view p') k = Some m \<longleftrightarrow> ((pv_connection (sql_view p))(cn_id n \<mapsto> n')) k = Some m"
      using same_conn[of m] c by (auto simp: v v' p')
  qed
  show "pv_live (sql_view p') = (pv_live (sql_view p))(cn_agent_id n := if live_row n' then Some (with_activity p' n') else None)"
  proof (intro ext option_eqI)
    fix i and y :: active_connection
    have live_n: "pv_live (sql_view p) (cn_agent_id n) = Some (with_activity p n)"
      using c n by (simp add: v with_activity_def)
    have sole_live: "ac_connection y = n"
      if "ac_connection y \<in> set (fd_connections (pa_db p))" "cn_agent_id (ac_connection y) = cn_agent_id n" "live_row (ac_connection y)"
    proof -
      have "pv_live (sql_view p) (cn_agent_id n) = Some (with_activity p (ac_connection y))"
        unfolding v(3) using that by (simp add: with_activity_def)
      with live_n show ?thesis by (simp add: with_activity_def)
    qed
    have y: "y = with_activity p' n' \<longleftrightarrow> ac_connection y = n' \<and> ac_last_activity y = activity_of p' (cn_id n')"
      by (cases y) (auto simp: with_activity_def)
    show "pv_live (sql_view p') i = Some y \<longleftrightarrow>
      ((pv_live (sql_view p))(cn_agent_id n := if live_row n' then Some (with_activity p' n') else None)) i = Some y"
    proof (cases "i = cn_agent_id n")
      case True
      then show ?thesis using sole_live c y by (auto simp: v' p')
    next
      case False
      then have mem: "ac_connection y \<in> set conns \<and> cn_agent_id (ac_connection y) = i \<longleftrightarrow>
          ac_connection y \<in> set (fd_connections (pa_db p)) \<and> cn_agent_id (ac_connection y) = i"
        using c by auto
      have "activity_of p' (ac_id y) = activity_of p (ac_id y)"
        if "ac_connection y \<in> set (fd_connections (pa_db p))" "cn_agent_id (ac_connection y) = i"
        using same_conn[OF that(1)] that(2) False act by blast
      then have "pv_live (sql_view p') i = Some y \<longleftrightarrow> pv_live (sql_view p) i = Some y"
        using mem unfolding v' v p' by auto
      then show ?thesis using False by simp
    qed
  qed
qed

lemma edited_ok:
  assumes ok: "fleet_ok d" and n: "connections_ok (agent_ids d) conns" and a: "agents_ok rows"
    and x: "x \<in> set (fd_agents d)" "same_registration x a" "set rows = insert a (set (fd_agents d) - {x})"
  shows "fleet_ok (d\<lparr>fd_connections := conns, fd_agents := rows\<rparr>)"
proof -
  have "agent_ids d \<subseteq> ar_id ` set rows" using x by (auto simp: agent_ids_def same_registration_def)
  moreover have "fleet_ok (d\<lparr>fd_connections := conns\<rparr>)" using ok n by (simp add: fleet_ok_def)
  ultimately show ?thesis using fleet_ok_agents[of "d\<lparr>fd_connections := conns\<rparr>" rows] a by simp
qed

text \<open>One transaction that edits the live connection \<open>n\<close> and its agent.\<close>

lemma edit_transaction:
  assumes ok: "fleet_ok d" and n: "sole P n (fd_connections d)"
    and f: "\<And>x. cn_id (f x) = cn_id x" "\<And>x. cn_agent_id (f x) = cn_agent_id x" "\<And>x. live_row (f x) \<Longrightarrow> live_row x"
    and x: "x \<in> set (fd_agents d)" "same_registration x a"
    and valid: "connection_valid (f n)" "agent_state_valid a"
  defines "d' \<equiv> d\<lparr>fd_connections := update_where P f (fd_connections d), fd_agents := agent_rows a d\<rparr>"
  shows "fleet_ok d'" and "edited a n (f n) d d'"
proof -
  note fleet = fleet_okD[OF ok]
  have rows: "set (agent_rows a d) = insert a (set (fd_agents d) - {x})" by (rule update_agent_run(2)[OF fleet(1) x])
  have "agents_ok (agent_rows a d)"
    using agents_ok_edit[OF fleet(1) sole_agent[OF fleet(1) x] x(2)] valid(2) by (simp add: agent_rows_def)
  moreover have "connections_ok (agent_ids d) (update_where P f (fd_connections d))"
    using connections_ok_edit[OF fleet(2) n f] valid(1) by simp
  ultimately show "fleet_ok d'"
    unfolding d'_def using edited_ok[OF ok _ _ x rows] by blast
  show "edited a n (f n) d d'"
    using x rows n f(1,2) sole_updated[OF n, of f] unfolding edited_def d'_def sole_def by blast
qed

section \<open>The calls\<close>

lemma live_connection:
  assumes ok: "presence_adapter_ok p" and d: "pv_live (sql_view p) i = Some d"
  shows "ac_connection d \<in> set (fd_connections (pa_db p))" and "cn_agent_id (ac_connection d) = i"
    and "live_row (ac_connection d)" and "ac_last_activity d = activity_of p (ac_id d)"
    and "d = with_activity p (ac_connection d)"
proof -
  note all = d[unfolded sql_view_iff[OF ok]]
  show "ac_connection d \<in> set (fd_connections (pa_db p))" "cn_agent_id (ac_connection d) = i"
    "live_row (ac_connection d)" "ac_last_activity d = activity_of p (ac_id d)" using all by blast+
  then show "d = with_activity p (ac_connection d)" by (cases d) (simp add: with_activity_def)
qed

lemma sole_connection:
  assumes ok: "presence_adapter_ok p" and n: "n \<in> set (fd_connections (pa_db p))" and "P n"
    and "\<And>x. P x \<Longrightarrow> cn_id x = cn_id n"
  shows "sole P n (fd_connections (pa_db p))"
proof (rule sole_by_key[where k = cn_id, OF _ n], goal_cases)
  case 1
  show ?case using ok by (simp add: presence_adapter_ok_def fleet_ok_def connections_ok_def)
qed (fact assms(3), rule assms(4))

lemma revised_row:
  assumes ok: "presence_adapter_ok p" and a: "revises a (sql_view p)"
  obtains x where "x \<in> set (fd_agents (pa_db p))" "same_registration x a"
  using a by (auto simp: revises_def sql_view_iff[OF ok])

text \<open>The state after an edit of the live connection, and what its view is.\<close>

lemma edit_call:
  assumes ok: "presence_adapter_ok p" and d: "pv_live (sql_view p) (ar_id a) = Some d"
    and e: "edited a (ac_connection d) n' (pa_db p) d'" and ok': "fleet_ok d'"
    and m: "\<And>k. k \<noteq> ac_id d \<Longrightarrow> activity_of (p\<lparr>pa_db := d', pa_monotonic := mon\<rparr>) k = activity_of p k"
  defines "p' \<equiv> p\<lparr>pa_db := d', pa_monotonic := mon\<rparr>"
  shows "presence_adapter_ok p'" and "sql_view p' = \<lparr>pv_agent = (pv_agent (sql_view p))(ar_id a \<mapsto> a),
      pv_connection = (pv_connection (sql_view p))(ac_id d \<mapsto> n'),
      pv_live = (pv_live (sql_view p))(ar_id a := if live_row n' then Some (with_activity p' n') else None)\<rparr>"
proof -
  note live = live_connection[OF ok d]
  show ok'': "presence_adapter_ok p'" using ok' by (simp add: presence_adapter_ok_def p'_def)
  have "edited a (ac_connection d) n' (pa_db p) (pa_db p')" using e by (simp add: p'_def)
  note view = edited_view[OF ok ok'' this live(3) m[folded p'_def], unfolded live(2)]
  show "sql_view p' = \<lparr>pv_agent = (pv_agent (sql_view p))(ar_id a \<mapsto> a),
      pv_connection = (pv_connection (sql_view p))(ac_id d \<mapsto> n'),
      pv_live = (pv_live (sql_view p))(ar_id a := if live_row n' then Some (with_activity p' n') else None)\<rparr>"
    using view by (intro presence_view.equality) (simp, simp, simp, simp)
qed

lemma sql_update_spec:
  assumes ok: "presence_adapter_ok p" and run: "sql_update_if_current a c p = (b, p')" and a: "revises a (sql_view p)"
    and d: "pv_live (sql_view p) (ar_id a) = Some d"
    and c: "ac_connection c = heartbeat_columns (ac_connection c) (ac_connection d)" and newer: "not_older d c"
  shows "presence_adapter_ok p' \<and> (if agent_state_valid a \<and> connection_valid (ac_connection c)
    then b = Inr True \<and> sql_view p' = spec_update a c (sql_view p) else b = Inl IntegrityError \<and> p' = p)"
proof -
  let ?n = "ac_connection d" and ?c = "ac_connection c" and ?d = "pa_db p"
  note live = live_connection[OF ok d] and same = heartbeat_columns_same[OF c]
  obtain x where x: "x \<in> set (fd_agents ?d)" "same_registration x a" by (rule revised_row[OF ok a])
  have row: "live_match a ?c ?d = Some ?n"
    unfolding live_match_def by (rule sole_first, rule sole_connection[OF ok live(1)]) (use live same in auto)
  have one: "sole (unchanged_row ?c (cn_last_sequence_number ?n)) ?n (fd_connections ?d)"
    by (rule sole_connection[OF ok live(1)]) (use live same in \<open>auto simp: unchanged_row_def\<close>)
  let ?f = "heartbeat_columns ?c"
  let ?d' = "?d\<lparr>fd_connections := update_where (unchanged_row ?c (cn_last_sequence_number ?n)) ?f (fd_connections ?d),
    fd_agents := agent_rows a ?d\<rparr>"
  have f: "cn_id (?f y) = cn_id y" "cn_agent_id (?f y) = cn_agent_id y" "live_row (?f y) \<Longrightarrow> live_row y" for y
    by (simp_all add: heartbeat_columns_def live_row_def)
  have fleet: "fleet_ok ?d" using ok by (simp add: presence_adapter_ok_def)
  note tx = edit_run[OF fleet one f x]
  have "transactionM (update_rows a c (activity_of p (ac_id c))) ?d =
      (if connection_valid ?c \<and> agent_state_valid a then (Inr True, ?d') else (Inl IntegrityError, ?d))"
    using row newer live(4) same(1) tx c
    by (simp add: update_rows_def run_transaction run_bind run_gets not_older_def Let_def)
  then have eq: "sql_update_if_current a c p =
      (if connection_valid ?c \<and> agent_state_valid a
       then (Inr True, p\<lparr>pa_db := ?d', pa_monotonic := dict_set (ac_id c) (ac_last_activity c) (pa_monotonic p)\<rparr>)
       else (Inl IntegrityError, p))"
    by (simp add: sql_update_if_current_def on_fleet_def run_bind run_gets run_zoom run_modify run_return)
  show ?thesis
  proof (cases "connection_valid ?c \<and> agent_state_valid a")
    case True
    then have valid: "connection_valid (?f ?n)" "agent_state_valid a" using c by simp_all
    note edit = edit_transaction[OF fleet one f x valid]
    have act: "activity_of (p\<lparr>pa_db := ?d', pa_monotonic := dict_set (ac_id c) (ac_last_activity c) (pa_monotonic p)\<rparr>) k =
        (if k = ac_id c then ac_last_activity c else activity_of p k)" for k
      by (simp add: activity_of_def dict_set_map_of)
    have other: "k \<noteq> ac_id d \<Longrightarrow> activity_of (p\<lparr>pa_db := ?d', pa_monotonic := dict_set (ac_id c) (ac_last_activity c) (pa_monotonic p)\<rparr>) k =
        activity_of p k" for k using act same(1) by simp
    note call = edit_call[OF ok d edit(2,1) other]
    have "live_row ?c" using live(3) same(3) by (simp add: live_row_def)
    then show ?thesis
      using True call run eq act same(1) c by (auto simp: spec_update_def with_activity_def)
  qed (use ok run eq in auto)
qed

lemma sql_disconnect_spec:
  assumes ok: "presence_adapter_ok p" and run: "sql_disconnect_if_current a (close_at t d) p = (b, p')"
    and a: "revises a (sql_view p)" and d: "pv_live (sql_view p) (ar_id a) = Some d"
  shows "presence_adapter_ok p' \<and> (if agent_state_valid a \<and> connection_valid (ac_connection (close_at t d))
    then b = Inr True \<and> sql_view p' = spec_disconnect a (close_at t d) (sql_view p) else b = Inl IntegrityError \<and> p' = p)"
proof -
  let ?n = "ac_connection d" and ?c = "ac_connection (close_at t d)" and ?d = "pa_db p"
  let ?f = "\<lambda>x. x\<lparr>cn_disconnected_at := Some t\<rparr>"
  note live = live_connection[OF ok d]
  obtain x where x: "x \<in> set (fd_agents ?d)" "same_registration x a" by (rule revised_row[OF ok a])
  have row: "live_match a ?c ?d = Some ?n"
    unfolding live_match_def by (rule sole_first, rule sole_connection[OF ok live(1)]) (use live in auto)
  have one: "sole (unchanged_row ?c (cn_last_sequence_number ?c)) ?n (fd_connections ?d)"
    by (rule sole_connection[OF ok live(1)]) (use live in \<open>auto simp: unchanged_row_def\<close>)
  have f: "cn_id (?f y) = cn_id y" "cn_agent_id (?f y) = cn_agent_id y" "live_row (?f y) \<Longrightarrow> live_row y" for y :: agent_connection
    by (simp_all add: live_row_def)
  have fn: "?f ?n = ?c" by (simp add: close_at_def)
  let ?d' = "?d\<lparr>fd_connections := update_where (unchanged_row ?c (cn_last_sequence_number ?c)) ?f (fd_connections ?d),
    fd_agents := agent_rows a ?d\<rparr>"
  have fleet: "fleet_ok ?d" using ok by (simp add: presence_adapter_ok_def)
  note tx = edit_run[OF fleet one f x, unfolded fn]
  have "transactionM (disconnect_rows a ?c t) ?d =
      (if connection_valid ?c \<and> agent_state_valid a then (Inr True, ?d') else (Inl IntegrityError, ?d))"
    using row tx by (simp add: disconnect_rows_def run_transaction run_bind run_gets)
  then have eq: "sql_disconnect_if_current a (close_at t d) p =
      (if connection_valid ?c \<and> agent_state_valid a
       then (Inr True, p\<lparr>pa_db := ?d', pa_monotonic := dict_pop (ac_id d) (pa_monotonic p)\<rparr>) else (Inl IntegrityError, p))"
    by (simp add: sql_disconnect_if_current_def on_fleet_def run_bind run_zoom run_modify run_return)
  show ?thesis
  proof (cases "connection_valid ?c \<and> agent_state_valid a")
    case True
    then have valid: "connection_valid (?f ?n)" "agent_state_valid a" using fn by simp_all
    note edit = edit_transaction[OF fleet one f x valid, unfolded fn]
    have other: "k \<noteq> ac_id d \<Longrightarrow> activity_of (p\<lparr>pa_db := ?d', pa_monotonic := dict_pop (ac_id d) (pa_monotonic p)\<rparr>) k =
        activity_of p k" for k by (simp add: activity_of_def)
    note call = edit_call[OF ok d edit(2,1) other]
    have "\<not> live_row ?c" by (simp add: live_row_def)
    then show ?thesis using True call run eq by (auto simp: spec_disconnect_def)
  qed (use ok run eq in auto)
qed

text \<open>A new connection: the row it replaces is closed, and the new row is added.\<close>

definition closed_rows :: "agent_connection \<Rightarrow> agent_connection option \<Rightarrow> agent_connection list \<Rightarrow> agent_connection list" where
  "closed_rows c prior rows =
     (case prior of
        None \<Rightarrow> rows
      | Some p \<Rightarrow> update_where (\<lambda>x. cn_id x = cn_id p \<and> live_row x)
          (\<lambda>x. x\<lparr>cn_disconnected_at := Some (max (cn_connected_at c) (cn_last_heartbeat_at p))\<rparr>) rows)"

lemma closed_rows_ok:
  assumes ok: "connections_ok A rows"
    and prior: "\<And>q. prior = Some q \<Longrightarrow> q \<in> set rows \<and> live_row q"
  shows "connections_ok A (closed_rows c prior rows)"
    and "set (closed_rows c prior rows) = (case prior of None \<Rightarrow> set rows
      | Some q \<Rightarrow> insert (q\<lparr>cn_disconnected_at := Some (max (cn_connected_at c) (cn_last_heartbeat_at q))\<rparr>) (set rows - {q}))"
proof -
  have sole: "sole (\<lambda>x. cn_id x = cn_id q \<and> live_row x) q rows" if "prior = Some q" for q
  proof (rule sole_by_key[where k = cn_id], goal_cases)
    case 1 show ?case using ok by (simp add: connections_ok_def)
  qed (use prior[OF that] in auto)
  have valid: "connection_valid (q\<lparr>cn_disconnected_at := Some (max (cn_connected_at c) (cn_last_heartbeat_at q))\<rparr>)"
    if "prior = Some q" for q
    using ok prior[OF that] by (auto simp: connections_ok_def list_all_iff connection_valid_def not_before_def)
  show "connections_ok A (closed_rows c prior rows)"
  proof (cases prior)
    case (Some q)
    have "connections_ok A (update_where (\<lambda>x. cn_id x = cn_id q \<and> live_row x)
        (\<lambda>x. x\<lparr>cn_disconnected_at := Some (max (cn_connected_at c) (cn_last_heartbeat_at q))\<rparr>) rows)"
      by (subst connections_ok_edit[OF ok sole[OF Some]]) (use valid[OF Some] in \<open>simp_all add: live_row_def\<close>)
    then show ?thesis by (simp add: closed_rows_def Some)
  qed (use ok in \<open>simp add: closed_rows_def\<close>)
  show "set (closed_rows c prior rows) = (case prior of None \<Rightarrow> set rows
      | Some q \<Rightarrow> insert (q\<lparr>cn_disconnected_at := Some (max (cn_connected_at c) (cn_last_heartbeat_at q))\<rparr>) (set rows - {q}))"
    using sole_updated[OF sole] by (cases prior) (simp_all add: closed_rows_def)
qed

lemma connections_ok_insert:
  assumes ok: "connections_ok A rows" and new: "cn_id c \<notin> cn_id ` set rows" "cn_agent_id c \<in> A"
    and free: "cn_agent_id c \<notin> cn_agent_id ` set (filter live_row rows)"
  shows "connections_ok A (rows @ [c]) \<longleftrightarrow> connection_valid c"
  using ok new free by (auto simp: connections_ok_def)


lemma activate_run:
  assumes ok: "fleet_ok d" and x: "x \<in> set (fd_agents d)" "same_registration x a"
    and c: "cn_agent_id c = ar_id a" and new: "find_connection (cn_id c) d = None"
  defines "prior \<equiv> find_live (ar_id a) d"
  defines "conns \<equiv> closed_rows c prior (fd_connections d) @ [c]"
  shows "transactionM (activate_rows a c) d =
      (if agent_state_valid a \<and> connection_valid c
       then (Inr (Inr prior), d\<lparr>fd_connections := conns, fd_agents := agent_rows a d\<rparr>) else (Inl IntegrityError, d))"
    and "connection_valid c \<Longrightarrow> connections_ok (agent_ids d) conns"
proof -
  note fleet = fleet_okD[OF ok]
  let ?closed = "closed_rows c prior (fd_connections d)"
  have prior: "q \<in> set (fd_connections d) \<and> live_row q \<and> cn_agent_id q = ar_id a" if "prior = Some q" for q
    using that find_live_iff[OF fleet(2), of "ar_id a" q] by (simp add: prior_def)
  have prior': "prior = Some q \<Longrightarrow> q \<in> set (fd_connections d) \<and> live_row q" for q using prior by blast
  note closed = closed_rows_ok[where c = c and prior = prior, OF fleet(2) prior']
  have ids: "ar_id ` set (agent_rows a d) = agent_ids d"
    using update_agent_run(2)[OF fleet(1) x] x by (force simp: agent_ids_def same_registration_def)
  have found: "find_agent (ar_id a) None d = Some x"
    using x by (simp add: find_agent_iff[OF fleet(1)] same_registration_def)
  have fresh: "cn_id c \<notin> cn_id ` set ?closed"
  proof -
    have "map cn_id ?closed = map cn_id (fd_connections d)"
      unfolding closed_rows_def by (cases prior) (auto intro: update_where_map)
    moreover have "cn_id c \<notin> cn_id ` set (fd_connections d)"
      using new find_connection_iff[OF fleet(2), of "cn_id c"] by force
    ultimately show ?thesis by (metis list.set_map)
  qed
  have free: "cn_agent_id c \<notin> cn_agent_id ` set (filter live_row ?closed)"
  proof
    assume "cn_agent_id c \<in> cn_agent_id ` set (filter live_row ?closed)"
    then obtain n where n: "n \<in> set ?closed" "live_row n" "cn_agent_id n = ar_id a" by (auto simp: c)
    have "n \<noteq> q\<lparr>cn_disconnected_at := Some t\<rparr>" for q t using n(2) by (auto simp: live_row_def)
    then have m: "n \<in> set (fd_connections d)" "prior \<noteq> Some n"
      using closed(2) n(1) by (cases prior; auto)+
    then have "find_live (ar_id a) d = Some n" using n find_live_iff[OF fleet(2)] by simp
    then show False using m(2) by (simp add: prior_def)
  qed
  have agent: "cn_agent_id c \<in> agent_ids d" using x by (auto simp: c agent_ids_def same_registration_def)
  note inserted = connections_ok_insert[OF closed(1) fresh agent free]
  show "connection_valid c \<Longrightarrow> connections_ok (agent_ids d) conns" using inserted by (simp add: conns_def)
  let ?d1 = "d\<lparr>fd_connections := ?closed\<rparr>"
  have close: "\<exists>v. (case prior of None \<Rightarrow> returnM 0
      | Some q \<Rightarrow> update_connections (\<lambda>x. cn_id x = cn_id q \<and> live_row x)
          (\<lambda>x. x\<lparr>cn_disconnected_at := Some (max (cn_connected_at c) (cn_last_heartbeat_at q))\<rparr>)) d = (Inr v, ?d1)"
  proof (cases prior)
    case (Some q)
    then show ?thesis
      using closed(1) by (simp add: update_connections_def run_bind run_gets run_write_table closed_rows_def)
  qed (simp add: closed_rows_def run_return)
  then obtain v where close: "(case prior of None \<Rightarrow> returnM 0
      | Some q \<Rightarrow> update_connections (\<lambda>x. cn_id x = cn_id q \<and> live_row x)
          (\<lambda>x. x\<lparr>cn_disconnected_at := Some (max (cn_connected_at c) (cn_last_heartbeat_at q))\<rparr>)) d = (Inr v, ?d1)" by blast
  have agent_row: "update_agent a ?d1 =
      (if agent_state_valid a then (Inr (), ?d1\<lparr>fd_agents := agent_rows a d\<rparr>) else (Inl IntegrityError, ?d1))"
    using update_agent_run(1)[of ?d1 x a] fleet(1) x by (simp add: agent_rows_def)
  have insert: "insert_connection c (?d1\<lparr>fd_agents := agent_rows a d\<rparr>) =
      (if connection_valid c then (Inr (), ?d1\<lparr>fd_agents := agent_rows a d, fd_connections := conns\<rparr>)
       else (Inl IntegrityError, ?d1\<lparr>fd_agents := agent_rows a d\<rparr>))"
    using inserted by (simp add: insert_connection_def run_bind run_gets run_write_table ids conns_def)
  have slug: "ar_slug x = ar_slug a" using x(2) by (simp add: same_registration_def)
  show "transactionM (activate_rows a c) d =
      (if agent_state_valid a \<and> connection_valid c
       then (Inr (Inr prior), d\<lparr>fd_connections := conns, fd_agents := agent_rows a d\<rparr>) else (Inl IntegrityError, d))"
    unfolding activate_rows_def run_transaction run_bind run_gets found new prior_def[symmetric]
    by (simp add: slug run_bind run_gets new prior_def[symmetric] close agent_row insert run_return)
qed


lemma sql_activate_spec:
  assumes ok: "presence_adapter_ok p" and run: "sql_activate a c p = (r, p')" and a: "revises a (sql_view p)"
    and c: "cn_agent_id (ac_connection c) = ar_id a" "cn_disconnected_at (ac_connection c) = None"
    and new: "pv_connection (sql_view p) (ac_id c) = None"
  shows "presence_adapter_ok p' \<and> (if agent_state_valid a \<and> connection_valid (ac_connection c)
    then r = Inr (pv_live (sql_view p) (ar_id a)) \<and> sql_view p' = spec_activate a c (sql_view p)
    else r = Inl IntegrityError \<and> p' = p)"
proof -
  let ?d = "pa_db p" and ?c = "ac_connection c"
  have fleet: "fleet_ok ?d" using ok by (simp add: presence_adapter_ok_def)
  note fl = fleet_okD[OF fleet]
  obtain x where x: "x \<in> set (fd_agents ?d)" "same_registration x a" by (rule revised_row[OF ok a])
  have new': "find_connection (cn_id ?c) ?d = None" using new by (simp add: sql_view_def)
  define prior where "prior = find_live (ar_id a) ?d"
  define conns where "conns = closed_rows ?c prior (fd_connections ?d) @ [?c]"
  define q where "q = p\<lparr>pa_db := ?d\<lparr>fd_connections := conns, fd_agents := agent_rows a ?d\<rparr>,
    pa_monotonic := (case prior of None \<Rightarrow> dict_set (ac_id c) (ac_last_activity c) (pa_monotonic p)
      | Some n \<Rightarrow> dict_pop (cn_id n) (dict_set (ac_id c) (ac_last_activity c) (pa_monotonic p)))\<rparr>"
  note tx = activate_run[OF fleet x c(1) new', folded prior_def, folded conns_def]
  have prior_live: "pv_live (sql_view p) (ar_id a) = map_option (with_activity p) prior"
    by (simp add: sql_view_def prior_def)
  have prior_row: "n \<in> set (fd_connections ?d) \<and> live_row n \<and> cn_agent_id n = ar_id a \<and> cn_id n \<noteq> ac_id c"
    if "prior = Some n" for n
    using that find_live_iff[OF fl(2), of "ar_id a" n] find_connection_iff[OF fl(2), of "ac_id c" n] new'
    by (auto simp: prior_def)
  have eq: "sql_activate a c p = (if agent_state_valid a \<and> connection_valid ?c
      then (Inr (pv_live (sql_view p) (ar_id a)), q) else (Inl IntegrityError, p))"
    using tx(1) prior_row
    by (cases prior) (simp_all add: sql_activate_def on_fleet_def run_bind run_zoom run_modify run_return run_gets
        q_def prior_live with_activity_def activity_of_def dict_set_map_of)
  show ?thesis
  proof (cases "agent_state_valid a \<and> connection_valid ?c")
    case True
    have rows: "set (agent_rows a ?d) = insert a (set (fd_agents ?d) - {x})" by (rule update_agent_run(2)[OF fl(1) x])
    have "agents_ok (agent_rows a ?d)"
      using agents_ok_edit[OF fl(1) sole_agent[OF fl(1) x] x(2)] True by (simp add: agent_rows_def)
    then have ok': "presence_adapter_ok q"
      using edited_ok[OF fleet tx(2) _ x rows] True by (simp add: presence_adapter_ok_def q_def)
    have tables: "fd_agents (pa_db q) = agent_rows a ?d" "fd_connections (pa_db q) = conns" by (simp_all add: q_def)
    note v = sql_view_iff[OF ok] and v' = sql_view_iff[OF ok', unfolded tables]
    have prior_set: "set conns = insert ?c (case prior of None \<Rightarrow> set (fd_connections ?d)
      | Some n \<Rightarrow> insert (n\<lparr>cn_disconnected_at := Some (max (cn_connected_at ?c) (cn_last_heartbeat_at n))\<rparr>) (set (fd_connections ?d) - {n}))"
      using closed_rows_ok(2)[OF fl(2), of prior ?c] prior_row by (simp add: conns_def)
    have same_agent: "y = x" if "y \<in> set (fd_agents ?d)" "ar_id y = ar_id a" for y
      using v(1)[of "ar_id a" y] v(1)[of "ar_id a" x] that x by (simp add: same_registration_def)
    have same_conn: "m = n" if "m \<in> set (fd_connections ?d)" "n \<in> set (fd_connections ?d)" "cn_id m = cn_id n" for m n
      using v(2)[of "cn_id n" m] v(2)[of "cn_id n" n] that by simp
    have fresh: "cn_id m \<noteq> ac_id c" if "m \<in> set (fd_connections ?d)" for m
      using new v(2)[of "ac_id c" m] that by auto
    have sole_live: "n = m" if "n \<in> set (fd_connections ?d)" "cn_agent_id n = ar_id a" "live_row n" "prior = Some m" for n m
      using find_live_iff[OF fl(2), of "ar_id a" n] that by (simp add: prior_def)
    have no_live: "prior \<noteq> None" if "n \<in> set (fd_connections ?d)" "cn_agent_id n = ar_id a" "live_row n" for n
      using find_live_iff[OF fl(2), of "ar_id a" n] that by (simp add: prior_def)
    have act: "activity_of q k = (if k = ac_id c then ac_last_activity c
        else if \<exists>n. prior = Some n \<and> cn_id n = k then 0 else activity_of p k)" for k
      using prior_row by (cases prior) (auto simp: q_def activity_of_def dict_set_map_of)
    have "sql_view q = spec_activate a c (sql_view p)"
    proof (rule view_eqI)
      fix i y
      show "pv_agent (sql_view q) i = Some y \<longleftrightarrow> pv_agent (spec_activate a c (sql_view p)) i = Some y"
        using same_agent[of y] x rows by (auto simp: v v' spec_activate_def same_registration_def)
    next
      fix k m
      show "pv_connection (sql_view q) k = Some m \<longleftrightarrow> pv_connection (spec_activate a c (sql_view p)) k = Some m"
      proof (cases prior)
        case None
        then show ?thesis using prior_set fresh[of m] prior_live
          by (auto simp: v v' spec_activate_def closed_prior_def)
      next
        case (Some n)
        let ?n = "n\<lparr>cn_disconnected_at := Some (max (cn_connected_at ?c) (cn_last_heartbeat_at n))\<rparr>"
        note n = prior_row[OF Some]
        have conns: "set conns = insert ?c (insert ?n (set (fd_connections ?d) - {n}))" using prior_set Some by simp
        have spec: "pv_connection (spec_activate a c (sql_view p)) k =
            (if k = ac_id c then Some ?c else if k = cn_id n then Some ?n else pv_connection (sql_view p) k)"
          by (simp add: spec_activate_def closed_prior_def prior_live Some close_at_def with_activity_def)
        have "m \<in> set conns \<and> cn_id m = k \<longleftrightarrow> (if k = ac_id c then m = ?c else if k = cn_id n then m = ?n
            else m \<in> set (fd_connections ?d) \<and> cn_id m = k)"
          unfolding conns using fresh[of m] n same_conn[of m n] by auto
        then show ?thesis unfolding spec v' by (auto simp: v)
      qed
    next
      fix i and y :: active_connection
      show "pv_live (sql_view q) i = Some y \<longleftrightarrow> pv_live (spec_activate a c (sql_view p)) i = Some y"
      proof (cases "i = ar_id a")
        case True
        have only: "n = ?c" if "n \<in> set conns" "cn_agent_id n = ar_id a" "live_row n" for n
          using that prior_set sole_live[of n] no_live[of n] by (auto simp: live_row_def split: option.splits)
        have c_in: "?c \<in> set conns" "live_row ?c" using prior_set c(2) by (simp_all add: live_row_def)
        have "pv_live (sql_view q) i = Some y \<longleftrightarrow> ac_connection y = ?c \<and> ac_last_activity y = activity_of q (ac_id c)"
        proof
          assume "pv_live (sql_view q) i = Some y"
          note y = this[unfolded v' True]
          have "ac_connection y = ?c" using only y by blast
          with y show "ac_connection y = ?c \<and> ac_last_activity y = activity_of q (ac_id c)" by simp
        next
          assume y: "ac_connection y = ?c \<and> ac_last_activity y = activity_of q (ac_id c)"
          then show "pv_live (sql_view q) i = Some y" unfolding v' using True c(1) c_in by simp
        qed
        also have "\<dots> \<longleftrightarrow> y = c" by (cases y, cases c) (simp add: act)
        finally show ?thesis using True by (auto simp: spec_activate_def)
      next
        case False
        have mem: "n \<in> set conns \<and> cn_agent_id n = i \<longleftrightarrow> n \<in> set (fd_connections ?d) \<and> cn_agent_id n = i" for n
          using prior_set prior_row False c(1) by (cases prior) auto
        have "activity_of q (cn_id n) = activity_of p (cn_id n)"
          if "n \<in> set (fd_connections ?d)" "cn_agent_id n = i" for n
        proof -
          have "cn_id m \<noteq> cn_id n" if "prior = Some m" for m
            using same_conn[of m n] prior_row[OF that] \<open>n \<in> set (fd_connections ?d)\<close> \<open>cn_agent_id n = i\<close> False by auto
          then show ?thesis using act[of "cn_id n"] fresh[OF that(1)] by auto
        qed
        then have "pv_live (sql_view q) i = Some y \<longleftrightarrow> pv_live (sql_view p) i = Some y"
          using mem[of "ac_connection y"] unfolding v v' by auto
        then show ?thesis using False by (simp add: spec_activate_def)
      qed
    qed
    then show ?thesis using True run eq ok' by simp
  qed (use ok run eq in auto)
qed

interpretation sqlite: presence_store sqlite_presence presence_adapter_ok sql_view
proof
  fix s :: presence_adapter and i :: uuid
  assume ok: "presence_adapter_ok s"
  show "pr_get_agent sqlite_presence i None s = (Inr (pv_agent (sql_view s) i), s)"
    "pr_get_active_connection sqlite_presence i s = (Inr (pv_live (sql_view s) i), s)"
    by (simp_all add: sqlite_presence_def sql_get_agent_def repo_get_agent_def sql_get_active_connection_def
        run_bind run_gets on_fleet_reads sql_view_def)
  show "\<exists>c. pr_get_connection sqlite_presence i s = (Inr c, s) \<and> map_option ac_connection c = pv_connection (sql_view s) i"
    by (simp add: sqlite_presence_def sql_get_connection_def run_bind run_gets on_fleet_reads sql_view_def
        option.map_comp comp_def with_activity_def option.map_ident)
  show "\<exists>cs. pr_list_active_connections sqlite_presence s = (Inr cs, s) \<and> set cs = ran (pv_live (sql_view s)) \<and>
      distinct (map (\<lambda>c. cn_agent_id (ac_connection c)) cs)"
    using sql_list_active[OF ok] by (simp add: sqlite_presence_def)
  show "view_ok (sql_view s)" by (rule sql_view_ok[OF ok])
next
  fix s a c r s'
  assume "presence_adapter_ok s" and run: "pr_activate sqlite_presence a c s = (r, s')" and "revises a (sql_view s)"
    and "cn_agent_id (ac_connection c) = ar_id a" "cn_disconnected_at (ac_connection c) = None"
    and "pv_connection (sql_view s) (ac_id c) = None"
  note spec = sql_activate_spec[OF this(1) run[unfolded sqlite_presence_def, simplified] this(3-6)]
  then show "presence_adapter_ok s' \<and> (if agent_state_valid a \<and> connection_valid (ac_connection c) \<or> r \<in> range Inr
      then r = Inr (pv_live (sql_view s) (ar_id a)) \<and> sql_view s' = spec_activate a c (sql_view s)
      else sql_view s' = sql_view s)"
    by (auto split: if_splits)
next
  fix s a c b s' d
  assume "presence_adapter_ok s" and run: "pr_update_if_current sqlite_presence a c s = (b, s')" and "revises a (sql_view s)"
    and "pv_live (sql_view s) (ar_id a) = Some d"
    and "ac_connection c = heartbeat_columns (ac_connection c) (ac_connection d)" "not_older d c"
  note spec = sql_update_spec[OF this(1) run[unfolded sqlite_presence_def, simplified] this(3-6)]
  then show "presence_adapter_ok s' \<and> (if agent_state_valid a \<and> connection_valid (ac_connection c) \<or> b \<in> range Inr
      then b = Inr True \<and> sql_view s' = spec_update a c (sql_view s) else sql_view s' = sql_view s)"
    by (auto split: if_splits)
next
  fix s a c b s' d t
  assume "presence_adapter_ok s" and run: "pr_disconnect_if_current sqlite_presence a c s = (b, s')"
    and "revises a (sql_view s)" and "pv_live (sql_view s) (ar_id a) = Some d" and c: "c = close_at t d"
  note spec = sql_disconnect_spec[OF this(1) run[unfolded sqlite_presence_def c, simplified] this(3,4)]
  then show "presence_adapter_ok s' \<and> (if agent_state_valid a \<and> connection_valid (ac_connection c) \<or> b \<in> range Inr
      then b = Inr True \<and> sql_view s' = spec_disconnect a c (sql_view s) else sql_view s' = sql_view s)"
    by (auto simp: c split: if_splits)
qed

end
