(* ===== verification/PresenceService.thy ===== *)
theory PresenceService
  imports PresenceDatabase
begin

text \<open>
  The presence service over any repository that satisfies the contract: each call moves the view by
  the steps of one relation, \<open>presence_step\<close>, or leaves it. The invariants of the reachable views are
  proved by rule induction on that relation.
\<close>

section \<open>The steps of a view\<close>

inductive presence_step :: "presence_view \<Rightarrow> presence_view \<Rightarrow> bool" where
  Connect: "pv_agent v i = Some a \<Longrightarrow> require_connectable_agent a = Inr () \<Longrightarrow>
    pv_connection v (cq_connection_id q) = None \<Longrightarrow> t = non_regressing_agent_time a (cq_observed_at q) \<Longrightarrow>
    make_agent_connection (requested_connection i q t offset) = Inr n \<Longrightarrow>
    presence_step v (spec_activate (connected_agent a q t) \<lparr>ac_connection = n, ac_last_activity = m\<rparr> v)"
| Beat: "pv_live v i = Some d \<Longrightarrow> pv_agent v i = Some a \<Longrightarrow>
    cn_last_sequence_number (ac_connection d) < hb_sequence_number h \<Longrightarrow> ac_last_activity d \<le> m \<Longrightarrow>
    t = max (max (hb_observed_at h) (cn_last_heartbeat_at (ac_connection d))) (last_known_time a) \<Longrightarrow>
    presence_step v (spec_update (seen_agent a t)
      \<lparr>ac_connection = beaten_connection (ac_connection d) h t offset, ac_last_activity = m\<rparr> v)"
| Degrade: "pv_live v i = Some d \<Longrightarrow> pv_agent v i = Some a \<Longrightarrow>
    presence_step v (spec_update (a\<lparr>ar_status := AgDegraded\<rparr>) d v)"
| Close: "pv_live v i = Some d \<Longrightarrow> pv_agent v i = Some a \<Longrightarrow>
    pt_connection (offline_transition a d now) = ac_connection (close_at t d) \<Longrightarrow>
    presence_step v (spec_disconnect (pt_agent (offline_transition a d now)) (close_at t d) v)"

definition offline_time :: "agent_record \<Rightarrow> active_connection \<Rightarrow> time \<Rightarrow> time" where
  "offline_time a d now = max (max now (cn_last_heartbeat_at (ac_connection d))) (last_known_time a)"

lemma offline_transition_parts:
  "pt_connection (offline_transition a d now) = ac_connection (close_at (offline_time a d now) d)"
  "pt_previous_status (offline_transition a d now) = ar_status a"
  "ar_disconnected_at (pt_agent (offline_transition a d now)) = Some (offline_time a d now)"
  "ar_id (pt_agent (offline_transition a d now)) = ar_id a"
  "same_registration a (pt_agent (offline_transition a d now))"
  by (simp_all add: offline_transition_def offline_time_def close_at_def Let_def same_registration_def)

lemma written_agents_same [simp]:
  "same_registration a (connected_agent a q t)" "same_registration a (seen_agent a t)"
  "same_registration a (a\<lparr>ar_status := st\<rparr>)"
  "ar_id (connected_agent a q t) = ar_id a" "ar_id (seen_agent a t) = ar_id a"
  by (simp_all add: same_registration_def connected_agent_def seen_agent_def)

lemma made_connection:
  assumes "make_agent_connection (requested_connection i q t offset) = Inr n"
  shows "cn_id n = cq_connection_id q" "cn_agent_id n = i" "cn_disconnected_at n = None" "cn_boot_id n = cq_boot_id q"
    "cn_connected_at n = t" "cn_last_heartbeat_at n = t" "cn_last_sequence_number n = cq_sequence_number q"
    "connection_valid n"
  using assms by (auto simp: make_agent_connection_def requested_connection_def Let_def split: if_splits)

lemma beaten_columns: "beaten_connection c h t offset = heartbeat_columns (beaten_connection c h t offset) c"
  by (simp add: beaten_connection_def heartbeat_columns_def)

lemma beaten_simps [simp]:
  "cn_id (beaten_connection c h t offset) = cn_id c" "cn_agent_id (beaten_connection c h t offset) = cn_agent_id c"
  "cn_last_heartbeat_at (beaten_connection c h t offset) = t"
  "cn_last_sequence_number (beaten_connection c h t offset) = hb_sequence_number h"
  "cn_disconnected_at (beaten_connection c h t offset) = cn_disconnected_at c"
  by (simp_all add: beaten_connection_def)

section \<open>The calls of the service\<close>

text \<open>Marking benches offline does not touch what the repository shows.\<close>

definition quiet :: "('s \<Rightarrow> bool) \<Rightarrow> ('s \<Rightarrow> presence_view) \<Rightarrow> 's offline_inventory \<Rightarrow> bool" where
  "quiet invar view inventory \<longleftrightarrow> (\<forall>f i t s. inventory = Some f \<longrightarrow> invar s \<longrightarrow>
     invar (snd (f i t s)) \<and> view (snd (f i t s)) = view s)"

context presence_store
begin

lemma require_current_run:
  assumes "invar s"
  shows "require_current_connection repo i k b s =
    (case pv_live (view s) i of
       Some c \<Rightarrow> (if ac_id c = k \<and> cn_boot_id (ac_connection c) = b then Inr c else Inl StaleAgentConnectionError, s)
     | None \<Rightarrow> (Inl StaleAgentConnectionError, s))"
  using view_okD(2)[OF view_ok[OF assms], of i]
  by (simp add: require_current_connection_def run_bind get_active[OF assms] run_raise run_return split: option.splits)

lemma presence_get_agent_run:
  "invar s \<Longrightarrow> presence_get_agent repo i None s =
     (case pv_agent (view s) i of None \<Rightarrow> Inl AgentNotFoundError | Some a \<Rightarrow> Inr a, s)"
  by (simp add: presence_get_agent_def run_bind get_agent run_raise run_return split: option.splits)

text \<open>A call that edits the agent and its live connection: what the contract says of it.\<close>

lemma update_call:
  assumes s: "invar s" and run: "pr_update_if_current repo a' c s = (b, s')"
    and a: "pv_agent (view s) i = Some a" "same_registration a a'" and d: "pv_live (view s) i = Some d"
    and c: "ac_connection c = heartbeat_columns (ac_connection c) (ac_connection d)" "not_older d c"
  shows "invar s'" and "b = Inr True \<and> view s' = spec_update a' c (view s) \<or> (\<exists>e. b = Inl e) \<and> view s' = view s"
    and "agent_state_valid a' \<Longrightarrow> connection_valid (ac_connection c) \<Longrightarrow> b = Inr True"
proof -
  have id: "ar_id a' = i" using a view_okD(7)[OF view_ok[OF s] a(1)] by (simp add: same_registration_def)
  have "revises a' (view s)" using a id by (auto simp: revises_def)
  note u = update[OF s run this d[folded id] c]
  show "invar s'" using u by simp
  show "b = Inr True \<and> view s' = spec_update a' c (view s) \<or> (\<exists>e. b = Inl e) \<and> view s' = view s"
    using u by (cases b) (auto split: if_splits)
  show "agent_state_valid a' \<Longrightarrow> connection_valid (ac_connection c) \<Longrightarrow> b = Inr True" using u by simp
qed

lemma disconnect_call:
  assumes s: "invar s" and run: "pr_disconnect_if_current repo a' (close_at t d) s = (b, s')"
    and a: "pv_agent (view s) i = Some a" "same_registration a a'" and d: "pv_live (view s) i = Some d"
  shows "invar s'" and "b = Inr True \<and> view s' = spec_disconnect a' (close_at t d) (view s) \<or> (\<exists>e. b = Inl e) \<and> view s' = view s"
    and "agent_state_valid a' \<Longrightarrow> connection_valid (ac_connection (close_at t d)) \<Longrightarrow> b = Inr True"
proof -
  have id: "ar_id a' = i" using a view_okD(7)[OF view_ok[OF s] a(1)] by (simp add: same_registration_def)
  have "revises a' (view s)" using a id by (auto simp: revises_def)
  note u = disconnect[OF s run this d[folded id] refl]
  show "invar s'" using u by simp
  show "b = Inr True \<and> view s' = spec_disconnect a' (close_at t d) (view s) \<or> (\<exists>e. b = Inl e) \<and> view s' = view s"
    using u by (cases b) (auto split: if_splits)
  show "agent_state_valid a' \<Longrightarrow> connection_valid (ac_connection (close_at t d)) \<Longrightarrow> b = Inr True" using u by simp
qed

text \<open>A heartbeat: refused with nothing written, or one step.\<close>

lemma heartbeat_cases:
  assumes s: "invar s" and run: "record_heartbeat repo i h s = (r, s')"
  obtains (refused) e where "r = Inl e" "view s' = view s" "invar s'"
    | (beat) d a m t offset where "pv_live (view s) i = Some d" "pv_agent (view s) i = Some a"
      "hb_observed_monotonic h = Finite m" "0 \<le> m" "ac_last_activity d \<le> m"
      "ac_id d = hb_connection_id h" "cn_boot_id (ac_connection d) = hb_boot_id h"
      "cn_last_sequence_number (ac_connection d) < hb_sequence_number h"
      "t = max (max (hb_observed_at h) (cn_last_heartbeat_at (ac_connection d))) (last_known_time a)"
      "r = Inr \<lparr>reg_agent = seen_agent a t, reg_connection = beaten_connection (ac_connection d) h t offset, reg_superseded = None\<rparr>"
      "view s' = spec_update (seen_agent a t)
        \<lparr>ac_connection = beaten_connection (ac_connection d) h t offset, ac_last_activity = m\<rparr> (view s)" "invar s'"
proof -
  have stop: "s' = s \<and> (\<exists>e. r = Inl e) \<Longrightarrow> thesis" using refused s by auto
  show thesis
  proof (cases "validate_monotonic (hb_observed_monotonic h)")
    case (Inl e)
    then show ?thesis using run by (intro stop) (auto simp: record_heartbeat_def run_bind run_liftE)
  next
    case (Inr m)
    then have m: "hb_observed_monotonic h = Finite m" "0 \<le> m"
      by (auto simp: validate_monotonic_def split: reading.splits if_splits)
    show ?thesis
    proof (cases "pv_live (view s) i")
      case None
      then show ?thesis using run Inr
        by (intro stop) (auto simp: record_heartbeat_def run_bind run_liftE require_current_run[OF s])
    next
      case (Some d)
      note view = view_okD[OF view_ok[OF s]]
      obtain a where a: "pv_agent (view s) i = Some a" using view(4)[OF Some] by blast
      show ?thesis
      proof (cases "ac_id d = hb_connection_id h \<and> cn_boot_id (ac_connection d) = hb_boot_id h \<and>
          cn_last_sequence_number (ac_connection d) < hb_sequence_number h \<and> ac_last_activity d \<le> m")
        case False
        then show ?thesis using run Inr Some
          by (intro stop, cases "ac_id d = hb_connection_id h \<and> cn_boot_id (ac_connection d) = hb_boot_id h")
            (auto simp: record_heartbeat_def run_bind run_liftE require_current_run[OF s] validate_sequence_def
              run_raise split: if_splits)
      next
        case True
        show ?thesis
        proof (cases "optional_offset (hb_clock_offset h)")
          case (Inl e)
          then show ?thesis using run Inr Some True
            by (intro stop) (auto simp: record_heartbeat_def run_bind run_liftE require_current_run[OF s]
                validate_sequence_def)
        next
          case (Inr offset)
          define t where "t = max (max (hb_observed_at h) (cn_last_heartbeat_at (ac_connection d))) (last_known_time a)"
          define c where "c = \<lparr>ac_connection = beaten_connection (ac_connection d) h t offset, ac_last_activity = m\<rparr>"
          obtain b s1 where u: "pr_update_if_current repo (seen_agent a t) c s = (b, s1)" by fastforce
          have eq: "record_heartbeat repo i h s =
              (case b of Inl e \<Rightarrow> (Inl e, s1)
               | Inr changed \<Rightarrow> (if \<not> changed then Inl StaleAgentConnectionError
                   else Inr \<lparr>reg_agent = seen_agent a t, reg_connection = ac_connection c, reg_superseded = None\<rparr>, s1))"
            using \<open>validate_monotonic _ = Inr m\<close> Some True Inr u
            by (simp add: record_heartbeat_def run_bind run_liftE require_current_run[OF s] validate_sequence_def
                presence_get_agent_run[OF s] a Let_def t_def[symmetric] c_def run_raise run_return split: sum.splits)
          have "ac_connection c = heartbeat_columns (ac_connection c) (ac_connection d)"
            using beaten_columns by (simp add: c_def)
          moreover have "not_older d c" using True by (simp add: not_older_def c_def t_def)
          ultimately have w: "invar s1" "b = Inr True \<and> view s1 = spec_update (seen_agent a t) c (view s) \<or>
              (\<exists>e. b = Inl e) \<and> view s1 = view s"
            using update_call[OF s u a _ Some] by simp_all
          show ?thesis
          proof (cases "b = Inr True")
            case True
            then show ?thesis
              using beat[OF Some a m _ _ _ _ t_def, of offset] \<open>ac_id d = _ \<and> _\<close> run eq w
              by (auto simp: c_def)
          next
            case False
            then show ?thesis using refused run eq w by auto
          qed
        qed
      qed
    qed
  qed
qed

lemma same_columns: "ac_connection d = heartbeat_columns (ac_connection d) (ac_connection d)" "not_older d d"
  by (simp_all add: heartbeat_columns_def not_older_def)

lemma degrade_cases:
  assumes s: "invar s" and run: "mark_degraded repo i k b s = (r, s')"
  obtains (refused) e where "r = Inl e" "view s' = view s" "invar s'"
    | (kept) a where "r = Inr a" "s' = s" "pv_agent (view s) i = Some a"
        "ar_status a \<in> {AgRevoked, AgDraining, AgDrained, AgDegraded}"
    | (degraded) a d where "r = Inr (a\<lparr>ar_status := AgDegraded\<rparr>)" "pv_agent (view s) i = Some a"
        "pv_live (view s) i = Some d" "ac_id d = k" "cn_boot_id (ac_connection d) = b"
        "ar_status a \<notin> {AgRevoked, AgDraining, AgDrained, AgDegraded}"
        "view s' = spec_update (a\<lparr>ar_status := AgDegraded\<rparr>) d (view s)" "invar s'"
proof -
  have stop: "s' = s \<and> (\<exists>e. r = Inl e) \<Longrightarrow> thesis" using refused s by auto
  show thesis
  proof (cases "pv_live (view s) i")
    case None
    then show ?thesis using run by (intro stop) (auto simp: mark_degraded_def run_bind require_current_run[OF s])
  next
    case (Some d)
    obtain a where a: "pv_agent (view s) i = Some a" using view_okD(4)[OF view_ok[OF s] Some] by blast
    show ?thesis
    proof (cases "ac_id d = k \<and> cn_boot_id (ac_connection d) = b")
      case False
      then show ?thesis using run Some by (intro stop) (auto simp: mark_degraded_def run_bind require_current_run[OF s])
    next
      case True
      obtain u s1 where u: "pr_update_if_current repo (a\<lparr>ar_status := AgDegraded\<rparr>) d s = (u, s1)" by fastforce
      note w = update_call[OF s u a _ Some same_columns]
      have eq: "mark_degraded repo i k b s =
          (if ar_status a \<in> {AgRevoked, AgDraining, AgDrained, AgDegraded} then (Inr a, s)
           else case u of Inl e \<Rightarrow> (Inl e, s1)
             | Inr changed \<Rightarrow> (if \<not> changed then Inl StaleAgentConnectionError else Inr (a\<lparr>ar_status := AgDegraded\<rparr>), s1))"
        using Some True u by (simp add: mark_degraded_def run_bind require_current_run[OF s] presence_get_agent_run[OF s] a
            run_raise run_return split: sum.splits)
      show ?thesis
      proof (cases "ar_status a \<in> {AgRevoked, AgDraining, AgDrained, AgDegraded}")
        case True
        then show ?thesis using kept[of a] eq run a by auto
      next
        case False
        then show ?thesis using degraded[of a d] refused eq run a Some True w by (cases u) auto
      qed
    qed
  qed
qed

text \<open>Taking the live connection of an agent offline.\<close>

lemma take_offline_cases:
  assumes s: "invar s" and inv: "quiet invar view inventory" and run: "take_offline repo inventory a d now s = (b, s')"
    and a: "pv_agent (view s) i = Some a" and d: "pv_live (view s) i = Some d"
  obtains (failed) e where "b = Inl e" "view s' = view s" "invar s'"
    | (closed) "b = Inr True" "invar s'" "view s' = spec_disconnect (pt_agent (offline_transition a d now))
        (close_at (offline_time a d now) d) (view s)"
proof -
  let ?tr = "offline_transition a d now"
  obtain r s1 where c: "cascade_agent_offline inventory (ar_id a) (ar_disconnected_at (pt_agent ?tr)) s = (r, s1)" by fastforce
  have "invar s1 \<and> view s1 = view s"
  proof (cases inventory)
    case None
    then show ?thesis using c s by (simp add: cascade_agent_offline_def run_return)
  next
    case (Some f)
    then have "s1 = snd (f (ar_id a) (offline_time a d now) s)"
      using c by (simp add: cascade_agent_offline_def offline_transition_parts)
    then show ?thesis using inv s Some by (simp add: quiet_def)
  qed
  then have s1: "invar s1" "view s1 = view s" by simp_all
  have act: "\<lparr>ac_connection = pt_connection ?tr, ac_last_activity = ac_last_activity d\<rparr> = close_at (offline_time a d now) d"
    by (cases d) (simp add: offline_transition_parts close_at_def)
  show thesis
  proof (cases r)
    case (Inl e)
    then show ?thesis using failed run c s1 by (auto simp: take_offline_def Let_def run_bind)
  next
    case (Inr u)
    obtain b1 s2 where x: "pr_disconnect_if_current repo (pt_agent ?tr) (close_at (offline_time a d now) d) s1 = (b1, s2)" by fastforce
    have "b1 = b" "s2 = s'" using run c Inr x by (simp_all add: take_offline_def Let_def run_bind act)
    then show ?thesis
      using disconnect_call[OF s1(1) x, of i a] a d s1(2) offline_transition_parts(5)[of a d now] failed closed by auto
  qed
qed

lemma close_step:
  "pv_live v i = Some d \<Longrightarrow> pv_agent v i = Some a \<Longrightarrow>
   presence_step v (spec_disconnect (pt_agent (offline_transition a d now)) (close_at (offline_time a d now) d) v)"
  by (rule presence_step.Close) (simp_all add: offline_transition_parts)

lemma disconnect_cases:
  assumes s: "invar s" and inv: "quiet invar view inventory" and run: "presence_disconnect repo inventory i k b now s = (r, s')"
  obtains (refused) "r = Inr False" "s' = s" "\<And>d. pv_live (view s) i = Some d \<Longrightarrow> ac_id d = k \<Longrightarrow> cn_boot_id (ac_connection d) \<noteq> b"
    | (failed) e where "r = Inl e" "view s' = view s" "invar s'"
    | (closed) a d where "r = Inr True" "invar s'" "pv_live (view s) i = Some d" "pv_agent (view s) i = Some a"
        "ac_id d = k" "cn_boot_id (ac_connection d) = b"
        "view s' = spec_disconnect (pt_agent (offline_transition a d now)) (close_at (offline_time a d now) d) (view s)"
proof (cases "pv_live (view s) i")
  case None
  then show thesis using refused run by (simp add: presence_disconnect_def run_bind get_active[OF s] run_return)
next
  case (Some d)
  obtain a where a: "pv_agent (view s) i = Some a" using view_okD(4)[OF view_ok[OF s] Some] by blast
  show thesis
  proof (cases "ac_id d = k \<and> cn_boot_id (ac_connection d) = b")
    case False
    then show ?thesis using refused run Some by (auto simp: presence_disconnect_def run_bind get_active[OF s] run_return)
  next
    case True
    then have "take_offline repo inventory a d now s = (r, s')"
      using run Some a by (simp add: presence_disconnect_def run_bind get_active[OF s] presence_get_agent_run[OF s])
    then show ?thesis
      using True a Some by (cases rule: take_offline_cases[OF s inv _ a Some]) (auto intro: failed closed)
  qed
qed

lemma register_cases:
  assumes s: "invar s" and run: "register_authenticated_connection repo agent q s = (r, s')"
  obtains (refused) e where "r = Inl e" "view s' = view s" "invar s'"
    | (again) a d where "r = Inr \<lparr>reg_agent = a, reg_connection = ac_connection d, reg_superseded = None\<rparr>" "s' = s"
        "pv_agent (view s) (ar_id agent) = Some a" "require_connectable_agent a = Inr ()"
        "pv_live (view s) (ar_id agent) = Some d" "ac_id d = cq_connection_id q"
    | (anew) a m n t offset where "pv_agent (view s) (ar_id agent) = Some a" "same_identity a agent"
        "require_connectable_agent a = Inr ()" "1 \<le> cq_sequence_number q"
        "pv_connection (view s) (cq_connection_id q) = None" "t = non_regressing_agent_time a (cq_observed_at q)"
        "make_agent_connection (requested_connection (ar_id agent) q t offset) = Inr n"
        "r = Inr \<lparr>reg_agent = connected_agent a q t, reg_connection = n,
            reg_superseded = map_option ac_id (pv_live (view s) (ar_id agent))\<rparr>"
        "view s' = spec_activate (connected_agent a q t) \<lparr>ac_connection = n, ac_last_activity = m\<rparr> (view s)" "invar s'"
proof -
  have stop: "s' = s \<and> (\<exists>e. r = Inl e) \<Longrightarrow> thesis" using refused s by auto
  let ?i = "ar_id agent"
  show thesis
  proof (cases "\<exists>m off a. validate_monotonic (cq_observed_monotonic q) = Inr m \<and> 1 \<le> cq_sequence_number q \<and>
      finite_offset (cq_clock_offset q) = Inr off \<and> pv_agent (view s) ?i = Some a \<and> same_identity a agent \<and>
      require_connectable_agent a = Inr ()")
    case False
    then show ?thesis using run
      by (intro stop) (auto simp: register_authenticated_connection_def run_bind run_liftE get_agent[OF s] run_raise run_return
          validate_sequence_def require_same_agent_identity_def split: sum.splits option.splits if_splits)
  next
    case True
    then obtain m offset a where ok: "validate_monotonic (cq_observed_monotonic q) = Inr m" "1 \<le> cq_sequence_number q"
      "finite_offset (cq_clock_offset q) = Inr offset" "pv_agent (view s) ?i = Some a" "same_identity a agent"
      "require_connectable_agent a = Inr ()" by blast
    have id: "ar_id a = ?i" using ok(5) by (simp add: same_identity_def)
    obtain known where known: "pr_get_connection repo (cq_connection_id q) s = (Inr known, s)"
      "map_option ac_connection known = pv_connection (view s) (cq_connection_id q)"
      using get_connection[OF s] by blast
    have eq: "register_authenticated_connection repo agent q s =
        (case known of Some e \<Rightarrow> registered_again repo a q e s | None \<Rightarrow> registered_anew repo a q m offset s)"
      using ok known(1) by (simp add: register_authenticated_connection_def run_bind run_liftE get_agent[OF s]
          require_same_agent_identity_def validate_sequence_def run_return split: option.splits)
    show ?thesis
    proof (cases known)
      case (Some e)
      show ?thesis
      proof (cases "pv_live (view s) ?i = Some e \<and> (\<exists>s1. registered_again repo a q e s =
          (Inr \<lparr>reg_agent = a, reg_connection = ac_connection e, reg_superseded = None\<rparr>, s))")
        case True
        have "cn_id (ac_connection e) = cq_connection_id q"
          using known(2) Some view_okD(5)[OF view_ok[OF s], of "cq_connection_id q" "ac_connection e"] by simp
        then show ?thesis using again[of a e] True run eq Some ok by simp
      next
        case False
        then show ?thesis using run eq Some id
          by (intro stop) (auto simp: registered_again_def run_bind get_active[OF s] Let_def run_raise run_return split: if_splits)
      qed
    next
      case None
      define t where "t = non_regressing_agent_time a (cq_observed_at q)"
      show ?thesis
      proof (cases "make_agent_connection (requested_connection ?i q t offset)")
        case (Inl e)
        then show ?thesis using run eq None id
          by (intro stop) (auto simp: registered_anew_def run_bind run_liftE Let_def t_def[symmetric])
      next
        case (Inr n)
        define c where "c = \<lparr>ac_connection = n, ac_last_activity = m\<rparr>"
        obtain b s1 where x: "pr_activate repo (connected_agent a q t) c s = (b, s1)" by fastforce
        note made = made_connection[OF Inr]
        have new: "pv_connection (view s) (cq_connection_id q) = None" using known(2) None by simp
        have "revises (connected_agent a q t) (view s)" using ok(4) id by (auto simp: revises_def)
        note w = activate[OF s x this, unfolded c_def, simplified, unfolded id made(1-3), OF refl refl new]
        have run': "(r, s') = (case b of Inl e \<Rightarrow> (Inl e, s1)
            | Inr superseded \<Rightarrow> (Inr \<lparr>reg_agent = connected_agent a q t, reg_connection = n,
                reg_superseded = map_option ac_id superseded\<rparr>, s1))"
          using run eq None id Inr x
          by (cases b) (simp_all add: registered_anew_def run_bind run_liftE Let_def t_def[symmetric] c_def[symmetric] run_return)
        show ?thesis
        proof (cases b)
          case (Inl e)
          then show ?thesis using refused[of e] w run' by (auto split: if_splits)
        next
          case (Inr superseded)
          then have "superseded = pv_live (view s) ?i" "invar s1"
            "view s1 = spec_activate (connected_agent a q t) \<lparr>ac_connection = n, ac_last_activity = m\<rparr> (view s)"
            using w id by auto
          then show ?thesis
            using anew[of a t offset n m] ok new t_def \<open>make_agent_connection _ = Inr n\<close> run' Inr by simp
        qed
      qed
    qed
  qed
qed

text \<open>One turn of the loop over the active connections.\<close>

lemma check_cases:
  assumes s: "invar s" and inv: "quiet invar view inventory"
    and run: "check_connection repo inventory limits now m d trs s = (r, s')"
    and d: "pv_live (view s) i = Some d" and a: "pv_agent (view s) i = Some a"
  obtains (failed) e where "r = Inl e" "view s' = view s" "invar s'"
    | (kept) "r = Inr trs" "view s' = view s" "invar s'" "m - ac_last_activity d < pl_offline_timeout limits"
        "m - ac_last_activity d < pl_heartbeat_timeout limits \<or> ar_status a = AgDegraded"
    | (degraded) "\<exists>t. r = Inr (trs @ [t])" "invar s'" "view s' = spec_update (a\<lparr>ar_status := AgDegraded\<rparr>) d (view s)"
        "agent_state_valid (a\<lparr>ar_status := AgDegraded\<rparr>) \<or> r \<in> range Inr"
        "pl_heartbeat_timeout limits \<le> m - ac_last_activity d" "m - ac_last_activity d < pl_offline_timeout limits"
    | (closed) "r = Inr (trs @ [offline_transition a d now])" "invar s'"
        "view s' = spec_disconnect (pt_agent (offline_transition a d now)) (close_at (offline_time a d now) d) (view s)"
        "pl_offline_timeout limits \<le> m - ac_last_activity d"
proof -
  let ?e = "m - ac_last_activity d"
  have i: "cn_agent_id (ac_connection d) = i" using view_okD(1)[OF view_ok[OF s] d] .
  show thesis
  proof (cases "m < ac_last_activity d")
    case True
    then show ?thesis using failed[of ValueError] run s by (auto simp: check_connection_def run_raise)
  next
    case False
    show ?thesis
    proof (cases "pl_offline_timeout limits \<le> ?e")
      case True
      obtain b s1 where o: "take_offline repo inventory a d now s = (b, s1)" by fastforce
      have eq: "check_connection repo inventory limits now m d trs s = (case b of Inl e \<Rightarrow> (Inl e, s1)
          | Inr changed \<Rightarrow> (Inr (if changed then trs @ [offline_transition a d now] else trs), s1))"
        using False True o by (simp add: check_connection_def run_bind presence_get_agent_run[OF s] i a Let_def run_return split: sum.splits)
      show ?thesis
        by (rule take_offline_cases[OF s inv o a d]) (use eq run True failed closed in auto)
    next
      case late: False
      show ?thesis
      proof (cases "?e < pl_heartbeat_timeout limits \<or> ar_status a = AgDegraded")
        case True
        then show ?thesis using kept run s False late
          by (auto simp: check_connection_def run_bind presence_get_agent_run[OF s] i a Let_def run_return)
      next
        case on_time: False
        obtain b s1 where u: "pr_update_if_current repo (a\<lparr>ar_status := AgDegraded\<rparr>) d s = (b, s1)" by fastforce
        note w = update_call[OF s u a _ d same_columns]
        have eq: "check_connection repo inventory limits now m d trs s = (case b of Inl e \<Rightarrow> (Inl e, s1)
            | Inr changed \<Rightarrow> (Inr (if changed then trs @ [\<lparr>pt_agent = a\<lparr>ar_status := AgDegraded\<rparr>,
                pt_connection = ac_connection d, pt_previous_status = ar_status a\<rparr>] else trs), s1))"
          using False late on_time u
          by (simp add: check_connection_def run_bind presence_get_agent_run[OF s] i a Let_def run_return split: sum.splits)
        show ?thesis
        proof (cases "b = Inr True")
          case True
          then show ?thesis using degraded eq run w on_time late by auto
        next
          case False
          then show ?thesis using failed eq run w by auto
        qed
      qed
    qed
  qed
qed

lemma check_step:
  assumes "invar s" and "quiet invar view inventory" and "check_connection repo inventory limits now m d trs s = (r, s')"
    and "pv_live (view s) i = Some d"
  shows "invar s' \<and> presence_step\<^sup>*\<^sup>* (view s) (view s') \<and> (\<forall>j. j \<noteq> i \<longrightarrow> pv_live (view s') j = pv_live (view s) j \<and>
    pv_agent (view s') j = pv_agent (view s) j)"
proof -
  obtain a where a: "pv_agent (view s) i = Some a" using view_okD(4)[OF view_ok[OF assms(1)] assms(4)] by blast
  have id: "ar_id a = i" using view_okD(7)[OF view_ok[OF assms(1)] a] .
  show ?thesis
  proof (rule check_cases[OF assms a], goal_cases)
    case 3
    then show ?case using presence_step.Degrade[OF assms(4) a] id
      by (auto simp: spec_update_def intro!: r_into_rtranclp)
  next
    case 4
    then show ?case using close_step[OF assms(4) a, of now] id
      by (auto simp: spec_disconnect_def offline_transition_parts intro!: r_into_rtranclp)
  qed auto
qed

lemma check_loop:
  assumes "quiet invar view inventory"
  shows "invar s \<Longrightarrow> distinct (map (\<lambda>c. cn_agent_id (ac_connection c)) cs) \<Longrightarrow>
    (\<forall>c \<in> set cs. pv_live (view s) (cn_agent_id (ac_connection c)) = Some c) \<Longrightarrow>
    foldM (check_connection repo inventory limits now m) cs trs s = (r, s') \<Longrightarrow>
    invar s' \<and> presence_step\<^sup>*\<^sup>* (view s) (view s')"
proof (induction cs arbitrary: s trs)
  case Nil
  then show ?case by (simp add: run_return)
next
  case (Cons c cs)
  obtain r1 s1 where c: "check_connection repo inventory limits now m c trs s = (r1, s1)" by fastforce
  note st = check_step[OF Cons.prems(1) assms c, of "cn_agent_id (ac_connection c)"]
  show ?case
  proof (cases r1)
    case (Inl e)
    then show ?thesis using st Cons.prems c by (simp add: run_bind)
  next
    case (Inr trs1)
    have "\<forall>x \<in> set cs. pv_live (view s1) (cn_agent_id (ac_connection x)) = Some x"
      using st Cons.prems(2,3) by (auto simp: image_iff)
    moreover have "foldM (check_connection repo inventory limits now m) cs trs1 s1 = (r, s')"
      using Cons.prems(4) c Inr by (simp add: run_bind)
    ultimately have "invar s' \<and> presence_step\<^sup>*\<^sup>* (view s1) (view s')"
      using Cons.IH[of s1 trs1] Cons.prems(2,3) st by simp
    then show ?thesis using st Cons.prems(3) by (meson list.set_intros(1) rtranclp_trans)
  qed
qed

lemma timeouts_steps:
  assumes s: "invar s" and inv: "quiet invar view inventory" and run: "check_timeouts repo inventory limits now m s = (r, s')"
  shows "invar s' \<and> presence_step\<^sup>*\<^sup>* (view s) (view s')"
proof (cases "validate_monotonic m")
  case (Inl e)
  then show ?thesis using run s by (auto simp: check_timeouts_def run_bind run_liftE)
next
  case (Inr v)
  obtain cs where cs: "pr_list_active_connections repo s = (Inr cs, s)" "set cs = ran (pv_live (view s))"
    "distinct (map (\<lambda>c. cn_agent_id (ac_connection c)) cs)" using list_active[OF s] by blast
  have "pv_live (view s) (cn_agent_id (ac_connection c)) = Some c" if "c \<in> set cs" for c
    using that cs(2) view_okD(1)[OF view_ok[OF s]] by (auto simp: ran_def)
  then show ?thesis
    using check_loop[OF inv s cs(3), of limits now v "[]" r s'] run Inr cs(1) by (simp add: check_timeouts_def run_bind run_liftE)
qed

end

end
