(* ===== verification/PresenceProperties.thy ===== *)
theory PresenceProperties
  imports PresenceService
begin

text \<open>
  What holds of agent presence over any history of calls: the invariants of \<open>presence_step\<close>, lifted
  to the calls through the contract, and the properties of the SQLite and the in-memory repository.
\<close>

section \<open>Invariants of a step\<close>

lemma presence_step_ok:
  assumes "presence_step v v'" and "view_ok v"
  shows "view_ok v'"
  using assms
proof (induction rule: presence_step.induct)
  case (Connect v i a q t offset n m)
  then show ?case
    using view_okD(7)[OF \<open>view_ok v\<close> Connect(1)] made_connection[OF Connect(5)] by (intro spec_activate_ok) simp_all
next
  case (Beat v i d a h m t offset)
  then show ?case
    using view_okD(7)[OF \<open>view_ok v\<close> Beat(2)] beaten_columns by (intro spec_update_ok) simp_all
next
  case (Degrade v i d a)
  then show ?case
    using view_okD(7)[OF \<open>view_ok v\<close> Degrade(2)] by (intro spec_update_ok[of v _ d]) (simp_all add: heartbeat_columns_def)
next
  case (Close v i d a now t)
  then show ?case
    using view_okD(7)[OF \<open>view_ok v\<close> Close(2)] by (intro spec_disconnect_ok) (simp_all add: offline_transition_parts)
qed

text \<open>A closed connection stays as it is.\<close>

lemma closed_stays:
  assumes "presence_step v v'" and "view_ok v" and "pv_connection v k = Some n" and "cn_disconnected_at n \<noteq> None"
  shows "pv_connection v' k = Some n"
proof -
  have live: "ac_id d \<noteq> k" if "pv_live v i = Some d" for i d
    using view_okD(2,3)[OF assms(2) that] assms(3,4) by auto
  show ?thesis
    using assms(1,3) live
  proof (induction rule: presence_step.induct)
    case (Connect v i a q t offset n' m)
    then have "cq_connection_id q \<noteq> k" by auto
    moreover have "cn_id n' = cq_connection_id q" using made_connection(1)[OF Connect(5)] .
    ultimately show ?case using Connect(6,7) by (auto simp: spec_activate_def closed_prior_def split: option.splits)
  qed (auto simp: spec_update_def spec_disconnect_def)
qed

lemma last_known_connected: "last_known_time a \<le> non_regressing_agent_time a t \<and> ar_registered_at a \<le> non_regressing_agent_time a t"
  by (cases "ar_last_connected_at a"; cases "ar_last_seen_at a"; cases "ar_disconnected_at a")
    (simp_all add: last_known_time_def non_regressing_agent_time_def or_else_def List.map_filter_simps max_def)

text \<open>The registration of an agent never changes, and the time it was last known never goes back.\<close>

lemma agent_advances:
  assumes "presence_step v v'" and "view_ok v" and "pv_agent v i = Some a"
  shows "\<exists>a'. pv_agent v' i = Some a' \<and> same_registration a a' \<and> last_known_time a \<le> last_known_time a'"
  using assms
proof (induction rule: presence_step.induct)
  case (Connect v j b q t offset n m)
  then show ?case
    using view_okD(7)[OF \<open>view_ok v\<close> Connect(1)] last_known_connected[of b "cq_observed_at q"]
    by (auto simp: spec_activate_def last_known_time_def or_else_def connected_agent_def same_registration_def)
next
  case (Beat v j d b h m t offset)
  then show ?case
    using view_okD(7)[OF \<open>view_ok v\<close> Beat(2)]
    by (auto simp: spec_update_def last_known_time_def or_else_def seen_agent_def same_registration_def)
next
  case (Degrade v j d b)
  then show ?case
    using view_okD(7)[OF \<open>view_ok v\<close> Degrade(2)]
    by (auto simp: spec_update_def last_known_time_def or_else_def same_registration_def split: option.splits)
next
  case (Close v j d b now t)
  then show ?case
    using view_okD(7)[OF \<open>view_ok v\<close> Close(2)]
    by (auto simp: spec_disconnect_def last_known_time_def or_else_def same_registration_def offline_transition_def Let_def
        split: option.splits)
qed

text \<open>
  The records that the service copies without validation satisfy the validators, and a connected
  agent is enrolled and not revoked.
\<close>

definition connected_agent_ok :: "agent_record \<Rightarrow> bool" where
  "connected_agent_ok a \<longleftrightarrow> ar_status a \<noteq> AgRevoked \<and> ar_last_seen_at a \<noteq> None"

definition agents_valid :: "presence_view \<Rightarrow> bool" where
  "agents_valid v \<longleftrightarrow> (\<forall>i a. pv_agent v i = Some a \<longrightarrow> agent_state_valid a \<and>
     (pv_live v i \<noteq> None \<longrightarrow> connected_agent_ok a))"

lemma agents_validD:
  "agents_valid v \<Longrightarrow> pv_agent v i = Some a \<Longrightarrow> agent_state_valid a"
  "agents_valid v \<Longrightarrow> pv_agent v i = Some a \<Longrightarrow> pv_live v i = Some d \<Longrightarrow> connected_agent_ok a"
  by (auto simp: agents_valid_def)

lemma connected_valid:
  assumes a: "agent_state_valid a" and c: "require_connectable_agent a = Inr ()"
  shows "agent_state_valid (connected_agent a q (non_regressing_agent_time a t)) \<and>
    connected_agent_ok (connected_agent a q (non_regressing_agent_time a t))"
  using assms last_known_connected[of a t]
  by (auto simp: agent_state_valid_def agent_timeline_valid_def agent_revocation_valid_def connected_agent_ok_def
      connected_agent_def require_connectable_agent_def connected_status_def given_after_def not_before_def
      split: if_splits option.splits)

lemma seen_valid:
  assumes a: "agent_state_valid a" "connected_agent_ok a" and t: "last_known_time a \<le> t"
  shows "agent_state_valid (seen_agent a t) \<and> connected_agent_ok (seen_agent a t)"
  using assms
  by (auto simp: agent_state_valid_def agent_timeline_valid_def agent_revocation_valid_def connected_agent_ok_def
      seen_agent_def connected_status_def given_after_def not_before_def last_known_time_def or_else_def
      split: option.splits)

lemma degraded_valid:
  "agent_state_valid a \<Longrightarrow> connected_agent_ok a \<Longrightarrow> agent_state_valid (a\<lparr>ar_status := AgDegraded\<rparr>) \<and>
   connected_agent_ok (a\<lparr>ar_status := AgDegraded\<rparr>)"
  by (auto simp: agent_state_valid_def agent_timeline_valid_def agent_revocation_valid_def connected_agent_ok_def
      split: option.splits)

lemma offline_valid:
  assumes a: "agent_state_valid a" "connected_agent_ok a"
  shows "agent_state_valid (pt_agent (offline_transition a d now))"
  using assms
  by (auto simp: agent_state_valid_def agent_timeline_valid_def agent_revocation_valid_def connected_agent_ok_def
      offline_transition_def Let_def given_after_def not_before_def last_known_time_def or_else_def max_def
      split: option.splits)

lemma agents_valid_step:
  assumes "presence_step v v'" and "view_ok v" and "agents_valid v"
  shows "agents_valid v'"
  using assms
proof (induction rule: presence_step.induct)
  case (Connect v j b q t offset n m)
  have "ar_id b = j" using view_okD(7)[OF Connect.prems(1) Connect(1)] .
  then show ?case
    using connected_valid[OF agents_validD(1)[OF Connect.prems(2) Connect(1)] Connect(2), of q "cq_observed_at q"]
      Connect.prems(2) Connect(4) by (auto simp: agents_valid_def spec_activate_def)
next
  case (Beat v j d b h m t offset)
  have "ar_id b = j" using view_okD(7)[OF Beat.prems(1) Beat(2)] .
  then show ?case
    using seen_valid[of b t] agents_validD[OF Beat.prems(2) Beat(2)] Beat(1,5) Beat.prems(2)
    by (auto simp: agents_valid_def spec_update_def)
next
  case (Degrade v j d b)
  have "ar_id b = j" using view_okD(7)[OF Degrade.prems(1) Degrade(2)] .
  then show ?case
    using degraded_valid[of b] agents_validD[OF Degrade.prems(2) Degrade(2)] Degrade(1) Degrade.prems(2)
    by (auto simp: agents_valid_def spec_update_def)
next
  case (Close v j d b now t)
  have "ar_id b = j" using view_okD(7)[OF Close.prems(1) Close(2)] .
  then show ?case
    using offline_valid[of b d now] agents_validD[OF Close.prems(2) Close(2)] Close(1) Close.prems(2)
    by (auto simp: agents_valid_def spec_disconnect_def offline_transition_parts)
qed

lemma steps_keep:
  assumes "presence_step\<^sup>*\<^sup>* v v'" and "view_ok v"
  shows "view_ok v'" and "agents_valid v \<Longrightarrow> agents_valid v'"
    and "pv_connection v k = Some n \<Longrightarrow> cn_disconnected_at n \<noteq> None \<Longrightarrow> pv_connection v' k = Some n"
    and "pv_agent v i = Some a \<Longrightarrow> \<exists>a'. pv_agent v' i = Some a' \<and> same_registration a a' \<and> last_known_time a \<le> last_known_time a'"
proof -
  have all: "view_ok v' \<and> (agents_valid v \<longrightarrow> agents_valid v') \<and>
    (\<forall>k n. pv_connection v k = Some n \<longrightarrow> cn_disconnected_at n \<noteq> None \<longrightarrow> pv_connection v' k = Some n) \<and>
    (\<forall>i a. pv_agent v i = Some a \<longrightarrow> (\<exists>a'. pv_agent v' i = Some a' \<and> same_registration a a' \<and> last_known_time a \<le> last_known_time a'))"
    using assms
  proof (induction rule: rtranclp_induct)
    case base
    then show ?case by (auto simp: same_registration_def)
  next
    case (step y z)
    then have IH: "view_ok y" and rest: "agents_valid v \<longrightarrow> agents_valid y"
      "\<forall>k n. pv_connection v k = Some n \<longrightarrow> cn_disconnected_at n \<noteq> None \<longrightarrow> pv_connection y k = Some n"
      "\<forall>i a. pv_agent v i = Some a \<longrightarrow> (\<exists>a'. pv_agent y i = Some a' \<and> same_registration a a' \<and> last_known_time a \<le> last_known_time a')"
      by blast+
    have "\<exists>a'. pv_agent z i = Some a' \<and> same_registration a a' \<and> last_known_time a \<le> last_known_time a'"
      if ag: "pv_agent v i = Some a" for i a
    proof -
      obtain b where b: "pv_agent y i = Some b" "same_registration a b" "last_known_time a \<le> last_known_time b"
        using rest(3) ag by blast
      obtain c where "pv_agent z i = Some c" "same_registration b c" "last_known_time b \<le> last_known_time c"
        using agent_advances[OF step.hyps(2) IH b(1)] by blast
      then show ?thesis using b by (intro exI[of _ c]) (auto simp: same_registration_def)
    qed
    then show ?case
      using presence_step_ok[OF step.hyps(2) IH] agents_valid_step[OF step.hyps(2) IH] closed_stays[OF step.hyps(2) IH] rest(1,2)
      by blast
  qed
  show "view_ok v'" "agents_valid v \<Longrightarrow> agents_valid v'"
    "pv_connection v k = Some n \<Longrightarrow> cn_disconnected_at n \<noteq> None \<Longrightarrow> pv_connection v' k = Some n"
    "pv_agent v i = Some a \<Longrightarrow> \<exists>a'. pv_agent v' i = Some a' \<and> same_registration a a' \<and> last_known_time a \<le> last_known_time a'"
    using all by blast+
qed

section \<open>Histories of calls\<close>

datatype presence_call =
    CallRegister agent_record connection_request
  | CallHeartbeat uuid heartbeat
  | CallDegrade uuid uuid uuid
  | CallDisconnect uuid uuid uuid time
  | CallTimeouts time reading

fun presence_perform ::
    "'s presence_repository \<Rightarrow> 's offline_inventory \<Rightarrow> presence_limits \<Rightarrow> presence_call \<Rightarrow> 's \<Rightarrow> 's" where
  "presence_perform repo inventory lim (CallRegister a q) s = snd (register_authenticated_connection repo a q s)"
| "presence_perform repo inventory lim (CallHeartbeat i h) s = snd (record_heartbeat repo i h s)"
| "presence_perform repo inventory lim (CallDegrade i k b) s = snd (mark_degraded repo i k b s)"
| "presence_perform repo inventory lim (CallDisconnect i k b t) s = snd (presence_disconnect repo inventory i k b t s)"
| "presence_perform repo inventory lim (CallTimeouts t m) s = snd (check_timeouts repo inventory lim t m s)"

fun is_timeouts :: "presence_call \<Rightarrow> bool" where
  "is_timeouts (CallTimeouts _ _) = True"
| "is_timeouts _ = False"

abbreviation draining :: "agent_status \<Rightarrow> bool" where
  "draining st \<equiv> st \<in> {AgDraining, AgDrained}"

context presence_store
begin

lemma perform_steps:
  assumes s: "invar s" and inv: "quiet invar view inventory"
  shows "invar (presence_perform repo inventory lim call s) \<and>
    presence_step\<^sup>*\<^sup>* (view s) (view (presence_perform repo inventory lim call s))"
proof (cases call)
  case (CallRegister a q)
  obtain r s' where run: "register_authenticated_connection repo a q s = (r, s')" by fastforce
  show ?thesis
    by (rule register_cases[OF s run]) (use CallRegister run s presence_step.Connect in auto)
next
  case (CallHeartbeat i h)
  obtain r s' where run: "record_heartbeat repo i h s = (r, s')" by fastforce
  show ?thesis
    by (rule heartbeat_cases[OF s run]) (use CallHeartbeat run s presence_step.Beat in auto)
next
  case (CallDegrade i k b)
  obtain r s' where run: "mark_degraded repo i k b s = (r, s')" by fastforce
  show ?thesis
    by (rule degrade_cases[OF s run]) (use CallDegrade run s presence_step.Degrade in auto)
next
  case (CallDisconnect i k b t)
  obtain r s' where run: "presence_disconnect repo inventory i k b t s = (r, s')" by fastforce
  show ?thesis
    by (rule disconnect_cases[OF s inv run]) (use CallDisconnect run s close_step in auto)
next
  case (CallTimeouts t m)
  then show ?thesis using timeouts_steps[OF s inv] by (metis presence_perform.simps(5) prod.collapse)
qed

lemma history_steps:
  assumes inv: "quiet invar view inventory"
  shows "invar s \<Longrightarrow> invar (fold (presence_perform repo inventory lim) calls s) \<and>
    presence_step\<^sup>*\<^sup>* (view s) (view (fold (presence_perform repo inventory lim) calls s))"
proof (induction calls arbitrary: s)
  case (Cons c cs)
  then show ?case using perform_steps[OF Cons.prems inv, of lim c] by (simp, meson rtranclp_trans)
qed simp

text \<open>No call of a closed connection is accepted, and none writes.\<close>

lemma closed_is_fenced:
  assumes s: "invar s" and n: "pv_connection (view s) k = Some n" "cn_disconnected_at n \<noteq> None"
  shows "\<exists>e. record_heartbeat repo i (h\<lparr>hb_connection_id := k\<rparr>) s = (Inl e, s)"
    and "mark_degraded repo i k b s = (Inl StaleAgentConnectionError, s)"
    and "presence_disconnect repo inventory i k b t s = (Inr False, s)"
    and "\<exists>e. register_authenticated_connection repo a (q\<lparr>cq_connection_id := k\<rparr>) s = (Inl e, s)"
proof -
  have live: "ac_id d \<noteq> k" if "pv_live (view s) j = Some d" for j d
    using view_okD(2,3)[OF view_ok[OF s] that] n by auto
  have stale: "require_current_connection repo i k b s = (Inl StaleAgentConnectionError, s)" for b
    using live[of i] by (simp add: require_current_run[OF s] split: option.splits)
  show "mark_degraded repo i k b s = (Inl StaleAgentConnectionError, s)"
    by (simp add: mark_degraded_def run_bind stale)
  show "\<exists>e. record_heartbeat repo i (h\<lparr>hb_connection_id := k\<rparr>) s = (Inl e, s)"
    by (simp add: record_heartbeat_def run_bind run_liftE stale split: sum.splits)
  show "presence_disconnect repo inventory i k b t s = (Inr False, s)"
    using live[of i] by (simp add: presence_disconnect_def run_bind get_active[OF s] run_return split: option.splits)
  obtain known where known: "pr_get_connection repo k s = (Inr (Some known), s)" "ac_connection known = n"
    using get_connection[OF s, of k] n(1) by (metis option.exhaust option.inject option.map(1) option.map(2) option.distinct(1))
  show "\<exists>e. register_authenticated_connection repo a (q\<lparr>cq_connection_id := k\<rparr>) s = (Inl e, s)"
    using known n(2)
    by (auto simp: register_authenticated_connection_def run_bind run_liftE get_agent[OF s] run_raise run_return
        require_same_agent_identity_def registered_again_def get_active[OF s] Let_def split: sum.splits option.splits)
qed

lemma superseded_is_closed:
  assumes s: "invar s" and run: "register_authenticated_connection repo agent q s = (Inr reg, s')" and k: "reg_superseded reg = Some k"
  shows "invar s' \<and> (\<exists>n. pv_connection (view s') k = Some n \<and> cn_disconnected_at n \<noteq> None \<and> cn_agent_id n = ar_id agent)"
  using s run
proof (cases rule: register_cases)
  case (anew a m n t offset)
  then obtain d where d: "pv_live (view s) (ar_id agent) = Some d" "ac_id d = k" using k by auto
  note old = view_okD(1,3)[OF view_ok[OF s] d(1)]
  have "ac_id d \<noteq> cn_id n" using old(2) anew(5) made_connection(1)[OF anew(7)] by auto
  moreover have "ar_id a = ar_id agent" using view_okD(7)[OF view_ok[OF s] anew(1)] .
  ultimately have "pv_connection (view s') k = Some (ac_connection (close_at
      (max (cn_connected_at n) (cn_last_heartbeat_at (ac_connection d))) d))"
    using anew(9) d by (auto simp: spec_activate_def closed_prior_def)
  then show ?thesis using anew(10) old(1) by simp
qed (use k in auto)

text \<open>Without a timeout check, an agent that is draining stays so through every call.\<close>

lemma draining_kept:
  assumes s: "invar s" and inv: "quiet invar view inventory" and call: "\<not> is_timeouts call"
    and a: "pv_agent (view s) i = Some a" "draining (ar_status a)"
  shows "\<exists>a'. pv_agent (view (presence_perform repo inventory lim call s)) i = Some a' \<and> ar_status a' = ar_status a"
proof (cases call)
  case (CallRegister agent q)
  obtain r s' where run: "register_authenticated_connection repo agent q s = (r, s')" by fastforce
  show ?thesis
    by (rule register_cases[OF s run])
      (use CallRegister run a view_okD(7)[OF view_ok[OF s]] in
        \<open>auto simp: spec_activate_def connected_agent_def connected_status_def\<close>)
next
  case (CallHeartbeat j h)
  obtain r s' where run: "record_heartbeat repo j h s = (r, s')" by fastforce
  show ?thesis
    by (rule heartbeat_cases[OF s run])
      (use CallHeartbeat run a view_okD(7)[OF view_ok[OF s]] in
        \<open>auto simp: spec_update_def seen_agent_def connected_status_def\<close>)
next
  case (CallDegrade j k b)
  obtain r s' where run: "mark_degraded repo j k b s = (r, s')" by fastforce
  show ?thesis
    by (rule degrade_cases[OF s run])
      (use CallDegrade run a view_okD(7)[OF view_ok[OF s]] in \<open>auto simp: spec_update_def\<close>)
next
  case (CallDisconnect j k b t)
  obtain r s' where run: "presence_disconnect repo inventory j k b t s = (r, s')" by fastforce
  show ?thesis
    by (rule disconnect_cases[OF s inv run])
      (use CallDisconnect run a view_okD(7)[OF view_ok[OF s]] in
        \<open>auto simp: spec_disconnect_def offline_transition_def Let_def\<close>)
qed (use call in simp)

lemma draining_history:
  assumes inv: "quiet invar view inventory"
  shows "invar s \<Longrightarrow> list_all (\<lambda>c. \<not> is_timeouts c) calls \<Longrightarrow> pv_agent (view s) i = Some a \<Longrightarrow> draining (ar_status a) \<Longrightarrow>
    \<exists>a'. pv_agent (view (fold (presence_perform repo inventory lim) calls s)) i = Some a' \<and> ar_status a' = ar_status a"
proof (induction calls arbitrary: s a)
  case (Cons c cs)
  obtain b where b: "pv_agent (view (presence_perform repo inventory lim c s)) i = Some b" "ar_status b = ar_status a"
    using draining_kept[OF Cons.prems(1) inv _ Cons.prems(3,4), of c lim] Cons.prems(2) by auto
  show ?case
    using Cons.IH[of "presence_perform repo inventory lim c s" b] b perform_steps[OF Cons.prems(1) inv, of lim c] Cons.prems(2,4)
    by simp
qed auto

end

section \<open>Properties\<close>

definition example_agent :: agent_record where
  "example_agent = \<lparr>ar_id = ''a1'', ar_organisation_id = ''o'', ar_slug = ''lab'', ar_name = ''Lab'',
     ar_status = AgOnline, ar_version = ''1'', ar_protocol_version = ''1'', ar_location = None, ar_labels = [],
     ar_registered_at = 0, ar_last_connected_at = Some 1, ar_last_seen_at = Some 1, ar_disconnected_at = None,
     ar_certificate_fingerprint = None, ar_enrollment_status = EnrEnrolled, ar_revoked_at = None\<rparr>"

definition example_connection :: agent_connection where
  "example_connection = \<lparr>cn_id = ''c1'', cn_agent_id = ''a1'', cn_boot_id = ''b1'', cn_protocol_version = ''1'',
     cn_connected_at = 1, cn_last_heartbeat_at = 1, cn_disconnected_at = None, cn_last_sequence_number = 1,
     cn_observed_clock_offset = 0\<rparr>"

text \<open>A database with one agent, which is connected.\<close>

definition example_adapter :: "agent_record \<Rightarrow> presence_adapter" where
  "example_adapter a = \<lparr>pa_db = empty_fleet\<lparr>fd_agents := [a], fd_connections := [example_connection]\<rparr>,
     pa_monotonic = [(''c1'', 10)]\<rparr>"

definition example_request :: connection_request where
  "example_request = \<lparr>cq_connection_id = ''c2'', cq_boot_id = ''b2'', cq_protocol_version = ''1'', cq_observed_at = 5,
     cq_observed_monotonic = Finite 20, cq_sequence_number = 1, cq_agent_version = None, cq_clock_offset = Finite 0\<rparr>"

lemma example_adapter_ok:
  "ar_id a = ''a1'' \<Longrightarrow> agent_state_valid a \<Longrightarrow> presence_adapter_ok (example_adapter a)"
  by (simp add: presence_adapter_ok_def example_adapter_def fleet_ok_def empty_fleet_def agents_ok_def tokens_ok_def
      credentials_ok_def connections_ok_def unique_given_def agent_ids_def example_connection_def connection_valid_def
      offset_valid_def not_before_def live_row_def List.map_filter_simps seconds_def split: option.splits)

lemma quiet_None [simp]: "quiet invar view None"
  by (simp add: quiet_def)

text \<open>
  C18: when an agent connects anew, the connection it supersedes is fenced for good: after any
  further calls, a heartbeat, a degradation, a disconnect or a registration that names it is refused
  and leaves the store as it is.
\<close>

theorem superseded_connection_is_fenced:
  assumes ok: "presence_adapter_ok s" and inv: "quiet presence_adapter_ok sql_view inventory"
    and run: "register_authenticated_connection sqlite_presence agent q s = (Inr reg, s1)"
    and k: "reg_superseded reg = Some k"
    and later: "s2 = fold (presence_perform sqlite_presence inventory limits) calls s1"
  shows "(\<exists>e. record_heartbeat sqlite_presence i (h\<lparr>hb_connection_id := k\<rparr>) s2 = (Inl e, s2)) \<and>
    mark_degraded sqlite_presence i k b s2 = (Inl StaleAgentConnectionError, s2) \<and>
    presence_disconnect sqlite_presence inventory i k b t s2 = (Inr False, s2) \<and>
    (\<exists>e. register_authenticated_connection sqlite_presence agent' (q'\<lparr>cq_connection_id := k\<rparr>) s2 = (Inl e, s2))"
proof -
  obtain n where n: "presence_adapter_ok s1" "pv_connection (sql_view s1) k = Some n" "cn_disconnected_at n \<noteq> None"
    using sqlite.superseded_is_closed[OF ok run k] by blast
  note hist = sqlite.history_steps[OF inv n(1), of limits calls, folded later]
  have "pv_connection (sql_view s2) k = Some n"
    using steps_keep(3)[OF hist[THEN conjunct2] sql_view_ok[OF n(1)] n(2,3)] .
  then show ?thesis using sqlite.closed_is_fenced[OF hist[THEN conjunct1] _ n(3)] by blast
qed

theorem superseded_connection_is_fenced_witness:
  "(let s1 = snd (register_authenticated_connection sqlite_presence example_agent example_request (example_adapter example_agent))
    in mark_degraded sqlite_presence ''a1'' ''c1'' ''b1'' s1 = (Inl StaleAgentConnectionError, s1) \<and>
       presence_disconnect sqlite_presence None ''a1'' ''c1'' ''b1'' 9 s1 = (Inr False, s1))"
proof -
  let ?s = "example_adapter example_agent"
  have ok: "presence_adapter_ok ?s"
    by (rule example_adapter_ok) (simp_all add: example_agent_def agent_state_valid_def agent_timeline_valid_def
        agent_revocation_valid_def not_before_def given_after_def)
  obtain r s1 where run: "register_authenticated_connection sqlite_presence example_agent example_request ?s = (r, s1)" by fastforce
  have "map_sum id reg_superseded (fst (register_authenticated_connection sqlite_presence example_agent example_request ?s)) =
      Inr (Some ''c1'')" by code_simp
  then obtain reg where reg: "r = Inr reg" "reg_superseded reg = Some ''c1''" by (cases r) (simp_all add: run)
  have "s1 = fold (presence_perform sqlite_presence None \<lparr>pl_heartbeat_timeout = 45, pl_offline_timeout = 90\<rparr>) [] s1" by simp
  note superseded_connection_is_fenced[OF ok quiet_None run[unfolded reg] reg(2) this]
  then show ?thesis by (simp add: run Let_def)
qed

text \<open>
  C19: an agent that is draining or drained stays so through connections, heartbeats, clock warnings
  and disconnects in any order. (A timeout check is left out: it does not spare draining agents, see
  \<open>late_heartbeat_ends_drain\<close>.)
\<close>

theorem drain_survives_reconnects:
  assumes ok: "presence_adapter_ok s" and inv: "quiet presence_adapter_ok sql_view inventory"
    and a: "find_agent i None (pa_db s) = Some a" "draining (ar_status a)"
    and calls: "list_all (\<lambda>c. \<not> is_timeouts c) calls"
  shows "map_option ar_status (find_agent i None (pa_db (fold (presence_perform sqlite_presence inventory limits) calls s))) =
    Some (ar_status a)"
  using sqlite.draining_history[OF inv ok calls, of i a limits] a by (auto simp: sql_view_def)

definition example_draining :: agent_record where
  "example_draining = example_agent\<lparr>ar_status := AgDraining\<rparr>"

definition example_heartbeat :: heartbeat where
  "example_heartbeat = \<lparr>hb_connection_id = ''c1'', hb_boot_id = ''b1'', hb_sequence_number = 2, hb_observed_at = 70,
     hb_observed_monotonic = Finite 70, hb_clock_offset = None\<rparr>"

definition example_limits :: presence_limits where
  "example_limits = \<lparr>pl_heartbeat_timeout = 45, pl_offline_timeout = 90\<rparr>"

theorem drain_survives_reconnects_witness:
  "map_option ar_status (find_agent ''a1'' None (pa_db (fold (presence_perform sqlite_presence None example_limits)
     [CallHeartbeat ''a1'' example_heartbeat, CallRegister example_draining example_request,
      CallDegrade ''a1'' ''c2'' ''b2'', CallDisconnect ''a1'' ''c2'' ''b2'' 80] (example_adapter example_draining)))) =
   Some AgDraining"
proof -
  have ok: "presence_adapter_ok (example_adapter example_draining)"
    by (rule example_adapter_ok) (simp_all add: example_draining_def example_agent_def agent_state_valid_def
        agent_timeline_valid_def agent_revocation_valid_def not_before_def given_after_def)
  have a: "find_agent ''a1'' None (pa_db (example_adapter example_draining)) = Some example_draining" by code_simp
  have d: "draining (ar_status example_draining)" "ar_status example_draining = AgDraining"
    by (simp_all add: example_draining_def)
  show ?thesis using drain_survives_reconnects[OF ok quiet_None a d(1), of
      "[CallHeartbeat ''a1'' example_heartbeat, CallRegister example_draining example_request,
        CallDegrade ''a1'' ''c2'' ''b2'', CallDisconnect ''a1'' ''c2'' ''b2'' 80]" example_limits]
    unfolding d(2) by simp
qed

text \<open>
  A heartbeat that is late, but not late enough for the agent to be taken offline: the timeout check
  degrades a draining agent, and its next heartbeat makes it available again.
\<close>

lemma late_heartbeat_ends_drain:
  "map_option ar_status (find_agent ''a1'' None (pa_db (fold (presence_perform sqlite_presence None example_limits)
     [CallTimeouts 60 (Finite 60), CallHeartbeat ''a1'' example_heartbeat] (example_adapter example_draining)))) =
   Some AgOnline"
  by code_simp

section \<open>A revoked agent that is still connected\<close>

text \<open>In the database no agent that is marked offline or degraded can be revoked.\<close>

lemma stored_agent_valid:
  "presence_adapter_ok s \<Longrightarrow> pv_agent (sql_view s) i = Some a \<Longrightarrow> agent_state_valid a"
  by (auto simp: sql_view_iff presence_adapter_ok_def fleet_ok_def agents_ok_def list_all_iff)

lemma revoked_not_written:
  assumes "agent_state_valid a" and "ar_status a = AgRevoked"
  shows "\<not> agent_state_valid (a\<lparr>ar_status := AgDegraded\<rparr>)" and "\<not> agent_state_valid (pt_agent (offline_transition a d now))"
  using assms by (simp_all add: agent_state_valid_def agent_revocation_valid_def offline_transition_def Let_def)

lemma revoked_check_fails:
  assumes s: "presence_adapter_ok s" and inv: "quiet presence_adapter_ok sql_view inventory"
    and run: "check_connection sqlite_presence inventory limits now m d trs s = (r, s')"
    and d: "pv_live (sql_view s) i = Some d" and a: "pv_agent (sql_view s) i = Some a" "ar_status a = AgRevoked"
    and late: "pl_heartbeat_timeout limits \<le> m - ac_last_activity d" "pl_heartbeat_timeout limits \<le> pl_offline_timeout limits"
  shows "(\<exists>e. r = Inl e) \<and> sql_view s' = sql_view s"
proof -
  have id: "ar_id a = i" using view_okD(7)[OF sql_view_ok[OF s] a(1)] .
  note no = revoked_not_written[OF stored_agent_valid[OF s a(1)] a(2)]
  show ?thesis
  proof (rule sqlite.check_cases[OF s inv run d a(1)], goal_cases)
    case (3)
    then show ?case using no(1) id stored_agent_valid[of s' i] by (simp add: spec_update_def)
  next
    case 4
    then show ?case using no(2) id stored_agent_valid[of s' i] by (simp add: spec_disconnect_def offline_transition_parts)
  qed (use late a(2) in auto)
qed

lemma revoked_loop_fails:
  assumes inv: "quiet presence_adapter_ok sql_view inventory"
    and late: "pl_heartbeat_timeout limits \<le> m - ac_last_activity d" "pl_heartbeat_timeout limits \<le> pl_offline_timeout limits"
    and a: "ar_status a = AgRevoked"
  shows "presence_adapter_ok s \<Longrightarrow> distinct (map (\<lambda>c. cn_agent_id (ac_connection c)) cs) \<Longrightarrow>
    \<forall>c \<in> set cs. pv_live (sql_view s) (cn_agent_id (ac_connection c)) = Some c \<Longrightarrow> d \<in> set cs \<Longrightarrow>
    cn_agent_id (ac_connection d) = i \<Longrightarrow> pv_agent (sql_view s) i = Some a \<Longrightarrow> pv_live (sql_view s) i = Some d \<Longrightarrow>
    foldM (check_connection sqlite_presence inventory limits now m) cs trs s = (r, s') \<Longrightarrow>
    (\<exists>e. r = Inl e) \<and> pv_agent (sql_view s') i = Some a \<and> pv_live (sql_view s') i = Some d \<and> presence_adapter_ok s'"
proof (induction cs arbitrary: s trs)
  case (Cons c cs)
  obtain r1 s1 where c: "check_connection sqlite_presence inventory limits now m c trs s = (r1, s1)" by fastforce
  note st = sqlite.check_step[OF Cons.prems(1) inv c, of "cn_agent_id (ac_connection c)"]
  show ?case
  proof (cases "c = d")
    case True
    then have "(\<exists>e. r1 = Inl e) \<and> sql_view s1 = sql_view s"
      using revoked_check_fails[OF Cons.prems(1) inv c _ _ a, of i] Cons.prems(6,7) late by simp
    then show ?thesis using Cons.prems(3,6-8) c st by (auto simp: run_bind)
  next
    case False
    then have "d \<in> set cs" using Cons.prems(4) by simp
    then have i: "i \<in> (\<lambda>c. cn_agent_id (ac_connection c)) ` set cs" using Cons.prems(5) by blast
    have "cn_agent_id (ac_connection c) \<notin> (\<lambda>c. cn_agent_id (ac_connection c)) ` set cs" using Cons.prems(2) by simp
    with i have other: "i \<noteq> cn_agent_id (ac_connection c)" by metis
    show ?thesis
    proof (cases r1)
      case (Inl e)
      then show ?thesis using Cons.prems(3,6-8) c st other by (auto simp: run_bind)
    next
      case (Inr trs1)
      have "\<forall>x \<in> set cs. pv_live (sql_view s1) (cn_agent_id (ac_connection x)) = Some x"
        using st Cons.prems(2,3) by (auto simp: image_iff)
      then show ?thesis
        using Cons.IH[of s1 trs1] Cons.prems(2-8) False st other c Inr by (simp add: run_bind)
    qed
  qed
qed simp

text \<open>
  C20: while an agent that has been revoked still has a live connection, every timeout check raises
  once the heartbeat of that connection is overdue, and leaves the agent and the connection as they
  are, so the next check fails as well: no check returns its transitions any more.
\<close>

theorem revoked_agent_blocks_timeout_checks:
  assumes ok: "presence_adapter_ok s" and inv: "quiet presence_adapter_ok sql_view inventory"
    and limits: "make_presence_limits hb off = Inr limits"
    and a: "find_agent i None (pa_db s) = Some a" "ar_status a = AgRevoked" and n: "find_live i (pa_db s) = Some n"
    and late: "0 \<le> m" "activity_of s (cn_id n) + pl_heartbeat_timeout limits \<le> m"
    and run: "check_timeouts sqlite_presence inventory limits now (Finite m) s = (r, s')"
  shows "(\<exists>e. r = Inl e) \<and> find_agent i None (pa_db s') = Some a \<and> find_live i (pa_db s') = Some n \<and>
    activity_of s' (cn_id n) = activity_of s (cn_id n) \<and> presence_adapter_ok s'"
proof -
  let ?d = "with_activity s n"
  have view: "pv_agent (sql_view s) i = Some a" "pv_live (sql_view s) i = Some ?d" using a n by (simp_all add: sql_view_def)
  have lim: "pl_heartbeat_timeout limits \<le> pl_offline_timeout limits"
    using limits by (auto simp: make_presence_limits_def split: reading.splits if_splits)
  obtain cs where cs: "pr_list_active_connections sqlite_presence s = (Inr cs, s)" "set cs = ran (pv_live (sql_view s))"
    "distinct (map (\<lambda>c. cn_agent_id (ac_connection c)) cs)" using sqlite.list_active[OF ok] by blast
  have live: "\<forall>c \<in> set cs. pv_live (sql_view s) (cn_agent_id (ac_connection c)) = Some c"
    using cs(2) view_okD(1)[OF sql_view_ok[OF ok]] by (auto simp: ran_def)
  have "?d \<in> set cs" using cs(2) view(2) by (auto simp: ran_def)
  moreover have "cn_agent_id (ac_connection ?d) = i" using view_okD(1)[OF sql_view_ok[OF ok] view(2)] .
  moreover have "foldM (check_connection sqlite_presence inventory limits now m) cs [] s = (r, s')"
    using run cs(1) late(1) by (simp add: check_timeouts_def run_bind run_liftE validate_monotonic_def)
  moreover have "pl_heartbeat_timeout limits \<le> m - ac_last_activity ?d" using late(2) by (simp add: with_activity_def)
  ultimately have "(\<exists>e. r = Inl e) \<and> pv_agent (sql_view s') i = Some a \<and> pv_live (sql_view s') i = Some ?d \<and> presence_adapter_ok s'"
    using revoked_loop_fails[OF inv _ lim a(2) ok cs(3) live _ _ view(1,2)] by blast
  then show ?thesis by (auto simp: sql_view_def with_activity_def)
qed

definition example_revoked :: agent_record where
  "example_revoked = example_agent\<lparr>ar_status := AgRevoked, ar_enrollment_status := EnrRevoked, ar_revoked_at := Some 30\<rparr>"

theorem revoked_agent_blocks_timeout_checks_witness:
  "(\<exists>e. fst (check_timeouts sqlite_presence None example_limits 60 (Finite 60) (example_adapter example_revoked)) = Inl e) \<and>
   find_live ''a1'' (pa_db (snd (check_timeouts sqlite_presence None example_limits 60 (Finite 60)
     (example_adapter example_revoked)))) = Some example_connection"
proof -
  let ?s = "example_adapter example_revoked"
  have ok: "presence_adapter_ok ?s"
    by (rule example_adapter_ok) (simp_all add: example_revoked_def example_agent_def agent_state_valid_def
        agent_timeline_valid_def agent_revocation_valid_def not_before_def given_after_def)
  have limits: "make_presence_limits (Finite 45) (Finite 90) = Inr example_limits"
    by (simp add: make_presence_limits_def example_limits_def)
  have a: "find_agent ''a1'' None (pa_db ?s) = Some example_revoked" "ar_status example_revoked = AgRevoked" by code_simp+
  have n: "find_live ''a1'' (pa_db ?s) = Some example_connection" by code_simp
  have late: "(0 :: int) \<le> 60" "activity_of ?s (cn_id example_connection) + pl_heartbeat_timeout example_limits \<le> 60" by code_simp+
  obtain r s' where run: "check_timeouts sqlite_presence None example_limits 60 (Finite 60) ?s = (r, s')" by fastforce
  show ?thesis
    using revoked_agent_blocks_timeout_checks[OF ok quiet_None limits a n late run] unfolding run by simp
qed

section \<open>The in-memory repository\<close>

lemma mem_new_ok:
  assumes "mem_new agents empty_presence = (Inr (), m)" and "list_all agent_state_valid agents"
  shows "presence_memory_ok m \<and> agents_valid (mem_view m)"
proof -
  have step: "presence_memory_ok x \<and> agents_valid (mem_view x) \<and> pm_active x = [] \<and> pm_connections x = [] \<Longrightarrow>
      foldM (\<lambda>a _. mem_insert_agent a) as () x = (Inr (), y) \<Longrightarrow> list_all agent_state_valid as \<Longrightarrow>
      presence_memory_ok y \<and> agents_valid (mem_view y)" for as x y
  proof (induction as arbitrary: x)
    case Nil
    then show ?case by (simp add: run_return)
  next
    case (Cons a as)
    let ?x = "x\<lparr>pm_agents := dict_set (ar_id a) a (pm_agents x), pm_slugs := dict_set (ar_slug a) (ar_id a) (pm_slugs x)\<rparr>"
    have "mem_insert_agent a x = (Inr (), ?x) \<or> (\<exists>e. mem_insert_agent a x = (Inl e, x))"
      by (auto simp: mem_insert_agent_def run_bind run_gets run_raise run_modify require_same_agent_identity_def run_return
          split: option.splits)
    then have ins: "mem_insert_agent a x = (Inr (), ?x)" using Cons.prems(2) by (auto simp: run_bind)
    then have rest: "foldM (\<lambda>a _. mem_insert_agent a) as () ?x = (Inr (), y)"
      using Cons.prems(2) by (simp add: run_bind)
    have live: "mem_active x i = None" for i using Cons.prems(1) by (simp add: mem_active_def)
    have "ar_id b = i" if "map_of (pm_agents x) i = Some b" for i b
      using view_okD(7)[OF mem_okD(1), of x i b] Cons.prems(1) that by (simp add: mem_view_simps)
    then have "view_ok (mem_view ?x)"
      using Cons.prems(1) by (auto simp: view_ok_def mem_view_def dict_set_map_of mem_active_def)
    then have "presence_memory_ok ?x" using Cons.prems(1) by (simp add: presence_memory_ok_def)
    moreover have "agents_valid (mem_view ?x)"
      using Cons.prems(1,3) live by (auto simp: agents_valid_def mem_view_def dict_set_map_of mem_active_def)
    ultimately show ?case using Cons.IH[OF _ rest] Cons.prems(1,3) by simp
  qed
  show ?thesis
    by (rule step[OF _ assms(1)[unfolded mem_new_def] assms(2)])
      (simp add: empty_presence_def presence_memory_ok_def view_ok_def mem_view_def mem_active_def agents_valid_def)
qed

text \<open>
  C39: the records that the service copies and writes without validation satisfy the validators of
  the model after any history of calls, keep their registration, and their clock never goes back.
\<close>

theorem unvalidated_copies_stay_valid:
  assumes new: "mem_new agents empty_presence = (Inr (), m)" and valid: "list_all agent_state_valid agents"
    and inv: "quiet presence_memory_ok mem_view inventory"
    and m1: "m1 = fold (presence_perform memory_presence inventory limits) calls m"
    and m2: "m2 = fold (presence_perform memory_presence inventory limits) calls' m1"
    and a: "map_of (pm_agents m1) i = Some a"
  shows "agent_state_valid a \<and> (\<exists>a'. map_of (pm_agents m2) i = Some a' \<and> agent_state_valid a' \<and> same_registration a a' \<and>
    last_known_time a \<le> last_known_time a')"
proof -
  note start = mem_new_ok[OF new valid]
  note h1 = memory.history_steps[OF inv start[THEN conjunct1], of limits calls, folded m1]
  note h2 = memory.history_steps[OF inv h1[THEN conjunct1], of limits calls', folded m2]
  have ok: "view_ok (mem_view m)" "view_ok (mem_view m1)" using start h1 by (simp_all add: mem_okD(1))
  have v1: "agents_valid (mem_view m1)" using steps_keep(2)[OF h1[THEN conjunct2] ok(1)] start by simp
  have v2: "agents_valid (mem_view m2)" using steps_keep(2)[OF h2[THEN conjunct2] ok(2) v1] .
  have a': "pv_agent (mem_view m1) i = Some a" using a by (simp add: mem_view_simps)
  obtain b where "pv_agent (mem_view m2) i = Some b" "same_registration a b" "last_known_time a \<le> last_known_time b"
    using steps_keep(4)[OF h2[THEN conjunct2] ok(2) a'] by blast
  then show ?thesis using agents_validD(1)[OF v1 a'] agents_validD(1)[OF v2] by (simp add: mem_view_simps)
qed

theorem unvalidated_copies_stay_valid_witness:
  "\<exists>a'. map_of (pm_agents (fold (presence_perform memory_presence None example_limits)
      [CallTimeouts 99 (Finite 99)] (snd (register_authenticated_connection memory_presence example_agent example_request
        (snd (mem_new [example_agent] empty_presence)))))) ''a1'' = Some a' \<and> agent_state_valid a' \<and> 1 \<le> last_known_time a'"
proof -
  let ?m = "snd (mem_new [example_agent] empty_presence)"
  let ?calls = "[CallRegister example_agent example_request]"
  have new: "mem_new [example_agent] empty_presence = (Inr (), ?m)" by code_simp
  have valid: "list_all agent_state_valid [example_agent]" by code_simp
  obtain a where a: "map_of (pm_agents (fold (presence_perform memory_presence None example_limits) ?calls ?m)) ''a1'' = Some a"
    "last_known_time a = 5"
  proof -
    have "map_option last_known_time (map_of (pm_agents (fold (presence_perform memory_presence None example_limits) ?calls ?m)) ''a1'') = Some 5"
      by code_simp
    then show thesis using that by auto
  qed
  show ?thesis
    using unvalidated_copies_stay_valid[OF new valid quiet_None refl refl a(1), of "[CallTimeouts 99 (Finite 99)]"] a(2) by auto
qed

end
