(* ===== verification/IdentityModels.thy ===== *)
theory IdentityModels
  imports AgentModels
begin

text \<open>
  The models of \<open>models/identity.py\<close>: organisations, users, teams, service accounts, role assignments,
  sessions, credentials, access policies and audit events, with the checks their constructors run.
  \<open>model_copy\<close> runs no check. The redaction of audit text by regular expressions is not modelled;
  where it matters it is an argument. Timestamps are aware, so converting them to UTC never fails.
\<close>

section \<open>Enumerations\<close>

datatype organisation_status = OrgActive | OrgSuspended | OrgArchived

datatype user_status = UserActive | UserDisabled | UserLocked | UserDeleted

datatype authentication_source = LocalSource | OidcSource

datatype account_status = AccountActive | AccountDisabled | AccountRevoked

datatype organisation_role = OrgOwner | OrgAdmin | OrgMember | OrgViewer

datatype team_role = TeamManager | TeamMember | TeamViewer

datatype role_name =
  OrganisationOwner | OrganisationAdmin | LabAdmin | Operator | WorkflowRunner | Reserver | Viewer | Auditor

datatype role_subject_type = SubjectUser | SubjectServiceAccount | SubjectTeam

datatype resource_type = OrganisationResource | AgentResource | BenchResource | WorkflowResource

datatype audit_outcome = AuditSucceeded | AuditFailed | AuditDenied

datatype bench_visibility = BenchPrivate | BenchOrganisation | BenchRestricted

datatype workflow_visibility = WorkflowOrganisation | WorkflowRestricted | WorkflowAdminOnly

fun resource_type_value :: "resource_type \<Rightarrow> string" where
  "resource_type_value OrganisationResource = ''ORGANISATION''"
| "resource_type_value AgentResource = ''AGENT''"
| "resource_type_value BenchResource = ''BENCH''"
| "resource_type_value WorkflowResource = ''WORKFLOW''"

section \<open>Organisations, users, teams and service accounts\<close>

record organisation =
  og_id :: uuid
  og_slug :: string
  og_name :: string
  og_status :: organisation_status
  og_created_at :: time
  og_updated_at :: time

record user =
  us_id :: uuid
  us_organisation_id :: uuid
  us_username :: string
  us_display_name :: string
  us_email :: "string option"
  us_status :: user_status
  us_source :: authentication_source
  us_created_at :: time
  us_updated_at :: time
  us_last_login_at :: "time option"

record password_credential =
  pw_user_id :: uuid
  pw_hash :: string
  pw_created_at :: time
  pw_updated_at :: time

record service_account =
  sa_id :: uuid
  sa_organisation_id :: uuid
  sa_name :: string
  sa_description :: "string option"
  sa_status :: account_status
  sa_created_at :: time
  sa_updated_at :: time
  sa_last_used_at :: "time option"

record principal =
  pn_id :: uuid
  pn_type :: principal_type
  pn_organisation_id :: uuid
  pn_display_name :: string

record organisation_membership =
  om_id :: uuid
  om_organisation_id :: uuid
  om_user_id :: uuid
  om_role :: organisation_role
  om_created_at :: time

record team =
  tm_id :: uuid
  tm_organisation_id :: uuid
  tm_slug :: string
  tm_name :: string
  tm_description :: "string option"
  tm_created_at :: time
  tm_updated_at :: time

record team_membership =
  tw_id :: uuid
  tw_team_id :: uuid
  tw_user_id :: uuid
  tw_role :: team_role
  tw_created_at :: time

section \<open>Roles and policies\<close>

record role_assignment =
  ra_id :: uuid
  ra_organisation_id :: uuid
  ra_subject_type :: role_subject_type
  ra_subject_id :: uuid
  ra_role :: role_name
  ra_resource_type :: resource_type
  ra_resource_id :: string
  ra_created_by :: uuid
  ra_created_at :: time
  ra_expires_at :: "time option"

record authorisation_resource =
  az_type :: resource_type
  az_id :: string
  az_organisation_id :: uuid
  az_parent_agent_id :: "uuid option"

record bench_policy =
  bp_bench_id :: string
  bp_visibility :: bench_visibility
  bp_reservation_role :: "role_name option"
  bp_operation_role :: "role_name option"
  bp_allowed_team_ids :: "uuid set"

record workflow_policy =
  wk_workflow_id :: string
  wk_visibility :: workflow_visibility

section \<open>Sessions and credentials\<close>

record user_session =
  ss_id :: uuid
  ss_user_id :: uuid
  ss_organisation_id :: uuid
  ss_secret_hash :: string
  ss_created_at :: time
  ss_expires_at :: time
  ss_maximum_expires_at :: time
  ss_last_seen_at :: time
  ss_revoked_at :: "time option"
  ss_user_agent :: "string option"
  ss_ip_address :: "string option"

text \<open>\<open>validate_lifetime\<close>.\<close>

definition session_lifetime_valid :: "user_session \<Rightarrow> bool" where
  "session_lifetime_valid s \<longleftrightarrow> ss_created_at s < ss_expires_at s \<and> ss_expires_at s \<le> ss_maximum_expires_at s \<and>
     ss_created_at s \<le> ss_last_seen_at s \<and> ss_last_seen_at s \<le> ss_maximum_expires_at s \<and>
     not_before (ss_created_at s) (ss_revoked_at s)"

definition session_fields_valid :: "user_session \<Rightarrow> bool" where
  "session_fields_valid s \<longleftrightarrow> length (ss_secret_hash s) = 64 \<and> optional_sized 1000 (ss_user_agent s) \<and>
     optional_sized 64 (ss_ip_address s)"

text \<open>The first argument redacts and truncates audit text (\<open>sanitize_user_agent\<close>).\<close>

definition make_user_session :: "(nat \<Rightarrow> string \<Rightarrow> string) \<Rightarrow> user_session \<Rightarrow> error + user_session" where
  "make_user_session audit_text s =
     (let s' = s\<lparr>ss_secret_hash := trim (ss_secret_hash s),
                 ss_user_agent := map_option (\<lambda>t. trim (audit_text 1000 t)) (ss_user_agent s),
                 ss_ip_address := map_option trim (ss_ip_address s)\<rparr>
      in if session_fields_valid s' \<and> session_lifetime_valid s' then Inr s' else Inl ValueError)"

record api_credential =
  ap_id :: uuid
  ap_organisation_id :: uuid
  ap_principal_id :: uuid
  ap_principal_type :: principal_type
  ap_name :: string
  ap_secret_hash :: string
  ap_created_at :: time
  ap_expires_at :: "time option"
  ap_revoked_at :: "time option"
  ap_last_used_at :: "time option"
  ap_allowed_ip_ranges :: "string list"
  ap_permission_restrictions :: "string set option"

text \<open>\<open>ApiCredential.validate_expiry\<close>; the table \<open>api_credentials\<close> checks the same.\<close>

definition api_credential_times_valid :: "api_credential \<Rightarrow> bool" where
  "api_credential_times_valid c \<longleftrightarrow>
     (case ap_expires_at c of None \<Rightarrow> True | Some e \<Rightarrow> ap_created_at c < e) \<and>
     not_before (ap_created_at c) (ap_revoked_at c) \<and> not_before (ap_created_at c) (ap_last_used_at c)"

text \<open>The first argument is \<open>str(ipaddress.ip_network(value, strict=False))\<close>, \<open>None\<close> where it raises.\<close>

definition make_api_credential :: "(string \<Rightarrow> string option) \<Rightarrow> api_credential \<Rightarrow> error + api_credential" where
  "make_api_credential ip_network c =
     (let c' = c\<lparr>ap_name := trim (ap_name c), ap_secret_hash := trim (ap_secret_hash c),
                 ap_permission_restrictions := map_option (\<lambda>s. trim ` s) (ap_permission_restrictions c)\<rparr>;
          ranges = map (\<lambda>r. ip_network (trim r)) (ap_allowed_ip_ranges c)
      in if sized 1 200 (ap_name c') \<and> length (ap_secret_hash c') = 64 \<and> length ranges \<le> 64 \<and>
            None \<notin> set ranges \<and> api_credential_times_valid c'
         then Inr (c'\<lparr>ap_allowed_ip_ranges := map the ranges\<rparr>) else Inl ValueError)"

record authentication_context =
  au_principal :: principal
  au_session_id :: "uuid option"
  au_credential_id :: "uuid option"
  au_permission_restrictions :: "string set option"

record audit_event =
  ae_id :: uuid
  ae_organisation_id :: uuid
  ae_timestamp :: time
  ae_actor_type :: "principal_type option"
  ae_actor_id :: "uuid option"
  ae_actor_display_name :: "string option"
  ae_action :: string
  ae_resource_type :: string
  ae_resource_id :: "string option"
  ae_outcome :: audit_outcome
  ae_request_id :: "uuid option"
  ae_source_ip :: "string option"
  ae_user_agent :: "string option"
  ae_reason :: "string option"
  ae_metadata :: payload

record login_attempt =
  la_id :: uuid
  la_organisation_slug :: string
  la_username :: string
  la_ip_address :: "string option"
  la_attempted_at :: time
  la_succeeded :: bool

text \<open>\<open>normalize_identity\<close>: what \<open>str.strip().casefold()\<close> makes of a name.\<close>

definition normalize_identity :: "string \<Rightarrow> string" where
  "normalize_identity s = py_casefold (py_strip s)"

definition make_login_attempt :: "login_attempt \<Rightarrow> error + login_attempt" where
  "make_login_attempt a =
     (let a' = a\<lparr>la_organisation_slug := trim (normalize_identity (la_organisation_slug a)),
                 la_username := trim (normalize_identity (la_username a)),
                 la_ip_address := map_option trim (la_ip_address a)\<rparr>
      in if sized 1 100 (la_organisation_slug a') \<and> sized 1 100 (la_username a') \<and>
            optional_sized 64 (la_ip_address a')
         then Inr a' else Inl ValueError)"

definition user_principal :: "user \<Rightarrow> principal" where
  "user_principal u = \<lparr>pn_id = us_id u, pn_type = PrincipalUser, pn_organisation_id = us_organisation_id u,
     pn_display_name = us_display_name u\<rparr>"

end
