(* ===== verification/IdentityStore.thy ===== *)
theory IdentityStore
  imports IdentityModels FleetStore
begin

text \<open>
  The identity tables of \<open>persistence/migrations.py\<close> (\<open>_create_phase6_identity_tables\<close>) with their unique
  indexes, checks and foreign keys. A table is a \<open>db_table\<close>: how its rows are read and written in the
  database, and which rows its constraints allow. A statement that violates a constraint raises
  \<open>IntegrityError\<close> and writes nothing; \<open>identity_ok\<close> is what the constraints guarantee.
\<close>

section \<open>The database\<close>

record identity_db =
  id_organisations :: "organisation list"
  id_users :: "user list"
  id_passwords :: "password_credential list"
  id_memberships :: "organisation_membership list"
  id_teams :: "team list"
  id_team_members :: "team_membership list"
  id_accounts :: "service_account list"
  id_sessions :: "user_session list"
  id_credentials :: "api_credential list"
  id_assignments :: "role_assignment list"
  id_bench_policies :: "(uuid \<times> bench_policy) list"
  id_workflow_policies :: "(uuid \<times> workflow_policy) list"
  id_audit :: "audit_event list"
  id_attempts :: "login_attempt list"

definition empty_identity :: identity_db where
  "empty_identity = \<lparr>id_organisations = [], id_users = [], id_passwords = [], id_memberships = [], id_teams = [],
     id_team_members = [], id_accounts = [], id_sessions = [], id_credentials = [], id_assignments = [],
     id_bench_policies = [], id_workflow_policies = [], id_audit = [], id_attempts = []\<rparr>"

section \<open>Constraints\<close>

definition organisations_ok :: "organisation list \<Rightarrow> bool" where
  "organisations_ok rows \<longleftrightarrow> distinct (map og_id rows) \<and> distinct (map og_slug rows) \<and>
     list_all (\<lambda>o'. og_created_at o' \<le> og_updated_at o') rows"

definition users_ok :: "uuid set \<Rightarrow> user list \<Rightarrow> bool" where
  "users_ok orgs rows \<longleftrightarrow> distinct (map us_id rows) \<and>
     distinct (map (\<lambda>u. (us_organisation_id u, nocase (us_username u))) rows) \<and>
     list_all (\<lambda>u. us_organisation_id u \<in> orgs \<and> us_created_at u \<le> us_updated_at u \<and>
       not_before (us_created_at u) (us_last_login_at u)) rows"

definition passwords_ok :: "uuid set \<Rightarrow> password_credential list \<Rightarrow> bool" where
  "passwords_ok users rows \<longleftrightarrow> distinct (map pw_user_id rows) \<and>
     list_all (\<lambda>p. 32 \<le> length (pw_hash p) \<and> pw_created_at p \<le> pw_updated_at p \<and> pw_user_id p \<in> users) rows"

definition memberships_ok :: "uuid set \<Rightarrow> uuid set \<Rightarrow> organisation_membership list \<Rightarrow> bool" where
  "memberships_ok orgs users rows \<longleftrightarrow> distinct (map om_id rows) \<and>
     distinct (map (\<lambda>m. (om_organisation_id m, om_user_id m)) rows) \<and>
     list_all (\<lambda>m. om_organisation_id m \<in> orgs \<and> om_user_id m \<in> users) rows"

definition teams_ok :: "uuid set \<Rightarrow> team list \<Rightarrow> bool" where
  "teams_ok orgs rows \<longleftrightarrow> distinct (map tm_id rows) \<and>
     distinct (map (\<lambda>t. (tm_organisation_id t, nocase (tm_slug t))) rows) \<and>
     list_all (\<lambda>t. tm_organisation_id t \<in> orgs \<and> tm_created_at t \<le> tm_updated_at t) rows"

definition team_members_ok :: "uuid set \<Rightarrow> uuid set \<Rightarrow> team_membership list \<Rightarrow> bool" where
  "team_members_ok teams users rows \<longleftrightarrow> distinct (map tw_id rows) \<and>
     distinct (map (\<lambda>m. (tw_team_id m, tw_user_id m)) rows) \<and>
     list_all (\<lambda>m. tw_team_id m \<in> teams \<and> tw_user_id m \<in> users) rows"

definition accounts_ok :: "uuid set \<Rightarrow> service_account list \<Rightarrow> bool" where
  "accounts_ok orgs rows \<longleftrightarrow> distinct (map sa_id rows) \<and>
     distinct (map (\<lambda>a. (sa_organisation_id a, sa_name a)) rows) \<and>
     list_all (\<lambda>a. sa_organisation_id a \<in> orgs \<and> sa_created_at a \<le> sa_updated_at a \<and>
       not_before (sa_created_at a) (sa_last_used_at a)) rows"

definition sessions_ok :: "uuid set \<Rightarrow> uuid set \<Rightarrow> user_session list \<Rightarrow> bool" where
  "sessions_ok orgs users rows \<longleftrightarrow> distinct (map ss_id rows) \<and> distinct (map ss_secret_hash rows) \<and>
     list_all (\<lambda>s. sha256_text (ss_secret_hash s) \<and> ss_user_id s \<in> users \<and> ss_organisation_id s \<in> orgs \<and>
       ss_created_at s < ss_expires_at s \<and> ss_expires_at s \<le> ss_maximum_expires_at s \<and>
       ss_created_at s \<le> ss_last_seen_at s \<and> not_before (ss_created_at s) (ss_revoked_at s)) rows"

definition api_credentials_ok :: "uuid set \<Rightarrow> api_credential list \<Rightarrow> bool" where
  "api_credentials_ok orgs rows \<longleftrightarrow> distinct (map ap_id rows) \<and> distinct (map ap_secret_hash rows) \<and>
     list_all (\<lambda>c. sha256_text (ap_secret_hash c) \<and> ap_organisation_id c \<in> orgs \<and>
       api_credential_times_valid c) rows"

definition assignment_key ::
    "role_assignment \<Rightarrow> uuid \<times> role_subject_type \<times> uuid \<times> role_name \<times> resource_type \<times> string" where
  "assignment_key a = (ra_organisation_id a, ra_subject_type a, ra_subject_id a, ra_role a, ra_resource_type a,
     ra_resource_id a)"

definition assignments_ok :: "uuid set \<Rightarrow> role_assignment list \<Rightarrow> bool" where
  "assignments_ok orgs rows \<longleftrightarrow> distinct (map ra_id rows) \<and> distinct (map assignment_key rows) \<and>
     list_all (\<lambda>a. ra_organisation_id a \<in> orgs \<and>
       (case ra_expires_at a of None \<Rightarrow> True | Some e \<Rightarrow> ra_created_at a < e)) rows"

definition bench_policies_ok :: "uuid set \<Rightarrow> (uuid \<times> bench_policy) list \<Rightarrow> bool" where
  "bench_policies_ok orgs rows \<longleftrightarrow> distinct (map (\<lambda>(g, p). (g, bp_bench_id p)) rows) \<and>
     list_all (\<lambda>(g, p). g \<in> orgs) rows"

definition workflow_policies_ok :: "uuid set \<Rightarrow> (uuid \<times> workflow_policy) list \<Rightarrow> bool" where
  "workflow_policies_ok orgs rows \<longleftrightarrow> distinct (map (\<lambda>(g, p). (g, wk_workflow_id p)) rows) \<and>
     list_all (\<lambda>(g, p). g \<in> orgs) rows"

definition audit_ok :: "uuid set \<Rightarrow> audit_event list \<Rightarrow> bool" where
  "audit_ok orgs rows \<longleftrightarrow> distinct (map ae_id rows) \<and>
     list_all (\<lambda>e. ae_organisation_id e \<in> orgs \<and> (ae_actor_type e = None) = (ae_actor_id e = None)) rows"

definition attempts_ok :: "login_attempt list \<Rightarrow> bool" where
  "attempts_ok rows \<longleftrightarrow> distinct (map la_id rows)"

definition known_organisations :: "identity_db \<Rightarrow> uuid set" where
  "known_organisations d = og_id ` set (id_organisations d)"

definition known_users :: "identity_db \<Rightarrow> uuid set" where
  "known_users d = us_id ` set (id_users d)"

definition known_teams :: "identity_db \<Rightarrow> uuid set" where
  "known_teams d = tm_id ` set (id_teams d)"

definition identity_ok :: "identity_db \<Rightarrow> bool" where
  "identity_ok d \<longleftrightarrow> organisations_ok (id_organisations d) \<and> users_ok (known_organisations d) (id_users d) \<and>
     passwords_ok (known_users d) (id_passwords d) \<and>
     memberships_ok (known_organisations d) (known_users d) (id_memberships d) \<and> teams_ok (known_organisations d) (id_teams d) \<and>
     team_members_ok (known_teams d) (known_users d) (id_team_members d) \<and> accounts_ok (known_organisations d) (id_accounts d) \<and>
     sessions_ok (known_organisations d) (known_users d) (id_sessions d) \<and>
     api_credentials_ok (known_organisations d) (id_credentials d) \<and>
     assignments_ok (known_organisations d) (id_assignments d) \<and>
     bench_policies_ok (known_organisations d) (id_bench_policies d) \<and>
     workflow_policies_ok (known_organisations d) (id_workflow_policies d) \<and>
     audit_ok (known_organisations d) (id_audit d) \<and> attempts_ok (id_attempts d)"

section \<open>Statements\<close>

record ('d, 't) db_table =
  table_rows :: "'d \<Rightarrow> 't list"
  table_put :: "'t list \<Rightarrow> 'd \<Rightarrow> 'd"
  table_allows :: "'t list \<Rightarrow> 'd \<Rightarrow> bool"

definition insert_row :: "('d, 't) db_table \<Rightarrow> 't \<Rightarrow> ('d, unit) io" where
  "insert_row T r = bindM (getsM (table_rows T)) (\<lambda>rows.
     write_table (table_allows T) (table_put T) (rows @ [r]) ())"

definition update_row :: "('d, 't) db_table \<Rightarrow> ('t \<Rightarrow> bool) \<Rightarrow> ('t \<Rightarrow> 't) \<Rightarrow> ('d, int) io" where
  "update_row T P f = bindM (getsM (table_rows T)) (\<lambda>rows.
     write_table (table_allows T) (table_put T) (update_where P f rows) (rows_changed P rows))"

definition delete_row :: "('d, 't) db_table \<Rightarrow> ('t \<Rightarrow> bool) \<Rightarrow> ('d, int) io" where
  "delete_row T P = bindM (getsM (table_rows T)) (\<lambda>rows.
     write_table (table_allows T) (table_put T) (filter (\<lambda>r. \<not> P r) rows) (rows_changed P rows))"

text \<open>\<open>INSERT ... ON CONFLICT (key) DO UPDATE\<close>: the row with the key is changed, or the new one added.\<close>

definition upsert_row :: "('d, 't) db_table \<Rightarrow> ('t \<Rightarrow> 'k) \<Rightarrow> ('t \<Rightarrow> 't \<Rightarrow> 't) \<Rightarrow> 't \<Rightarrow> ('d, unit) io" where
  "upsert_row T key merge r = bindM (getsM (table_rows T)) (\<lambda>rows.
     write_table (table_allows T) (table_put T)
       (if key r \<in> key ` set rows then update_where (\<lambda>x. key x = key r) (merge r) rows else rows @ [r]) ())"

definition select_row :: "('d, 't) db_table \<Rightarrow> ('t \<Rightarrow> bool) \<Rightarrow> ('d, 't option) io" where
  "select_row T P = getsM (\<lambda>d. first_row (filter P (table_rows T d)))"

definition organisations_table :: "(identity_db, organisation) db_table" where
  "organisations_table = \<lparr>table_rows = id_organisations, table_put = (\<lambda>rows d. d\<lparr>id_organisations := rows\<rparr>),
     table_allows = (\<lambda>rows _. organisations_ok rows)\<rparr>"

definition users_table :: "(identity_db, user) db_table" where
  "users_table = \<lparr>table_rows = id_users, table_put = (\<lambda>rows d. d\<lparr>id_users := rows\<rparr>),
     table_allows = (\<lambda>rows d. users_ok (known_organisations d) rows)\<rparr>"

definition passwords_table :: "(identity_db, password_credential) db_table" where
  "passwords_table = \<lparr>table_rows = id_passwords, table_put = (\<lambda>rows d. d\<lparr>id_passwords := rows\<rparr>),
     table_allows = (\<lambda>rows d. passwords_ok (known_users d) rows)\<rparr>"

definition memberships_table :: "(identity_db, organisation_membership) db_table" where
  "memberships_table = \<lparr>table_rows = id_memberships, table_put = (\<lambda>rows d. d\<lparr>id_memberships := rows\<rparr>),
     table_allows = (\<lambda>rows d. memberships_ok (known_organisations d) (known_users d) rows)\<rparr>"

definition teams_table :: "(identity_db, team) db_table" where
  "teams_table = \<lparr>table_rows = id_teams, table_put = (\<lambda>rows d. d\<lparr>id_teams := rows\<rparr>),
     table_allows = (\<lambda>rows d. teams_ok (known_organisations d) rows)\<rparr>"

definition team_members_table :: "(identity_db, team_membership) db_table" where
  "team_members_table = \<lparr>table_rows = id_team_members, table_put = (\<lambda>rows d. d\<lparr>id_team_members := rows\<rparr>),
     table_allows = (\<lambda>rows d. team_members_ok (known_teams d) (known_users d) rows)\<rparr>"

definition accounts_table :: "(identity_db, service_account) db_table" where
  "accounts_table = \<lparr>table_rows = id_accounts, table_put = (\<lambda>rows d. d\<lparr>id_accounts := rows\<rparr>),
     table_allows = (\<lambda>rows d. accounts_ok (known_organisations d) rows)\<rparr>"

definition sessions_table :: "(identity_db, user_session) db_table" where
  "sessions_table = \<lparr>table_rows = id_sessions, table_put = (\<lambda>rows d. d\<lparr>id_sessions := rows\<rparr>),
     table_allows = (\<lambda>rows d. sessions_ok (known_organisations d) (known_users d) rows)\<rparr>"

definition credentials_table :: "(identity_db, api_credential) db_table" where
  "credentials_table = \<lparr>table_rows = id_credentials, table_put = (\<lambda>rows d. d\<lparr>id_credentials := rows\<rparr>),
     table_allows = (\<lambda>rows d. api_credentials_ok (known_organisations d) rows)\<rparr>"

definition assignments_table :: "(identity_db, role_assignment) db_table" where
  "assignments_table = \<lparr>table_rows = id_assignments, table_put = (\<lambda>rows d. d\<lparr>id_assignments := rows\<rparr>),
     table_allows = (\<lambda>rows d. assignments_ok (known_organisations d) rows)\<rparr>"

definition bench_policies_table :: "(identity_db, uuid \<times> bench_policy) db_table" where
  "bench_policies_table = \<lparr>table_rows = id_bench_policies, table_put = (\<lambda>rows d. d\<lparr>id_bench_policies := rows\<rparr>),
     table_allows = (\<lambda>rows d. bench_policies_ok (known_organisations d) rows)\<rparr>"

definition workflow_policies_table :: "(identity_db, uuid \<times> workflow_policy) db_table" where
  "workflow_policies_table = \<lparr>table_rows = id_workflow_policies, table_put = (\<lambda>rows d. d\<lparr>id_workflow_policies := rows\<rparr>),
     table_allows = (\<lambda>rows d. workflow_policies_ok (known_organisations d) rows)\<rparr>"

definition audit_table :: "(identity_db, audit_event) db_table" where
  "audit_table = \<lparr>table_rows = id_audit, table_put = (\<lambda>rows d. d\<lparr>id_audit := rows\<rparr>),
     table_allows = (\<lambda>rows d. audit_ok (known_organisations d) rows)\<rparr>"

definition attempts_table :: "(identity_db, login_attempt) db_table" where
  "attempts_table = \<lparr>table_rows = id_attempts, table_put = (\<lambda>rows d. d\<lparr>id_attempts := rows\<rparr>),
     table_allows = (\<lambda>rows d. attempts_ok rows)\<rparr>"

section \<open>What the statements keep\<close>

lemmas identity_tables =
  organisations_table_def users_table_def passwords_table_def memberships_table_def teams_table_def
  team_members_table_def accounts_table_def sessions_table_def credentials_table_def assignments_table_def
  bench_policies_table_def workflow_policies_table_def audit_table_def attempts_table_def

lemma wp_statements [wpM]:
  "wp (select_row T P) R E d = R (first_row (filter P (table_rows T d))) d"
  "wp (insert_row T r) Q E d = (let rows = table_rows T d @ [r]
     in if table_allows T rows d then Q () (table_put T rows d) else E IntegrityError d)"
  "wp (update_row T P f) Q' E d = (let rows = update_where P f (table_rows T d)
     in if table_allows T rows d then Q' (rows_changed P (table_rows T d)) (table_put T rows d) else E IntegrityError d)"
  "wp (delete_row T P) Q' E d = (let rows = filter (\<lambda>r. \<not> P r) (table_rows T d)
     in if table_allows T rows d then Q' (rows_changed P (table_rows T d)) (table_put T rows d) else E IntegrityError d)"
  "wp (upsert_row T key merge r) Q E d = (let old = table_rows T d;
       rows = (if key r \<in> key ` set old then update_where (\<lambda>x. key x = key r) (merge r) old else old @ [r])
     in if table_allows T rows d then Q () (table_put T rows d) else E IntegrityError d)"
  by (simp_all add: select_row_def insert_row_def update_row_def delete_row_def upsert_row_def wpM Let_def)

lemma identity_ids [simp]:
  "known_organisations (d\<lparr>id_users := us\<rparr>) = known_organisations d" "known_organisations (d\<lparr>id_teams := ts\<rparr>) = known_organisations d"
  "known_organisations (d\<lparr>id_passwords := ps\<rparr>) = known_organisations d" "known_users (d\<lparr>id_passwords := ps\<rparr>) = known_users d"
  "known_organisations (d\<lparr>id_memberships := ms\<rparr>) = known_organisations d" "known_users (d\<lparr>id_memberships := ms\<rparr>) = known_users d"
  "known_users (d\<lparr>id_teams := ts\<rparr>) = known_users d" "known_teams (d\<lparr>id_users := us\<rparr>) = known_teams d"
  "known_teams (d\<lparr>id_passwords := ps\<rparr>) = known_teams d" "known_teams (d\<lparr>id_memberships := ms\<rparr>) = known_teams d"
  "known_organisations (d\<lparr>id_team_members := bs\<rparr>) = known_organisations d" "known_users (d\<lparr>id_team_members := bs\<rparr>) = known_users d"
  "known_teams (d\<lparr>id_team_members := bs\<rparr>) = known_teams d" "known_organisations (d\<lparr>id_accounts := as\<rparr>) = known_organisations d"
  "known_users (d\<lparr>id_accounts := as\<rparr>) = known_users d" "known_teams (d\<lparr>id_accounts := as\<rparr>) = known_teams d"
  "known_organisations (d\<lparr>id_sessions := ss\<rparr>) = known_organisations d" "known_users (d\<lparr>id_sessions := ss\<rparr>) = known_users d"
  "known_teams (d\<lparr>id_sessions := ss\<rparr>) = known_teams d" "known_organisations (d\<lparr>id_credentials := cs\<rparr>) = known_organisations d"
  "known_users (d\<lparr>id_credentials := cs\<rparr>) = known_users d" "known_teams (d\<lparr>id_credentials := cs\<rparr>) = known_teams d"
  "known_organisations (d\<lparr>id_assignments := rs\<rparr>) = known_organisations d" "known_users (d\<lparr>id_assignments := rs\<rparr>) = known_users d"
  "known_teams (d\<lparr>id_assignments := rs\<rparr>) = known_teams d" "known_organisations (d\<lparr>id_bench_policies := bps\<rparr>) = known_organisations d"
  "known_users (d\<lparr>id_bench_policies := bps\<rparr>) = known_users d" "known_teams (d\<lparr>id_bench_policies := bps\<rparr>) = known_teams d"
  "known_organisations (d\<lparr>id_workflow_policies := wps\<rparr>) = known_organisations d"
  "known_users (d\<lparr>id_workflow_policies := wps\<rparr>) = known_users d" "known_teams (d\<lparr>id_workflow_policies := wps\<rparr>) = known_teams d"
  "known_organisations (d\<lparr>id_audit := es\<rparr>) = known_organisations d" "known_users (d\<lparr>id_audit := es\<rparr>) = known_users d"
  "known_teams (d\<lparr>id_audit := es\<rparr>) = known_teams d" "known_organisations (d\<lparr>id_attempts := ls\<rparr>) = known_organisations d"
  "known_users (d\<lparr>id_attempts := ls\<rparr>) = known_users d" "known_teams (d\<lparr>id_attempts := ls\<rparr>) = known_teams d"
  "known_organisations (d\<lparr>id_organisations := os\<rparr>) = og_id ` set os" "known_users (d\<lparr>id_organisations := os\<rparr>) = known_users d"
  "known_teams (d\<lparr>id_organisations := os\<rparr>) = known_teams d" "known_users (d\<lparr>id_users := us\<rparr>) = us_id ` set us"
  "known_teams (d\<lparr>id_teams := ts\<rparr>) = tm_id ` set ts"
  by (simp_all add: known_organisations_def known_users_def known_teams_def)

text \<open>Constraints that name users, teams or organisations hold when there are more of them.\<close>

lemma references_mono:
  "passwords_ok U ps \<Longrightarrow> U \<subseteq> U' \<Longrightarrow> passwords_ok U' ps"
  "memberships_ok G U ms \<Longrightarrow> G \<subseteq> G' \<Longrightarrow> U \<subseteq> U' \<Longrightarrow> memberships_ok G' U' ms"
  "team_members_ok T U bs \<Longrightarrow> T \<subseteq> T' \<Longrightarrow> U \<subseteq> U' \<Longrightarrow> team_members_ok T' U' bs"
  "sessions_ok G U ss \<Longrightarrow> G \<subseteq> G' \<Longrightarrow> U \<subseteq> U' \<Longrightarrow> sessions_ok G' U' ss"
  "users_ok G us \<Longrightarrow> G \<subseteq> G' \<Longrightarrow> users_ok G' us" "teams_ok G ts \<Longrightarrow> G \<subseteq> G' \<Longrightarrow> teams_ok G' ts"
  "accounts_ok G as \<Longrightarrow> G \<subseteq> G' \<Longrightarrow> accounts_ok G' as" "api_credentials_ok G cs \<Longrightarrow> G \<subseteq> G' \<Longrightarrow> api_credentials_ok G' cs"
  "assignments_ok G rs \<Longrightarrow> G \<subseteq> G' \<Longrightarrow> assignments_ok G' rs"
  "bench_policies_ok G bps \<Longrightarrow> G \<subseteq> G' \<Longrightarrow> bench_policies_ok G' bps"
  "workflow_policies_ok G wps \<Longrightarrow> G \<subseteq> G' \<Longrightarrow> workflow_policies_ok G' wps" "audit_ok G es \<Longrightarrow> G \<subseteq> G' \<Longrightarrow> audit_ok G' es"
  by (auto simp: passwords_ok_def memberships_ok_def team_members_ok_def sessions_ok_def users_ok_def teams_ok_def
      accounts_ok_def api_credentials_ok_def assignments_ok_def bench_policies_ok_def workflow_policies_ok_def
      audit_ok_def list_all_iff)

text \<open>A table nothing refers to may be written in any way its constraints allow.\<close>

definition leaf_table :: "(identity_db, 't) db_table \<Rightarrow> bool" where
  "leaf_table T \<longleftrightarrow> (\<forall>rows d. identity_ok d \<longrightarrow> table_allows T rows d \<longrightarrow> identity_ok (table_put T rows d))"

lemma leaf_tables [simp]:
  "leaf_table passwords_table" "leaf_table memberships_table" "leaf_table team_members_table"
  "leaf_table accounts_table" "leaf_table sessions_table" "leaf_table credentials_table" "leaf_table assignments_table"
  "leaf_table bench_policies_table" "leaf_table workflow_policies_table" "leaf_table audit_table" "leaf_table attempts_table"
  by (simp_all add: leaf_table_def identity_tables identity_ok_def)

named_theorems keeps_identity \<open>computations that keep the constraints of the identity tables\<close>

lemma keeps_leaf [keeps_identity]:
  "leaf_table T \<Longrightarrow> keeps identity_ok (insert_row T r)" "leaf_table T \<Longrightarrow> keeps identity_ok (update_row T P f)"
  "leaf_table T \<Longrightarrow> keeps identity_ok (delete_row T P)" "leaf_table T \<Longrightarrow> keeps identity_ok (upsert_row T key merge r)"
  by (auto simp: keeps_wp wpM leaf_table_def Let_def)

lemma keeps_select [keeps_identity]: "keeps J (select_row T P)"
  by (simp add: keeps_wp wpM)

lemma image_update_where: "(\<And>x. g (f x) = g x) \<Longrightarrow> g ` set (update_where P f rows) = g ` set rows"
  using update_where_map[of P g f rows] by (metis list.set_map)

lemma keeps_users [keeps_identity]:
  "keeps identity_ok (insert_row users_table u)"
  "(\<And>x. us_id (f x) = us_id x) \<Longrightarrow> keeps identity_ok (update_row users_table P f)"
proof -
  have put: "identity_ok (d\<lparr>id_users := us\<rparr>)"
    if "identity_ok d" "users_ok (known_organisations d) us" "known_users d \<subseteq> us_id ` set us" for d us
    using that by (auto simp: identity_ok_def intro: references_mono)
  show "keeps identity_ok (insert_row users_table u)"
    by (auto simp: keeps_wp wpM users_table_def known_users_def Let_def intro!: put)
  show "keeps identity_ok (update_row users_table P f)" if "\<And>x. us_id (f x) = us_id x"
    using image_update_where[of us_id f P] that
    by (simp add: keeps_wp wpM users_table_def Let_def put known_users_def)
qed

lemma keeps_organisations [keeps_identity]:
  "keeps identity_ok (insert_row organisations_table g)"
  "(\<And>x. og_id (h x) = og_id x) \<Longrightarrow> keeps identity_ok (update_row organisations_table P h)"
proof -
  have put: "identity_ok (d\<lparr>id_organisations := gs\<rparr>)"
    if "identity_ok d" "organisations_ok gs" "known_organisations d \<subseteq> og_id ` set gs" for d gs
    using that by (auto simp: identity_ok_def intro: references_mono)
  show "keeps identity_ok (insert_row organisations_table g)"
    by (auto simp: keeps_wp wpM organisations_table_def known_organisations_def Let_def intro!: put)
  show "keeps identity_ok (update_row organisations_table P h)" if "\<And>x. og_id (h x) = og_id x"
    using image_update_where[of og_id h P] that
    by (simp add: keeps_wp wpM organisations_table_def Let_def put known_organisations_def)
qed

end
