(* ===== verification/IdentityRepository.thy ===== *)
theory IdentityRepository
  imports IdentityStore
begin

text \<open>
  \<open>SQLiteIdentityRepository\<close> (\<open>persistence/identity.py\<close>): the reads and writes of the identity tables,
  each one transaction. The rows of a JSON column are read back sorted, as they were written. Every
  method keeps the constraints of the tables.
\<close>

section \<open>Organisations and users\<close>

text \<open>\<open>_require_updated\<close>, after the transaction has ended.\<close>

definition require_updated :: "int \<Rightarrow> ('d, unit) io" where
  "require_updated rowcount = (if rowcount \<noteq> 1 then raiseM LookupError else returnM ())"

definition require_limit :: "int \<Rightarrow> ('d, unit) io" where
  "require_limit n = (if n \<le> 0 then raiseM ValueError else returnM ())"

definition ir_create_organisation :: "organisation \<Rightarrow> (identity_db, organisation) io" where
  "ir_create_organisation g = bindM (transactionM (insert_row organisations_table g)) (\<lambda>_. returnM g)"

definition ir_get_organisation :: "uuid \<Rightarrow> (identity_db, organisation option) io" where
  "ir_get_organisation i = select_row organisations_table (\<lambda>g. og_id g = i)"

definition ir_get_organisation_by_slug :: "string \<Rightarrow> (identity_db, organisation option) io" where
  "ir_get_organisation_by_slug slug = select_row organisations_table (\<lambda>g. nocase (og_slug g) = nocase slug)"

definition ir_update_organisation :: "organisation \<Rightarrow> (identity_db, organisation) io" where
  "ir_update_organisation g =
     bindM (transactionM (update_row organisations_table (\<lambda>x. og_id x = og_id g)
       (\<lambda>x. g\<lparr>og_id := og_id x\<rparr>))) (\<lambda>rowcount.
       bindM (require_updated rowcount) (\<lambda>_. returnM g))"

definition ir_create_user :: "user \<Rightarrow> (identity_db, user) io" where
  "ir_create_user u = bindM (transactionM (insert_row users_table u)) (\<lambda>_. returnM u)"

definition ir_create_user_with_password ::
    "user \<Rightarrow> password_credential \<Rightarrow> organisation_membership \<Rightarrow> (identity_db, user) io" where
  "ir_create_user_with_password u p m =
     (if us_source u \<noteq> LocalSource then raiseM ValueError
      else if pw_user_id p \<noteq> us_id u then raiseM ValueError
      else if om_user_id m \<noteq> us_id u \<or> om_organisation_id m \<noteq> us_organisation_id u then raiseM ValueError
      else bindM (transactionM (bindM (insert_row users_table u) (\<lambda>_.
             bindM (insert_row passwords_table p) (\<lambda>_. insert_row memberships_table m)))) (\<lambda>_. returnM u))"

definition ir_create_user_with_membership :: "user \<Rightarrow> organisation_membership \<Rightarrow> (identity_db, user) io" where
  "ir_create_user_with_membership u m =
     (if us_source u \<noteq> OidcSource then raiseM ValueError
      else if om_user_id m \<noteq> us_id u \<or> om_organisation_id m \<noteq> us_organisation_id u then raiseM ValueError
      else bindM (transactionM (bindM (insert_row users_table u) (\<lambda>_. insert_row memberships_table m)))
        (\<lambda>_. returnM u))"

definition ir_get_user :: "uuid \<Rightarrow> uuid \<Rightarrow> (identity_db, user option) io" where
  "ir_get_user organisation_id i = select_row users_table (\<lambda>u. us_organisation_id u = organisation_id \<and> us_id u = i)"

definition ir_get_user_by_username :: "uuid \<Rightarrow> string \<Rightarrow> (identity_db, user option) io" where
  "ir_get_user_by_username organisation_id username =
     select_row users_table (\<lambda>u. us_organisation_id u = organisation_id \<and> nocase (us_username u) = nocase username)"

definition ir_list_users :: "uuid \<Rightarrow> user_status option \<Rightarrow> int \<Rightarrow> (identity_db, user list) io" where
  "ir_list_users organisation_id status limit =
     bindM (require_limit limit) (\<lambda>_.
       getsM (\<lambda>d. limit_rows limit (order_by (\<lambda>u. (us_username u, us_id u))
         (filter (\<lambda>u. us_organisation_id u = organisation_id \<and> (status = None \<or> status = Some (us_status u)))
            (id_users d)))))"

definition ir_update_user :: "user \<Rightarrow> (identity_db, user) io" where
  "ir_update_user u =
     bindM (transactionM (update_row users_table (\<lambda>x. us_organisation_id x = us_organisation_id u \<and> us_id x = us_id u)
       (\<lambda>x. u\<lparr>us_id := us_id x, us_organisation_id := us_organisation_id x\<rparr>))) (\<lambda>rowcount.
       bindM (require_updated rowcount) (\<lambda>_. returnM u))"

definition ir_create_password_credential :: "password_credential \<Rightarrow> (identity_db, password_credential) io" where
  "ir_create_password_credential p = bindM (transactionM (insert_row passwords_table p)) (\<lambda>_. returnM p)"

definition ir_set_password_credential :: "password_credential \<Rightarrow> (identity_db, password_credential) io" where
  "ir_set_password_credential p =
     bindM (transactionM (upsert_row passwords_table pw_user_id
       (\<lambda>new x. x\<lparr>pw_hash := pw_hash new, pw_updated_at := pw_updated_at new\<rparr>) p)) (\<lambda>_. returnM p)"

definition ir_get_password_credential :: "uuid \<Rightarrow> (identity_db, password_credential option) io" where
  "ir_get_password_credential user_id = getsM (\<lambda>d. first_row
     (filter (\<lambda>p. pw_user_id p = user_id \<and> user_id \<in> known_users d) (id_passwords d)))"

section \<open>Memberships and teams\<close>

definition require_user_in_organisation :: "uuid \<Rightarrow> uuid \<Rightarrow> (identity_db, unit) io" where
  "require_user_in_organisation organisation_id user_id =
     bindM (ir_get_user organisation_id user_id) (\<lambda>row. if row = None then raiseM ValueError else returnM ())"

definition require_team_in_organisation :: "uuid \<Rightarrow> uuid \<Rightarrow> (identity_db, unit) io" where
  "require_team_in_organisation organisation_id team_id =
     bindM (select_row teams_table (\<lambda>t. tm_organisation_id t = organisation_id \<and> tm_id t = team_id)) (\<lambda>row.
       if row = None then raiseM ValueError else returnM ())"

definition ir_create_organisation_membership ::
    "organisation_membership \<Rightarrow> (identity_db, organisation_membership) io" where
  "ir_create_organisation_membership m =
     bindM (transactionM (bindM (require_user_in_organisation (om_organisation_id m) (om_user_id m)) (\<lambda>_.
       insert_row memberships_table m))) (\<lambda>_. returnM m)"

definition ir_get_organisation_membership ::
    "uuid \<Rightarrow> uuid \<Rightarrow> (identity_db, organisation_membership option) io" where
  "ir_get_organisation_membership organisation_id user_id =
     select_row memberships_table (\<lambda>m. om_organisation_id m = organisation_id \<and> om_user_id m = user_id)"

definition ir_set_organisation_membership ::
    "organisation_membership \<Rightarrow> (identity_db, organisation_membership) io" where
  "ir_set_organisation_membership m =
     bindM (transactionM (bindM (require_user_in_organisation (om_organisation_id m) (om_user_id m)) (\<lambda>_.
       bindM (upsert_row memberships_table (\<lambda>x. (om_organisation_id x, om_user_id x))
         (\<lambda>new x. x\<lparr>om_role := om_role new\<rparr>) m) (\<lambda>_.
         ir_get_organisation_membership (om_organisation_id m) (om_user_id m))))) (\<lambda>row.
       case row of None \<Rightarrow> raiseM RuntimeError | Some x \<Rightarrow> returnM x)"

definition ir_list_organisation_memberships :: "uuid \<Rightarrow> (identity_db, organisation_membership list) io" where
  "ir_list_organisation_memberships organisation_id =
     getsM (\<lambda>d. order_by (\<lambda>m. (om_created_at m, om_id m))
       (filter (\<lambda>m. om_organisation_id m = organisation_id) (id_memberships d)))"

definition ir_count_organisation_owners :: "uuid \<Rightarrow> (identity_db, int) io" where
  "ir_count_organisation_owners organisation_id =
     getsM (\<lambda>d. rows_changed (\<lambda>m. om_organisation_id m = organisation_id \<and> om_role m = OrgOwner) (id_memberships d))"

definition ir_delete_organisation_membership :: "uuid \<Rightarrow> uuid \<Rightarrow> (identity_db, bool) io" where
  "ir_delete_organisation_membership organisation_id membership_id =
     bindM (transactionM (delete_row memberships_table
       (\<lambda>m. om_organisation_id m = organisation_id \<and> om_id m = membership_id))) (\<lambda>rowcount. returnM (rowcount = 1))"

definition ir_create_team :: "team \<Rightarrow> (identity_db, team) io" where
  "ir_create_team t = bindM (transactionM (insert_row teams_table t)) (\<lambda>_. returnM t)"

definition ir_get_team :: "uuid \<Rightarrow> uuid \<Rightarrow> (identity_db, team option) io" where
  "ir_get_team organisation_id team_id =
     select_row teams_table (\<lambda>t. tm_organisation_id t = organisation_id \<and> tm_id t = team_id)"

definition ir_get_team_by_slug :: "uuid \<Rightarrow> string \<Rightarrow> (identity_db, team option) io" where
  "ir_get_team_by_slug organisation_id slug =
     select_row teams_table (\<lambda>t. tm_organisation_id t = organisation_id \<and> nocase (tm_slug t) = nocase slug)"

definition ir_list_teams :: "uuid \<Rightarrow> int \<Rightarrow> (identity_db, team list) io" where
  "ir_list_teams organisation_id limit =
     bindM (require_limit limit) (\<lambda>_.
       getsM (\<lambda>d. limit_rows limit (order_by (\<lambda>t. (tm_slug t, tm_id t))
         (filter (\<lambda>t. tm_organisation_id t = organisation_id) (id_teams d)))))"

definition ir_update_team :: "team \<Rightarrow> (identity_db, team) io" where
  "ir_update_team t =
     bindM (transactionM (update_row teams_table (\<lambda>x. tm_organisation_id x = tm_organisation_id t \<and> tm_id x = tm_id t)
       (\<lambda>x. t\<lparr>tm_id := tm_id x, tm_organisation_id := tm_organisation_id x\<rparr>))) (\<lambda>rowcount.
       bindM (require_updated rowcount) (\<lambda>_. returnM t))"

text \<open>Deleting a team deletes its memberships (\<open>ON DELETE CASCADE\<close>).\<close>

definition ir_delete_team :: "uuid \<Rightarrow> uuid \<Rightarrow> (identity_db, bool) io" where
  "ir_delete_team organisation_id team_id =
     bindM (getsM (\<lambda>d. rows_changed (\<lambda>t. tm_organisation_id t = organisation_id \<and> tm_id t = team_id) (id_teams d)))
       (\<lambda>rowcount.
       bindM (modifyM (\<lambda>d. if rowcount = 0 then d else
           d\<lparr>id_teams := filter (\<lambda>t. \<not> (tm_organisation_id t = organisation_id \<and> tm_id t = team_id)) (id_teams d),
             id_team_members := filter (\<lambda>m. tw_team_id m \<noteq> team_id) (id_team_members d)\<rparr>)) (\<lambda>_.
         returnM (rowcount = 1)))"

definition ir_create_team_membership :: "uuid \<Rightarrow> team_membership \<Rightarrow> (identity_db, team_membership) io" where
  "ir_create_team_membership organisation_id m =
     bindM (transactionM (bindM (require_team_in_organisation organisation_id (tw_team_id m)) (\<lambda>_.
       bindM (require_user_in_organisation organisation_id (tw_user_id m)) (\<lambda>_.
         insert_row team_members_table m)))) (\<lambda>_. returnM m)"

definition team_in_organisation :: "uuid \<Rightarrow> uuid \<Rightarrow> identity_db \<Rightarrow> bool" where
  "team_in_organisation organisation_id team_id d \<longleftrightarrow>
     list_ex (\<lambda>t. tm_id t = team_id \<and> tm_organisation_id t = organisation_id) (id_teams d)"

definition ir_list_team_memberships :: "uuid \<Rightarrow> uuid \<Rightarrow> (identity_db, team_membership list) io" where
  "ir_list_team_memberships organisation_id team_id =
     getsM (\<lambda>d. order_by (\<lambda>m. (tw_created_at m, tw_id m))
       (filter (\<lambda>m. tw_team_id m = team_id \<and> team_in_organisation organisation_id team_id d) (id_team_members d)))"

definition ir_delete_team_membership :: "uuid \<Rightarrow> uuid \<Rightarrow> uuid \<Rightarrow> (identity_db, bool) io" where
  "ir_delete_team_membership organisation_id team_id user_id =
     bindM (getsM (team_in_organisation organisation_id team_id)) (\<lambda>own.
       bindM (transactionM (delete_row team_members_table
         (\<lambda>m. tw_team_id m = team_id \<and> tw_user_id m = user_id \<and> own))) (\<lambda>rowcount. returnM (rowcount = 1)))"

definition user_in_organisation :: "uuid \<Rightarrow> uuid \<Rightarrow> identity_db \<Rightarrow> bool" where
  "user_in_organisation organisation_id user_id d \<longleftrightarrow>
     list_ex (\<lambda>u. us_id u = user_id \<and> us_organisation_id u = organisation_id) (id_users d)"

definition ir_list_team_ids_for_user :: "uuid \<Rightarrow> uuid \<Rightarrow> (identity_db, uuid list) io" where
  "ir_list_team_ids_for_user organisation_id user_id =
     getsM (\<lambda>d. order_by id (map tw_team_id
       (filter (\<lambda>m. tw_user_id m = user_id \<and> team_in_organisation organisation_id (tw_team_id m) d \<and>
          user_in_organisation organisation_id user_id d) (id_team_members d))))"

section \<open>Service accounts and API credentials\<close>

definition ir_create_service_account :: "service_account \<Rightarrow> (identity_db, service_account) io" where
  "ir_create_service_account a = bindM (transactionM (insert_row accounts_table a)) (\<lambda>_. returnM a)"

definition ir_get_service_account :: "uuid \<Rightarrow> uuid \<Rightarrow> (identity_db, service_account option) io" where
  "ir_get_service_account organisation_id i =
     select_row accounts_table (\<lambda>a. sa_organisation_id a = organisation_id \<and> sa_id a = i)"

definition ir_list_service_accounts :: "uuid \<Rightarrow> int \<Rightarrow> (identity_db, service_account list) io" where
  "ir_list_service_accounts organisation_id limit =
     bindM (require_limit limit) (\<lambda>_.
       getsM (\<lambda>d. limit_rows limit (order_by (\<lambda>a. (sa_name a, sa_id a))
         (filter (\<lambda>a. sa_organisation_id a = organisation_id) (id_accounts d)))))"

definition write_service_account :: "service_account \<Rightarrow> (identity_db, int) io" where
  "write_service_account a =
     update_row accounts_table (\<lambda>x. sa_organisation_id x = sa_organisation_id a \<and> sa_id x = sa_id a)
       (\<lambda>x. a\<lparr>sa_id := sa_id x, sa_organisation_id := sa_organisation_id x\<rparr>)"

definition ir_update_service_account :: "service_account \<Rightarrow> (identity_db, service_account) io" where
  "ir_update_service_account a =
     bindM (transactionM (write_service_account a)) (\<lambda>rowcount.
       bindM (require_updated rowcount) (\<lambda>_. returnM a))"

text \<open>The live credentials of a principal.\<close>

definition live_credential_of :: "uuid \<Rightarrow> principal_type \<Rightarrow> uuid \<Rightarrow> api_credential \<Rightarrow> bool" where
  "live_credential_of organisation_id kind i c \<longleftrightarrow> ap_organisation_id c = organisation_id \<and>
     ap_principal_type c = kind \<and> ap_principal_id c = i \<and> ap_revoked_at c = None"

text \<open>The count of updated rows is looked at after the transaction has been committed.\<close>

definition ir_revoke_service_account_and_credentials ::
    "service_account \<Rightarrow> time \<Rightarrow> (identity_db, service_account \<times> api_credential list) io" where
  "ir_revoke_service_account_and_credentials a revoked_at =
     (let live = live_credential_of (sa_organisation_id a) PrincipalServiceAccount (sa_id a)
      in if sa_status a \<noteq> AccountRevoked then raiseM ValueError
         else bindM (transactionM (bindM (getsM (\<lambda>d. filter live (id_credentials d))) (\<lambda>rows.
                bindM (write_service_account a) (\<lambda>rowcount.
                  bindM (update_row credentials_table live (\<lambda>c. c\<lparr>ap_revoked_at := Some revoked_at\<rparr>)) (\<lambda>_.
                    returnM (rows, rowcount)))))) (\<lambda>(rows, rowcount).
           bindM (require_updated rowcount) (\<lambda>_.
             returnM (a, map (\<lambda>c. c\<lparr>ap_revoked_at := Some revoked_at\<rparr>) rows))))"

definition require_principal_in_organisation :: "uuid \<Rightarrow> principal_type \<Rightarrow> uuid \<Rightarrow> (identity_db, unit) io" where
  "require_principal_in_organisation organisation_id kind i =
     (case kind of
        PrincipalUser \<Rightarrow> require_user_in_organisation organisation_id i
      | PrincipalServiceAccount \<Rightarrow>
          bindM (ir_get_service_account organisation_id i) (\<lambda>row. if row = None then raiseM ValueError else returnM ()))"

definition stored_credential :: "api_credential \<Rightarrow> api_credential" where
  "stored_credential c = c\<lparr>ap_allowed_ip_ranges := sort (ap_allowed_ip_ranges c)\<rparr>"

definition ir_create_api_credential :: "api_credential \<Rightarrow> (identity_db, api_credential) io" where
  "ir_create_api_credential c =
     bindM (transactionM (bindM (require_principal_in_organisation (ap_organisation_id c) (ap_principal_type c)
         (ap_principal_id c)) (\<lambda>_.
       insert_row credentials_table (stored_credential c)))) (\<lambda>_. returnM c)"

definition ir_get_api_credential :: "uuid \<Rightarrow> uuid \<Rightarrow> (identity_db, api_credential option) io" where
  "ir_get_api_credential organisation_id i =
     select_row credentials_table (\<lambda>c. ap_organisation_id c = organisation_id \<and> ap_id c = i)"

definition ir_get_api_credential_by_id :: "uuid \<Rightarrow> (identity_db, api_credential option) io" where
  "ir_get_api_credential_by_id i = select_row credentials_table (\<lambda>c. ap_id c = i)"

definition ir_list_api_credentials :: "uuid \<Rightarrow> principal_type \<Rightarrow> uuid \<Rightarrow> (identity_db, api_credential list) io" where
  "ir_list_api_credentials organisation_id kind i =
     getsM (\<lambda>d. order_by (\<lambda>c. (- ap_created_at c, ap_id c))
       (filter (\<lambda>c. ap_organisation_id c = organisation_id \<and> ap_principal_type c = kind \<and> ap_principal_id c = i)
          (id_credentials d)))"

definition ir_update_api_credential :: "api_credential \<Rightarrow> (identity_db, api_credential) io" where
  "ir_update_api_credential c =
     bindM (transactionM (update_row credentials_table
       (\<lambda>x. ap_organisation_id x = ap_organisation_id c \<and> ap_id x = ap_id c)
       (\<lambda>x. (stored_credential c)\<lparr>ap_id := ap_id x, ap_organisation_id := ap_organisation_id x\<rparr>))) (\<lambda>rowcount.
       bindM (require_updated rowcount) (\<lambda>_. returnM c))"

section \<open>Sessions\<close>

definition ir_create_session :: "user_session \<Rightarrow> (identity_db, user_session) io" where
  "ir_create_session s =
     bindM (transactionM (bindM (require_user_in_organisation (ss_organisation_id s) (ss_user_id s)) (\<lambda>_.
       insert_row sessions_table s))) (\<lambda>_. returnM s)"

definition ir_get_session :: "uuid \<Rightarrow> (identity_db, user_session option) io" where
  "ir_get_session i = select_row sessions_table (\<lambda>s. ss_id s = i)"

definition ir_get_session_for_organisation :: "uuid \<Rightarrow> uuid \<Rightarrow> (identity_db, user_session option) io" where
  "ir_get_session_for_organisation organisation_id i =
     select_row sessions_table (\<lambda>s. ss_organisation_id s = organisation_id \<and> ss_id s = i)"

definition ir_list_sessions :: "uuid \<Rightarrow> uuid \<Rightarrow> (identity_db, user_session list) io" where
  "ir_list_sessions organisation_id user_id =
     getsM (\<lambda>d. order_by (\<lambda>s. (- ss_created_at s, ss_id s))
       (filter (\<lambda>s. ss_organisation_id s = organisation_id \<and> ss_user_id s = user_id) (id_sessions d)))"

definition ir_touch_session :: "uuid \<Rightarrow> string \<Rightarrow> time \<Rightarrow> (identity_db, bool) io" where
  "ir_touch_session i expected_secret_hash last_seen_at =
     bindM (transactionM (update_row sessions_table
       (\<lambda>s. ss_id s = i \<and> ss_secret_hash s = expected_secret_hash \<and> ss_revoked_at s = None \<and>
            ss_last_seen_at s < last_seen_at)
       (\<lambda>s. s\<lparr>ss_last_seen_at := last_seen_at\<rparr>))) (\<lambda>rowcount. returnM (rowcount = 1))"

definition ir_rotate_session ::
    "uuid \<Rightarrow> string \<Rightarrow> string \<Rightarrow> time \<Rightarrow> time \<Rightarrow> (identity_db, user_session option) io" where
  "ir_rotate_session i expected_secret_hash secret_hash expires_at last_seen_at =
     transactionM (bindM (update_row sessions_table
         (\<lambda>s. ss_id s = i \<and> ss_secret_hash s = expected_secret_hash \<and> ss_revoked_at s = None)
         (\<lambda>s. s\<lparr>ss_secret_hash := secret_hash, ss_expires_at := expires_at, ss_last_seen_at := last_seen_at\<rparr>)) (\<lambda>rowcount.
       if rowcount \<noteq> 1 then returnM None else ir_get_session i))"

definition ir_revoke_session :: "uuid \<Rightarrow> time \<Rightarrow> string option \<Rightarrow> (identity_db, user_session option) io" where
  "ir_revoke_session i revoked_at expected_secret_hash =
     transactionM (case expected_secret_hash of
        None \<Rightarrow>
          bindM (update_row sessions_table (\<lambda>s. ss_id s = i \<and> ss_revoked_at s = None)
            (\<lambda>s. s\<lparr>ss_revoked_at := Some revoked_at\<rparr>)) (\<lambda>_. ir_get_session i)
      | Some h \<Rightarrow>
          bindM (update_row sessions_table (\<lambda>s. ss_id s = i \<and> ss_secret_hash s = h \<and> ss_revoked_at s = None)
            (\<lambda>s. s\<lparr>ss_revoked_at := Some revoked_at\<rparr>)) (\<lambda>_.
            select_row sessions_table (\<lambda>s. ss_id s = i \<and> ss_secret_hash s = h)))"

section \<open>Role assignments, policies, audit events and login attempts\<close>

definition ir_create_role_assignment :: "role_assignment \<Rightarrow> (identity_db, role_assignment) io" where
  "ir_create_role_assignment a = bindM (transactionM (insert_row assignments_table a)) (\<lambda>_. returnM a)"

definition ir_get_role_assignment :: "uuid \<Rightarrow> uuid \<Rightarrow> (identity_db, role_assignment option) io" where
  "ir_get_role_assignment organisation_id i =
     select_row assignments_table (\<lambda>a. ra_organisation_id a = organisation_id \<and> ra_id a = i)"

text \<open>No subjects are no rows; \<open>None\<close> stands for all subjects.\<close>

definition ir_list_role_assignments ::
    "uuid \<Rightarrow> (role_subject_type \<times> uuid) set option \<Rightarrow> (identity_db, role_assignment list) io" where
  "ir_list_role_assignments organisation_id subjects =
     getsM (\<lambda>d. order_by (\<lambda>a. (ra_created_at a, ra_id a))
       (filter (\<lambda>a. ra_organisation_id a = organisation_id \<and>
          (case subjects of None \<Rightarrow> True | Some ss \<Rightarrow> (ra_subject_type a, ra_subject_id a) \<in> ss)) (id_assignments d)))"

definition ir_delete_role_assignment :: "uuid \<Rightarrow> uuid \<Rightarrow> (identity_db, bool) io" where
  "ir_delete_role_assignment organisation_id i =
     bindM (transactionM (delete_row assignments_table (\<lambda>a. ra_organisation_id a = organisation_id \<and> ra_id a = i)))
       (\<lambda>rowcount. returnM (rowcount = 1))"

definition ir_set_bench_access_policy :: "uuid \<Rightarrow> bench_policy \<Rightarrow> (identity_db, bench_policy) io" where
  "ir_set_bench_access_policy organisation_id p =
     bindM (transactionM (upsert_row bench_policies_table (\<lambda>(g, x). (g, bp_bench_id x)) (\<lambda>new old. new)
       (organisation_id, p))) (\<lambda>_. returnM p)"

definition ir_get_bench_access_policy :: "uuid \<Rightarrow> string \<Rightarrow> (identity_db, bench_policy option) io" where
  "ir_get_bench_access_policy organisation_id bench_id =
     bindM (select_row bench_policies_table (\<lambda>(g, p). g = organisation_id \<and> bp_bench_id p = bench_id)) (\<lambda>row.
       returnM (map_option snd row))"

definition ir_set_workflow_access_policy :: "uuid \<Rightarrow> workflow_policy \<Rightarrow> (identity_db, workflow_policy) io" where
  "ir_set_workflow_access_policy organisation_id p =
     bindM (transactionM (upsert_row workflow_policies_table (\<lambda>(g, x). (g, wk_workflow_id x)) (\<lambda>new old. new)
       (organisation_id, p))) (\<lambda>_. returnM p)"

definition ir_get_workflow_access_policy :: "uuid \<Rightarrow> string \<Rightarrow> (identity_db, workflow_policy option) io" where
  "ir_get_workflow_access_policy organisation_id workflow_id =
     bindM (select_row workflow_policies_table (\<lambda>(g, p). g = organisation_id \<and> wk_workflow_id p = workflow_id)) (\<lambda>row.
       returnM (map_option snd row))"

definition ir_create_audit_event :: "audit_event \<Rightarrow> (identity_db, audit_event) io" where
  "ir_create_audit_event e = bindM (transactionM (insert_row audit_table e)) (\<lambda>_. returnM e)"

definition ir_get_audit_event :: "uuid \<Rightarrow> uuid \<Rightarrow> (identity_db, audit_event option) io" where
  "ir_get_audit_event organisation_id i =
     select_row audit_table (\<lambda>e. ae_organisation_id e = organisation_id \<and> ae_id e = i)"

definition ir_record_login_attempt :: "login_attempt \<Rightarrow> (identity_db, login_attempt) io" where
  "ir_record_login_attempt a = bindM (transactionM (insert_row attempts_table a)) (\<lambda>_. returnM a)"

definition same_login :: "string \<Rightarrow> string \<Rightarrow> string option \<Rightarrow> login_attempt \<Rightarrow> bool" where
  "same_login slug username ip a \<longleftrightarrow> nocase (la_organisation_slug a) = nocase slug \<and>
     nocase (la_username a) = nocase username \<and> la_ip_address a = ip \<and> \<not> la_succeeded a"

definition ir_count_failed_login_attempts ::
    "string \<Rightarrow> string \<Rightarrow> string option \<Rightarrow> time \<Rightarrow> (identity_db, int) io" where
  "ir_count_failed_login_attempts slug username ip since =
     getsM (\<lambda>d. rows_changed (\<lambda>a. same_login slug username ip a \<and> since \<le> la_attempted_at a) (id_attempts d))"

definition ir_clear_failed_login_attempts :: "string \<Rightarrow> string \<Rightarrow> string option \<Rightarrow> (identity_db, unit) io" where
  "ir_clear_failed_login_attempts slug username ip =
     bindM (transactionM (delete_row attempts_table (same_login slug username ip))) (\<lambda>_. returnM ())"

end
