(* ===== verification/Authorisation.thy ===== *)
theory Authorisation
  imports IdentityRepository
begin

text \<open>
  Who may do what: \<open>core/authorisation.py\<close>. Permissions come from the role of a user in the
  organisation and from role assignments to the principal and its teams; access policies of benches and
  workflows narrow them. A request scope caches what has been read and decided. The service is written
  against protocols, so it is a function of records of operations over a store \<open>'s\<close>. The clock stands
  still during one call. A set of restrictions is its own sorted tuple in the key of the cache.
\<close>

section \<open>Permissions of the roles\<close>

definition ALL_PERMISSIONS :: "string set" where
  "ALL_PERMISSIONS = {''organisation:read'', ''organisation:manage'', ''users:read'', ''users:manage'',
     ''teams:read'', ''teams:manage'', ''roles:read'', ''roles:manage'', ''service_accounts:read'',
     ''service_accounts:manage'', ''credentials:create'', ''credentials:revoke'', ''agents:read'',
     ''agents:manage'', ''agents:drain'', ''benches:read'', ''benches:manage'', ''benches:reserve'',
     ''benches:operate'', ''benches:flash'', ''benches:reset'', ''benches:serial'', ''workflows:read'',
     ''workflows:run'', ''workflows:manage'', ''operations:read'', ''operations:cancel'', ''artifacts:read'',
     ''artifacts:write'', ''artifacts:delete'', ''ci:sessions:create'', ''ci:sessions:read'',
     ''ci:sessions:cancel'', ''audit:read''}"

fun ROLE_PERMISSIONS :: "role_name \<Rightarrow> string set" where
  "ROLE_PERMISSIONS OrganisationOwner = ALL_PERMISSIONS"
| "ROLE_PERMISSIONS OrganisationAdmin = ALL_PERMISSIONS - {''organisation:manage''}"
| "ROLE_PERMISSIONS LabAdmin = {''organisation:read'', ''agents:read'', ''agents:manage'', ''agents:drain'',
     ''benches:read'', ''benches:manage'', ''benches:reserve'', ''benches:operate'', ''benches:flash'',
     ''benches:reset'', ''benches:serial'', ''workflows:read'', ''workflows:run'', ''workflows:manage'',
     ''operations:read'', ''operations:cancel'', ''artifacts:read'', ''artifacts:write'', ''artifacts:delete'',
     ''ci:sessions:create'', ''ci:sessions:read'', ''ci:sessions:cancel'', ''audit:read''}"
| "ROLE_PERMISSIONS Operator = {''agents:read'', ''benches:read'', ''benches:reserve'', ''benches:operate'',
     ''benches:flash'', ''benches:reset'', ''benches:serial'', ''workflows:read'', ''workflows:run'',
     ''operations:read'', ''artifacts:read'', ''artifacts:write''}"
| "ROLE_PERMISSIONS WorkflowRunner = {''benches:read'', ''benches:operate'', ''workflows:read'',
     ''workflows:run'', ''operations:read'', ''artifacts:read'', ''artifacts:write'', ''ci:sessions:create'',
     ''ci:sessions:read'', ''ci:sessions:cancel''}"
| "ROLE_PERMISSIONS Reserver = {''benches:read'', ''benches:reserve''}"
| "ROLE_PERMISSIONS Viewer = {''benches:read'', ''operations:read''}"
| "ROLE_PERMISSIONS Auditor = {''organisation:read'', ''agents:read'', ''benches:read'', ''workflows:read'',
     ''operations:read'', ''audit:read''}"

fun ORGANISATION_ROLE_PERMISSIONS :: "organisation_role \<Rightarrow> string set" where
  "ORGANISATION_ROLE_PERMISSIONS OrgOwner = ALL_PERMISSIONS"
| "ORGANISATION_ROLE_PERMISSIONS OrgAdmin = ROLE_PERMISSIONS OrganisationAdmin"
| "ORGANISATION_ROLE_PERMISSIONS OrgMember = {''organisation:read''}"
| "ORGANISATION_ROLE_PERMISSIONS OrgViewer = {''organisation:read'', ''benches:read'', ''operations:read''}"

fun organisation_role_name :: "organisation_role \<Rightarrow> role_name option" where
  "organisation_role_name OrgOwner = Some OrganisationOwner"
| "organisation_role_name OrgAdmin = Some OrganisationAdmin"
| "organisation_role_name OrgMember = None"
| "organisation_role_name OrgViewer = Some Viewer"

section \<open>The service and its request cache\<close>

record authorisation_decision =
  ad_allowed :: bool
  ad_roles :: "role_name set"
  ad_permissions :: "string set"
  ad_granting_assignment_ids :: "uuid set"

type_synonym subject = "role_subject_type \<times> uuid"

record principal_access =
  pc_subjects :: "subject set"
  pc_organisation_role :: "organisation_role option"
  pc_team_ids :: "uuid set"
  pc_assignments :: "role_assignment list"

type_synonym decision_key =
  "uuid \<times> principal_type \<times> uuid \<times> string \<times> resource_type \<times> string \<times> uuid \<times> uuid option \<times> string set option"

record request_cache =
  ca_principals :: "((uuid \<times> principal_type \<times> uuid) \<times> principal_access) list"
  ca_bench_policies :: "((uuid \<times> string) \<times> bench_policy option) list"
  ca_workflow_policies :: "((uuid \<times> string) \<times> workflow_policy option) list"
  ca_decisions :: "(decision_key \<times> authorisation_decision) list"

definition empty_cache :: request_cache where
  "empty_cache = \<lparr>ca_principals = [], ca_bench_policies = [], ca_workflow_policies = [], ca_decisions = []\<rparr>"

record 's access_repository =
  xr_membership :: "uuid \<Rightarrow> uuid \<Rightarrow> ('s, organisation_membership option) io"
  xr_team_ids :: "uuid \<Rightarrow> uuid \<Rightarrow> ('s, uuid list) io"
  xr_assignments :: "uuid \<Rightarrow> subject set \<Rightarrow> ('s, role_assignment list) io"

record 's policy_repository =
  xp_bench_policy :: "uuid \<Rightarrow> string \<Rightarrow> ('s, bench_policy option) io"
  xp_workflow_policy :: "uuid \<Rightarrow> string \<Rightarrow> ('s, workflow_policy option) io"

record 's authorisation_service =
  as_repository :: "'s access_repository"
  as_policies :: "'s policy_repository option"
  as_audit :: "(audit_event \<Rightarrow> ('s, audit_event) io) option"
  as_default_visibility :: bench_visibility
  as_audit_enabled :: bool
  as_make_event :: "audit_event \<Rightarrow> error + audit_event"

record 's access_world =
  aw_store :: 's
  aw_now :: time
  aw_cache :: "request_cache option"

definition on_store :: "('s, 'a) io \<Rightarrow> ('s access_world, 'a) io" where
  "on_store m = zoomM aw_store (\<lambda>s w. w\<lparr>aw_store := s\<rparr>) m"

text \<open>
  \<open>request_scope\<close>: an empty cache for the body, and afterwards, even when it raised, what there was
  before.
\<close>

definition request_scope :: "('s access_world, 'a) io \<Rightarrow> ('s access_world, 'a) io" where
  "request_scope body = (\<lambda>w. let (r, w') = body (w\<lparr>aw_cache := Some empty_cache\<rparr>) in (r, w'\<lparr>aw_cache := aw_cache w\<rparr>))"

text \<open>The reading of one dictionary of the cache: answer from it, or compute and remember.\<close>

definition memo ::
    "(request_cache \<Rightarrow> ('k \<times> 'v) list) \<Rightarrow> (('k \<times> 'v) list \<Rightarrow> request_cache \<Rightarrow> request_cache) \<Rightarrow> 'k \<Rightarrow>
     ('s access_world, 'v) io \<Rightarrow> ('s access_world, 'v) io" where
  "memo get put k m =
     bindM (getsM aw_cache) (\<lambda>cache.
       case cache of
         None \<Rightarrow> m
       | Some c \<Rightarrow>
           (case map_of (get c) k of
              Some v \<Rightarrow> returnM v
            | None \<Rightarrow>
                bindM m (\<lambda>v.
                  bindM (modifyM (\<lambda>w. w\<lparr>aw_cache := map_option (\<lambda>x. put (dict_set k v (get x)) x) (aw_cache w)\<rparr>)) (\<lambda>_.
                    returnM v))))"

section \<open>Evaluating a permission\<close>

fun principal_subject_type :: "principal_type \<Rightarrow> role_subject_type" where
  "principal_subject_type PrincipalUser = SubjectUser"
| "principal_subject_type PrincipalServiceAccount = SubjectServiceAccount"

definition own_subject :: "principal \<Rightarrow> subject" where
  "own_subject p = (principal_subject_type (pn_type p), pn_id p)"

definition denied_decision :: authorisation_decision where
  "denied_decision = \<lparr>ad_allowed = False, ad_roles = {}, ad_permissions = {}, ad_granting_assignment_ids = {}\<rparr>"

definition decision_key :: "principal \<Rightarrow> string \<Rightarrow> authorisation_resource \<Rightarrow> string set option \<Rightarrow> decision_key" where
  "decision_key p permission r restrictions = (pn_id p, pn_type p, pn_organisation_id p, permission, az_type r,
     az_id r, az_organisation_id r, az_parent_agent_id r, restrictions)"

definition assignment_is_active :: "role_assignment \<Rightarrow> time \<Rightarrow> bool" where
  "assignment_is_active a now \<longleftrightarrow> ra_created_at a \<le> now \<and>
     (case ra_expires_at a of None \<Rightarrow> True | Some e \<Rightarrow> now < e)"

definition assignment_applies_to :: "role_assignment \<Rightarrow> authorisation_resource \<Rightarrow> bool" where
  "assignment_applies_to a r \<longleftrightarrow>
     (if ra_resource_type a = OrganisationResource
      then ra_resource_id a = az_organisation_id r \<or>
           az_type r = OrganisationResource \<and> ra_resource_id a = az_id r
      else if ra_resource_type a = az_type r then ra_resource_id a = az_id r
      else ra_resource_type a = AgentResource \<and> az_type r = BenchResource \<and>
           az_parent_agent_id r = Some (ra_resource_id a))"

definition is_organisation_administrator :: "organisation_role option \<Rightarrow> bool" where
  "is_organisation_administrator g \<longleftrightarrow> g \<in> {Some OrgOwner, Some OrgAdmin}"

definition filter_bench_policy_assignments ::
    "principal \<Rightarrow> organisation_role option \<Rightarrow> role_assignment list \<Rightarrow> bench_visibility \<Rightarrow>
     role_assignment list \<times> organisation_role option" where
  "filter_bench_policy_assignments p g assignments visibility =
     (if visibility = BenchOrganisation \<or> is_organisation_administrator g then (assignments, g)
      else if visibility = BenchRestricted
      then (filter (\<lambda>a. ra_resource_type a \<in> {AgentResource, BenchResource}) assignments, None)
      else (filter (\<lambda>a. (ra_subject_type a, ra_subject_id a) = own_subject p \<and>
              ra_resource_type a = BenchResource) assignments, None))"

definition bench_policy_required_role :: "bench_policy option \<Rightarrow> string \<Rightarrow> role_name option" where
  "bench_policy_required_role policy permission =
     (case policy of
        None \<Rightarrow> None
      | Some b \<Rightarrow>
          if permission = ''benches:reserve'' then bp_reservation_role b
          else if permission \<in> {''benches:operate'', ''benches:flash'', ''benches:reset'', ''benches:serial''}
          then bp_operation_role b else None)"

definition policy_role_is_present :: "role_name \<Rightarrow> organisation_role option \<Rightarrow> role_assignment list \<Rightarrow> bool" where
  "policy_role_is_present required g assignments \<longleftrightarrow>
     is_organisation_administrator g \<or> list_ex (\<lambda>a. ra_role a = required) assignments"

text \<open>\<open>_principal_access\<close>: the membership counts only when it is the one asked for.\<close>

definition own_membership :: "principal \<Rightarrow> organisation_membership option \<Rightarrow> organisation_role option" where
  "own_membership p membership =
     (case membership of
        None \<Rightarrow> None
      | Some m \<Rightarrow> if om_organisation_id m = pn_organisation_id p \<and> om_user_id m = pn_id p then Some (om_role m) else None)"

text \<open>What is read of a user: its role in the organisation and its teams; nothing for a service account.\<close>

definition read_user ::
    "'s access_repository \<Rightarrow> principal \<Rightarrow> ('s access_world, organisation_role option \<times> uuid list) io" where
  "read_user repo p =
     (if pn_type p = PrincipalUser
      then bindM (on_store (xr_membership repo (pn_organisation_id p) (pn_id p))) (\<lambda>membership.
             bindM (on_store (xr_team_ids repo (pn_organisation_id p) (pn_id p))) (\<lambda>team_ids.
               returnM (own_membership p membership, team_ids)))
      else returnM (None, []))"

definition subjects_of :: "principal \<Rightarrow> uuid list \<Rightarrow> subject set" where
  "subjects_of p team_ids = insert (own_subject p) ((\<lambda>t. (SubjectTeam, t)) ` set team_ids)"

definition read_access :: "'s access_repository \<Rightarrow> principal \<Rightarrow> ('s access_world, principal_access) io" where
  "read_access repo p =
     bindM (read_user repo p) (\<lambda>(g, team_ids).
       bindM (on_store (xr_assignments repo (pn_organisation_id p) (subjects_of p team_ids))) (\<lambda>assignments.
         returnM \<lparr>pc_subjects = subjects_of p team_ids, pc_organisation_role = g, pc_team_ids = set team_ids,
           pc_assignments = assignments\<rparr>))"

definition principal_access :: "'s access_repository \<Rightarrow> principal \<Rightarrow> ('s access_world, principal_access) io" where
  "principal_access repo p =
     memo ca_principals (\<lambda>x c. c\<lparr>ca_principals := x\<rparr>) (pn_id p, pn_type p, pn_organisation_id p) (read_access repo p)"

type_synonym grants = "role_assignment list \<times> organisation_role option \<times> string set"

definition apply_bench_policy ::
    "bench_visibility \<Rightarrow> principal \<Rightarrow> string \<Rightarrow> organisation_role option \<Rightarrow> uuid set \<Rightarrow> role_assignment list \<Rightarrow>
     bench_policy option \<Rightarrow> grants" where
  "apply_bench_policy unset p permission g team_ids assignments policy =
     (let visibility = (case policy of Some b \<Rightarrow> bp_visibility b | None \<Rightarrow> unset);
          (filtered, effective_role) = filter_bench_policy_assignments p g assignments visibility;
          permissions = (case policy of
            Some b \<Rightarrow> if permission = ''benches:read'' \<and> bp_allowed_team_ids b \<inter> team_ids \<noteq> {} then {permission} else {}
          | None \<Rightarrow> {})
      in case bench_policy_required_role policy permission of
           Some required \<Rightarrow>
             if \<not> policy_role_is_present required effective_role filtered then ([], None, {})
             else (filtered, effective_role, permissions)
         | None \<Rightarrow> (filtered, effective_role, permissions))"

definition apply_workflow_policy ::
    "authorisation_resource \<Rightarrow> organisation_role option \<Rightarrow> role_assignment list \<Rightarrow> workflow_policy option \<Rightarrow> grants" where
  "apply_workflow_policy r g assignments policy =
     (if policy = None \<or> map_option wk_visibility policy = Some WorkflowOrganisation then (assignments, g, {})
      else if is_organisation_administrator g then (assignments, g, {})
      else if map_option wk_visibility policy = Some WorkflowAdminOnly then ([], None, {})
      else (filter (\<lambda>a. ra_resource_type a = WorkflowResource \<and> ra_resource_id a = az_id r) assignments, None, {}))"

definition apply_access_policy ::
    "'s authorisation_service \<Rightarrow> principal \<Rightarrow> authorisation_resource \<Rightarrow> string \<Rightarrow> organisation_role option \<Rightarrow>
     uuid set \<Rightarrow> role_assignment list \<Rightarrow> ('s access_world, grants) io" where
  "apply_access_policy sv p r permission g team_ids assignments =
     (case as_policies sv of
        None \<Rightarrow> returnM (assignments, g, {})
      | Some repo \<Rightarrow>
          (if az_type r = BenchResource
           then bindM (memo ca_bench_policies (\<lambda>x c. c\<lparr>ca_bench_policies := x\<rparr>) (pn_organisation_id p, az_id r)
                  (on_store (xp_bench_policy repo (pn_organisation_id p) (az_id r)))) (\<lambda>policy.
             returnM (apply_bench_policy (as_default_visibility sv) p permission g team_ids assignments policy))
           else if az_type r = WorkflowResource
           then bindM (memo ca_workflow_policies (\<lambda>x c. c\<lparr>ca_workflow_policies := x\<rparr>) (pn_organisation_id p, az_id r)
                  (on_store (xp_workflow_policy repo (pn_organisation_id p) (az_id r)))) (\<lambda>policy.
             returnM (apply_workflow_policy r g assignments policy))
           else returnM (assignments, g, {})))"

definition applicable :: "principal \<Rightarrow> authorisation_resource \<Rightarrow> time \<Rightarrow> principal_access \<Rightarrow> role_assignment list" where
  "applicable p r now access = filter (\<lambda>a. ra_organisation_id a = pn_organisation_id p \<and>
     (ra_subject_type a, ra_subject_id a) \<in> pc_subjects access \<and> assignment_is_active a now \<and>
     assignment_applies_to a r) (pc_assignments access)"

definition restricted_to :: "string set option \<Rightarrow> string set \<Rightarrow> string set" where
  "restricted_to restrictions permissions = (case restrictions of None \<Rightarrow> permissions | Some s \<Rightarrow> permissions \<inter> s)"

definition decision_of :: "string \<Rightarrow> string set option \<Rightarrow> grants \<Rightarrow> authorisation_decision" where
  "decision_of permission restrictions grants =
     (let (assignments, g, policy_permissions) = grants;
          role_permissions = (case g of None \<Rightarrow> {} | Some x \<Rightarrow> ORGANISATION_ROLE_PERMISSIONS x);
          roles = ra_role ` set assignments \<union>
            (case g of None \<Rightarrow> {} | Some x \<Rightarrow> set_option (organisation_role_name x));
          permissions = restricted_to restrictions
            (policy_permissions \<union> role_permissions \<union> \<Union> ((\<lambda>a. ROLE_PERMISSIONS (ra_role a)) ` set assignments));
          allowed = (permission \<in> permissions)
      in \<lparr>ad_allowed = allowed, ad_roles = roles, ad_permissions = permissions,
          ad_granting_assignment_ids = (if allowed
            then ra_id ` {a \<in> set assignments. permission \<in> ROLE_PERMISSIONS (ra_role a)} else {})\<rparr>)"

definition evaluate_uncached ::
    "'s authorisation_service \<Rightarrow> principal \<Rightarrow> string \<Rightarrow> authorisation_resource \<Rightarrow> string set option \<Rightarrow>
     ('s access_world, authorisation_decision) io" where
  "evaluate_uncached sv p permission r restrictions =
     (if pn_organisation_id p \<noteq> az_organisation_id r then returnM denied_decision
      else bindM (getsM aw_now) (\<lambda>now.
        bindM (principal_access (as_repository sv) p) (\<lambda>access.
          bindM (apply_access_policy sv p r permission (pc_organisation_role access) (pc_team_ids access)
              (applicable p r now access)) (\<lambda>grants.
            returnM (decision_of permission restrictions grants)))))"

definition evaluate ::
    "'s authorisation_service \<Rightarrow> principal \<Rightarrow> string \<Rightarrow> authorisation_resource \<Rightarrow> string set option \<Rightarrow>
     ('s access_world, authorisation_decision) io" where
  "evaluate sv p permission r restrictions =
     memo ca_decisions (\<lambda>x c. c\<lparr>ca_decisions := x\<rparr>) (decision_key p permission r restrictions)
       (evaluate_uncached sv p permission r restrictions)"

definition is_allowed ::
    "'s authorisation_service \<Rightarrow> principal \<Rightarrow> string \<Rightarrow> authorisation_resource \<Rightarrow> string set option \<Rightarrow>
     ('s access_world, bool) io" where
  "is_allowed sv p permission r restrictions =
     bindM (evaluate sv p permission r restrictions) (\<lambda>d. returnM (ad_allowed d))"

section \<open>A permission somewhere in the organisation\<close>

definition evaluate_anywhere ::
    "'s authorisation_service \<Rightarrow> principal \<Rightarrow> string \<Rightarrow> string set option \<Rightarrow>
     ('s access_world, authorisation_decision) io" where
  "evaluate_anywhere sv p permission restrictions =
     (if (case restrictions of None \<Rightarrow> False | Some s \<Rightarrow> permission \<notin> s) then returnM denied_decision
      else bindM (getsM aw_now) (\<lambda>now.
        bindM (read_user (as_repository sv) p) (\<lambda>(g, team_ids).
          bindM (on_store (xr_assignments (as_repository sv) (pn_organisation_id p) (subjects_of p team_ids))) (\<lambda>assignments.
            (let granting = ra_id ` {a \<in> set assignments. ra_organisation_id a = pn_organisation_id p \<and>
                   (ra_subject_type a, ra_subject_id a) \<in> subjects_of p team_ids \<and> assignment_is_active a now \<and>
                   permission \<in> ROLE_PERMISSIONS (ra_role a)};
                 organisation_allowed = (case g of None \<Rightarrow> False | Some x \<Rightarrow> permission \<in> ORGANISATION_ROLE_PERMISSIONS x);
                 allowed = (organisation_allowed \<or> granting \<noteq> {})
             in returnM \<lparr>ad_allowed = allowed, ad_roles = {}, ad_permissions = (if allowed then {permission} else {}),
                  ad_granting_assignment_ids = granting\<rparr>)))))"

definition is_allowed_anywhere ::
    "'s authorisation_service \<Rightarrow> principal \<Rightarrow> string \<Rightarrow> string set option \<Rightarrow> ('s access_world, bool) io" where
  "is_allowed_anywhere sv p permission restrictions =
     bindM (evaluate_anywhere sv p permission restrictions) (\<lambda>d. returnM (ad_allowed d))"

section \<open>Requiring a permission\<close>

text \<open>
  The first argument of the audit functions is the identifier of the event. \<open>as_make_event\<close> is the
  constructor of \<open>AuditEvent\<close>, which redacts the texts.
\<close>

definition write_audit :: "'s authorisation_service \<Rightarrow> (time \<Rightarrow> audit_event) \<Rightarrow> ('s access_world, audit_event option) io" where
  "write_audit sv event =
     (if \<not> as_audit_enabled sv then returnM None
      else case as_audit sv of
        None \<Rightarrow> returnM None
      | Some create_audit_event \<Rightarrow>
          bindM (getsM aw_now) (\<lambda>now.
            bindM (liftE (as_make_event sv (event now))) (\<lambda>e.
              bindM (on_store (create_audit_event e)) (\<lambda>stored. returnM (Some stored)))))"

definition denial_event :: "uuid \<Rightarrow> principal \<Rightarrow> string \<Rightarrow> string \<Rightarrow> string option \<Rightarrow> string \<Rightarrow> time \<Rightarrow> audit_event" where
  "denial_event i p permission resource_type resource_id reason now =
     \<lparr>ae_id = i, ae_organisation_id = pn_organisation_id p, ae_timestamp = now, ae_actor_type = Some (pn_type p),
      ae_actor_id = Some (pn_id p), ae_actor_display_name = Some (pn_display_name p),
      ae_action = ''PERMISSION_DENIED'', ae_resource_type = resource_type, ae_resource_id = resource_id,
      ae_outcome = AuditDenied, ae_request_id = None, ae_source_ip = None, ae_user_agent = None,
      ae_reason = Some reason, ae_metadata = [(''required_permission'', JStr permission)]\<rparr>"

definition audit_permission_denied ::
    "'s authorisation_service \<Rightarrow> uuid \<Rightarrow> principal \<Rightarrow> string \<Rightarrow> string \<Rightarrow> string option \<Rightarrow> string \<Rightarrow>
     ('s access_world, audit_event option) io" where
  "audit_permission_denied sv i p permission resource_type resource_id reason =
     write_audit sv (denial_event i p permission resource_type resource_id reason)"

definition require ::
    "'s authorisation_service \<Rightarrow> uuid \<Rightarrow> principal \<Rightarrow> string \<Rightarrow> authorisation_resource \<Rightarrow> string set option \<Rightarrow>
     ('s access_world, unit) io" where
  "require sv i p permission r restrictions =
     bindM (is_allowed sv p permission r restrictions) (\<lambda>allowed.
       if allowed then returnM ()
       else bindM (audit_permission_denied sv i p permission (resource_type_value (az_type r)) (Some (az_id r))
           ''Required permission was not granted.'') (\<lambda>_.
         raiseM PermissionDeniedError))"

definition require_anywhere ::
    "'s authorisation_service \<Rightarrow> uuid \<Rightarrow> principal \<Rightarrow> string \<Rightarrow> string set option \<Rightarrow> ('s access_world, unit) io" where
  "require_anywhere sv i p permission restrictions =
     bindM (evaluate_anywhere sv p permission restrictions) (\<lambda>d.
       if ad_allowed d then returnM ()
       else require sv i p permission \<lparr>az_type = OrganisationResource, az_id = pn_organisation_id p,
         az_organisation_id = pn_organisation_id p, az_parent_agent_id = None\<rparr> restrictions)"

definition success_event ::
    "uuid \<Rightarrow> uuid \<Rightarrow> principal option \<Rightarrow> string \<Rightarrow> string \<Rightarrow> string option \<Rightarrow> payload \<Rightarrow> uuid option \<Rightarrow>
     string option \<Rightarrow> string option \<Rightarrow> time \<Rightarrow> audit_event" where
  "success_event i organisation_id p action resource_type resource_id metadata request_id source_ip user_agent now =
     \<lparr>ae_id = i, ae_organisation_id = organisation_id, ae_timestamp = now, ae_actor_type = map_option pn_type p,
      ae_actor_id = map_option pn_id p, ae_actor_display_name = map_option pn_display_name p, ae_action = action,
      ae_resource_type = resource_type, ae_resource_id = resource_id, ae_outcome = AuditSucceeded,
      ae_request_id = request_id, ae_source_ip = source_ip, ae_user_agent = user_agent, ae_reason = None,
      ae_metadata = metadata\<rparr>"

definition audit_success ::
    "'s authorisation_service \<Rightarrow> uuid \<Rightarrow> principal \<Rightarrow> string \<Rightarrow> string \<Rightarrow> string option \<Rightarrow> payload \<Rightarrow> uuid option \<Rightarrow>
     string option \<Rightarrow> string option \<Rightarrow> ('s access_world, audit_event option) io" where
  "audit_success sv i p action resource_type resource_id metadata request_id source_ip user_agent =
     write_audit sv (success_event i (pn_organisation_id p) (Some p) action resource_type resource_id metadata
       request_id source_ip user_agent)"

definition audit_system_success ::
    "'s authorisation_service \<Rightarrow> uuid \<Rightarrow> uuid \<Rightarrow> string \<Rightarrow> string \<Rightarrow> string option \<Rightarrow> payload \<Rightarrow> uuid option \<Rightarrow>
     string option \<Rightarrow> string option \<Rightarrow> ('s access_world, audit_event option) io" where
  "audit_system_success sv i organisation_id action resource_type resource_id metadata request_id source_ip user_agent =
     write_audit sv (success_event i organisation_id None action resource_type resource_id metadata
       request_id source_ip user_agent)"

end
