(* ===== verification/AccessRules.thy ===== *)
theory AccessRules
  imports Authorisation
begin

text \<open>
  What authorisation promises: a declarative account of who may do what (\<open>permits\<close>), and the proof,
  inside the locale \<open>access_store\<close> of the reads that the service relies on, that the service decides
  by it, that the request cache only gives back decisions, and what a refusal does. The SQLite identity
  repository is such a store.
\<close>

section \<open>What the service reads\<close>

record access_view =
  av_membership :: "uuid \<Rightarrow> uuid \<Rightarrow> organisation_membership option"
  av_teams :: "uuid \<Rightarrow> uuid \<Rightarrow> uuid list"
  av_assignments :: "role_assignment set"
  av_policies :: bool
  av_bench_policy :: "uuid \<Rightarrow> string \<Rightarrow> bench_policy option"
  av_workflow_policy :: "uuid \<Rightarrow> string \<Rightarrow> workflow_policy option"

section \<open>The rules\<close>

definition teams_of :: "access_view \<Rightarrow> principal \<Rightarrow> uuid list" where
  "teams_of v p = (if pn_type p = PrincipalUser then av_teams v (pn_organisation_id p) (pn_id p) else [])"

definition role_of :: "access_view \<Rightarrow> principal \<Rightarrow> organisation_role option" where
  "role_of v p = (if pn_type p = PrincipalUser
     then own_membership p (av_membership v (pn_organisation_id p) (pn_id p)) else None)"

definition administrator :: "access_view \<Rightarrow> principal \<Rightarrow> bool" where
  "administrator v p \<longleftrightarrow> is_organisation_administrator (role_of v p)"

text \<open>The assignment speaks of the principal or one of its teams, is in force, and covers the resource.\<close>

definition held :: "access_view \<Rightarrow> time \<Rightarrow> principal \<Rightarrow> authorisation_resource \<Rightarrow> role_assignment \<Rightarrow> bool" where
  "held v now p r a \<longleftrightarrow> a \<in> av_assignments v \<and> ra_organisation_id a = pn_organisation_id p \<and>
     (ra_subject_type a, ra_subject_id a) \<in> subjects_of p (teams_of v p) \<and> assignment_is_active a now \<and>
     assignment_applies_to a r"

definition bench_visibility_of ::
    "bench_visibility \<Rightarrow> access_view \<Rightarrow> principal \<Rightarrow> authorisation_resource \<Rightarrow> bench_visibility" where
  "bench_visibility_of unset v p r =
     (case av_bench_policy v (pn_organisation_id p) (az_id r) of None \<Rightarrow> unset | Some b \<Rightarrow> bp_visibility b)"

definition workflow_visibility_of :: "access_view \<Rightarrow> principal \<Rightarrow> authorisation_resource \<Rightarrow> workflow_visibility" where
  "workflow_visibility_of v p r =
     (case av_workflow_policy v (pn_organisation_id p) (az_id r) of None \<Rightarrow> WorkflowOrganisation | Some b \<Rightarrow> wk_visibility b)"

text \<open>The resource is open to the roles of the whole organisation.\<close>

definition open_resource ::
    "bench_visibility \<Rightarrow> access_view \<Rightarrow> principal \<Rightarrow> authorisation_resource \<Rightarrow> bool" where
  "open_resource unset v p r \<longleftrightarrow> \<not> av_policies v \<or> administrator v p \<or>
     (case az_type r of
        BenchResource \<Rightarrow> bench_visibility_of unset v p r = BenchOrganisation
      | WorkflowResource \<Rightarrow> workflow_visibility_of v p r = WorkflowOrganisation
      | _ \<Rightarrow> True)"

text \<open>The assignment counts for a resource that is not open.\<close>

definition counts ::
    "bench_visibility \<Rightarrow> access_view \<Rightarrow> principal \<Rightarrow> authorisation_resource \<Rightarrow> role_assignment \<Rightarrow> bool" where
  "counts unset v p r a \<longleftrightarrow> open_resource unset v p r \<or>
     (if az_type r = BenchResource
      then (if bench_visibility_of unset v p r = BenchRestricted then ra_resource_type a \<in> {AgentResource, BenchResource}
            else (ra_subject_type a, ra_subject_id a) = own_subject p \<and> ra_resource_type a = BenchResource)
      else workflow_visibility_of v p r = WorkflowRestricted \<and> ra_resource_type a = WorkflowResource \<and>
           ra_resource_id a = az_id r)"

text \<open>The role that the policy of a bench asks for, for this permission, is held.\<close>

definition qualifies ::
    "bench_visibility \<Rightarrow> access_view \<Rightarrow> time \<Rightarrow> principal \<Rightarrow> authorisation_resource \<Rightarrow> string \<Rightarrow> bool" where
  "qualifies unset v now p r permission \<longleftrightarrow> \<not> av_policies v \<or> az_type r \<noteq> BenchResource \<or>
     (case bench_policy_required_role (av_bench_policy v (pn_organisation_id p) (az_id r)) permission of
        None \<Rightarrow> True
      | Some required \<Rightarrow> administrator v p \<or>
          (\<exists>a. held v now p r a \<and> counts unset v p r a \<and> ra_role a = required))"

inductive permits ::
    "bench_visibility \<Rightarrow> access_view \<Rightarrow> time \<Rightarrow> principal \<Rightarrow> authorisation_resource \<Rightarrow> string \<Rightarrow> bool"
  for unset :: bench_visibility and v :: access_view and now :: time and p :: principal and
    r :: authorisation_resource and permission :: string
where
  by_organisation_role: "\<lbrakk>role_of v p = Some g; permission \<in> ORGANISATION_ROLE_PERMISSIONS g; open_resource unset v p r;
     qualifies unset v now p r permission\<rbrakk> \<Longrightarrow> permits unset v now p r permission"
| by_assignment: "\<lbrakk>held v now p r a; counts unset v p r a; permission \<in> ROLE_PERMISSIONS (ra_role a);
     qualifies unset v now p r permission\<rbrakk> \<Longrightarrow> permits unset v now p r permission"
| by_team: "\<lbrakk>av_policies v; az_type r = BenchResource; permission = ''benches:read'';
     av_bench_policy v (pn_organisation_id p) (az_id r) = Some b; t \<in> set (teams_of v p); t \<in> bp_allowed_team_ids b\<rbrakk>
     \<Longrightarrow> permits unset v now p r permission"

section \<open>The decision as a function of what is read\<close>

definition access_of :: "(uuid \<Rightarrow> subject set \<Rightarrow> role_assignment list) \<Rightarrow> access_view \<Rightarrow> principal \<Rightarrow> principal_access" where
  "access_of listed v p = \<lparr>pc_subjects = subjects_of p (teams_of v p), pc_organisation_role = role_of v p,
     pc_team_ids = set (teams_of v p),
     pc_assignments = listed (pn_organisation_id p) (subjects_of p (teams_of v p))\<rparr>"

definition grants_of ::
    "bench_visibility \<Rightarrow> access_view \<Rightarrow> principal \<Rightarrow> authorisation_resource \<Rightarrow> string \<Rightarrow> organisation_role option \<Rightarrow>
     uuid set \<Rightarrow> role_assignment list \<Rightarrow> grants" where
  "grants_of unset v p r permission g teams assignments =
     (if \<not> av_policies v then (assignments, g, {})
      else if az_type r = BenchResource
      then apply_bench_policy unset p permission g teams assignments (av_bench_policy v (pn_organisation_id p) (az_id r))
      else if az_type r = WorkflowResource
      then apply_workflow_policy r g assignments (av_workflow_policy v (pn_organisation_id p) (az_id r))
      else (assignments, g, {}))"

definition decide ::
    "bench_visibility \<Rightarrow> (uuid \<Rightarrow> subject set \<Rightarrow> role_assignment list) \<Rightarrow> access_view \<Rightarrow> time \<Rightarrow> principal \<Rightarrow> string \<Rightarrow>
     authorisation_resource \<Rightarrow> string set option \<Rightarrow> authorisation_decision" where
  "decide unset listed v now p permission r restrictions =
     (if pn_organisation_id p \<noteq> az_organisation_id r then denied_decision
      else decision_of permission restrictions
        (grants_of unset v p r permission (role_of v p) (set (teams_of v p)) (applicable p r now (access_of listed v p))))"

text \<open>The listing gives the assignments of the organisation to the subjects.\<close>

definition lists :: "(uuid \<Rightarrow> subject set \<Rightarrow> role_assignment list) \<Rightarrow> access_view \<Rightarrow> bool" where
  "lists listed v \<longleftrightarrow> (\<forall>g ss a. a \<in> set (listed g ss) \<longleftrightarrow>
     a \<in> av_assignments v \<and> ra_organisation_id a = g \<and> (ra_subject_type a, ra_subject_id a) \<in> ss)"

lemma set_applicable: "lists listed v \<Longrightarrow> set (applicable p r now (access_of listed v p)) = {a. held v now p r a}"
  by (auto simp: applicable_def access_of_def held_def lists_def)

lemma allowed_grants:
  "ad_allowed (decision_of permission restrictions grants) \<longleftrightarrow>
     (case restrictions of None \<Rightarrow> True | Some s \<Rightarrow> permission \<in> s) \<and>
     (case grants of (as, g, ps) \<Rightarrow> permission \<in> ps \<or> (\<exists>x. g = Some x \<and> permission \<in> ORGANISATION_ROLE_PERMISSIONS x) \<or>
        (\<exists>a\<in>set as. permission \<in> ROLE_PERMISSIONS (ra_role a)))"
  by (auto simp: decision_of_def restricted_to_def Let_def split: prod.splits option.splits)

definition grants_permission :: "string \<Rightarrow> grants \<Rightarrow> bool" where
  "grants_permission permission grants \<longleftrightarrow> (case grants of (as, g, ps) \<Rightarrow>
     permission \<in> ps \<or> (\<exists>x. g = Some x \<and> permission \<in> ORGANISATION_ROLE_PERMISSIONS x) \<or>
     (\<exists>a\<in>set as. permission \<in> ROLE_PERMISSIONS (ra_role a)))"

inductive_simps permits_simps: "permits unset v now p r permission"

text \<open>A bench: what the policy leaves of the grants.\<close>

lemma bench_grants:
  assumes "av_policies v" "az_type r = BenchResource" "set as = {a. held v now p r a}"
  shows "grants_permission permission (grants_of unset v p r permission (role_of v p) (set (teams_of v p)) as) \<longleftrightarrow>
    permits unset v now p r permission"
proof -
  let ?policy = "av_bench_policy v (pn_organisation_id p) (az_id r)"
  let ?vis = "bench_visibility_of unset v p r"
  obtain filtered g where f: "filter_bench_policy_assignments p (role_of v p) as ?vis = (filtered, g)" by fastforce
  have fs: "set filtered = {a. held v now p r a \<and> counts unset v p r a}"
    using f assms by (auto simp: filter_bench_policy_assignments_def counts_def open_resource_def administrator_def
        split: if_splits bench_visibility.splits)
  have g: "g = (if open_resource unset v p r then role_of v p else None)"
    using f assms by (auto simp: filter_bench_policy_assignments_def open_resource_def administrator_def split: if_splits)
  have adm: "is_organisation_administrator g \<longleftrightarrow> administrator v p"
    using g by (auto simp: administrator_def open_resource_def is_organisation_administrator_def)
  have gx: "g = Some x \<longleftrightarrow> open_resource unset v p r \<and> role_of v p = Some x" for x using g by auto
  have vis: "(case ?policy of None \<Rightarrow> unset | Some b \<Rightarrow> bp_visibility b) = ?vis" by (simp add: bench_visibility_of_def)
  show ?thesis
  proof (cases "bench_policy_required_role ?policy permission")
    case None
    then have q: "qualifies unset v now p r permission" by (simp add: qualifies_def)
    show ?thesis
      by (auto simp: grants_permission_def grants_of_def apply_bench_policy_def assms(1,2) vis f None Let_def
          permits_simps q fs gx split: option.splits if_splits)
  next
    case (Some required)
    then have read: "permission \<noteq> ''benches:read''"
      by (auto simp: bench_policy_required_role_def split: option.splits if_splits)
    have present: "policy_role_is_present required g filtered \<longleftrightarrow> qualifies unset v now p r permission"
      using Some assms(1,2) adm fs by (auto simp: policy_role_is_present_def qualifies_def list_ex_iff)
    show ?thesis
      by (auto simp: grants_permission_def grants_of_def apply_bench_policy_def assms(1,2) vis f Some Let_def
          permits_simps present read fs gx split: option.splits if_splits)
  qed
qed

lemma workflow_grants:
  assumes "av_policies v" "az_type r = WorkflowResource" "set as = {a. held v now p r a}"
  shows "grants_permission permission (grants_of unset v p r permission (role_of v p) (set (teams_of v p)) as) \<longleftrightarrow>
    permits unset v now p r permission"
proof -
  have q: "qualifies unset v now p r permission" using assms(2) by (simp add: qualifies_def)
  have vis: "workflow_visibility_of v p r = (case av_workflow_policy v (pn_organisation_id p) (az_id r) of
      None \<Rightarrow> WorkflowOrganisation | Some b \<Rightarrow> wk_visibility b)" by (simp add: workflow_visibility_of_def)
  have restricted: "x = WorkflowRestricted \<longleftrightarrow> x \<noteq> WorkflowAdminOnly \<and> x \<noteq> WorkflowOrganisation" for x
    by (cases x) auto
  show ?thesis
    using assms by (auto simp: grants_permission_def grants_of_def apply_workflow_policy_def permits_simps q
        open_resource_def counts_def administrator_def vis restricted split: option.splits workflow_visibility.splits)
qed

lemma other_grants:
  assumes "\<not> av_policies v \<or> az_type r \<notin> {BenchResource, WorkflowResource}" "set as = {a. held v now p r a}"
  shows "grants_permission permission (grants_of unset v p r permission (role_of v p) (set (teams_of v p)) as) \<longleftrightarrow>
    permits unset v now p r permission"
proof -
  have opened: "open_resource unset v p r" using assms(1) by (auto simp: open_resource_def split: resource_type.splits)
  have q: "qualifies unset v now p r permission" using assms(1) by (auto simp: qualifies_def)
  have gr: "grants_of unset v p r permission (role_of v p) (set (teams_of v p)) as = (as, role_of v p, {})"
    using assms(1) by (auto simp: grants_of_def)
  show ?thesis using assms by (auto simp: grants_permission_def gr permits_simps opened q counts_def)
qed

theorem decide_iff_permits:
  assumes "lists listed v"
  shows "ad_allowed (decide unset listed v now p permission r restrictions) \<longleftrightarrow>
    pn_organisation_id p = az_organisation_id r \<and> (case restrictions of None \<Rightarrow> True | Some s \<Rightarrow> permission \<in> s) \<and>
    permits unset v now p r permission"
proof -
  note held = set_applicable[OF assms, of p r now]
  have "grants_permission permission (grants_of unset v p r permission (role_of v p) (set (teams_of v p))
      (applicable p r now (access_of listed v p))) \<longleftrightarrow> permits unset v now p r permission"
    using bench_grants[OF _ _ held] workflow_grants[OF _ _ held] other_grants[OF _ held] by blast
  then show ?thesis
    by (auto simp: decide_def allowed_grants denied_decision_def grants_permission_def split: prod.splits option.splits)
qed

section \<open>The service over a store of access data\<close>

text \<open>The calls of a request: the time of the call and its arguments.\<close>

record access_call =
  ac_time :: time
  ac_principal :: principal
  ac_permission :: string
  ac_resource :: authorisation_resource
  ac_restrictions :: "string set option"

definition call_access :: "'s authorisation_service \<Rightarrow> access_call \<Rightarrow> ('s access_world, authorisation_decision) io" where
  "call_access sv c = (\<lambda>w. evaluate sv (ac_principal c) (ac_permission c) (ac_resource c) (ac_restrictions c)
     (w\<lparr>aw_now := ac_time c\<rparr>))"

definition after_calls :: "'s authorisation_service \<Rightarrow> access_call list \<Rightarrow> 's access_world \<Rightarrow> 's access_world" where
  "after_calls sv calls w = fold (\<lambda>c x. snd (call_access sv c x)) calls w"

text \<open>The decision taken anew, without a cache.\<close>

definition fresh_decision :: "'s authorisation_service \<Rightarrow> 's \<Rightarrow> access_call \<Rightarrow> error + authorisation_decision" where
  "fresh_decision sv s c = fst (call_access sv c \<lparr>aw_store = s, aw_now = 0, aw_cache = None\<rparr>)"

text \<open>Every entry of the cache is what reading or deciding at one of the times \<open>T\<close> gives.\<close>

definition cache_sound ::
    "bench_visibility \<Rightarrow> (uuid \<Rightarrow> subject set \<Rightarrow> role_assignment list) \<Rightarrow> access_view \<Rightarrow> time set \<Rightarrow> request_cache \<Rightarrow> bool" where
  "cache_sound unset listed v T c \<longleftrightarrow>
     (\<forall>p x. map_of (ca_principals c) (pn_id p, pn_type p, pn_organisation_id p) = Some x \<longrightarrow> x = access_of listed v p) \<and>
     (\<forall>g b x. map_of (ca_bench_policies c) (g, b) = Some x \<longrightarrow> x = av_bench_policy v g b) \<and>
     (\<forall>g f x. map_of (ca_workflow_policies c) (g, f) = Some x \<longrightarrow> x = av_workflow_policy v g f) \<and>
     (\<forall>p permission r restrictions x. map_of (ca_decisions c) (decision_key p permission r restrictions) = Some x \<longrightarrow>
        (\<exists>t\<in>T. x = decide unset listed v t p permission r restrictions))"

lemma cache_sound_empty: "cache_sound unset listed v T empty_cache"
  by (simp add: cache_sound_def empty_cache_def)

lemma cache_sound_mono: "cache_sound unset listed v T c \<Longrightarrow> T \<subseteq> T' \<Longrightarrow> cache_sound unset listed v T' c"
  by (auto simp: cache_sound_def) blast

lemma access_of_key:
  "pn_id p = pn_id q \<Longrightarrow> pn_type p = pn_type q \<Longrightarrow> pn_organisation_id p = pn_organisation_id q \<Longrightarrow>
   access_of listed v p = access_of listed v q"
  by (simp add: access_of_def teams_of_def role_of_def own_membership_def subjects_of_def own_subject_def split: option.split)

lemma decide_key:
  assumes "decision_key p permission r restrictions = decision_key p' permission' r' restrictions'"
  shows "decide unset listed v t p permission r restrictions = decide unset listed v t p' permission' r' restrictions'"
proof -
  have r: "r = r'" using assms by (simp add: decision_key_def authorisation_resource.equality)
  have p: "pn_id p = pn_id p'" "pn_type p = pn_type p'" "pn_organisation_id p = pn_organisation_id p'"
    "permission = permission'" "restrictions = restrictions'" using assms by (auto simp: decision_key_def)
  have own: "own_subject p = own_subject p'" using p by (simp add: own_subject_def)
  have f: "filter_bench_policy_assignments p g as vis = filter_bench_policy_assignments p' g as vis" for g as vis
    by (simp add: filter_bench_policy_assignments_def own)
  have a: "apply_bench_policy unset p x g ts as policy = apply_bench_policy unset p' x g ts as policy"
    for x g ts as policy by (simp add: apply_bench_policy_def f)
  have t: "teams_of v p = teams_of v p'" "role_of v p = role_of v p'"
    using p by (simp_all add: teams_of_def role_of_def own_membership_def split: option.split)
  show ?thesis
    using p r t access_of_key[OF p(1-3), of listed v] by (simp add: decide_def grants_of_def applicable_def a)
qed

lemma memo_hit: "aw_cache w = Some c \<Longrightarrow> map_of (get c) k = Some v \<Longrightarrow> memo get put k m w = (Inr v, w)"
  by (simp add: memo_def runM)

lemma memo_miss:
  "aw_cache w = Some c \<Longrightarrow> map_of (get c) k = None \<Longrightarrow> m w = (Inr v, w') \<Longrightarrow> aw_cache w' = Some c' \<Longrightarrow>
   memo get put k m w = (Inr v, w'\<lparr>aw_cache := Some (put (dict_set k v (get c')) c')\<rparr>)"
  by (simp add: memo_def runM)

lemma memo_uncached: "aw_cache w = None \<Longrightarrow> memo get put k m w = m w"
  by (simp add: memo_def runM)

lemma run_on_store: "m (aw_store w) = (r, s) \<Longrightarrow> on_store m w = (r, w\<lparr>aw_store := s\<rparr>)"
  by (simp add: on_store_def runM)

locale access_store =
  fixes sv :: "'s authorisation_service" and view :: "'s \<Rightarrow> access_view" and
    listed :: "'s \<Rightarrow> uuid \<Rightarrow> subject set \<Rightarrow> role_assignment list"
  assumes membership: "xr_membership (as_repository sv) g u s = (Inr (av_membership (view s) g u), s)"
    and team_ids: "xr_team_ids (as_repository sv) g u s = (Inr (av_teams (view s) g u), s)"
    and assignments: "xr_assignments (as_repository sv) g ss s = (Inr (listed s g ss), s)"
    and listed: "lists (listed s) (view s)"
    and policies: "av_policies (view s) \<longleftrightarrow> as_policies sv \<noteq> None"
    and bench_policy: "as_policies sv = Some repo \<Longrightarrow> xp_bench_policy repo g b s = (Inr (av_bench_policy (view s) g b), s)"
    and workflow_policy:
      "as_policies sv = Some repo \<Longrightarrow> xp_workflow_policy repo g f s = (Inr (av_workflow_policy (view s) g f), s)"
begin

abbreviation the_decision where
  "the_decision s t c \<equiv> decide (as_default_visibility sv) (listed s) (view s) t (ac_principal c) (ac_permission c)
     (ac_resource c) (ac_restrictions c)"

abbreviation sound where
  "sound s T c \<equiv> cache_sound (as_default_visibility sv) (listed s) (view s) T c"

lemma run_read_user: "read_user (as_repository sv) p w = (Inr (role_of (view (aw_store w)) p, teams_of (view (aw_store w)) p), w)"
  by (simp add: read_user_def runM on_store_def membership team_ids role_of_def teams_of_def)

lemma run_read_access: "read_access (as_repository sv) p w = (Inr (access_of (listed (aw_store w)) (view (aw_store w)) p), w)"
  by (simp add: read_access_def runM run_read_user on_store_def assignments access_of_def)

lemma evaluate_without_cache:
  assumes "aw_cache w = None"
  shows "evaluate sv p permission r restrictions w =
    (Inr (decide (as_default_visibility sv) (listed (aw_store w)) (view (aw_store w)) (aw_now w) p permission r restrictions), w)"
proof -
  have applied: "apply_access_policy sv p r permission g ts as w =
      (Inr (grants_of (as_default_visibility sv) (view (aw_store w)) p r permission g ts as), w)" for g ts as
    by (cases "as_policies sv") (simp_all add: apply_access_policy_def grants_of_def policies memo_uncached assms runM
        on_store_def bench_policy workflow_policy)
  show ?thesis
    by (simp add: evaluate_def memo_uncached assms evaluate_uncached_def runM principal_access_def run_read_access applied
        decide_def access_of_def)
qed

lemma fresh_is_the_decision: "fresh_decision sv s c = Inr (the_decision s (ac_time c) c)"
  by (simp add: fresh_decision_def call_access_def evaluate_without_cache)

end

section \<open>The request cache\<close>

lemma cache_sound_put:
  assumes "cache_sound unset listed v T c"
  shows "cache_sound unset listed v T (c\<lparr>ca_principals :=
      dict_set (pn_id p, pn_type p, pn_organisation_id p) (access_of listed v p) (ca_principals c)\<rparr>)"
    and "cache_sound unset listed v T (c\<lparr>ca_bench_policies := dict_set (g, b) (av_bench_policy v g b) (ca_bench_policies c)\<rparr>)"
    and "cache_sound unset listed v T (c\<lparr>ca_workflow_policies :=
      dict_set (g, f) (av_workflow_policy v g f) (ca_workflow_policies c)\<rparr>)"
  using assms by (auto simp: cache_sound_def dict_set_map_of intro: access_of_key)

lemma cache_soundD:
  assumes "cache_sound unset listed v T c"
  shows "map_of (ca_principals c) (pn_id p, pn_type p, pn_organisation_id p) = Some x \<Longrightarrow> x = access_of listed v p"
    and "map_of (ca_bench_policies c) (g, b) = Some y \<Longrightarrow> y = av_bench_policy v g b"
    and "map_of (ca_workflow_policies c) (g, f) = Some z \<Longrightarrow> z = av_workflow_policy v g f"
    and "map_of (ca_decisions c) (decision_key p permission r restrictions) = Some d \<Longrightarrow>
      \<exists>t\<in>T. d = decide unset listed v t p permission r restrictions"
  using assms unfolding cache_sound_def by blast+

lemma cache_sound_decision:
  assumes c: "cache_sound unset listed v T c" and t: "t \<in> T"
  shows "cache_sound unset listed v T (c\<lparr>ca_decisions := dict_set (decision_key p permission r restrictions)
     (decide unset listed v t p permission r restrictions) (ca_decisions c)\<rparr>)"
proof -
  have "\<exists>u\<in>T. x = decide unset listed v u p' permission' r' restrictions'"
    if x: "map_of (dict_set (decision_key p permission r restrictions) (decide unset listed v t p permission r restrictions)
        (ca_decisions c)) (decision_key p' permission' r' restrictions') = Some x" for p' permission' r' restrictions' x
  proof (cases "decision_key p' permission' r' restrictions' = decision_key p permission r restrictions")
    case True
    then have "x = decide unset listed v t p' permission' r' restrictions'"
      using x decide_key[OF True, of unset listed v t] by (simp add: dict_set_map_of)
    then show ?thesis using t by blast
  next
    case False
    then show ?thesis using x c by (auto simp: dict_set_map_of cache_sound_def)
  qed
  then show ?thesis using c by (auto simp: cache_sound_def)
qed

context access_store
begin

lemma cached_access:
  assumes c: "aw_cache w = Some c" "sound (aw_store w) T c"
  shows "\<exists>c'. principal_access (as_repository sv) p w =
    (Inr (access_of (listed (aw_store w)) (view (aw_store w)) p), w\<lparr>aw_cache := Some c'\<rparr>) \<and> sound (aw_store w) T c'"
proof (cases "map_of (ca_principals c) (pn_id p, pn_type p, pn_organisation_id p)")
  case None
  show ?thesis
    using memo_miss[where get = ca_principals and m = "read_access (as_repository sv) p", OF c(1) None run_read_access c(1)] cache_sound_put(1)[OF c(2)]
    by (auto simp: principal_access_def)
next
  case (Some x)
  then have "x = access_of (listed (aw_store w)) (view (aw_store w)) p" by (rule cache_soundD(1)[OF c(2)])
  moreover have "w = w\<lparr>aw_cache := Some c\<rparr>" using c(1) by (cases w) simp
  ultimately show ?thesis using memo_hit[where get = ca_principals, OF c(1) Some] c(2) by (metis principal_access_def)
qed

lemma cached_bench_policy:
  assumes c: "aw_cache w = Some c" "sound (aw_store w) T c" and repo: "as_policies sv = Some repo"
  shows "\<exists>c'. memo ca_bench_policies (\<lambda>x c. c\<lparr>ca_bench_policies := x\<rparr>) (g, b) (on_store (xp_bench_policy repo g b)) w =
    (Inr (av_bench_policy (view (aw_store w)) g b), w\<lparr>aw_cache := Some c'\<rparr>) \<and> sound (aw_store w) T c'"
proof (cases "map_of (ca_bench_policies c) (g, b)")
  case None
  have "on_store (xp_bench_policy repo g b) w = (Inr (av_bench_policy (view (aw_store w)) g b), w)"
    by (simp add: run_on_store[OF bench_policy[OF repo]])
  from memo_miss[where get = ca_bench_policies and m = "on_store (xp_bench_policy repo g b)", OF c(1) None this c(1), of "\<lambda>x c. c\<lparr>ca_bench_policies := x\<rparr>"]
  show ?thesis using cache_sound_put(2)[OF c(2)] by auto
next
  case (Some x)
  then have "x = av_bench_policy (view (aw_store w)) g b" by (rule cache_soundD(2)[OF c(2)])
  moreover have "w = w\<lparr>aw_cache := Some c\<rparr>" using c(1) by (cases w) simp
  ultimately show ?thesis using memo_hit[where get = ca_bench_policies, OF c(1) Some] c(2) by metis
qed

lemma cached_workflow_policy:
  assumes c: "aw_cache w = Some c" "sound (aw_store w) T c" and repo: "as_policies sv = Some repo"
  shows "\<exists>c'. memo ca_workflow_policies (\<lambda>x c. c\<lparr>ca_workflow_policies := x\<rparr>) (g, f) (on_store (xp_workflow_policy repo g f)) w =
    (Inr (av_workflow_policy (view (aw_store w)) g f), w\<lparr>aw_cache := Some c'\<rparr>) \<and> sound (aw_store w) T c'"
proof (cases "map_of (ca_workflow_policies c) (g, f)")
  case None
  have "on_store (xp_workflow_policy repo g f) w = (Inr (av_workflow_policy (view (aw_store w)) g f), w)"
    by (simp add: run_on_store[OF workflow_policy[OF repo]])
  from memo_miss[where get = ca_workflow_policies and m = "on_store (xp_workflow_policy repo g f)", OF c(1) None this c(1), of "\<lambda>x c. c\<lparr>ca_workflow_policies := x\<rparr>"]
  show ?thesis using cache_sound_put(3)[OF c(2)] by auto
next
  case (Some x)
  then have "x = av_workflow_policy (view (aw_store w)) g f" by (rule cache_soundD(3)[OF c(2)])
  moreover have "w = w\<lparr>aw_cache := Some c\<rparr>" using c(1) by (cases w) simp
  ultimately show ?thesis using memo_hit[where get = ca_workflow_policies, OF c(1) Some] c(2) by metis
qed

lemma cached_grants:
  assumes c: "aw_cache w = Some c" "sound (aw_store w) T c"
  shows "\<exists>c'. apply_access_policy sv p r permission g ts as w =
    (Inr (grants_of (as_default_visibility sv) (view (aw_store w)) p r permission g ts as), w\<lparr>aw_cache := Some c'\<rparr>) \<and>
    sound (aw_store w) T c'"
proof (cases "as_policies sv")
  case None
  have "w = w\<lparr>aw_cache := Some c\<rparr>" using c(1) by (cases w) simp
  then show ?thesis using None c(2) by (auto simp: apply_access_policy_def grants_of_def policies runM)
next
  case (Some repo)
  have w: "w = w\<lparr>aw_cache := Some c\<rparr>" using c(1) by (cases w) simp
  show ?thesis
    using cached_bench_policy[OF c Some, of "pn_organisation_id p" "az_id r"] w c(2)
      cached_workflow_policy[OF c Some, of "pn_organisation_id p" "az_id r"]
    by (auto simp: apply_access_policy_def grants_of_def policies Some runM)
qed

lemma evaluate_with_cache:
  assumes c: "aw_cache w = Some c" "sound (aw_store w) T c" and t: "aw_now w \<in> T"
  shows "\<exists>c' u. u \<in> T \<and> sound (aw_store w) T c' \<and> evaluate sv p permission r restrictions w =
    (Inr (decide (as_default_visibility sv) (listed (aw_store w)) (view (aw_store w)) u p permission r restrictions),
     w\<lparr>aw_cache := Some c'\<rparr>)"
proof (cases "map_of (ca_decisions c) (decision_key p permission r restrictions)")
  case (Some x)
  then obtain u where "u \<in> T" "x = decide (as_default_visibility sv) (listed (aw_store w)) (view (aw_store w)) u p
      permission r restrictions" using cache_soundD(4)[OF c(2)] by blast
  moreover have "w = w\<lparr>aw_cache := Some c\<rparr>" using c(1) by (cases w) simp
  ultimately show ?thesis using memo_hit[where get = ca_decisions, OF c(1) Some] c(2)
    unfolding evaluate_def by metis
next
  case None
  let ?d = "decide (as_default_visibility sv) (listed (aw_store w)) (view (aw_store w)) (aw_now w) p permission r restrictions"
  have "\<exists>c'. evaluate_uncached sv p permission r restrictions w = (Inr ?d, w\<lparr>aw_cache := Some c'\<rparr>) \<and> sound (aw_store w) T c'"
  proof (cases "pn_organisation_id p = az_organisation_id r")
    case False
    have "w = w\<lparr>aw_cache := Some c\<rparr>" using c(1) by (cases w) simp
    then show ?thesis using False c(2) by (auto simp: evaluate_uncached_def decide_def runM)
  next
    case True
    obtain c1 where c1: "principal_access (as_repository sv) p w =
        (Inr (access_of (listed (aw_store w)) (view (aw_store w)) p), w\<lparr>aw_cache := Some c1\<rparr>)" "sound (aw_store w) T c1"
      using cached_access[OF c] by blast
    obtain c2 where "apply_access_policy sv p r permission (role_of (view (aw_store w)) p) (set (teams_of (view (aw_store w)) p))
        (applicable p r (aw_now w) (access_of (listed (aw_store w)) (view (aw_store w)) p)) (w\<lparr>aw_cache := Some c1\<rparr>) =
        (Inr (grants_of (as_default_visibility sv) (view (aw_store w)) p r permission (role_of (view (aw_store w)) p)
           (set (teams_of (view (aw_store w)) p)) (applicable p r (aw_now w)
             (access_of (listed (aw_store w)) (view (aw_store w)) p))), w\<lparr>aw_cache := Some c2\<rparr>)" "sound (aw_store w) T c2"
      using cached_grants[of "w\<lparr>aw_cache := Some c1\<rparr>" c1 T p r permission "role_of (view (aw_store w)) p"
          "set (teams_of (view (aw_store w)) p)"
          "applicable p r (aw_now w) (access_of (listed (aw_store w)) (view (aw_store w)) p)"] c1(2) by auto
    then show ?thesis using True c1(1) by (auto simp: evaluate_uncached_def runM decide_def access_of_def)
  qed
  then obtain c1 where c1: "evaluate_uncached sv p permission r restrictions w = (Inr ?d, w\<lparr>aw_cache := Some c1\<rparr>)"
    "sound (aw_store w) T c1" by blast
  have "evaluate sv p permission r restrictions w =
      (Inr ?d, w\<lparr>aw_cache := Some (c1\<lparr>ca_decisions := dict_set (decision_key p permission r restrictions) ?d (ca_decisions c1)\<rparr>)\<rparr>)"
    using memo_miss[where get = ca_decisions and m = "evaluate_uncached sv p permission r restrictions", OF c(1) None c1(1), of c1 "\<lambda>x c. c\<lparr>ca_decisions := x\<rparr>"]
    by (simp add: evaluate_def)
  then show ?thesis using cache_sound_decision[OF c1(2) t] t by blast
qed

text \<open>Within a request every answer is one that was true, without a cache, at the time of some call of it.\<close>

lemma cached_decisions:
  assumes "aw_cache w = Some c" "sound (aw_store w) T c"
  shows "\<exists>c'. after_calls sv calls w = w\<lparr>aw_now := aw_now (after_calls sv calls w), aw_cache := Some c'\<rparr> \<and>
    sound (aw_store w) (T \<union> ac_time ` set calls) c'"
  using assms
proof (induction calls arbitrary: w T c)
  case Nil
  have "w = w\<lparr>aw_now := aw_now w, aw_cache := Some c\<rparr>" using Nil(1) by (cases w) simp
  then show ?case using Nil(2) by (auto simp: after_calls_def intro!: exI[of _ c])
next
  case (Cons x calls)
  let ?T = "insert (ac_time x) T"
  have s: "sound (aw_store w) ?T c" using Cons.prems(2) by (rule cache_sound_mono) blast
  obtain c1 where c1: "snd (call_access sv x w) = w\<lparr>aw_now := ac_time x, aw_cache := Some c1\<rparr>" "sound (aw_store w) ?T c1"
    using evaluate_with_cache[of "w\<lparr>aw_now := ac_time x\<rparr>" c ?T "ac_principal x" "ac_permission x" "ac_resource x"
        "ac_restrictions x"] Cons.prems(1) s by (auto simp: call_access_def)
  have "after_calls sv (x # calls) w = after_calls sv calls (w\<lparr>aw_now := ac_time x, aw_cache := Some c1\<rparr>)"
    by (simp add: after_calls_def c1(1))
  moreover have "?T \<union> ac_time ` set calls = T \<union> ac_time ` set (x # calls)" by auto
  ultimately show ?case
    using Cons.IH[of "w\<lparr>aw_now := ac_time x, aw_cache := Some c1\<rparr>" c1 ?T] c1(2) by auto
qed

lemma request_answers:
  assumes "aw_cache w = Some empty_cache"
  shows "\<exists>u \<in> ac_time ` set (c # calls). fst (call_access sv c (after_calls sv calls w)) =
    fresh_decision sv (aw_store w) (c\<lparr>ac_time := u\<rparr>)"
proof -
  let ?T = "ac_time ` set (c # calls)"
  obtain c' where c': "after_calls sv calls w = w\<lparr>aw_now := aw_now (after_calls sv calls w), aw_cache := Some c'\<rparr>"
      "sound (aw_store w) (ac_time ` set calls) c'"
    using cached_decisions[OF assms cache_sound_empty, where T = "{}" and calls = calls] by auto
  have "sound (aw_store w) ?T c'" using c'(2) by (rule cache_sound_mono) auto
  then obtain u where "u \<in> ?T" "fst (call_access sv c (after_calls sv calls w)) = Inr (the_decision (aw_store w) u c)"
    using evaluate_with_cache[of "(after_calls sv calls w)\<lparr>aw_now := ac_time c\<rparr>" c' ?T "ac_principal c" "ac_permission c"
        "ac_resource c" "ac_restrictions c"] c'(1)
    by (auto simp: call_access_def) (metis access_world.select_convs(1) access_world.select_convs(3) access_world.surjective access_world.update_convs(2) access_world.update_convs(3) fst_conv)
  then show ?thesis by (auto simp: fresh_is_the_decision intro!: bexI[of _ u])
qed

end

end
