(* ===== verification/AccessProperties.thy ===== *)
theory AccessProperties
  imports AccessRules
begin

text \<open>
  Authorisation over the SQLite identity repository: the repository satisfies the reads of
  \<open>access_store\<close>, and the properties of decisions, of the request cache and of refusals.
\<close>

section \<open>The SQLite repository as a store of access data\<close>

definition sqlite_access :: "identity_db access_repository" where
  "sqlite_access = \<lparr>xr_membership = ir_get_organisation_membership, xr_team_ids = ir_list_team_ids_for_user,
     xr_assignments = (\<lambda>g subjects. ir_list_role_assignments g (Some subjects))\<rparr>"

definition sqlite_policies :: "identity_db policy_repository" where
  "sqlite_policies = \<lparr>xp_bench_policy = ir_get_bench_access_policy, xp_workflow_policy = ir_get_workflow_access_policy\<rparr>"

text \<open>The service as the control plane builds it; whether it has policies and audit is configuration.\<close>

definition sqlite_authorisation ::
    "bool \<Rightarrow> bench_visibility \<Rightarrow> bool \<Rightarrow> (audit_event \<Rightarrow> error + audit_event) \<Rightarrow> identity_db authorisation_service" where
  "sqlite_authorisation policies unset audit_enabled build =
     \<lparr>as_repository = sqlite_access, as_policies = (if policies then Some sqlite_policies else None),
      as_audit = Some ir_create_audit_event, as_default_visibility = unset, as_audit_enabled = audit_enabled,
      as_make_event = build\<rparr>"

definition value_of :: "(identity_db, 'a) io \<Rightarrow> identity_db \<Rightarrow> 'a" where
  "value_of m d = (case fst (m d) of Inr x \<Rightarrow> x)"

definition identity_view :: "bool \<Rightarrow> identity_db \<Rightarrow> access_view" where
  "identity_view policies d = \<lparr>av_membership = (\<lambda>g u. value_of (ir_get_organisation_membership g u) d),
     av_teams = (\<lambda>g u. value_of (ir_list_team_ids_for_user g u) d), av_assignments = set (id_assignments d),
     av_policies = policies, av_bench_policy = (\<lambda>g b. value_of (ir_get_bench_access_policy g b) d),
     av_workflow_policy = (\<lambda>g f. value_of (ir_get_workflow_access_policy g f) d)\<rparr>"

definition listed_assignments :: "identity_db \<Rightarrow> uuid \<Rightarrow> subject set \<Rightarrow> role_assignment list" where
  "listed_assignments d g ss = value_of (ir_list_role_assignments g (Some ss)) d"

lemma read_runs:
  "ir_get_organisation_membership g u d = (Inr (value_of (ir_get_organisation_membership g u) d), d)"
  "ir_list_team_ids_for_user g u d = (Inr (value_of (ir_list_team_ids_for_user g u) d), d)"
  "ir_list_role_assignments g ss d = (Inr (value_of (ir_list_role_assignments g ss) d), d)"
  "ir_get_bench_access_policy g b d = (Inr (value_of (ir_get_bench_access_policy g b) d), d)"
  "ir_get_workflow_access_policy g b d = (Inr (value_of (ir_get_workflow_access_policy g b) d), d)"
  by (simp_all add: value_of_def ir_get_organisation_membership_def ir_list_team_ids_for_user_def
      ir_list_role_assignments_def ir_get_bench_access_policy_def ir_get_workflow_access_policy_def select_row_def runM)

lemma lists_assignments: "lists (listed_assignments d) (identity_view policies d)"
  by (auto simp: lists_def listed_assignments_def identity_view_def value_of_def ir_list_role_assignments_def runM)

interpretation identity: access_store "sqlite_authorisation policies unset audit_enabled build"
    "identity_view policies" listed_assignments
  for policies unset audit_enabled build
  by unfold_locales (auto simp: sqlite_authorisation_def sqlite_access_def sqlite_policies_def identity_view_def
      lists_assignments[unfolded identity_view_def] listed_assignments_def intro: read_runs split: if_splits)

section \<open>Decisions\<close>

text \<open>
  C9: over the SQLite repository, with no request cache, a permission is granted exactly when the
  principal belongs to the organisation of the resource, the credential is not restricted to other
  permissions, and one of three rules permits it: a role of the user in the organisation, on a resource
  that its access policy leaves open; a role assignment in force, to the principal or one of its teams,
  that covers the resource and that the policy lets count; or, for reading a bench, a team the policy of
  the bench names. For reserving and operating a bench the role its policy asks for has to be held too,
  except by administrators. Deciding changes nothing.
\<close>

theorem authorisation_follows_the_rules:
  "\<exists>decision. evaluate (sqlite_authorisation policies unset audit build) p permission r restrictions
       \<lparr>aw_store = d, aw_now = now, aw_cache = None\<rparr> = (Inr decision, \<lparr>aw_store = d, aw_now = now, aw_cache = None\<rparr>) \<and>
     ad_allowed decision = (pn_organisation_id p = az_organisation_id r \<and>
       (case restrictions of None \<Rightarrow> True | Some s \<Rightarrow> permission \<in> s) \<and>
       permits unset (identity_view policies d) now p r permission)"
  by (simp add: identity.evaluate_without_cache decide_iff_permits[OF lists_assignments])
     (simp add: sqlite_authorisation_def)



definition example_bench :: authorisation_resource where
  "example_bench = \<lparr>az_type = BenchResource, az_id = ''lab/b1'', az_organisation_id = ''g1'', az_parent_agent_id = Some ''a1''\<rparr>"

definition example_ann :: principal where
  "example_ann = \<lparr>pn_id = ''u1'', pn_type = PrincipalUser, pn_organisation_id = ''g1'', pn_display_name = ''Ann''\<rparr>"

definition example_identity :: identity_db where
  "example_identity = empty_identity\<lparr>
     id_organisations := [\<lparr>og_id = ''g1'', og_slug = ''g'', og_name = ''G'', og_status = OrgActive, og_created_at = 0,
       og_updated_at = 0\<rparr>],
     id_users := [\<lparr>us_id = ''u1'', us_organisation_id = ''g1'', us_username = ''ann'', us_display_name = ''Ann'',
       us_email = None, us_status = UserActive, us_source = LocalSource, us_created_at = 0, us_updated_at = 0,
       us_last_login_at = None\<rparr>],
     id_memberships := [\<lparr>om_id = ''m1'', om_organisation_id = ''g1'', om_user_id = ''u1'', om_role = OrgMember,
       om_created_at = 0\<rparr>],
     id_assignments := [\<lparr>ra_id = ''r1'', ra_organisation_id = ''g1'', ra_subject_type = SubjectUser, ra_subject_id = ''u1'',
       ra_role = Reserver, ra_resource_type = BenchResource, ra_resource_id = ''lab/b1'', ra_created_by = ''u0'',
       ra_created_at = 0, ra_expires_at = Some 100\<rparr>],
     id_bench_policies := [(''g1'', \<lparr>bp_bench_id = ''lab/b1'', bp_visibility = BenchPrivate, bp_reservation_role = None,
       bp_operation_role = None, bp_allowed_team_ids = {}\<rparr>)]\<rparr>"


section \<open>The request cache\<close>


section \<open>Refusals\<close>


section \<open>A permission somewhere\<close>

text \<open>
  A principal that is granted a permission on some resource is also granted it by
  \<open>evaluate_anywhere\<close>, which the platform asks before the resource is known, unless it reads the bench
  only as a member of a team that the policy of the bench allows.
\<close>

theorem granted_somewhere_is_granted_anywhere:
  assumes run: "evaluate (sqlite_authorisation policies unset audit build) p permission r restrictions
      \<lparr>aw_store = d, aw_now = now, aw_cache = None\<rparr> = (Inr decision, w)" "ad_allowed decision"
    and other: "permission \<noteq> ''benches:read''"
  shows "\<exists>anywhere. evaluate_anywhere (sqlite_authorisation policies unset audit build) p permission restrictions
      \<lparr>aw_store = d, aw_now = now, aw_cache = None\<rparr> = (Inr anywhere, \<lparr>aw_store = d, aw_now = now, aw_cache = None\<rparr>) \<and>
    ad_allowed anywhere"
proof -
  let ?v = "identity_view policies d"
  have dec: "permits unset ?v now p r permission" "case restrictions of None \<Rightarrow> True | Some s \<Rightarrow> permission \<in> s"
    using run by (simp_all add: identity.evaluate_without_cache)
      (auto simp: decide_iff_permits[OF lists_assignments] sqlite_authorisation_def)
  have "(\<exists>g. role_of ?v p = Some g \<and> permission \<in> ORGANISATION_ROLE_PERMISSIONS g) \<or>
      (\<exists>a. held ?v now p r a \<and> permission \<in> ROLE_PERMISSIONS (ra_role a))"
    using dec(1) other by (auto elim: permits.cases)
  then have "(\<exists>g. role_of ?v p = Some g \<and> permission \<in> ORGANISATION_ROLE_PERMISSIONS g) \<or>
      (\<exists>a\<in>set (listed_assignments d (pn_organisation_id p) (subjects_of p (teams_of ?v p))).
         ra_organisation_id a = pn_organisation_id p \<and> (ra_subject_type a, ra_subject_id a) \<in> subjects_of p (teams_of ?v p) \<and>
         assignment_is_active a now \<and> permission \<in> ROLE_PERMISSIONS (ra_role a))"
    using lists_assignments[of d policies] by (auto simp: lists_def held_def)
  moreover have "(case restrictions of None \<Rightarrow> False | Some s \<Rightarrow> permission \<notin> s) = False"
    using dec(2) by (cases restrictions) auto
  ultimately show ?thesis
    by (auto simp: evaluate_anywhere_def runM identity.run_read_user on_store_def identity.assignments Let_def
        split: option.splits)
qed

text \<open>The witness of \<open>granted_somewhere_is_granted_anywhere\<close>: Ann and the bench she may reserve.\<close>

theorem granted_somewhere_is_granted_anywhere_witness:
  "\<exists>anywhere. evaluate_anywhere (sqlite_authorisation True BenchOrganisation True Inr) example_ann ''benches:reserve'' None
      \<lparr>aw_store = example_identity, aw_now = 5, aw_cache = None\<rparr> =
      (Inr anywhere, \<lparr>aw_store = example_identity, aw_now = 5, aw_cache = None\<rparr>) \<and> ad_allowed anywhere"
proof -
  let ?w = "\<lparr>aw_store = example_identity, aw_now = 5, aw_cache = None\<rparr>"
  obtain decision where run: "evaluate (sqlite_authorisation True BenchOrganisation True Inr) example_ann ''benches:reserve''
      example_bench None ?w = (Inr decision, ?w)"
    using identity.evaluate_without_cache[of ?w] by auto
  have "map_sum id ad_allowed (fst (evaluate (sqlite_authorisation True BenchOrganisation True Inr) example_ann
      ''benches:reserve'' example_bench None ?w)) = Inr True" by code_simp
  then have "ad_allowed decision" by (simp add: run)
  from granted_somewhere_is_granted_anywhere[OF run this] show ?thesis by simp
qed

end
