(* ===== verification/Authentication.thy ===== *)
theory Authentication
  imports IdentityRepository
begin

text \<open>
  Passwords, sessions and API credentials: \<open>IdentityAuthenticationService\<close> (\<open>core/identity.py\<close>) over the
  SQLite identity repository. SHA-256, scrypt, the text of a UUID and IP networks are the fields of
  \<open>crypto\<close>; the clock, which stands still during one call, and what is drawn at random are \<open>sources\<close>.
  The sanitising of audit metadata leaves the metadata written here as it is.
\<close>

section \<open>What the service is given\<close>

record crypto =
  cy_hash_secret :: "string \<Rightarrow> string"
  cy_hash_password :: "string \<Rightarrow> string"
  cy_verify :: "string \<Rightarrow> string \<Rightarrow> bool"
  cy_uuid_of_hex :: "string \<Rightarrow> uuid option"
  cy_hex_of_uuid :: "uuid \<Rightarrow> string"
  cy_ip_network :: "string \<Rightarrow> string option"
  cy_address_in :: "string \<Rightarrow> string list \<Rightarrow> bool"
  cy_audit_text :: "nat \<Rightarrow> string \<Rightarrow> string"
  cy_make_event :: "audit_event \<Rightarrow> error + audit_event"

text \<open>\<open>so_secret\<close> is the text of the secret bytes that are drawn.\<close>

record sources =
  so_now :: time
  so_session_id :: uuid
  so_credential_id :: uuid
  so_event_id :: uuid
  so_attempt_id :: uuid
  so_secret :: string

record authentication_service =
  at_crypto :: crypto
  at_minimum_password_length :: int
  at_access_lifetime :: duration
  at_session_lifetime :: duration
  at_maximum_session_lifetime :: duration
  at_rate_limit_attempts :: int
  at_rate_limit_window :: duration
  at_audit_enabled :: bool

text \<open>The constructor: access token minutes, session hours, maximum session days, window minutes.\<close>

definition make_authentication_service ::
    "crypto \<Rightarrow> int \<Rightarrow> int \<Rightarrow> int \<Rightarrow> int \<Rightarrow> int \<Rightarrow> int \<Rightarrow> bool \<Rightarrow> error + authentication_service" where
  "make_authentication_service c minimum_length minutes hours days attempts window audit =
     (if minimum_length < 12 then Inl ValueError
      else if minutes \<le> 0 \<or> hours \<le> 0 \<or> days \<le> 0 then Inl ValueError
      else if hours * 60 \<le> minutes then Inl ValueError
      else if days * 24 < hours then Inl ValueError
      else Inr \<lparr>at_crypto = c, at_minimum_password_length = minimum_length, at_access_lifetime = seconds (minutes * 60),
        at_session_lifetime = seconds (hours * 3600), at_maximum_session_lifetime = seconds (days * 86400),
        at_rate_limit_attempts = attempts, at_rate_limit_window = seconds (window * 60), at_audit_enabled = audit\<rparr>)"

section \<open>Tokens\<close>

text \<open>\<open>str.partition\<close>: what is before the first separator, whether there is one, and what is after it.\<close>

fun partition_at :: "char \<Rightarrow> string \<Rightarrow> string \<times> bool \<times> string" where
  "partition_at c [] = ([], False, [])"
| "partition_at c (x # xs) =
     (if x = c then ([], True, xs) else let (before, found, rest) = partition_at c xs in (x # before, found, rest))"

definition SESSION_PREFIX :: string where
  "SESSION_PREFIX = ''lps''"

definition CREDENTIAL_PREFIX :: string where
  "CREDENTIAL_PREFIX = ''lp''"

definition parse_token :: "crypto \<Rightarrow> string \<Rightarrow> string option \<Rightarrow> error + uuid \<times> string" where
  "parse_token y expected_prefix token =
     (if token = None \<or> py_strip (the token) = [] then Inl AuthenticationRequiredError
      else let (prefix, separator, remainder) = partition_at CHR ''_'' (py_strip (the token));
               (identifier, secret_separator, secret) = partition_at CHR ''_'' remainder
           in if \<not> separator \<or> \<not> secret_separator \<or> prefix \<noteq> expected_prefix \<or> identifier = [] \<or> secret = []
              then Inl (Identity AuthenticationFailedError)
              else case cy_uuid_of_hex y identifier of
                None \<Rightarrow> Inl (Identity AuthenticationFailedError)
              | Some i \<Rightarrow> if length secret < 32 then Inl (Identity AuthenticationFailedError) else Inr (i, secret))"

definition format_token :: "crypto \<Rightarrow> string \<Rightarrow> uuid \<Rightarrow> string \<Rightarrow> string" where
  "format_token y prefix i secret = prefix @ ''_'' @ cy_hex_of_uuid y i @ ''_'' @ secret"

section \<open>Audit and status\<close>

definition identity_event ::
    "sources \<Rightarrow> uuid \<Rightarrow> string \<Rightarrow> string \<Rightarrow> string option \<Rightarrow> audit_outcome \<Rightarrow> principal option \<Rightarrow> uuid option \<Rightarrow>
     string option \<Rightarrow> string option \<Rightarrow> string option \<Rightarrow> payload \<Rightarrow> audit_event" where
  "identity_event so organisation_id action resource_type resource_id outcome actor request_id source_ip user_agent
      reason metadata =
     \<lparr>ae_id = so_event_id so, ae_organisation_id = organisation_id, ae_timestamp = so_now so,
      ae_actor_type = map_option pn_type actor, ae_actor_id = map_option pn_id actor,
      ae_actor_display_name = map_option pn_display_name actor, ae_action = action,
      ae_resource_type = resource_type, ae_resource_id = resource_id, ae_outcome = outcome,
      ae_request_id = request_id, ae_source_ip = source_ip, ae_user_agent = user_agent, ae_reason = reason,
      ae_metadata = metadata\<rparr>"

definition identity_audit :: "authentication_service \<Rightarrow> audit_event \<Rightarrow> (identity_db, unit) io" where
  "identity_audit at event =
     (if \<not> at_audit_enabled at then returnM ()
      else bindM (liftE (cy_make_event (at_crypto at) event)) (\<lambda>e.
             bindM (ir_create_audit_event e) (\<lambda>_. returnM ())))"

text \<open>An exception of these checks with its message, which the audit event quotes.\<close>

definition require_organisation_active :: "organisation \<Rightarrow> (error \<times> string) option" where
  "require_organisation_active g =
     (if og_status g \<noteq> OrgActive then Some (Identity OrganisationSuspendedError, ''The organisation is not active.'') else None)"

definition require_user_active :: "user \<Rightarrow> (error \<times> string) option" where
  "require_user_active u =
     (if us_status u = UserLocked then Some (Identity UserLockedError, ''The user account is locked.'')
      else if us_status u \<noteq> UserActive then Some (Identity UserDisabledError, ''The user account is disabled.'')
      else None)"

definition require_service_account_active :: "service_account \<Rightarrow> (error \<times> string) option" where
  "require_service_account_active a =
     (if sa_status a \<noteq> AccountActive then Some (Identity ServiceAccountDisabledError, ''The service account is disabled.'')
      else None)"

definition raised :: "(error \<times> string) option \<Rightarrow> ('d, unit) io" where
  "raised check = (case check of None \<Rightarrow> returnM () | Some (e, _) \<Rightarrow> raiseM e)"

definition refused_login :: "organisation \<Rightarrow> user \<Rightarrow> (error \<times> string) option" where
  "refused_login g u = (case require_organisation_active g of Some e \<Rightarrow> Some e | None \<Rightarrow> require_user_active u)"

section \<open>Sessions\<close>

record issued_session =
  is_session :: user_session
  is_access_token :: string
  is_principal :: principal
  is_organisation :: organisation

text \<open>The browser and the address a request comes from, and its identifier.\<close>

record request_source =
  rs_ip_address :: "string option"
  rs_user_agent :: "string option"
  rs_request_id :: "uuid option"

definition new_session :: "authentication_service \<Rightarrow> sources \<Rightarrow> request_source \<Rightarrow> user \<Rightarrow> user_session" where
  "new_session at so rs u =
     (let maximum = min (so_now so + at_session_lifetime at) (so_now so + at_maximum_session_lifetime at)
      in \<lparr>ss_id = so_session_id so, ss_user_id = us_id u, ss_organisation_id = us_organisation_id u,
          ss_secret_hash = cy_hash_secret (at_crypto at) (so_secret so), ss_created_at = so_now so,
          ss_expires_at = min (so_now so + at_access_lifetime at) maximum, ss_maximum_expires_at = maximum,
          ss_last_seen_at = so_now so, ss_revoked_at = None, ss_user_agent = rs_user_agent rs,
          ss_ip_address = rs_ip_address rs\<rparr>)"

definition issue_session ::
    "authentication_service \<Rightarrow> sources \<Rightarrow> request_source \<Rightarrow> user \<Rightarrow> organisation \<Rightarrow> (identity_db, issued_session) io" where
  "issue_session at so rs u g =
     bindM (liftE (make_user_session (cy_audit_text (at_crypto at)) (new_session at so rs u))) (\<lambda>s.
       bindM (ir_create_session s) (\<lambda>created.
         returnM \<lparr>is_session = created,
           is_access_token = format_token (at_crypto at) SESSION_PREFIX (ss_id created) (so_secret so),
           is_principal = user_principal u, is_organisation = g\<rparr>))"

definition record_login_attempt ::
    "sources \<Rightarrow> string \<Rightarrow> string \<Rightarrow> string option \<Rightarrow> bool \<Rightarrow> (identity_db, unit) io" where
  "record_login_attempt so slug username ip succeeded =
     bindM (liftE (make_login_attempt \<lparr>la_id = so_attempt_id so, la_organisation_slug = slug, la_username = username,
         la_ip_address = ip, la_attempted_at = so_now so, la_succeeded = succeeded\<rparr>)) (\<lambda>a.
       bindM (ir_record_login_attempt a) (\<lambda>_. returnM ()))"

text \<open>The end of a login whose password is right: the user is updated and a session is issued.\<close>

definition open_session ::
    "authentication_service \<Rightarrow> sources \<Rightarrow> request_source \<Rightarrow> user \<Rightarrow> organisation \<Rightarrow> payload \<Rightarrow> (identity_db, issued_session) io" where
  "open_session at so rs u g metadata =
     bindM (ir_update_user (u\<lparr>us_last_login_at := Some (so_now so), us_updated_at := so_now so\<rparr>)) (\<lambda>updated.
       bindM (issue_session at so rs updated g) (\<lambda>issued.
         bindM (identity_audit at (identity_event so (og_id g) ''USER_LOGIN_SUCCEEDED'' ''SESSION''
             (Some (ss_id (is_session issued))) AuditSucceeded (Some (is_principal issued)) (rs_request_id rs)
             (rs_ip_address rs) (rs_user_agent rs) None metadata)) (\<lambda>_.
           returnM issued)))"

definition login_failed_event ::
    "sources \<Rightarrow> request_source \<Rightarrow> organisation \<Rightarrow> user option \<Rightarrow> string \<Rightarrow> payload \<Rightarrow> audit_event" where
  "login_failed_event so rs g u reason metadata =
     identity_event so (og_id g) ''USER_LOGIN_FAILED'' ''USER'' (map_option us_id u) AuditFailed None
       (rs_request_id rs) (rs_ip_address rs) (rs_user_agent rs) (Some reason) metadata"

definition local_source :: payload where
  "local_source = [(''authentication_source'', JStr ''LOCAL'')]"

definition oidc_source :: payload where
  "oidc_source = [(''authentication_source'', JStr ''OIDC'')]"

definition too_many_failures ::
    "authentication_service \<Rightarrow> sources \<Rightarrow> string \<Rightarrow> string \<Rightarrow> string option \<Rightarrow> (identity_db, unit) io" where
  "too_many_failures at so slug username ip =
     bindM (ir_count_failed_login_attempts slug username ip (so_now so - at_rate_limit_window at)) (\<lambda>failures.
       if at_rate_limit_attempts at \<le> failures then raiseM (Identity LoginRateLimitExceededError) else returnM ())"

definition password_is_right :: "crypto \<Rightarrow> string \<Rightarrow> user \<Rightarrow> password_credential option \<Rightarrow> bool" where
  "password_is_right y password u record \<longleftrightarrow> us_source u = LocalSource \<and>
     (case record of None \<Rightarrow> False | Some p \<Rightarrow> cy_verify y password (pw_hash p))"

definition find_login :: "string \<Rightarrow> string \<Rightarrow> (identity_db, organisation option \<times> user option \<times> password_credential option) io" where
  "find_login slug username =
     bindM (ir_get_organisation_by_slug slug) (\<lambda>organisation.
       bindM (case organisation of None \<Rightarrow> returnM None | Some g \<Rightarrow> ir_get_user_by_username (og_id g) username) (\<lambda>u.
         bindM (case u of None \<Rightarrow> returnM None | Some x \<Rightarrow> ir_get_password_credential (us_id x)) (\<lambda>record.
           returnM (organisation, u, record))))"

definition login_refused ::
    "authentication_service \<Rightarrow> sources \<Rightarrow> request_source \<Rightarrow> string \<Rightarrow> string \<Rightarrow> organisation option \<Rightarrow> user option \<Rightarrow>
     (identity_db, issued_session) io" where
  "login_refused at so rs slug username organisation u =
     bindM (record_login_attempt so slug username (rs_ip_address rs) False) (\<lambda>_.
       bindM (case organisation of
                None \<Rightarrow> returnM ()
              | Some g \<Rightarrow> identity_audit at (login_failed_event so rs g u ''Invalid username or password.'' [])) (\<lambda>_.
         raiseM (Identity InvalidCredentialsError)))"

definition login ::
    "authentication_service \<Rightarrow> sources \<Rightarrow> request_source \<Rightarrow> string \<Rightarrow> string \<Rightarrow> string \<Rightarrow> (identity_db, issued_session) io" where
  "login at so rs organisation_slug username password =
     (let slug = normalize_identity organisation_slug; name = normalize_identity username; ip = rs_ip_address rs
      in bindM (too_many_failures at so slug name ip) (\<lambda>_.
           bindM (find_login slug name) (\<lambda>(organisation, found, record).
             case (organisation, found) of
               (Some g, Some u) \<Rightarrow>
                 if \<not> password_is_right (at_crypto at) password u record
                 then login_refused at so rs slug name (Some g) (Some u)
                 else (case refused_login g u of
                   Some (e, message) \<Rightarrow>
                     bindM (record_login_attempt so slug name ip False) (\<lambda>_.
                       bindM (identity_audit at (login_failed_event so rs g (Some u) message local_source)) (\<lambda>_. raiseM e))
                 | None \<Rightarrow>
                     bindM (record_login_attempt so slug name ip True) (\<lambda>_.
                       bindM (ir_clear_failed_login_attempts slug name ip) (\<lambda>_.
                         open_session at so rs u g [])))
             | _ \<Rightarrow> login_refused at so rs slug name organisation found)))"

definition login_oidc_user ::
    "authentication_service \<Rightarrow> sources \<Rightarrow> request_source \<Rightarrow> user \<Rightarrow> organisation \<Rightarrow> (identity_db, issued_session) io" where
  "login_oidc_user at so rs u g =
     (if us_organisation_id u \<noteq> og_id g then raiseM (Identity AuthenticationFailedError)
      else if us_source u \<noteq> OidcSource then raiseM (Identity AuthenticationFailedError)
      else case refused_login g u of
        Some (e, message) \<Rightarrow>
          bindM (identity_audit at (login_failed_event so rs g (Some u) message oidc_source)) (\<lambda>_. raiseM e)
      | None \<Rightarrow> open_session at so rs u g oidc_source)"

definition record_oidc_login_failure ::
    "authentication_service \<Rightarrow> sources \<Rightarrow> request_source \<Rightarrow> string \<Rightarrow> string \<Rightarrow> (identity_db, unit) io" where
  "record_oidc_login_failure at so rs organisation_slug reason =
     bindM (ir_get_organisation_by_slug (normalize_identity organisation_slug)) (\<lambda>organisation.
       case organisation of
         None \<Rightarrow> returnM ()
       | Some g \<Rightarrow> identity_audit at (login_failed_event so rs g None reason oidc_source))"

text \<open>\<open>_session_principal\<close>.\<close>

definition session_principal :: "user_session \<Rightarrow> (identity_db, principal \<times> organisation) io" where
  "session_principal s =
     bindM (ir_get_organisation (ss_organisation_id s)) (\<lambda>organisation.
       bindM (ir_get_user (ss_organisation_id s) (ss_user_id s)) (\<lambda>found.
         case (organisation, found) of
           (Some g, Some u) \<Rightarrow>
             bindM (raised (require_organisation_active g)) (\<lambda>_.
               bindM (raised (require_user_active u)) (\<lambda>_. returnM (user_principal u, g)))
         | _ \<Rightarrow> raiseM (Identity AuthenticationFailedError)))"

text \<open>The session that a token names, when the secret is its own.\<close>

definition session_of_token :: "crypto \<Rightarrow> string option \<Rightarrow> (identity_db, user_session \<times> string) io" where
  "session_of_token y token =
     bindM (liftE (parse_token y SESSION_PREFIX token)) (\<lambda>(session_id, secret).
       bindM (ir_get_session session_id) (\<lambda>found.
         case found of
           None \<Rightarrow> raiseM (Identity AuthenticationFailedError)
         | Some s \<Rightarrow>
             if ss_secret_hash s \<noteq> cy_hash_secret y secret then raiseM (Identity AuthenticationFailedError)
             else returnM (s, cy_hash_secret y secret)))"

definition authenticate_session ::
    "authentication_service \<Rightarrow> time \<Rightarrow> string option \<Rightarrow> (identity_db, authentication_context) io" where
  "authenticate_session at now token =
     bindM (session_of_token (at_crypto at) token) (\<lambda>(s, secret_hash).
       if ss_revoked_at s \<noteq> None then raiseM (Identity SessionRevokedError)
       else if ss_expires_at s \<le> now then raiseM (Identity SessionExpiredError)
       else bindM (session_principal s) (\<lambda>(p, _).
         bindM (if ss_last_seen_at s < now
                then bindM (ir_touch_session (ss_id s) secret_hash now) (\<lambda>_. returnM ()) else returnM ()) (\<lambda>_.
           returnM \<lparr>au_principal = p, au_session_id = Some (ss_id s), au_credential_id = None,
             au_permission_restrictions = None\<rparr>)))"

definition refresh_session ::
    "authentication_service \<Rightarrow> sources \<Rightarrow> string option \<Rightarrow> (identity_db, issued_session) io" where
  "refresh_session at so token =
     bindM (session_of_token (at_crypto at) token) (\<lambda>(s, secret_hash).
       if ss_revoked_at s \<noteq> None then raiseM (Identity SessionRevokedError)
       else if ss_maximum_expires_at s \<le> so_now so then raiseM (Identity SessionExpiredError)
       else bindM (session_principal s) (\<lambda>(p, g).
         bindM (ir_rotate_session (ss_id s) secret_hash (cy_hash_secret (at_crypto at) (so_secret so))
             (min (so_now so + at_access_lifetime at) (ss_maximum_expires_at s)) (so_now so)) (\<lambda>updated.
           case updated of
             None \<Rightarrow>
               bindM (ir_get_session (ss_id s)) (\<lambda>current.
                 if (case current of None \<Rightarrow> False | Some c \<Rightarrow> ss_revoked_at c \<noteq> None)
                 then raiseM (Identity SessionRevokedError) else raiseM (Identity AuthenticationFailedError))
           | Some u \<Rightarrow>
               returnM \<lparr>is_session = u,
                 is_access_token = format_token (at_crypto at) SESSION_PREFIX (ss_id u) (so_secret so),
                 is_principal = p, is_organisation = g\<rparr>)))"

definition logout ::
    "authentication_service \<Rightarrow> sources \<Rightarrow> request_source \<Rightarrow> string option \<Rightarrow> (identity_db, user_session) io" where
  "logout at so rs token =
     bindM (session_of_token (at_crypto at) token) (\<lambda>(s, secret_hash).
       bindM (session_principal s) (\<lambda>(p, _).
         bindM (ir_revoke_session (ss_id s) (so_now so) (Some secret_hash)) (\<lambda>revoked.
           case revoked of
             None \<Rightarrow> raiseM (Identity AuthenticationFailedError)
           | Some r \<Rightarrow>
               bindM (identity_audit at (identity_event so (ss_organisation_id r) ''USER_LOGOUT'' ''SESSION'' (Some (ss_id r))
                   AuditSucceeded (Some p) (rs_request_id rs) (rs_ip_address rs) (rs_user_agent rs) None [])) (\<lambda>_.
                 returnM r))))"

definition revoke_session ::
    "authentication_service \<Rightarrow> sources \<Rightarrow> authentication_context \<Rightarrow> uuid \<Rightarrow> uuid option \<Rightarrow> (identity_db, user_session) io" where
  "revoke_session at so context session_id request_id =
     bindM (ir_get_session session_id) (\<lambda>found.
       case found of
         None \<Rightarrow> raiseM (Identity AuthenticationFailedError)
       | Some s \<Rightarrow>
           (let p = au_principal context
            in if ss_organisation_id s \<noteq> pn_organisation_id p \<or> pn_type p = PrincipalUser \<and> ss_user_id s \<noteq> pn_id p
               then raiseM (Identity AuthenticationFailedError)
               else bindM (ir_revoke_session (ss_id s) (so_now so) None) (\<lambda>revoked.
                 case revoked of
                   None \<Rightarrow> raiseM (Identity AuthenticationFailedError)
                 | Some r \<Rightarrow>
                     bindM (identity_audit at (identity_event so (ss_organisation_id r) ''SESSION_REVOKED'' ''SESSION''
                         (Some (ss_id r)) AuditSucceeded (Some p) request_id None None None [])) (\<lambda>_. returnM r))))"

definition list_sessions :: "authentication_context \<Rightarrow> (identity_db, user_session list) io" where
  "list_sessions context =
     (let p = au_principal context
      in if pn_type p \<noteq> PrincipalUser then returnM [] else ir_list_sessions (pn_organisation_id p) (pn_id p))"

section \<open>API credentials\<close>

definition account_principal :: "service_account \<Rightarrow> principal" where
  "account_principal a = \<lparr>pn_id = sa_id a, pn_type = PrincipalServiceAccount,
     pn_organisation_id = sa_organisation_id a, pn_display_name = sa_name a\<rparr>"

definition new_credential ::
    "crypto \<Rightarrow> sources \<Rightarrow> service_account \<Rightarrow> string \<Rightarrow> time option \<Rightarrow> string list \<Rightarrow> string set option \<Rightarrow> api_credential" where
  "new_credential y so a name expires_at ranges restrictions =
     \<lparr>ap_id = so_credential_id so, ap_organisation_id = sa_organisation_id a, ap_principal_id = sa_id a,
      ap_principal_type = PrincipalServiceAccount, ap_name = name, ap_secret_hash = cy_hash_secret y (so_secret so),
      ap_created_at = so_now so, ap_expires_at = expires_at, ap_revoked_at = None, ap_last_used_at = None,
      ap_allowed_ip_ranges = ranges, ap_permission_restrictions = restrictions\<rparr>"

definition issue_api_credential ::
    "authentication_service \<Rightarrow> sources \<Rightarrow> service_account \<Rightarrow> string \<Rightarrow> time option \<Rightarrow> string list \<Rightarrow> string set option \<Rightarrow>
     principal option \<Rightarrow> (identity_db, api_credential \<times> string) io" where
  "issue_api_credential at so a name expires_at allowed_ip_ranges restrictions actor =
     (let y = at_crypto at; ranges = map (cy_ip_network y) allowed_ip_ranges
      in bindM (raised (require_service_account_active a)) (\<lambda>_.
           if (case expires_at of None \<Rightarrow> False | Some e \<Rightarrow> e \<le> so_now so) then raiseM ValueError
           else if None \<in> set ranges then raiseM ValueError
           else bindM (liftE (make_api_credential (cy_ip_network y)
                  (new_credential y so a name expires_at (map the ranges) restrictions))) (\<lambda>credential.
             bindM (ir_create_api_credential credential) (\<lambda>created.
               bindM (identity_audit at (identity_event so (ap_organisation_id created) ''CREDENTIAL_CREATED''
                   ''API_CREDENTIAL'' (Some (ap_id created)) AuditSucceeded
                   (Some (case actor of None \<Rightarrow> account_principal a | Some p \<Rightarrow> p)) None None None None
                   [(''name'', JStr (ap_name created))])) (\<lambda>_.
                 returnM (created, format_token y CREDENTIAL_PREFIX (ap_id created) (so_secret so)))))))"

definition audit_credential_failure ::
    "authentication_service \<Rightarrow> sources \<Rightarrow> api_credential \<Rightarrow> string \<Rightarrow> string option \<Rightarrow> (identity_db, unit) io" where
  "audit_credential_failure at so c reason source_ip =
     identity_audit at (identity_event so (ap_organisation_id c) ''CREDENTIAL_AUTHENTICATION_FAILED'' ''API_CREDENTIAL''
       (Some (ap_id c)) AuditFailed None None source_ip None (Some reason) [])"

definition refuse_credential ::
    "authentication_service \<Rightarrow> sources \<Rightarrow> api_credential \<Rightarrow> string option \<Rightarrow> error \<Rightarrow> string \<Rightarrow> (identity_db, 'a) io" where
  "refuse_credential at so c source_ip e reason =
     bindM (audit_credential_failure at so c reason source_ip) (\<lambda>_. raiseM e)"

definition ip_is_allowed :: "crypto \<Rightarrow> string option \<Rightarrow> string list \<Rightarrow> bool" where
  "ip_is_allowed y source_ip ranges = (case source_ip of None \<Rightarrow> False | Some a \<Rightarrow> cy_address_in y a ranges)"

text \<open>The checks of the credential itself, in order, with the reason that is audited.\<close>

definition credential_refusal :: "crypto \<Rightarrow> sources \<Rightarrow> string \<Rightarrow> string option \<Rightarrow> api_credential \<Rightarrow> (error \<times> string) option" where
  "credential_refusal y so secret source_ip c =
     (if ap_secret_hash c \<noteq> cy_hash_secret y secret
      then Some (Identity AuthenticationFailedError, ''Credential secret did not match.'')
      else if ap_revoked_at c \<noteq> None then Some (Identity TokenRevokedError, ''Credential was revoked.'')
      else if (case ap_expires_at c of None \<Rightarrow> False | Some e \<Rightarrow> e \<le> so_now so)
      then Some (Identity TokenExpiredError, ''Credential was expired.'')
      else if ap_allowed_ip_ranges c \<noteq> [] \<and> \<not> ip_is_allowed y source_ip (ap_allowed_ip_ranges c)
      then Some (Identity AuthenticationFailedError, ''Source address was outside the credential allow-list.'')
      else None)"

text \<open>Reading the credential and its principal, and what is written when all checks have passed.\<close>

definition credential_account ::
    "authentication_service \<Rightarrow> sources \<Rightarrow> string option \<Rightarrow> api_credential \<Rightarrow> (identity_db, service_account) io" where
  "credential_account at so source_ip c =
     bindM (ir_get_organisation (ap_organisation_id c)) (\<lambda>organisation.
       case organisation of
         None \<Rightarrow> raiseM (Identity AuthenticationFailedError)
       | Some g \<Rightarrow>
           (case require_organisation_active g of
              Some (e, message) \<Rightarrow> refuse_credential at so c source_ip e message
            | None \<Rightarrow>
                if ap_principal_type c \<noteq> PrincipalServiceAccount then raiseM (Identity AuthenticationFailedError)
                else bindM (ir_get_service_account (ap_organisation_id c) (ap_principal_id c)) (\<lambda>account.
                  case account of
                    None \<Rightarrow> refuse_credential at so c source_ip (Identity AuthenticationFailedError)
                      ''The service account was unavailable.''
                  | Some a \<Rightarrow>
                      (case require_service_account_active a of
                         Some (e, message) \<Rightarrow> refuse_credential at so c source_ip e message
                       | None \<Rightarrow> returnM a))))"

definition credential_used :: "sources \<Rightarrow> api_credential \<Rightarrow> service_account \<Rightarrow> (identity_db, authentication_context) io" where
  "credential_used so c a =
     bindM (ir_update_api_credential (c\<lparr>ap_last_used_at := Some (so_now so)\<rparr>)) (\<lambda>_.
       bindM (ir_update_service_account (a\<lparr>sa_last_used_at := Some (so_now so)\<rparr>)) (\<lambda>_.
         returnM \<lparr>au_principal = account_principal a, au_session_id = None, au_credential_id = Some (ap_id c),
           au_permission_restrictions = ap_permission_restrictions c\<rparr>))"

definition authenticate_api_credential ::
    "authentication_service \<Rightarrow> sources \<Rightarrow> string option \<Rightarrow> string option \<Rightarrow> (identity_db, authentication_context) io" where
  "authenticate_api_credential at so token source_ip =
     bindM (liftE (parse_token (at_crypto at) CREDENTIAL_PREFIX token)) (\<lambda>(credential_id, secret).
       bindM (ir_get_api_credential_by_id credential_id) (\<lambda>found.
         case found of
           None \<Rightarrow> raiseM (Identity AuthenticationFailedError)
         | Some c \<Rightarrow>
             (case credential_refusal (at_crypto at) so secret source_ip c of
                Some (e, reason) \<Rightarrow> refuse_credential at so c source_ip e reason
              | None \<Rightarrow> bindM (credential_account at so source_ip c) (\<lambda>a. credential_used so c a))))"

definition revoke_api_credential ::
    "authentication_service \<Rightarrow> sources \<Rightarrow> api_credential \<Rightarrow> principal \<Rightarrow> uuid option \<Rightarrow> (identity_db, api_credential) io" where
  "revoke_api_credential at so c actor request_id =
     (if ap_organisation_id c \<noteq> pn_organisation_id actor then raiseM (Identity AuthenticationFailedError)
      else bindM (if ap_revoked_at c = None
                  then ir_update_api_credential (c\<lparr>ap_revoked_at := Some (so_now so)\<rparr>) else returnM c) (\<lambda>revoked.
        bindM (identity_audit at (identity_event so (ap_organisation_id revoked) ''CREDENTIAL_REVOKED'' ''API_CREDENTIAL''
            (Some (ap_id revoked)) AuditSucceeded (Some actor) request_id None None None [])) (\<lambda>_. returnM revoked)))"

definition hash_password :: "authentication_service \<Rightarrow> string \<Rightarrow> error + string" where
  "hash_password at password =
     (if int (length password) < at_minimum_password_length at then Inl ValueError
      else Inr (cy_hash_password (at_crypto at) password))"

end
