(* ===== verification/SessionSteps.thy ===== *)
theory SessionSteps
  imports Authentication
begin

text \<open>
  The sessions under concurrency. A step of \<open>session_step\<close> is one transaction of any task: one of the
  repository methods that write sessions, with any arguments, or anything that leaves the sessions
  alone. Every call of the authentication service is a sequence of steps, so what holds of any steps
  holds of calls in any interleaving. The set \<open>H\<close> holds hashes that no new secret has.
\<close>

section \<open>The repository keeps the constraints of its tables\<close>

lemma keeps_require_check [keeps_identity]:
  "keeps J (require_updated n)" "keeps J (require_limit k)" "keeps J (raised check)" "keeps J (liftE v)"
  by (auto simp: require_updated_def require_limit_def raised_def keeps_wp wpM split: option.splits sum.splits)

lemma keeps_reads [keeps_identity]:
  "keeps identity_ok (ir_get_organisation i)" "keeps identity_ok (ir_get_organisation_by_slug g)"
  "keeps identity_ok (ir_get_user j u)" "keeps identity_ok (ir_get_user_by_username j name)"
  "keeps identity_ok (ir_get_password_credential u)" "keeps identity_ok (ir_get_session s)"
  "keeps identity_ok (ir_get_service_account j a)" "keeps identity_ok (ir_get_api_credential_by_id c)"
  "keeps identity_ok (ir_count_failed_login_attempts g name ip since)"
  by (simp_all add: ir_get_organisation_def ir_get_organisation_by_slug_def ir_get_user_def ir_get_user_by_username_def
      ir_get_password_credential_def ir_get_session_def ir_get_service_account_def ir_get_api_credential_by_id_def
      ir_count_failed_login_attempts_def keeps_identity keeps_gets)

lemma keeps_writes [keeps_identity]:
  "keeps identity_ok (ir_update_user u)" "keeps identity_ok (ir_create_session s)"
  "keeps identity_ok (ir_touch_session i h t)" "keeps identity_ok (ir_rotate_session i h h' t t')"
  "keeps identity_ok (ir_revoke_session i t ho)" "keeps identity_ok (ir_create_api_credential c)"
  "keeps identity_ok (ir_update_api_credential c)" "keeps identity_ok (ir_update_service_account a)"
  "keeps identity_ok (ir_create_audit_event e)" "keeps identity_ok (ir_record_login_attempt l)"
  "keeps identity_ok (ir_clear_failed_login_attempts g name ip)"
  by (auto simp: ir_update_user_def ir_create_session_def ir_touch_session_def ir_rotate_session_def
      ir_revoke_session_def ir_create_api_credential_def ir_update_api_credential_def ir_update_service_account_def
      ir_create_audit_event_def ir_record_login_attempt_def ir_clear_failed_login_attempts_def
      write_service_account_def require_user_in_organisation_def require_principal_in_organisation_def
      split: principal_type.splits intro!: keeps_intros keeps_identity)

section \<open>Steps\<close>

inductive session_step :: "string set \<Rightarrow> identity_db \<Rightarrow> identity_db \<Rightarrow> bool" for H :: "string set" where
  create: "identity_ok d \<Longrightarrow> ss_secret_hash s \<notin> H \<Longrightarrow> ir_create_session s d = (r, d') \<Longrightarrow> session_step H d d'"
| touch: "identity_ok d \<Longrightarrow> ir_touch_session i h t d = (r, d') \<Longrightarrow> session_step H d d'"
| rotate: "identity_ok d \<Longrightarrow> h' \<notin> H \<Longrightarrow> ir_rotate_session i h h' t t' d = (r, d') \<Longrightarrow> session_step H d d'"
| revoke: "identity_ok d \<Longrightarrow> ir_revoke_session i t ho d = (r, d') \<Longrightarrow> session_step H d d'"
| other: "identity_ok d \<Longrightarrow> identity_ok d' \<Longrightarrow> id_sessions d' = id_sessions d \<Longrightarrow> session_step H d d'"

definition session_steps :: "string set \<Rightarrow> identity_db \<Rightarrow> identity_db \<Rightarrow> bool" where
  "session_steps H = (session_step H)\<^sup>*\<^sup>*"

lemma session_step_ok: "session_step H d d' \<Longrightarrow> identity_ok d \<and> identity_ok d'"
  by (induction rule: session_step.induct) (auto intro: keeps_run[OF keeps_writes(2)] keeps_run[OF keeps_writes(3)]
      keeps_run[OF keeps_writes(4)] keeps_run[OF keeps_writes(5)])

lemma session_steps_ok: "session_steps H d d' \<Longrightarrow> identity_ok d \<Longrightarrow> identity_ok d'"
  unfolding session_steps_def by (induction rule: rtranclp_induct) (auto dest: session_step_ok)

lemma session_steps_refl [simp]: "session_steps H d d"
  by (simp add: session_steps_def)

lemma session_steps_trans: "session_steps H d d' \<Longrightarrow> session_steps H d' d'' \<Longrightarrow> session_steps H d d''"
  by (simp add: session_steps_def)

section \<open>What a step does to a session\<close>

text \<open>The session with an identifier; its row after a step is the row before, with some columns advanced.\<close>

definition session_row :: "identity_db \<Rightarrow> uuid \<Rightarrow> user_session option" where
  "session_row d i = first_row (filter (\<lambda>s. ss_id s = i) (id_sessions d))"

definition session_advances :: "string set \<Rightarrow> user_session \<Rightarrow> user_session \<Rightarrow> bool" where
  "session_advances H s s' \<longleftrightarrow> ss_id s' = ss_id s \<and> ss_user_id s' = ss_user_id s \<and>
     ss_organisation_id s' = ss_organisation_id s \<and> ss_created_at s' = ss_created_at s \<and>
     ss_maximum_expires_at s' = ss_maximum_expires_at s \<and>
     (ss_revoked_at s \<noteq> None \<longrightarrow> s' = s) \<and>
     (ss_secret_hash s' = ss_secret_hash s \<or> ss_secret_hash s' \<notin> H)"

lemma session_advances_refl [simp]: "session_advances H s s"
  by (simp add: session_advances_def)

lemma session_advances_trans: "session_advances H s s' \<Longrightarrow> session_advances H s' s'' \<Longrightarrow> session_advances H s s''"
  by (auto simp: session_advances_def)

lemma first_row_update:
  "first_row (filter Q rows) = Some s \<Longrightarrow> (\<And>x. P x \<Longrightarrow> Q (f x) = Q x) \<Longrightarrow>
   first_row (filter Q (update_where P f rows)) = Some (if P s then f s else s)"
  by (induction rows) (auto simp: update_where_def split: if_splits)

lemma first_row_append: "first_row (filter Q rows) = Some s \<Longrightarrow> first_row (filter Q (rows @ xs)) = Some s"
  by (induction rows) (auto split: if_splits)

text \<open>An update of sessions that fails leaves the database as it is.\<close>

lemma update_sessions_row:
  assumes "session_row d i = Some s" "update_row sessions_table P f d = (r, d')" "\<And>x. ss_id (f x) = ss_id x"
  shows "session_row d' i = Some (if P s then f s else s) \<or> d' = d"
  using assms(2,3) first_row_update[OF assms(1)[unfolded session_row_def], of P f]
  by (auto simp: session_row_def update_row_def write_table_def sessions_table_def runM Let_def split: if_splits)

lemma update_advances:
  assumes "session_row d i = Some s" "update_row sessions_table P f d = (q, d1)" "d' = d1 \<or> d' = d"
    "\<And>x. ss_id (f x) = ss_id x" "P s \<Longrightarrow> session_advances H s (f s)"
  shows "\<exists>s'. session_row d' i = Some s' \<and> session_advances H s s'"
  using update_sessions_row[OF assms(1,2,4)] assms(1,3,5) by (auto split: if_splits)

lemma session_step_row:
  assumes "session_step H d d'" "session_row d i = Some s"
  shows "\<exists>s'. session_row d' i = Some s' \<and> session_advances H s s'"
  using assms
proof (induction rule: session_step.induct)
  case (create d x r d')
  then show ?case
    using first_row_append[of "\<lambda>s. ss_id s = i" "id_sessions d" s "[x]"]
    by (auto simp: ir_create_session_def require_user_in_organisation_def ir_get_user_def select_row_def insert_row_def
        write_table_def sessions_table_def session_row_def runM Let_def split: if_splits sum.splits prod.splits option.splits)
next
  case (touch d j h t r d')
  obtain q d1 where u: "update_row sessions_table
      (\<lambda>s. ss_id s = j \<and> ss_secret_hash s = h \<and> ss_revoked_at s = None \<and> ss_last_seen_at s < t)
      (\<lambda>s. s\<lparr>ss_last_seen_at := t\<rparr>) d = (q, d1)" by fastforce
  then have "d' = d1 \<or> d' = d"
    using touch.hyps(2) by (auto simp: ir_touch_session_def runM split: sum.splits)
  from update_advances[OF touch.prems u this] show ?case by (simp add: session_advances_def)
next
  case (rotate d h' j h t t' r d')
  obtain q d1 where u: "update_row sessions_table (\<lambda>s. ss_id s = j \<and> ss_secret_hash s = h \<and> ss_revoked_at s = None)
      (\<lambda>s. s\<lparr>ss_secret_hash := h', ss_expires_at := t, ss_last_seen_at := t'\<rparr>) d = (q, d1)" by fastforce
  then have "d' = d1 \<or> d' = d"
    using rotate.hyps(3) by (auto simp: ir_rotate_session_def ir_get_session_def select_row_def runM split: sum.splits if_splits)
  from update_advances[OF rotate.prems u this] show ?case using rotate.hyps(2) by (simp add: session_advances_def)
next
  case (revoke d j t ho r d')
  define P where "P s \<longleftrightarrow> ss_id s = j \<and> (case ho of None \<Rightarrow> True | Some h \<Rightarrow> ss_secret_hash s = h) \<and> ss_revoked_at s = None"
    for s :: user_session
  obtain q d1 where u: "update_row sessions_table P (\<lambda>s. s\<lparr>ss_revoked_at := Some t\<rparr>) d = (q, d1)" by fastforce
  then have "d' = d1 \<or> d' = d"
    using revoke.hyps(2) by (cases ho) (auto simp: ir_revoke_session_def ir_get_session_def select_row_def runM P_def[abs_def]
        split: sum.splits if_splits)
  from update_advances[OF revoke.prems u this] show ?case by (simp add: session_advances_def P_def)
next
  case (other d d')
  then show ?case
    by (simp add: session_row_def)
qed

lemma session_steps_row:
  "session_steps H d d' \<Longrightarrow> session_row d i = Some s \<Longrightarrow> \<exists>s'. session_row d' i = Some s' \<and> session_advances H s s'"
  unfolding session_steps_def
  by (induction rule: rtranclp_induct) (use session_step_row session_advances_trans in \<open>fastforce+\<close>)

lemma run_get_session: "ir_get_session i d = (Inr (session_row d i), d)"
  by (simp add: ir_get_session_def select_row_def session_row_def sessions_table_def runM)


section \<open>Every call is steps\<close>

definition by_steps :: "string set \<Rightarrow> (identity_db, 'a) io \<Rightarrow> bool" where
  "by_steps H m \<longleftrightarrow> (\<forall>d. identity_ok d \<longrightarrow> session_steps H d (snd (m d)))"

named_theorems steps_intros \<open>computations that are steps on sessions\<close>

lemma by_steps_run: "by_steps H m \<Longrightarrow> m d = (r, d') \<Longrightarrow> identity_ok d \<Longrightarrow> session_steps H d d'"
  by (metis by_steps_def snd_conv)

lemma by_steps_pure [steps_intros]:
  "by_steps H (returnM x)" "by_steps H (raiseM e)" "by_steps H (liftE v)" "by_steps H (getsM f)"
  by (simp_all add: by_steps_def runM)

lemma by_steps_bind [steps_intros]:
  assumes "by_steps H m" "\<And>x. by_steps H (f x)" shows "by_steps H (bindM m f)"
proof -
  have "session_steps H d (snd (f x d'))" if "session_steps H d d'" "identity_ok d" for d x d'
    using assms(2)[of x] session_steps_ok[OF that] session_steps_trans[OF that(1)] by (auto simp: by_steps_def)
  with assms(1) show ?thesis
    by (auto simp: by_steps_def runM split: prod.splits sum.splits)
qed

lemma by_steps_cases [steps_intros]:
  "by_steps H m \<Longrightarrow> by_steps H n \<Longrightarrow> by_steps H (if b then m else n)"
  "by_steps H m \<Longrightarrow> (\<And>x. by_steps H (f x)) \<Longrightarrow> by_steps H (case v of None \<Rightarrow> m | Some x \<Rightarrow> f x)"
  "(\<And>x y. by_steps H (g x y)) \<Longrightarrow> by_steps H (case p of (x, y) \<Rightarrow> g x y)"
  by (simp_all split: option.splits prod.splits)

lemma by_one_step:
  assumes "\<And>d r d'. identity_ok d \<Longrightarrow> m d = (r, d') \<Longrightarrow> session_step H d d'"
  shows "by_steps H m"
proof -
  have "session_step H d (snd (m d))" if "identity_ok d" for d
    using assms[OF that, of "fst (m d)"] by simp
  then show ?thesis by (simp add: by_steps_def session_steps_def r_into_rtranclp)
qed

lemma by_steps_sessions [steps_intros]:
  "ss_secret_hash s \<notin> H \<Longrightarrow> by_steps H (ir_create_session s)"
  "by_steps H (ir_touch_session i h t)"
  "h' \<notin> H \<Longrightarrow> by_steps H (ir_rotate_session i h h' t t')"
  "by_steps H (ir_revoke_session i t ho)"
  by (auto intro: by_one_step session_step.intros)

lemma by_steps_other:
  assumes "keeps identity_ok m" "\<And>ss. keeps (\<lambda>d. id_sessions d = ss) m"
  shows "by_steps H m"
proof (rule by_one_step)
  fix d r d' assume d: "identity_ok d" "m d = (r, d')"
  then show "session_step H d d'"
    using keeps_run[OF assms(1) d] keeps_run[OF assms(2)[of "id_sessions d"] _ d(2)] by (simp add: session_step.other)
qed

lemma by_steps_reads [steps_intros]:
  "by_steps H (ir_get_organisation i)" "by_steps H (ir_get_organisation_by_slug g)"
  "by_steps H (ir_get_user j u)" "by_steps H (ir_get_user_by_username j name)"
  "by_steps H (ir_get_password_credential u)" "by_steps H (ir_get_session s)"
  "by_steps H (ir_get_service_account j a)" "by_steps H (ir_get_api_credential_by_id c)"
  "by_steps H (ir_count_failed_login_attempts g name ip since)"
  by (simp_all add: ir_get_organisation_def ir_get_organisation_by_slug_def ir_get_user_def ir_get_user_by_username_def
      ir_get_password_credential_def ir_get_session_def ir_get_service_account_def ir_get_api_credential_by_id_def
      ir_count_failed_login_attempts_def select_row_def steps_intros)

lemma spares_sessions:
  "keeps (\<lambda>d. id_sessions d = ss) (update_row users_table P f)"
  "keeps (\<lambda>d. id_sessions d = ss) (insert_row credentials_table c)"
  "keeps (\<lambda>d. id_sessions d = ss) (update_row credentials_table Q g)"
  "keeps (\<lambda>d. id_sessions d = ss) (update_row accounts_table A h)"
  "keeps (\<lambda>d. id_sessions d = ss) (insert_row audit_table e)"
  "keeps (\<lambda>d. id_sessions d = ss) (insert_row attempts_table l)"
  "keeps (\<lambda>d. id_sessions d = ss) (delete_row attempts_table L)"
  "keeps (\<lambda>d. id_sessions d = ss) (select_row T R)" "keeps (\<lambda>d. id_sessions d = ss) (require_updated n)"
  "keeps (\<lambda>d. id_sessions d = ss) (require_limit k)"
  by (auto simp: keeps_wp wpM identity_tables Let_def require_updated_def require_limit_def)

lemma by_steps_writes [steps_intros]:
  "by_steps H (ir_update_user u)" "by_steps H (ir_create_api_credential c)"
  "by_steps H (ir_update_api_credential c)" "by_steps H (ir_update_service_account a)"
  "by_steps H (ir_create_audit_event e)" "by_steps H (ir_record_login_attempt l)"
  "by_steps H (ir_clear_failed_login_attempts g name ip)"
  by (rule by_steps_other[OF keeps_writes(1)] by_steps_other[OF keeps_writes(6)] by_steps_other[OF keeps_writes(7)]
      by_steps_other[OF keeps_writes(8)] by_steps_other[OF keeps_writes(9)] by_steps_other[OF keeps_writes(10)]
      by_steps_other[OF keeps_writes(11)];
      auto simp: ir_update_user_def ir_create_api_credential_def ir_update_api_credential_def ir_update_service_account_def
      ir_create_audit_event_def ir_record_login_attempt_def ir_clear_failed_login_attempts_def
      write_service_account_def require_user_in_organisation_def require_principal_in_organisation_def
      ir_get_user_def ir_get_service_account_def split: principal_type.splits intro!: keeps_intros spares_sessions)+


section \<open>An example\<close>

definition example_crypto :: crypto where
  "example_crypto = \<lparr>cy_hash_secret = (\<lambda>s. replicate 64 (if s ! 0 = CHR ''x'' then CHR ''a'' else CHR ''b'')),
     cy_hash_password = id, cy_verify = (\<lambda>password h. password = h),
     cy_uuid_of_hex = Some, cy_hex_of_uuid = id, cy_ip_network = Some, cy_address_in = (\<lambda>_ _. True),
     cy_audit_text = (\<lambda>_ s. s), cy_make_event = Inr\<rparr>"

definition example_service :: authentication_service where
  "example_service = \<lparr>at_crypto = example_crypto, at_minimum_password_length = 12, at_access_lifetime = 10,
     at_session_lifetime = 100, at_maximum_session_lifetime = 1000, at_rate_limit_attempts = 2,
     at_rate_limit_window = 50, at_audit_enabled = True\<rparr>"

text \<open>The sources of the n-th call, whose secret begins with the given character.\<close>

definition example_sources :: "string \<Rightarrow> char \<Rightarrow> time \<Rightarrow> sources" where
  "example_sources n c now = \<lparr>so_now = now, so_session_id = ''s'' @ n, so_credential_id = ''c'' @ n,
     so_event_id = ''e'' @ n, so_attempt_id = ''l'' @ n, so_secret = replicate 32 c\<rparr>"

definition example_request :: request_source where
  "example_request = \<lparr>rs_ip_address = Some ''h'', rs_user_agent = None, rs_request_id = None\<rparr>"

definition example_account :: service_account where
  "example_account = \<lparr>sa_id = ''a1'', sa_organisation_id = ''g1'', sa_name = ''ci'', sa_description = None,
     sa_status = AccountActive, sa_created_at = 0, sa_updated_at = 0, sa_last_used_at = None\<rparr>"

definition example_users :: identity_db where
  "example_users = empty_identity\<lparr>
     id_organisations := [\<lparr>og_id = ''g1'', og_slug = ''g'', og_name = ''G'', og_status = OrgActive, og_created_at = 0,
       og_updated_at = 0\<rparr>],
     id_users := [\<lparr>us_id = ''u1'', us_organisation_id = ''g1'', us_username = ''ann'', us_display_name = ''Ann'',
       us_email = None, us_status = UserActive, us_source = LocalSource, us_created_at = 0, us_updated_at = 0,
       us_last_login_at = None\<rparr>],
     id_passwords := [\<lparr>pw_user_id = ''u1'', pw_hash = ''correct horse battery staple, it is'', pw_created_at = 0, pw_updated_at = 0\<rparr>],
     id_accounts := [example_account]\<rparr>"

definition example_token :: "string option" where
  "example_token = Some (''lps_s1_'' @ replicate 32 CHR ''x'')"

lemma example_users_ok: "identity_ok example_users"
  by code_simp

definition example_login :: "(error + issued_session) \<times> identity_db" where
  "example_login = login example_service (example_sources ''1'' CHR ''x'' 5) example_request ''G'' '' Ann '' ''correct horse battery staple, it is'' example_users"

lemma example_login_run:
  "map_sum id is_access_token (fst example_login) = Inr (the example_token)"
  by code_simp

end
