(* ===== verification/LoginLimit.thy ===== *)
theory LoginLimit
  imports SessionSteps
begin

text \<open>
  The limit on failed logins: names are normalised once and for all, every wrong password leaves a row,
  and a client that has reached the limit is turned away before its password is looked at.
\<close>

section \<open>Normalised names\<close>

lemma strip_with_ends: "strip_with p s = [] \<or> \<not> p (hd (strip_with p s)) \<and> \<not> p (last (strip_with p s))"
proof -
  define t where "t = dropWhile p s"
  have front: "t = [] \<or> \<not> p (hd t)" using hd_dropWhile[of p s] by (auto simp: t_def)
  have "strip_with p s = [] \<or> \<not> p (last (strip_with p s))"
    using hd_dropWhile[of p "rev (dropWhile p s)"] by (auto simp: strip_with_def last_rev)
  moreover have "strip_with p s = [] \<or> hd (strip_with p s) = hd t"
    using takeWhile_dropWhile_id[of p "rev t"]
    by (metis hd_append2 rev_append rev_rev_ident strip_with_def t_def)
  moreover have "strip_with p s = []" if "t = []"
    using that unfolding strip_with_def t_def[symmetric] by (simp del: dropWhile_eq_Nil_conv)
  ultimately show ?thesis using front by metis
qed

lemma strip_with_fixed:
  assumes "t = [] \<or> \<not> p (hd t) \<and> \<not> p (last t)"
  shows "strip_with p t = t"
proof -
  have fixed: "dropWhile p u = u" if "u = [] \<or> \<not> p (hd u)" for u
    using that by (cases u) auto
  show ?thesis using assms by (auto simp: strip_with_def fixed hd_rev)
qed

lemma casefold_char_cases:
  "casefold_char c \<noteq> []" "\<not> py_space c \<Longrightarrow> x \<in> set (casefold_char c) \<Longrightarrow> \<not> py_space x"
  by (auto simp: casefold_char_def py_space_def Let_def split: if_splits)

lemma casefold_idem [simp]: "py_casefold (py_casefold s) = py_casefold s"
proof (induction s)
  case (Cons c s)
  have "concat (map casefold_char (casefold_char c)) = casefold_char c"
    by (auto simp: casefold_char_def Let_def)
  with Cons show ?case by (simp add: py_casefold_def)
qed (simp add: py_casefold_def)

lemma casefold_ends:
  assumes "s = [] \<or> \<not> py_space (hd s) \<and> \<not> py_space (last s)"
  shows "py_casefold s = [] \<or> \<not> py_space (hd (py_casefold s)) \<and> \<not> py_space (last (py_casefold s))"
proof (cases "s = []")
  case False
  then have "\<not> py_space (hd (casefold_char (hd s)))" "\<not> py_space (last (casefold_char (last s)))"
    using assms casefold_char_cases by (metis hd_in_set last_in_set)+
  moreover have "hd (py_casefold s) = hd (casefold_char (hd s))"
    using False casefold_char_cases(1) by (cases s) (auto simp: py_casefold_def)
  moreover have "last (py_casefold s) = last (casefold_char (last s))"
    using False casefold_char_cases(1) by (cases s rule: rev_cases) (auto simp: py_casefold_def)
  ultimately show ?thesis by simp
qed (simp add: py_casefold_def)

lemma normalize_identity_fixed [simp]:
  "normalize_identity (normalize_identity s) = normalize_identity s" "trim (normalize_identity s) = normalize_identity s"
proof -
  have ends: "normalize_identity s = [] \<or> \<not> py_space (hd (normalize_identity s)) \<and> \<not> py_space (last (normalize_identity s))"
    unfolding normalize_identity_def py_strip_def by (rule casefold_ends[OF strip_with_ends])
  then show "normalize_identity (normalize_identity s) = normalize_identity s"
    by (simp add: normalize_identity_def py_strip_def strip_with_fixed)
  have "unicode_space c \<Longrightarrow> py_space c" for c by (auto simp: unicode_space_def py_space_def Let_def)
  with ends show "trim (normalize_identity s) = normalize_identity s"
    by (metis strip_with_fixed trim_def)
qed

section \<open>One login\<close>

definition failures_since :: "string \<Rightarrow> string \<Rightarrow> string option \<Rightarrow> time \<Rightarrow> identity_db \<Rightarrow> int" where
  "failures_since slug username ip t d =
     rows_changed (\<lambda>a. same_login slug username ip a \<and> t \<le> la_attempted_at a) (id_attempts d)"

text \<open>A call that leaves the password hashes and the failed logins alone.\<close>

lemma audit_spares_logins:
  "identity_audit at e d = (r, d') \<Longrightarrow> id_passwords d' = id_passwords d \<and> id_attempts d' = id_attempts d"
  by (auto simp: identity_audit_def ir_create_audit_event_def insert_row_def write_table_def audit_table_def runM
      require_limit_def Let_def split: if_splits sum.splits prod.splits)

lemma recorded_failure:
  assumes "record_login_attempt so (normalize_identity slug) (normalize_identity username) ip False d = (r, d')"
    "map_option trim ip = ip"
  shows "id_passwords d' = id_passwords d" "failures_since (normalize_identity slug) (normalize_identity username) ip t d \<le>
    failures_since (normalize_identity slug) (normalize_identity username) ip t d'"
    "r = Inr () \<Longrightarrow> t \<le> so_now so \<Longrightarrow> failures_since (normalize_identity slug) (normalize_identity username) ip t d' =
      failures_since (normalize_identity slug) (normalize_identity username) ip t d + 1"
  using assms(1) by (auto simp: record_login_attempt_def make_login_attempt_def ir_record_login_attempt_def insert_row_def
      write_table_def attempts_table_def runM Let_def failures_since_def rows_changed_def same_login_def assms(2)
      split: if_splits sum.splits prod.splits)

lemma find_login_run:
  "\<exists>g u p. find_login slug username d = (Inr (g, u, p), d) \<and> (\<forall>x. p = Some x \<longrightarrow> x \<in> set (id_passwords d))"
  by (auto simp: find_login_def ir_get_organisation_by_slug_def ir_get_user_by_username_def ir_get_password_credential_def
      select_row_def passwords_table_def runM split: option.splits dest!: first_row_Some)

text \<open>A login with a wrong password ends in \<open>login_refused\<close>, whatever is known of the name.\<close>

lemma wrong_login_run:
  fixes organisation_slug username :: string
  assumes "\<forall>p\<in>set (id_passwords d). \<not> cy_verify (at_crypto at) password (pw_hash p)"
  defines "slug \<equiv> normalize_identity organisation_slug" and "name \<equiv> normalize_identity username"
  shows "\<exists>g u. login at so rs organisation_slug username password d =
    (if at_rate_limit_attempts at \<le> failures_since slug name (rs_ip_address rs) (so_now so - at_rate_limit_window at) d
     then (Inl (Identity LoginRateLimitExceededError), d) else login_refused at so rs slug name g u d)"
proof -
  obtain g u p where found: "find_login slug name d = (Inr (g, u, p), d)" "p = Some x \<Longrightarrow> x \<in> set (id_passwords d)" for x
    using find_login_run[of slug name d] by blast
  then have "\<not> password_is_right (at_crypto at) password v p" for v
    using assms(1) by (auto simp: password_is_right_def split: option.splits)
  then show ?thesis
    by (intro exI[of _ g] exI[of _ u]) (simp add: login_def Let_def too_many_failures_def ir_count_failed_login_attempts_def
        failures_since_def runM found(1) slug_def[symmetric] name_def[symmetric] split: option.splits)
qed

lemma refused_run:
  assumes "login_refused at so rs (normalize_identity slug) (normalize_identity username) g u d = (r, d')"
    "map_option trim (rs_ip_address rs) = rs_ip_address rs"
  shows "id_passwords d' = id_passwords d"
    "failures_since (normalize_identity slug) (normalize_identity username) (rs_ip_address rs) t d \<le>
     failures_since (normalize_identity slug) (normalize_identity username) (rs_ip_address rs) t d'"
    "r = Inl (Identity InvalidCredentialsError) \<Longrightarrow> t \<le> so_now so \<Longrightarrow>
     failures_since (normalize_identity slug) (normalize_identity username) (rs_ip_address rs) t d' =
     failures_since (normalize_identity slug) (normalize_identity username) (rs_ip_address rs) t d + 1"
proof -
  obtain q d1 where rec: "record_login_attempt so (normalize_identity slug) (normalize_identity username)
      (rs_ip_address rs) False d = (q, d1)" by fastforce
  have q: "q = Inr () \<or> q = Inl ValueError \<or> q = Inl IntegrityError"
    using rec by (auto simp: record_login_attempt_def make_login_attempt_def ir_record_login_attempt_def insert_row_def
        write_table_def runM Let_def split: if_splits sum.splits prod.splits)
  have d': "id_passwords d' = id_passwords d1 \<and> id_attempts d' = id_attempts d1"
    using assms(1) rec by (auto simp: login_refused_def runM dest: audit_spares_logins
        split: sum.splits prod.splits option.splits)
  then have same: "failures_since s n ip t d' = failures_since s n ip t d1" for s n ip t
    by (simp add: failures_since_def)
  show "id_passwords d' = id_passwords d" using d' recorded_failure(1)[OF rec assms(2)] by simp
  show "failures_since (normalize_identity slug) (normalize_identity username) (rs_ip_address rs) t d \<le>
      failures_since (normalize_identity slug) (normalize_identity username) (rs_ip_address rs) t d'"
    using recorded_failure(2)[OF rec assms(2)] same by simp
  show "failures_since (normalize_identity slug) (normalize_identity username) (rs_ip_address rs) t d' =
      failures_since (normalize_identity slug) (normalize_identity username) (rs_ip_address rs) t d + 1"
    if "r = Inl (Identity InvalidCredentialsError)" "t \<le> so_now so"
  proof -
    have "q = Inr ()" using q that(1) assms(1) rec by (auto simp: login_refused_def runM)
    with recorded_failure(3)[OF rec assms(2)] that(2) same show ?thesis by simp
  qed
qed

section \<open>Many logins\<close>

text \<open>How many of a client's logins, one after another, are told that the password is wrong.\<close>

fun wrong_guesses ::
    "authentication_service \<Rightarrow> request_source \<Rightarrow> string \<Rightarrow> string \<Rightarrow> (sources \<times> string) list \<Rightarrow> identity_db \<Rightarrow> int" where
  "wrong_guesses at rs slug username [] d = 0"
| "wrong_guesses at rs slug username ((so, password) # guesses) d =
     (case login at so rs slug username password d of (r, d') \<Rightarrow>
        (if r = Inl (Identity InvalidCredentialsError) then 1 else 0) + wrong_guesses at rs slug username guesses d')"

lemma failures_earlier: "t \<le> t' \<Longrightarrow> failures_since s n ip t' d \<le> failures_since s n ip t d"
proof -
  assume t: "t \<le> t'"
  have "length (filter P xs) \<le> length (filter Q xs)" if "\<And>x. P x \<Longrightarrow> Q x" for P Q :: "login_attempt \<Rightarrow> bool" and xs
    using that by (induction xs) auto
  from this[of "\<lambda>a. same_login s n ip a \<and> t' \<le> la_attempted_at a" "\<lambda>a. same_login s n ip a \<and> t \<le> la_attempted_at a"]
  show ?thesis using t by (fastforce simp: failures_since_def rows_changed_def)
qed

lemma guesses_bounded:
  assumes "\<forall>(so, password)\<in>set guesses. t \<le> so_now so \<and> so_now so \<le> t + at_rate_limit_window at \<and>
      (\<forall>p\<in>set (id_passwords d). \<not> cy_verify (at_crypto at) password (pw_hash p))"
    "map_option trim (rs_ip_address rs) = rs_ip_address rs"
  shows "wrong_guesses at rs slug username guesses d \<le> max 0 (at_rate_limit_attempts at -
    failures_since (normalize_identity slug) (normalize_identity username) (rs_ip_address rs) t d)"
  using assms(1)
proof (induction guesses arbitrary: d)
  case (Cons guess guesses)
  obtain so password where guess: "guess = (so, password)" by fastforce
  let ?F = "failures_since (normalize_identity slug) (normalize_identity username) (rs_ip_address rs)"
  obtain r d' where run: "login at so rs slug username password d = (r, d')" by fastforce
  have wrong: "\<forall>p\<in>set (id_passwords d). \<not> cy_verify (at_crypto at) password (pw_hash p)"
    and time: "t \<le> so_now so" "so_now so - at_rate_limit_window at \<le> t" using Cons.prems guess by auto
  from wrong_login_run[OF wrong, of so rs slug username] obtain g u where
    cases: "(r, d') = (if at_rate_limit_attempts at \<le> ?F (so_now so - at_rate_limit_window at) d
      then (Inl (Identity LoginRateLimitExceededError), d)
      else login_refused at so rs (normalize_identity slug) (normalize_identity username) g u d)"
    unfolding run by blast
  have step: "id_passwords d' = id_passwords d" "?F t d \<le> ?F t d'"
    "r = Inl (Identity InvalidCredentialsError) \<Longrightarrow> ?F t d' = ?F t d + 1 \<and> ?F t d < at_rate_limit_attempts at"
  proof -
    consider "r = Inl (Identity LoginRateLimitExceededError)" "d' = d"
      | "login_refused at so rs (normalize_identity slug) (normalize_identity username) g u d = (r, d')"
        "?F t d < at_rate_limit_attempts at"
      using cases failures_earlier[OF time(2), of "normalize_identity slug" "normalize_identity username" "rs_ip_address rs" d]
      by (auto split: if_splits)
    then have "id_passwords d' = id_passwords d \<and> ?F t d \<le> ?F t d' \<and> (r = Inl (Identity InvalidCredentialsError) \<longrightarrow>
        ?F t d' = ?F t d + 1 \<and> ?F t d < at_rate_limit_attempts at)"
    proof cases
      case 2
      with refused_run(1)[OF 2(1) assms(2)] refused_run(2,3)[OF 2(1) assms(2), of t] time(1) show ?thesis by simp
    qed simp
    then show "id_passwords d' = id_passwords d" "?F t d \<le> ?F t d'" "r = Inl (Identity InvalidCredentialsError) \<Longrightarrow>
        ?F t d' = ?F t d + 1 \<and> ?F t d < at_rate_limit_attempts at" by simp_all
  qed
  have "wrong_guesses at rs slug username guesses d' \<le> max 0 (at_rate_limit_attempts at - ?F t d')"
    using Cons.IH[of d'] Cons.prems step(1) by simp
  then show ?case using step(2,3) by (auto simp: guess run)
qed simp

end
