(* ===== verification/SessionProperties.thy ===== *)
theory SessionProperties
  imports LoginLimit
begin

text \<open>
  What a session token is good for: the calls of the authentication service are steps on sessions, so
  the properties hold whatever other calls come between, whole or in part.
\<close>

section \<open>The calls of the service are steps\<close>

lemma audit_steps [steps_intros]: "by_steps H (identity_audit at e)"
  by (simp add: identity_audit_def steps_intros)

lemma raised_steps [steps_intros]: "by_steps H (raised check)"
  by (auto simp: raised_def steps_intros split: option.splits)

lemma service_part_steps [steps_intros]:
  "by_steps H (too_many_failures at so slug username ip)" "by_steps H (find_login slug username)"
  "by_steps H (record_login_attempt so slug username ip ok)"
  "by_steps H (login_refused at so rs slug username g u)"
  "by_steps H (session_principal s)" "by_steps H (session_of_token y token)"
  "by_steps H (refuse_credential at so c source_ip e reason)" "by_steps H (credential_used so c a)"
  by (auto simp: too_many_failures_def find_login_def record_login_attempt_def login_refused_def session_principal_def
      session_of_token_def refuse_credential_def audit_credential_failure_def credential_used_def
      intro!: steps_intros split: option.splits)

lemma account_steps [steps_intros]: "by_steps H (credential_account at so source_ip c)"
  by (auto simp: credential_account_def intro!: steps_intros split: option.splits)

definition fresh_secret :: "authentication_service \<Rightarrow> sources \<Rightarrow> string set \<Rightarrow> bool" where
  "fresh_secret at so H \<longleftrightarrow> cy_hash_secret (at_crypto at) (so_secret so) \<notin> H \<and>
     trim (cy_hash_secret (at_crypto at) (so_secret so)) \<notin> H"

lemma fresh_secretD: "fresh_secret at so H \<Longrightarrow> cy_hash_secret (at_crypto at) (so_secret so) \<notin> H"
  by (simp add: fresh_secret_def)

lemma made_session:
  "make_user_session t (new_session at so rs u) = Inr s \<Longrightarrow> ss_secret_hash s = trim (cy_hash_secret (at_crypto at) (so_secret so)) \<and>
     ss_id s = so_session_id so \<and> ss_revoked_at s = None \<and>
     ss_maximum_expires_at s \<le> so_now so + at_session_lifetime at"
  by (auto simp: make_user_session_def new_session_def Let_def split: if_splits)

lemma liftE_steps: "(\<And>x. v = Inr x \<Longrightarrow> by_steps H (f x)) \<Longrightarrow> by_steps H (bindM (liftE v) f)"
  by (cases v) (simp_all add: by_steps_def runM)

lemma issue_steps [steps_intros]: "fresh_secret at so H \<Longrightarrow> by_steps H (issue_session at so rs u g)"
  by (auto simp: issue_session_def fresh_secret_def dest: made_session intro!: liftE_steps steps_intros)

lemma open_steps [steps_intros]: "fresh_secret at so H \<Longrightarrow> by_steps H (open_session at so rs u g metadata)"
  by (auto simp: open_session_def intro!: steps_intros)

lemma calls_are_steps:
  "fresh_secret at so H \<Longrightarrow> by_steps H (login at so rs slug username password)"
  "fresh_secret at so H \<Longrightarrow> by_steps H (login_oidc_user at so rs u g)"
  "fresh_secret at so H \<Longrightarrow> by_steps H (refresh_session at so token)"
  "by_steps H (authenticate_session at now token)" "by_steps H (logout at so rs token)"
  "by_steps H (revoke_session at so context i request_id)" "by_steps H (list_sessions context)"
  "by_steps H (issue_api_credential at so a name expires_at ranges restrictions actor)"
  "by_steps H (authenticate_api_credential at so token source_ip)"
  "by_steps H (revoke_api_credential at so c p request_id)"
  "by_steps H (record_oidc_login_failure at so rs slug reason)"
  by (auto simp: login_def login_oidc_user_def refresh_session_def authenticate_session_def logout_def revoke_session_def
      list_sessions_def ir_list_sessions_def issue_api_credential_def authenticate_api_credential_def
      revoke_api_credential_def record_oidc_login_failure_def Let_def
      intro!: steps_intros fresh_secretD split: option.splits)


section \<open>What a token opens\<close>

lemma session_of_token_run:
  assumes "parse_token y SESSION_PREFIX token = Inr (i, secret)"
  shows "session_of_token y token d =
    (case session_row d i of None \<Rightarrow> (Inl (Identity AuthenticationFailedError), d)
     | Some s \<Rightarrow> if ss_secret_hash s \<noteq> cy_hash_secret y secret then (Inl (Identity AuthenticationFailedError), d)
               else (Inr (s, cy_hash_secret y secret), d))"
  by (simp add: session_of_token_def assms runM run_get_session split: option.splits)

lemma session_of_token_found:
  assumes "session_of_token y token d = (Inr (s, h), d')"
  shows "d' = d \<and> session_row d (ss_id s) = Some s \<and> ss_secret_hash s = h \<and>
    (\<exists>secret. parse_token y SESSION_PREFIX token = Inr (ss_id s, secret) \<and> h = cy_hash_secret y secret)"
proof -
  obtain i secret where parsed: "parse_token y SESSION_PREFIX token = Inr (i, secret)"
    using assms by (cases "parse_token y SESSION_PREFIX token") (auto simp: session_of_token_def runM)
  have "session_row d i = Some s \<Longrightarrow> ss_id s = i"
    by (auto simp: session_row_def dest: first_row_Some)
  with assms parsed show ?thesis
    by (auto simp: session_of_token_run[OF parsed] split: option.splits if_splits)
qed

definition shut_out :: "authentication_service \<Rightarrow> string option \<Rightarrow> identity_db \<Rightarrow> bool" where
  "shut_out at token d \<longleftrightarrow> (\<forall>now so. (\<exists>e. authenticate_session at now token d = (Inl e, d)) \<and>
     (\<exists>e. refresh_session at so token d = (Inl e, d)))"

lemma revoked_or_other_secret:
  assumes "session_row d i = Some s" "parse_token (at_crypto at) SESSION_PREFIX token = Inr (i, secret)"
    "ss_revoked_at s \<noteq> None \<or> ss_secret_hash s \<noteq> cy_hash_secret (at_crypto at) secret"
  shows "shut_out at token d"
  using assms(3) by (auto simp: shut_out_def authenticate_session_def refresh_session_def
      session_of_token_run[OF assms(2)] assms(1) runM)

section \<open>Revocation\<close>

lemma session_row_id: "session_row d i = Some s \<Longrightarrow> ss_id s = i"
  by (auto simp: session_row_def dest: first_row_Some)

lemma revoke_row:
  assumes "ir_revoke_session i t ho d = (Inr (Some r), d')" "session_row d i = Some s"
    "\<And>h. ho = Some h \<Longrightarrow> ss_secret_hash s = h"
  shows "ss_id r = i \<and> (\<exists>s'. session_row d' i = Some s' \<and> ss_revoked_at s' \<noteq> None)"
proof -
  define P where "P s \<longleftrightarrow> ss_id s = i \<and> (case ho of None \<Rightarrow> True | Some h \<Rightarrow> ss_secret_hash s = h) \<and> ss_revoked_at s = None"
    for s :: user_session
  obtain q d1 where u: "update_row sessions_table P (\<lambda>s. s\<lparr>ss_revoked_at := Some t\<rparr>) d = (q, d1)" by fastforce
  have d': "q \<in> range Inr \<and> d' = d1"
    using assms(1) u by (cases ho) (auto simp: ir_revoke_session_def ir_get_session_def select_row_def runM P_def[abs_def]
        split: sum.splits if_splits)
  have "ss_id s = i" using assms(2) by (auto simp: session_row_def dest: first_row_Some)
  moreover have "ss_id r = i"
    using assms(1) by (cases ho) (auto simp: ir_revoke_session_def ir_get_session_def select_row_def runM
        split: sum.splits prod.splits dest!: first_row_Some)
  moreover have "session_row d' i = Some (if P s then s\<lparr>ss_revoked_at := Some t\<rparr> else s)"
    using u d' first_row_update[OF assms(2)[unfolded session_row_def], of P "\<lambda>s. s\<lparr>ss_revoked_at := Some t\<rparr>"]
    by (auto simp: session_row_def update_row_def write_table_def sessions_table_def runM Let_def split: if_splits)
  moreover have "P s" if "ss_revoked_at s = None"
    using that assms(3) calculation(1) by (auto simp: P_def split: option.splits)
  ultimately show ?thesis by (cases "P s") auto
qed


lemma session_principal_reads: "session_principal s d = (r, d') \<Longrightarrow> d' = d"
  by (auto simp: session_principal_def ir_get_organisation_def ir_get_user_def select_row_def raised_def runM
      split: option.splits sum.splits prod.splits)

lemma audited_row:
  assumes "identity_ok d" "identity_audit at e d = (r, d')" "session_row d i = Some s" "ss_revoked_at s \<noteq> None"
  shows "session_row d' i = Some s"
  using session_steps_row[OF by_steps_run[OF audit_steps assms(2,1)] assms(3), of "{}"] assms(4)
  by (auto simp: session_advances_def)

lemma ended_row:
  assumes "identity_ok d" "logout at so rs token d = (Inr r, d') \<or> revoke_session at so context i q d = (Inr r, d')"
  shows "\<exists>s. session_row d' (ss_id r) = Some s \<and> ss_revoked_at s \<noteq> None"
proof -
  have fin: ?thesis
    if "session_row d j = Some s" "ir_revoke_session j t ho d = (Inr (Some r), d1)" "\<And>h. ho = Some h \<Longrightarrow> ss_secret_hash s = h"
      "identity_audit at e d1 = (x, d')" for j s t ho d1 e x
    using revoke_row[OF that(2,1,3)] audited_row[OF keeps_run[OF keeps_writes(5) assms(1) that(2)] that(4)] by blast
  from assms(2) show ?thesis
  proof
    assume "logout at so rs token d = (Inr r, d')"
    then show ?thesis
      by (auto simp: logout_def runM split: sum.splits prod.splits option.splits
          dest!: session_of_token_found session_principal_reads intro: fin[simplified])
  next
    assume "revoke_session at so context i q d = (Inr r, d')"
    then show ?thesis
      by (auto simp: revoke_session_def run_get_session runM Let_def split: sum.splits prod.splits option.splits if_splits
          dest: session_row_id intro: fin[simplified])
  qed
qed

text \<open>
  C10: a session that was logged out or revoked is over for every token that names it, the newest one
  too: whatever transactions of any calls follow, in any order, neither authentication nor a refresh
  with such a token succeeds or writes anything.
\<close>

theorem ended_session_stays_ended:
  assumes "identity_ok d"
    "logout at so rs token d = (Inr s, d') \<or> revoke_session at so context i request_id d = (Inr s, d')"
    "session_steps {} d' d''" "parse_token (at_crypto at) SESSION_PREFIX token' = Inr (ss_id s, secret)"
  shows "shut_out at token' d''"
proof -
  obtain r where "session_row d' (ss_id s) = Some r" "ss_revoked_at r \<noteq> None" using ended_row[OF assms(1,2)] by blast
  with session_steps_row[OF assms(3)] have "session_row d'' (ss_id s) = Some r \<and> ss_revoked_at r \<noteq> None"
    by (fastforce simp: session_advances_def)
  then show ?thesis using revoked_or_other_secret[OF _ assms(4)] by blast
qed

section \<open>Rotation\<close>

lemma refreshed_row:
  assumes "refresh_session at so token d = (Inr issued, d')" "parse_token (at_crypto at) SESSION_PREFIX token = Inr (i, secret)"
  shows "\<exists>s. session_row d' i = Some s \<and> ss_secret_hash s = cy_hash_secret (at_crypto at) (so_secret so)"
proof -
  let ?h = "cy_hash_secret (at_crypto at) secret" and ?n = "cy_hash_secret (at_crypto at) (so_secret so)"
  obtain s t t' u where s: "session_row d i = Some s" "ss_id s = i" "ss_secret_hash s = ?h" "ss_revoked_at s = None"
    and run: "ir_rotate_session i ?h ?n t t' d = (Inr (Some u), d')"
    using assms(1) by (auto simp: refresh_session_def session_of_token_run[OF assms(2)] run_get_session runM
        split: sum.splits prod.splits option.splits if_splits dest!: session_principal_reads)
      (auto simp: session_row_def dest: first_row_Some)
  obtain q d1 where upd: "update_row sessions_table (\<lambda>s. ss_id s = i \<and> ss_secret_hash s = ?h \<and> ss_revoked_at s = None)
      (\<lambda>s. s\<lparr>ss_secret_hash := ?n, ss_expires_at := t, ss_last_seen_at := t'\<rparr>) d = (q, d1)" by fastforce
  have "q \<in> range Inr \<and> d' = d1"
    using run upd by (auto simp: ir_rotate_session_def run_get_session runM split: sum.splits if_splits)
  with upd s first_row_update[OF s(1)[unfolded session_row_def],
      of "\<lambda>s. ss_id s = i \<and> ss_secret_hash s = ?h \<and> ss_revoked_at s = None"
        "\<lambda>s. s\<lparr>ss_secret_hash := ?n, ss_expires_at := t, ss_last_seen_at := t'\<rparr>"]
  show ?thesis
    by (auto simp: session_row_def update_row_def write_table_def sessions_table_def runM Let_def split: if_splits)
qed

text \<open>
  C14: a refresh replaces the secret of the session: the token that was presented to it is good for
  nothing any more, whatever transactions follow, as long as no secret drawn later hashes like the
  old one.
\<close>

theorem refresh_spends_the_old_token:
  assumes "refresh_session at so token d = (Inr issued, d')"
    "parse_token (at_crypto at) SESSION_PREFIX token = Inr (i, secret)"
    "cy_hash_secret (at_crypto at) (so_secret so) \<noteq> cy_hash_secret (at_crypto at) secret"
    "session_steps {cy_hash_secret (at_crypto at) secret} d' d''"
  shows "shut_out at token d''"
proof -
  obtain s where "session_row d' i = Some s" "ss_secret_hash s \<noteq> cy_hash_secret (at_crypto at) secret"
    using refreshed_row[OF assms(1,2)] assms(3) by auto
  with session_steps_row[OF assms(4)] obtain s' where "session_row d'' i = Some s'"
    "ss_secret_hash s' \<noteq> cy_hash_secret (at_crypto at) secret" by (fastforce simp: session_advances_def)
  then show ?thesis using revoked_or_other_secret[OF _ assms(2)] by blast
qed


section \<open>Lifetime\<close>

lemma created_row: "ir_create_session s d = (Inr r, d') \<Longrightarrow> r = s \<and> session_row d' (ss_id s) = Some s"
proof -
  have *: "filter (\<lambda>x. ss_id x = i) rows = []" if "i \<notin> ss_id ` set rows" for i and rows :: "user_session list"
    using that by (induction rows) auto
  assume "ir_create_session s d = (Inr r, d')"
  then show ?thesis
    by (auto simp: ir_create_session_def insert_row_def write_table_def sessions_table_def session_row_def runM Let_def
        sessions_ok_def * split: if_splits sum.splits prod.splits)
qed

lemma opened_row:
  assumes "identity_ok d" "open_session at so rs u g metadata d = (Inr issued, d')"
  shows "\<exists>s. session_row d' (ss_id (is_session issued)) = Some s \<and>
    ss_maximum_expires_at s \<le> so_now so + at_session_lifetime at"
proof -
  have fin: ?thesis
    if "make_user_session t (new_session at so rs v) = Inr s" "ir_create_session s d1 = (Inr q, d2)"
      "identity_ok d1" "identity_audit at e d2 = (Inr (), d')" "is_session issued = q" for t v s q d1 d2 e
  proof -
    have row: "q = s" "session_row d2 (ss_id q) = Some s" using created_row[OF that(2)] by simp_all
    have "session_steps {} d2 d'"
      using by_steps_run[OF audit_steps that(4)] keeps_run[OF keeps_writes(2) that(3,2)] by simp
    with session_steps_row[OF this row(2)] made_session[OF that(1)] that(5) show ?thesis
      by (auto simp: session_advances_def)
  qed
  show ?thesis
    using assms(2) keeps_run[OF keeps_writes(1) assms(1)]
    by (auto simp: open_session_def issue_session_def runM split: sum.splits prod.splits) (metis fin issued_session.select_convs(1))
qed

lemma steps_keep_ok: "by_steps {} m \<Longrightarrow> m d = (x, d') \<Longrightarrow> identity_ok d \<Longrightarrow> identity_ok d'"
  using session_steps_ok by_steps_run by blast

lemma login_row:
  assumes "identity_ok d" "login at so rs slug username password d = (Inr issued, d') \<or>
    login_oidc_user at so rs u g d = (Inr issued, d')"
  shows "\<exists>s. session_row d' (ss_id (is_session issued)) = Some s \<and>
    ss_maximum_expires_at s \<le> so_now so + at_session_lifetime at"
  using assms(2)
proof
  assume "login at so rs slug username password d = (Inr issued, d')"
  then obtain d1 d2 d3 d4 v w p where
    1: "too_many_failures at so (normalize_identity slug) (normalize_identity username) (rs_ip_address rs) d = (Inr (), d1)"
    and 2: "find_login (normalize_identity slug) (normalize_identity username) d1 = (Inr (Some w, Some v, p), d2)"
    and 3: "record_login_attempt so (normalize_identity slug) (normalize_identity username) (rs_ip_address rs) True d2 = (Inr (), d3)"
    and 4: "ir_clear_failed_login_attempts (normalize_identity slug) (normalize_identity username) (rs_ip_address rs) d3 = (Inr (), d4)"
    and opened: "open_session at so rs v w [] d4 = (Inr issued, d')"
    by (auto simp: login_def Let_def login_refused_def runM split: sum.splits prod.splits option.splits if_splits)
  have "identity_ok d4"
    by (rule steps_keep_ok[OF by_steps_writes(7) 4 steps_keep_ok[OF service_part_steps(3) 3
          steps_keep_ok[OF service_part_steps(2) 2 steps_keep_ok[OF service_part_steps(1) 1 assms(1)]]]])
  then show ?thesis using opened by (rule opened_row)
next
  assume "login_oidc_user at so rs u g d = (Inr issued, d')"
  then show ?thesis
    using opened_row[OF assms(1)] by (auto simp: login_oidc_user_def runM split: if_splits option.splits sum.splits prod.splits)
qed

text \<open>
  C13: a login is for a session lifetime at most: whatever refreshes and other transactions follow, the
  session it opened authenticates nobody at or after that time.
\<close>

theorem session_ends_with_its_lifetime:
  assumes "identity_ok d"
    "login at so rs slug username password d = (Inr issued, d') \<or> login_oidc_user at so rs u g d = (Inr issued, d')"
    "session_steps {} d' d''" "authenticate_session at' now token d'' = (Inr context, e)"
    "au_session_id context = Some (ss_id (is_session issued))"
  shows "now < so_now so + at_session_lifetime at"
proof -
  obtain s where s: "session_row d' (ss_id (is_session issued)) = Some s"
    "ss_maximum_expires_at s \<le> so_now so + at_session_lifetime at" using login_row[OF assms(1,2)] by blast
  obtain s' where s': "session_row d'' (ss_id (is_session issued)) = Some s'" "session_advances {} s s'"
    using session_steps_row[OF assms(3) s(1)] by blast
  have "identity_ok d''"
    using session_steps_ok[OF assms(3)] assms(1,2) session_steps_ok calls_are_steps(1,2)[of at so "{}"] by_steps_run
    by (metis empty_iff fresh_secret_def)
  then have "ss_expires_at s' \<le> ss_maximum_expires_at s'"
    using s'(1) by (auto simp: identity_ok_def sessions_ok_def list_all_iff session_row_def dest!: first_row_Some)
  moreover have "now < ss_expires_at s'"
    using assms(4,5) s'(1) by (auto simp: authenticate_session_def runM split: sum.splits prod.splits if_splits
        dest!: session_of_token_found session_principal_reads)
  ultimately show ?thesis using s(2) s'(2) by (simp add: session_advances_def)
qed

section \<open>Guessing passwords\<close>


section \<open>Revoked credentials\<close>

lemma update_credential_row:
  assumes "first_row (filter (\<lambda>c. ap_id c = i) (id_credentials d)) = Some x" "ap_id c = i"
    "ap_organisation_id c = ap_organisation_id x" "ir_update_api_credential c d = (Inr r, d')"
  shows "first_row (filter (\<lambda>c. ap_id c = i) (id_credentials d')) = Some (stored_credential c)"
proof -
  have "(stored_credential c)\<lparr>ap_id := ap_id x, ap_organisation_id := ap_organisation_id x\<rparr> = stored_credential c"
    using assms(1-3) by (auto dest!: first_row_Some simp: stored_credential_def)
  with assms first_row_update[OF assms(1), of "\<lambda>x. ap_organisation_id x = ap_organisation_id c \<and> ap_id x = ap_id c"
      "\<lambda>x. (stored_credential c)\<lparr>ap_id := ap_id x, ap_organisation_id := ap_organisation_id x\<rparr>"] first_row_Some[OF assms(1)]
  show ?thesis
    by (auto simp: ir_update_api_credential_def update_row_def write_table_def credentials_table_def require_updated_def
        runM Let_def split: if_splits sum.splits prod.splits)
qed

text \<open>
  C15: using a credential writes its whole row back. When the row was read before a revocation and is
  written after it, the credential is live again: nothing of the revocation is left in the database.
\<close>

theorem revoked_credential_comes_back:
  assumes "ir_get_api_credential_by_id i d = (Inr (Some c), d)" "ap_revoked_at c = None"
    "revoke_api_credential at so c actor request_id d = (Inr revoked, d')"
    "credential_used so' c a d' = (Inr context, d'')"
  shows "\<exists>c'. ir_get_api_credential_by_id i d'' = (Inr (Some c'), d'') \<and> ap_revoked_at c' = None"
proof -
  have row: "first_row (filter (\<lambda>c. ap_id c = i) (id_credentials d)) = Some c" and id: "ap_id c = i"
    using assms(1) by (auto simp: ir_get_api_credential_by_id_def select_row_def credentials_table_def runM dest: first_row_Some)
  have audit: "identity_audit at e d1 = (r, d2) \<Longrightarrow> id_credentials d2 = id_credentials d1" for e r d1 d2
    by (auto simp: identity_audit_def ir_create_audit_event_def insert_row_def write_table_def audit_table_def runM
        require_limit_def Let_def split: if_splits sum.splits prod.splits)
  have account: "ir_update_service_account b d1 = (r, d2) \<Longrightarrow> id_credentials d2 = id_credentials d1" for b r d1 d2
    by (auto simp: ir_update_service_account_def write_service_account_def update_row_def write_table_def accounts_table_def
        require_updated_def runM Let_def split: if_splits sum.splits prod.splits)
  obtain d1 r where "ir_update_api_credential (c\<lparr>ap_revoked_at := Some (so_now so)\<rparr>) d = (Inr r, d1)"
    "id_credentials d' = id_credentials d1"
    using assms(2,3) by (auto simp: revoke_api_credential_def runM dest!: audit split: if_splits sum.splits prod.splits)
  with update_credential_row[OF row, of "c\<lparr>ap_revoked_at := Some (so_now so)\<rparr>"] id
  obtain x where x: "first_row (filter (\<lambda>c. ap_id c = i) (id_credentials d')) = Some x"
    "ap_organisation_id x = ap_organisation_id c" by (auto simp: stored_credential_def)
  obtain d2 q where "ir_update_api_credential (c\<lparr>ap_last_used_at := Some (so_now so')\<rparr>) d' = (Inr q, d2)"
    "id_credentials d'' = id_credentials d2"
    using assms(4) by (auto simp: credential_used_def runM dest!: account split: sum.splits prod.splits)
  with update_credential_row[OF x(1), of "c\<lparr>ap_last_used_at := Some (so_now so')\<rparr>"] id x(2) assms(2)
  show ?thesis
    by (auto simp: ir_get_api_credential_by_id_def select_row_def credentials_table_def runM stored_credential_def)
qed

section \<open>Tokens\<close>

lemma partition_at_append: "c \<notin> set xs \<Longrightarrow> partition_at c (xs @ c # ys) = (xs, True, ys)"
  by (induction xs) auto

text \<open>
  C40: the token that is handed out is read back as the identifier and the secret it was made of,
  when the hexadecimal text of an identifier names it and has no separator, and the secret is long
  enough and has no white space at its end; a separator inside the secret does no harm.
\<close>

theorem token_round_trip:
  assumes "cy_uuid_of_hex y (cy_hex_of_uuid y i) = Some i" "cy_hex_of_uuid y i \<noteq> []" "CHR ''_'' \<notin> set (cy_hex_of_uuid y i)"
    "32 \<le> length secret" "\<not> py_space (last secret)" "prefix \<in> {SESSION_PREFIX, CREDENTIAL_PREFIX}"
  shows "parse_token y prefix (Some (format_token y prefix i secret)) = Inr (i, secret)"
proof -
  have secret: "secret \<noteq> []" using assms(4) by auto
  have prefix: "prefix \<noteq> [] \<and> \<not> py_space (hd prefix) \<and> CHR ''_'' \<notin> set prefix"
    using assms(6) by (auto simp: SESSION_PREFIX_def CREDENTIAL_PREFIX_def py_space_def Let_def)
  have strip: "py_strip (format_token y prefix i secret) = format_token y prefix i secret"
    unfolding py_strip_def by (rule strip_with_fixed) (use prefix assms(5) secret in \<open>simp add: format_token_def\<close>)
  have cut: "partition_at CHR ''_'' (format_token y prefix i secret) = (prefix, True, cy_hex_of_uuid y i @ CHR ''_'' # secret)"
    using partition_at_append[of "CHR ''_''" prefix] prefix by (simp add: format_token_def)
  have "format_token y prefix i secret \<noteq> []" using prefix by (simp add: format_token_def)
  then show ?thesis
    using assms secret by (simp add: parse_token_def strip cut partition_at_append[OF assms(3)])
qed

section \<open>The properties at work\<close>

text \<open>The session of \<open>example_login\<close> is logged out; then its user logs in again, with another secret.\<close>

theorem ended_session_stays_ended_witness:
  "shut_out example_service example_token
     (snd (login example_service (example_sources ''3'' CHR ''y'' 8) example_request ''g'' ''ann''
       ''correct horse battery staple, it is''
       (snd (logout example_service (example_sources ''2'' CHR ''z'' 7) example_request example_token (snd example_login)))))"
proof -
  let ?logout = "logout example_service (example_sources ''2'' CHR ''z'' 7) example_request example_token (snd example_login)"
  obtain r d' where run: "?logout = (r, d')" by fastforce
  have "map_sum id ss_id (fst ?logout) = Inr ''s1''" by code_simp
  then obtain s where s: "r = Inr s" "ss_id s = ''s1''" by (cases r) (auto simp: run)
  have ok: "identity_ok (snd example_login)" by code_simp
  have token: "parse_token (at_crypto example_service) SESSION_PREFIX example_token = Inr (''s1'', replicate 32 CHR ''x'')"
    by code_simp
  have "identity_ok d'" using session_steps_ok[OF by_steps_run[OF calls_are_steps(5) run ok] ok] .
  then have "session_steps {} d' (snd (login example_service (example_sources ''3'' CHR ''y'' 8) example_request ''g'' ''ann''
       ''correct horse battery staple, it is'' d'))"
    using calls_are_steps(1)[of example_service _ "{}"] by (simp add: by_steps_def fresh_secret_def)
  from ended_session_stays_ended[OF ok _ this, of example_service "example_sources ''2'' CHR ''z'' 7" example_request
      example_token s] run s token
  show ?thesis by simp
qed

theorem refresh_spends_the_old_token_witness:
  "shut_out example_service example_token
     (snd (refresh_session example_service (example_sources ''2'' CHR ''z'' 7) example_token (snd example_login)))"
proof -
  let ?run = "refresh_session example_service (example_sources ''2'' CHR ''z'' 7) example_token (snd example_login)"
  obtain r d' where run: "?run = (r, d')" by fastforce
  have "map_sum id (\<lambda>i. ss_id (is_session i)) (fst ?run) = Inr ''s1''" by code_simp
  then obtain issued where s: "r = Inr issued" by (cases r) (auto simp: run)
  have token: "parse_token (at_crypto example_service) SESSION_PREFIX example_token = Inr (''s1'', replicate 32 CHR ''x'')"
    by code_simp
  have "cy_hash_secret (at_crypto example_service) (so_secret (example_sources ''2'' CHR ''z'' 7)) \<noteq>
    cy_hash_secret (at_crypto example_service) (replicate 32 CHR ''x'')" by code_simp
  from refresh_spends_the_old_token[OF run[unfolded s] token this session_steps_refl] show ?thesis by (simp add: run)
qed

theorem session_ends_with_its_lifetime_witness:
  "\<exists>context. fst (authenticate_session example_service 12 example_token (snd example_login)) = Inr context \<and>
     (12 :: int) < 5 + at_session_lifetime example_service"
proof -
  let ?run = "authenticate_session example_service 12 example_token (snd example_login)"
  obtain r d' where run: "?run = (r, d')" by fastforce
  have "map_sum id au_session_id (fst ?run) = Inr (Some ''s1'')" by code_simp
  then obtain k where s: "r = Inr k" "au_session_id k = Some ''s1''" by (cases r) (auto simp: run)
  obtain q d where opened: "example_login = (q, d)" by fastforce
  have "map_sum id (\<lambda>i. ss_id (is_session i)) (fst example_login) = Inr ''s1''" by code_simp
  then obtain issued where i: "q = Inr issued" "ss_id (is_session issued) = ''s1''" by (cases q) (auto simp: opened)
  have "12 < so_now (example_sources ''1'' CHR ''x'' 5) + at_session_lifetime example_service"
    by (rule session_ends_with_its_lifetime[OF example_users_ok _ session_steps_refl, of example_service
          "example_sources ''1'' CHR ''x'' 5" example_request "''G''" "'' Ann ''" "''correct horse battery staple, it is''"
          issued d])
      (use opened i run s in \<open>simp_all add: example_login_def\<close>)
  then show ?thesis using run s by (simp add: example_sources_def)
qed


definition example_credential :: api_credential where
  "example_credential = new_credential example_crypto (example_sources ''1'' CHR ''x'' 5) example_account ''k'' None [] None"

text \<open>The use of the credential reads it before the revocation and writes it after it.\<close>

theorem revoked_credential_comes_back_witness:
  "\<exists>c d. ir_get_api_credential_by_id ''c1'' d = (Inr (Some c), d) \<and> ap_revoked_at c = None \<and>
     d = snd (credential_used (example_sources ''3'' CHR ''x'' 8) example_credential example_account
       (snd (revoke_api_credential example_service (example_sources ''2'' CHR ''x'' 7) example_credential
         (account_principal example_account) None (example_users\<lparr>id_credentials := [example_credential]\<rparr>))))"
proof -
  let ?d = "example_users\<lparr>id_credentials := [example_credential]\<rparr>"
  let ?revoke = "revoke_api_credential example_service (example_sources ''2'' CHR ''x'' 7) example_credential
    (account_principal example_account) None ?d"
  obtain r d1 where run: "?revoke = (r, d1)" by fastforce
  obtain q d2 where used: "credential_used (example_sources ''3'' CHR ''x'' 8) example_credential example_account d1 = (q, d2)"
    by fastforce
  have "map_sum id ap_revoked_at (fst ?revoke) = Inr (Some 7)" by code_simp
  then obtain c where c: "r = Inr c" by (cases r) (auto simp: run)
  have "map_sum id au_credential_id (fst (credential_used (example_sources ''3'' CHR ''x'' 8) example_credential
      example_account (snd ?revoke))) = Inr (Some ''c1'')" by code_simp
  then obtain k where k: "q = Inr k" by (cases q) (auto simp: run used)
  have "ir_get_api_credential_by_id ''c1'' ?d = (Inr (Some example_credential), ?d)" "ap_revoked_at example_credential = None"
    by (simp_all add: ir_get_api_credential_by_id_def select_row_def credentials_table_def runM example_credential_def
        new_credential_def example_sources_def)
  from revoked_credential_comes_back[OF this run[unfolded c] used[unfolded k]] show ?thesis by (simp add: run used)
qed

theorem token_round_trip_witness:
  "parse_token example_crypto ''lps'' (Some (format_token example_crypto ''lps'' ''s1'' (replicate 31 CHR ''_'' @ ''x''))) =
     Inr (''s1'', replicate 31 CHR ''_'' @ ''x'')"
  using token_round_trip[of example_crypto "''s1''" "replicate 31 CHR ''_'' @ ''x''" SESSION_PREFIX]
  by (simp add: example_crypto_def SESSION_PREFIX_def py_space_def Let_def)

end
