(* ===== verification/Spec2Isabelle.thy ===== *)
theory Spec2Isabelle
  imports AgentProperties CommandJournal EventDelivery ResourceProperties MessageSequence
    PresenceProperties AccessProperties SessionProperties
begin

text \<open>
  A verification library for \<open>lab-platform\<close>: a platform that shares hardware test benches between
  people and CI jobs. A \<^emph>\<open>control plane\<close> keeps agents, benches, reservations and commands; an
  \<^emph>\<open>agent\<close> next to the hardware runs commands under reservation leases, keeps a local database, and
  reports events back. The library models the stateful core of both sides as shallow embeddings of
  the Python methods and proves the properties their callers rely on.

  \<^bold>\<open>How code is modelled.\<close> A method over a mutable store is a computation in the monad \<open>io\<close> of
  \<open>Prelude\<close>: from the store to an exception or a value and the store it leaves (an exception keeps the
  writes made before it; \<open>transactionM\<close>, the context manager of \<open>persistence/database.py\<close>, rolls them
  back). \<open>wp\<close> computes weakest preconditions by rewriting and \<open>keeps\<close> carries invariants. A pydantic
  model is a record with the validators its constructor runs (\<open>make_...\<close>); a dictionary is the list
  of its items; a SQL table is the list of its rows with its constraints as predicates; exception
  classes are the constructors of \<open>error\<close>. Instants are whole microseconds in UTC. The clock, random
  identifiers, SHA-256 and the dump of a lease are arguments. Text is Latin-1; the keys of JSON
  objects are taken stripped and without duplicates; a row written by a method is read back as it
  was written.

  \<^bold>\<open>Reservations on an agent.\<close>
  \<^item> \<open>ReservationModels\<close>, \<open>Timestamps\<close>: \<open>models/domain.py\<close>, \<open>models/reservations.py\<close> and the text form of
    timestamps, whose order is the order of time.
  \<^item> \<open>Store\<close>: the tables of \<open>persistence/migrations.py\<close> with their unique indexes and triggers, and the
    invariant \<open>db_ok\<close> that every transaction preserves.
  \<^item> \<open>ReservationRepository\<close>, \<open>QueueRepository\<close>, \<open>LockRepository\<close>: the SQLite repositories of
    \<open>persistence/reservations.py\<close>, one lemma per branch and one per invariant.
  \<^item> \<open>World\<close>, \<open>ReservationService\<close>, \<open>Scheduling\<close>, \<open>OperationLocks\<close>, \<open>Recovery\<close>: the services of
    \<open>core/reservations.py\<close>, \<open>core/scheduling.py\<close>, \<open>core/queueing.py\<close>, \<open>core/operation_locks.py\<close> and
    \<open>core/recovery.py\<close> over a world of database, clock and identifiers.
  \<^item> \<open>Interleaving\<close>: transactions of several tasks in any order as a step relation, with invariants of
    the reachable stores; \<open>AgentProperties\<close>: the properties of the services.

  \<^bold>\<open>The agent's link to the control plane.\<close>
  \<^item> \<open>Json\<close>, \<open>RemoteCommands\<close>: JSON text and bounds, and the models of \<open>models/distributed.py\<close>.
  \<^item> \<open>Leases\<close>: the in-memory and the SQLite lease store (\<open>agent_runtime/leases.py\<close>,
    \<open>agent_runtime/sqlite_state.py\<close>); the second refines the first, and a released version is fenced.
  \<^item> \<open>CommandJournal\<close>: the journal that makes command execution idempotent across restarts
    (\<open>agent_runtime/command_journal.py\<close>).
  \<^item> \<open>EventBuffer\<close>, \<open>DurableEvents\<close>, \<open>EventProperties\<close>: the bounded event buffers of
    \<open>agent_runtime/event_buffer.py\<close> and \<open>sqlite_state.py\<close>, their refinement, and the locale
    \<open>event_store\<close> of the laws both satisfy.
  \<^item> \<open>MessageSequence\<close>, \<open>EventDelivery\<close>: the check of the ordered message stream
    (\<open>agent_protocol/sequence.py\<close>), and the delivery of buffered events with one batch in flight
    (\<open>agent_runtime/connection_manager.py\<close>).

  \<^bold>\<open>Hardware.\<close>
  \<^item> \<open>Hardware\<close>: \<open>models/hardware.py\<close> and the resource catalogue of \<open>core/resources.py\<close>, with the
    referential invariant \<open>catalog_ok\<close>.
  \<^item> \<open>ResourceLocks\<close>, \<open>ResourceProperties\<close>: the lock manager with its fencing tokens, refined to a map
    from keys to holders, and any sequence of catalogue and lock calls.

  \<^bold>\<open>The control plane.\<close>
  \<^item> \<open>AgentModels\<close>, \<open>FleetStore\<close>: \<open>models/agents.py\<close>, the connection and bench records of
    \<open>models/distributed.py\<close>, and the tables of agents, enrollment tokens, credentials and connections
    with their constraints.
  \<^item> \<open>AgentPresence\<close>: which agent is connected (\<open>control_plane_core/presence.py\<close>), over the in-memory
    repository and the SQLite one of \<open>persistence/distributed_adapters.py\<close>.
  \<^item> \<open>PresenceRepository\<close>, \<open>PresenceDatabase\<close>: the contract of such a repository as the locale
    \<open>presence_store\<close>, and its interpretation for both; \<open>PresenceService\<close>: the service proved once against
    the contract, as steps of a relation on agents and connections; \<open>PresenceProperties\<close>: fencing of
    replaced connections, draining, revocation and the validity of what is written.

  \<^bold>\<open>Identity and access.\<close>
  \<^item> \<open>IdentityModels\<close>, \<open>IdentityStore\<close>, \<open>IdentityRepository\<close>: \<open>models/identity.py\<close>, the identity tables with
    their constraints, which are the invariant \<open>identity_ok\<close> of every statement, and the SQLite repository of
    \<open>persistence/identity.py\<close> that the services call.
  \<^item> \<open>Authorisation\<close>: \<open>core/authorisation.py\<close> over any repositories. \<open>AccessRules\<close> states the permission rules
    declaratively and the contract of the repositories as the locale \<open>access_store\<close>, inside which the code is
    proved to follow the rules and its request cache to be sound; \<open>AccessProperties\<close> interprets it for SQLite.
  \<^item> \<open>Authentication\<close>: logins, sessions, tokens and API credentials (\<open>core/identity.py\<close>). \<open>SessionSteps\<close>: the
    transactions of all calls as a step relation on sessions, and what a step does to a session; \<open>LoginLimit\<close>:
    the limit on failed logins; \<open>SessionProperties\<close>: revocation, rotation, lifetime and the token format. SHA-256,
    scrypt, UUID text, IP networks and the redaction of audit texts by regular expressions are arguments,
    and the clock stands still during one call.

  \<^bold>\<open>Bounds and termination.\<close> Loops over lists are \<open>foldM\<close> and recursion on the list. The two search
  loops of \<open>EventDelivery\<close> are \<open>partial_function (option)\<close>, and are proved to return. Nothing uses fuel.

  \<^bold>\<open>Not modelled.\<close> asyncio, websockets and HTTP, because they carry messages and keep no state of the
  core; device back ends and plugins, because they are I/O with hardware; the command line and
  the dashboard, because they present what the services return; schema migration and file handling
  of databases, except for the constraints the modelled tables rely on.
\<close>

end
